(* ===== verification/Prelude.thy ===== *)
theory Prelude
  imports Main "HOL-Library.List_Lexorder" "HOL-Library.Char_ord" "HOL-Library.Product_Lexorder"
    "HOL-Library.Multiset"
begin

text \<open>
  The shared library of the development: results of fallible code, the generic operations on
  database tables (lists of rows with a key), the \<^theory_text>\<open>locale\<close> for a store of keyed rows, the
  \<^theory_text>\<open>locale\<close> for a transition system with an invariant, and the list lemmas the components share.

  Identifiers the program treats as opaque (UUIDs, slugs, hashes, tokens, error codes) are
  \<open>string\<close>s, ordered lexicographically as PostgreSQL orders them; instants are milliseconds
  as \<open>int\<close>, the value of \<open>Date.getTime()\<close>.
\<close>

named_theorems result_simps \<open>inversion of a successful or failed result\<close>
named_theorems table_simps \<open>lookups after the updates of a table\<close>

type_synonym uuid = string
type_synonym millis = int

section \<open>Results of fallible code\<close>

text \<open>
  Everything a handler can throw: an \<open>ApiError\<close> (HTTP status, code and optional
  \<open>Retry-After\<close> seconds), a plain \<open>Error\<close> with its message, a schema rejection of zod,
  and an error of the database (a constraint, a trigger, a missing row). The human-readable
  message of an \<open>ApiError\<close> is left out: no code reads it.
\<close>

datatype error =
    ApiError nat string "int option"
  | PlainError string
  | ZodError
  | DbError string

type_synonym 'a result = "error + 'a"

fun bind_result :: "'e + 'a \<Rightarrow> ('a \<Rightarrow> 'e + 'b) \<Rightarrow> 'e + 'b" where
  "bind_result (Inl e) f = Inl e"
| "bind_result (Inr x) f = f x"

fun map_result :: "('a \<Rightarrow> 'b) \<Rightarrow> 'e + 'a \<Rightarrow> 'e + 'b" where
  "map_result f (Inl e) = Inl e"
| "map_result f (Inr x) = Inr (f x)"

lemma bind_result_Inr [result_simps]:
  "bind_result m f = Inr y \<longleftrightarrow> (\<exists>x. m = Inr x \<and> f x = Inr y)"
  by (cases m) auto

lemma bind_result_Inl [result_simps]:
  "bind_result m f = Inl e \<longleftrightarrow> m = Inl e \<or> (\<exists>x. m = Inr x \<and> f x = Inl e)"
  by (cases m) auto

lemma map_result_Inr [result_simps]: "map_result f m = Inr y \<longleftrightarrow> (\<exists>x. m = Inr x \<and> y = f x)"
  by (cases m) auto

lemma map_result_Inl [result_simps]: "map_result f m = Inl e \<longleftrightarrow> m = Inl e"
  by (cases m) auto

lemma bind_result_assoc: "bind_result (bind_result m f) g = bind_result m (\<lambda>x. bind_result (f x) g)"
  by (cases m) auto

text \<open>A loop whose body may throw: the state is threaded, the first error ends it.\<close>

fun fold_result :: "('a \<Rightarrow> 's \<Rightarrow> 'e + 's) \<Rightarrow> 'a list \<Rightarrow> 's \<Rightarrow> 'e + 's" where
  "fold_result f [] s = Inr s"
| "fold_result f (x # xs) s = bind_result (f x s) (fold_result f xs)"

lemma fold_result_invariant:
  assumes "fold_result f xs s = Inr t" and "P s"
    and "\<And>x s t. x \<in> set xs \<Longrightarrow> P s \<Longrightarrow> f x s = Inr t \<Longrightarrow> P t"
  shows "P t"
  using assms
proof (induction xs arbitrary: s)
  case Nil
  then show ?case by simp
next
  case (Cons x xs)
  then obtain u where "f x s = Inr u" and u: "fold_result f xs u = Inr t"
    by (auto simp: result_simps)
  with Cons.prems(2) have "P u" by (intro Cons.prems(3) [of x s u]) auto
  with u Cons.prems(3) show ?case by (intro Cons.IH [OF u]) auto
qed

lemma fold_result_progress:
  assumes "P s" and "\<And>x s. x \<in> set xs \<Longrightarrow> P s \<Longrightarrow> \<exists>t. f x s = Inr t \<and> P t"
  shows "\<exists>t. fold_result f xs s = Inr t \<and> P t"
  using assms
proof (induction xs arbitrary: s)
  case Nil
  then show ?case by simp
next
  case (Cons x xs)
  then obtain u where "f x s = Inr u" and "P u" by force
  with Cons.IH [of u] Cons.prems(2) show ?case by (auto simp: result_simps)
qed

text \<open>A condition on an optional value, if there is one.\<close>

definition opt_all :: "('a \<Rightarrow> bool) \<Rightarrow> 'a option \<Rightarrow> bool" where
  "opt_all P x = (case x of None \<Rightarrow> True | Some v \<Rightarrow> P v)"

lemma opt_all_simps [simp]: "opt_all P None" "opt_all P (Some v) = P v"
  by (simp_all add: opt_all_def)

section \<open>Tables: lists of rows with a key\<close>

text \<open>
  A database table is the list of its rows. \<open>find_by\<close> is \<open>findUnique\<close>/\<open>findFirst\<close> by
  key, \<open>update_by\<close> is an \<open>UPDATE\<close> of the row with that key, \<open>insert_by\<close> is an
  \<open>INSERT\<close> under a unique constraint on the key (Prisma's \<open>P2002\<close>).
\<close>

definition find_by :: "('r \<Rightarrow> 'k) \<Rightarrow> 'k \<Rightarrow> 'r list \<Rightarrow> 'r option" where
  "find_by key k rows = find (\<lambda>r. key r = k) rows"

definition update_by :: "('r \<Rightarrow> 'k) \<Rightarrow> 'k \<Rightarrow> ('r \<Rightarrow> 'r) \<Rightarrow> 'r list \<Rightarrow> 'r list" where
  "update_by key k f rows = map (\<lambda>r. if key r = k then f r else r) rows"

definition insert_by :: "('r \<Rightarrow> 'k) \<Rightarrow> 'r \<Rightarrow> 'r list \<Rightarrow> 'r list result" where
  "insert_by key r rows =
     (if key r \<in> key ` set rows then Inl (DbError ''P2002'') else Inr (rows @ [r]))"

lemma find_by_simps [table_simps]:
  "find_by key k [] = None"
  "find_by key k (r # rs) = (if key r = k then Some r else find_by key k rs)"
  by (simp_all add: find_by_def)

lemma find_by_Some: "find_by key k rows = Some r \<Longrightarrow> r \<in> set rows \<and> key r = k"
  by (induction rows) (auto simp: table_simps split: if_splits)

lemma find_by_None: "find_by key k rows = None \<longleftrightarrow> k \<notin> key ` set rows"
  by (induction rows) (auto simp: table_simps)

lemma find_by_distinct:
  "distinct (map key rows) \<Longrightarrow> r \<in> set rows \<Longrightarrow> find_by key (key r) rows = Some r"
  by (induction rows) (force simp: table_simps)+

lemma find_by_append:
  "find_by key k (xs @ ys) = (case find_by key k xs of None \<Rightarrow> find_by key k ys | Some r \<Rightarrow> Some r)"
  by (induction xs) (auto simp: table_simps)

lemma find_by_update_same [table_simps]:
  "(\<And>r. key (f r) = key r) \<Longrightarrow>
     find_by key k (update_by key k f rows) = map_option f (find_by key k rows)"
  by (induction rows) (auto simp: table_simps update_by_def)

lemma find_by_update_other [table_simps]:
  "k \<noteq> k' \<Longrightarrow> (\<And>r. key (f r) = key r) \<Longrightarrow> find_by key k' (update_by key k f rows) = find_by key k' rows"
  by (induction rows) (auto simp: table_simps update_by_def)

lemma keys_update_by [table_simps]:
  "(\<And>r. key (f r) = key r) \<Longrightarrow> map key (update_by key k f rows) = map key rows"
  by (induction rows) (auto simp: update_by_def)

lemma set_update_by:
  "r' \<in> set (update_by key k f rows) \<longleftrightarrow>
     (\<exists>r \<in> set rows. r' = (if key r = k then f r else r))"
  unfolding update_by_def set_map image_iff ..

lemma insert_by_Inr [result_simps]:
  "insert_by key r rows = Inr rows' \<longleftrightarrow> key r \<notin> key ` set rows \<and> rows' = rows @ [r]"
  by (auto simp: insert_by_def)

subsection \<open>The interface of a store of keyed rows\<close>

text \<open>
  What the components rely on of a table inside the database: a lookup, an update of one row
  that keeps the key, and the two laws that relate them. The lemmas that follow serve every loop
  over the rows of a batch.
\<close>

locale row_store =
  fixes lookup :: "'s \<Rightarrow> 'k \<Rightarrow> 'r option"
    and store :: "'k \<Rightarrow> ('r \<Rightarrow> 'r) \<Rightarrow> 's \<Rightarrow> 's"
    and good :: "('r \<Rightarrow> 'r) \<Rightarrow> bool"
  assumes lookup_store_same: "good f \<Longrightarrow> lookup (store k f s) k = map_option f (lookup s k)"
    and lookup_store_other: "good f \<Longrightarrow> k \<noteq> k' \<Longrightarrow> lookup (store k f s) k' = lookup s k'"
begin

lemma lookup_store:
  "good f \<Longrightarrow> lookup (store k f s) k' = (if k = k' then map_option f (lookup s k) else lookup s k')"
  by (simp add: lookup_store_same lookup_store_other)

lemma lookup_fold_store:
  assumes "\<And>k. good (f k)" and "distinct ks"
  shows "lookup (fold (\<lambda>k. store k (f k)) ks s) k =
           (if k \<in> set ks then map_option (f k) (lookup s k) else lookup s k)"
  using assms(2)
  by (induction ks arbitrary: s) (auto simp: lookup_store assms(1))

lemma all_rows_store:
  assumes "good f" and "\<And>k r. lookup s k = Some r \<Longrightarrow> P r"
    and "\<And>r. lookup s k = Some r \<Longrightarrow> P (f r)"
    and "lookup (store k f s) k' = Some r'"
  shows "P r'"
  using assms by (auto simp: lookup_store split: if_splits)

end

section \<open>Transition systems with an invariant\<close>

inductive reach :: "('s \<Rightarrow> bool) \<Rightarrow> ('s \<Rightarrow> 's \<Rightarrow> bool) \<Rightarrow> 's \<Rightarrow> bool"
  for init :: "'s \<Rightarrow> bool" and step :: "'s \<Rightarrow> 's \<Rightarrow> bool" where
  reach_init: "init s \<Longrightarrow> reach init step s"
| reach_step: "reach init step s \<Longrightarrow> step s t \<Longrightarrow> reach init step t"

locale invariant_system =
  fixes init :: "'s \<Rightarrow> bool"
    and step :: "'s \<Rightarrow> 's \<Rightarrow> bool"
    and inv :: "'s \<Rightarrow> bool"
  assumes inv_init: "init s \<Longrightarrow> inv s"
    and inv_step: "inv s \<Longrightarrow> step s t \<Longrightarrow> inv t"
begin

lemma reach_inv: "reach init step s \<Longrightarrow> inv s"
  by (induction rule: reach.induct) (auto intro: inv_init inv_step)

lemma steps_inv: "step\<^sup>*\<^sup>* s t \<Longrightarrow> inv s \<Longrightarrow> inv t"
  by (induction rule: rtranclp_induct) (auto intro: inv_step)

text \<open>A relation that every step from a state with the invariant respects holds of whole runs.\<close>

lemma steps_relation:
  assumes "step\<^sup>*\<^sup>* s t" and "inv s"
    and "\<And>s. R s s" and "\<And>s t u. R s t \<Longrightarrow> R t u \<Longrightarrow> R s u"
    and "\<And>s t. inv s \<Longrightarrow> step s t \<Longrightarrow> R s t"
  shows "R s t"
  using assms(1)
proof (induction rule: rtranclp_induct)
  case base
  show ?case by (rule assms(3))
next
  case (step t u)
  from step.hyps(1) assms(2) have "inv t" by (rule steps_inv)
  with step.hyps(2) assms(5) have "R t u" by blast
  with step.IH show ?case by (rule assms(4))
qed

end

section \<open>Lists\<close>

lemma filter_take_subset: "set (take n (filter P xs)) \<subseteq> set xs"
  by (meson filter_is_subset order_trans set_take_subset)

lemma sum_list_filter_le:
  fixes f :: "'a \<Rightarrow> nat"
  shows "sum_list (map f (filter P xs)) \<le> sum_list (map f xs)"
  by (induction xs) auto

lemma sum_list_filter_le_int:
  fixes f :: "'a \<Rightarrow> int"
  shows "\<forall>x \<in> set xs. 0 \<le> f x \<Longrightarrow> sum_list (map f (filter P xs)) \<le> sum_list (map f xs)"
  by (induction xs) auto

lemma filter_swap: "filter P (filter Q xs) = filter Q (filter P xs)"
  by (induction xs) auto

lemma filter_filter_weaker: "(\<And>x. Q x \<Longrightarrow> P x) \<Longrightarrow> filter Q (filter P xs) = filter Q xs"
  by (induction xs) auto

lemma distinct_map_sort_key [simp]: "distinct (map f (sort_key k xs)) \<longleftrightarrow> distinct (map f xs)"
  by (rule mset_eq_imp_distinct_iff) simp

lemma length_filter_map_le: "length (filter P (map f xs)) \<le> length xs"
  by (metis length_filter_le length_map)

lemma distinct_map_filterI: "distinct (map f xs) \<Longrightarrow> distinct (map f (filter P xs))"
  by (rule distinct_map_filter)

end
