(* ===== verification/JsString.thy ===== *)
theory JsString
  imports Prelude "HOL-Library.Word"
begin

text \<open>
  JavaScript strings and JSON, as far as the program measures and filters them. A string is the
  list of its UTF-16 code units (\<open>16 word\<close>); iterating it (\<open>for (const point of text)\<close>) yields
  code points, a surrogate pair being one of two units; \<open>Buffer.byteLength\<close> and
  \<open>new TextEncoder().encode(..).byteLength\<close> count the UTF-8 bytes, a lone surrogate being replaced
  by the three bytes of U+FFFD. \<open>json_bytes\<close> is the UTF-8 size of \<open>JSON.stringify\<close>.
\<close>

type_synonym code_unit = "16 word"
type_synonym jsstr = "code_unit list"

text \<open>The code units of an ASCII literal.\<close>

definition js :: "string \<Rightarrow> jsstr" where
  "js s = map of_char s"

section \<open>Code points and UTF-8 sizes\<close>

definition high_surrogate :: "code_unit \<Rightarrow> bool" where
  "high_surrogate u \<longleftrightarrow> 0xD800 \<le> u \<and> u \<le> 0xDBFF"

definition low_surrogate :: "code_unit \<Rightarrow> bool" where
  "low_surrogate u \<longleftrightarrow> 0xDC00 \<le> u \<and> u \<le> 0xDFFF"

fun code_points :: "jsstr \<Rightarrow> jsstr list" where
  "code_points [] = []"
| "code_points [u] = [[u]]"
| "code_points (u # v # s) =
     (if high_surrogate u \<and> low_surrogate v then [u, v] # code_points s
      else [u] # code_points (v # s))"

definition unit_bytes :: "code_unit \<Rightarrow> nat" where
  "unit_bytes u = (if u < 0x80 then 1 else if u < 0x800 then 2 else 3)"

definition point_bytes :: "jsstr \<Rightarrow> nat" where
  "point_bytes p = (case p of [u] \<Rightarrow> unit_bytes u | _ \<Rightarrow> 4)"

definition byteLength :: "jsstr \<Rightarrow> nat" where
  "byteLength s = sum_list (map point_bytes (code_points s))"

lemma unit_bytes_bounds [simp]: "Suc 0 \<le> unit_bytes u" "unit_bytes u \<le> 3" "0 < unit_bytes u"
  by (simp_all add: unit_bytes_def)

lemma surrogate_bytes: "high_surrogate u \<or> low_surrogate u \<Longrightarrow> unit_bytes u = 3"
  by (auto simp: high_surrogate_def low_surrogate_def unit_bytes_def word_le_nat_alt word_less_nat_alt)

lemma concat_code_points [simp]: "concat (code_points s) = s"
  by (induction s rule: code_points.induct) auto

lemma code_points_Nil_iff [simp]: "code_points s = [] \<longleftrightarrow> s = []"
  by (cases s rule: code_points.cases) auto

lemma code_points_nonempty: "p \<in> set (code_points s) \<Longrightarrow> p \<noteq> []"
  by (induction s rule: code_points.induct) (auto split: if_splits)

lemma byteLength_simps [simp]:
  "byteLength [] = 0"
  "byteLength [u] = unit_bytes u"
  "byteLength (u # v # s) =
     (if high_surrogate u \<and> low_surrogate v then 4 + byteLength s
      else unit_bytes u + byteLength (v # s))"
  by (simp_all add: byteLength_def point_bytes_def)

text \<open>Cutting a string between code points leaves the earlier code points as they were.\<close>

lemma code_points_take:
  "code_points (concat (take n (code_points s))) = take n (code_points s)"
proof (induction s arbitrary: n rule: code_points.induct)
  case (3 u v s)
  show ?case
  proof (cases n)
    case (Suc m)
    show ?thesis
    proof (cases "high_surrogate u \<and> low_surrogate v")
      case True
      with "3.IH"(1) Suc show ?thesis by simp
    next
      case False
      obtain w where w: "code_points (v # s) = w # tl (code_points (v # s))" and wv: "hd w = v" "w \<noteq> []"
        by (cases s; cases "low_surrogate (hd s) \<and> high_surrogate v") (auto split: if_splits)
      show ?thesis
      proof (cases m)
        case 0
        with False Suc show ?thesis by simp
      next
        case (Suc k)
        with w have take_w: "take m (code_points (v # s)) = w # take k (tl (code_points (v # s)))"
          by (metis take_Suc_Cons)
        with wv obtain rest where rest: "concat (take m (code_points (v # s))) = v # rest"
          by (cases w) auto
        with False have "code_points (u # concat (take m (code_points (v # s)))) =
            [u] # code_points (concat (take m (code_points (v # s))))"
          by auto
        with False \<open>n = Suc m\<close> "3.IH"(2) show ?thesis by auto
      qed
    qed
  qed simp
qed (auto simp: take_Cons')

lemma byteLength_Cons_le: "byteLength (u # s) \<le> unit_bytes u + byteLength s"
proof (cases s)
  case (Cons v t)
  show ?thesis
  proof (cases "high_surrogate u \<and> low_surrogate v")
    case True
    then have "unit_bytes u = 3" "unit_bytes v = 3" by (simp_all add: surrogate_bytes)
    moreover from True have "\<not> high_surrogate v"
      by (auto simp: high_surrogate_def low_surrogate_def word_le_nat_alt)
    then have "byteLength (v # t) = unit_bytes v + byteLength t"
      by (cases t) auto
    ultimately show ?thesis using True Cons by simp
  next
    case False
    with Cons show ?thesis by auto
  qed
qed simp

text \<open>Removing code units never makes a string longer in UTF-8.\<close>

lemma byteLength_filter: "byteLength (filter P s) \<le> byteLength s"
proof (induction s rule: code_points.induct)
  case (3 u v s)
  show ?case
  proof (cases "high_surrogate u \<and> low_surrogate v")
    case True
    with "3.IH"(1) have IH: "byteLength (filter P s) \<le> byteLength s" by simp
    have "byteLength (u # filter P s) \<le> 3 + byteLength (filter P s)"
      using byteLength_Cons_le [of u "filter P s"] unit_bytes_bounds(2) [of u] by linarith
    moreover have "byteLength (v # filter P s) \<le> 3 + byteLength (filter P s)"
      using byteLength_Cons_le [of v "filter P s"] unit_bytes_bounds(2) [of v] by linarith
    ultimately show ?thesis using True IH by auto
  next
    case False
    with "3.IH"(2) have IH: "byteLength (filter P (v # s)) \<le> byteLength (v # s)" by auto
    moreover have "byteLength (u # filter P (v # s)) \<le> unit_bytes u + byteLength (filter P (v # s))"
      by (rule byteLength_Cons_le)
    ultimately show ?thesis using False by auto
  qed
qed auto

lemma length_le_byteLength: "length s \<le> byteLength s"
proof (induction s rule: code_points.induct)
  case (3 u v s)
  have "1 \<le> unit_bytes u" by simp
  with 3 show ?case
    by (cases "high_surrogate u \<and> low_surrogate v") (simp, simp del: unit_bytes_bounds, linarith)
qed auto

section \<open>JSON sizes\<close>

datatype json =
    JNull
  | JBool bool
  | JNum int
  | JStr jsstr
  | JArr "json list"
  | JObj "(string \<times> json) list"

fun decimal_length :: "nat \<Rightarrow> nat" where
  "decimal_length n = (if n < 10 then 1 else 1 + decimal_length (n div 10))"

declare decimal_length.simps [simp del]

text \<open>
  \<open>JSON.stringify\<close> escapes the quote and the backslash, the control characters (five of them
  with a short form, the others as \<open>\u00XX\<close>) and, being well formed, lone surrogates.
\<close>

definition json_point_bytes :: "jsstr \<Rightarrow> nat" where
  "json_point_bytes p =
     (case p of
        [u] \<Rightarrow>
          if u = 0x22 \<or> u = 0x5C \<or> u \<in> {8, 9, 10, 12, 13} then 2
          else if u < 0x20 \<or> high_surrogate u \<or> low_surrogate u then 6
          else unit_bytes u
      | _ \<Rightarrow> 4)"

definition json_string_bytes :: "jsstr \<Rightarrow> nat" where
  "json_string_bytes s = 2 + sum_list (map json_point_bytes (code_points s))"

fun json_bytes :: "json \<Rightarrow> nat" where
  "json_bytes JNull = 4"
| "json_bytes (JBool b) = (if b then 4 else 5)"
| "json_bytes (JNum n) = (if n < 0 then 1 else 0) + decimal_length (nat \<bar>n\<bar>)"
| "json_bytes (JStr s) = json_string_bytes s"
| "json_bytes (JArr xs) = 2 + sum_list (map json_bytes xs) + (length xs - 1)"
| "json_bytes (JObj kvs) =
     2 + sum_list (map (\<lambda>(k, v). length k + 3 + json_bytes v) kvs) + (length kvs - 1)"

text \<open>Optional members of an object: \<open>undefined\<close> members are not written.\<close>

definition opt_member :: "string \<Rightarrow> ('a \<Rightarrow> json) \<Rightarrow> 'a option \<Rightarrow> (string \<times> json) list" where
  "opt_member k f x = (case x of None \<Rightarrow> [] | Some v \<Rightarrow> [(k, f v)])"

lemma decimal_length_bound: "0 < k \<Longrightarrow> n < 10 ^ k \<Longrightarrow> decimal_length n \<le> k"
proof (induction k arbitrary: n)
  case (Suc k)
  show ?case
  proof (cases "n < 10")
    case True
    then show ?thesis by (subst decimal_length.simps) simp
  next
    case False
    with Suc.prems have "k \<noteq> 0" by (auto intro: gr0I)
    moreover from Suc.prems have "n div 10 < 10 ^ k" by auto
    ultimately have "decimal_length (n div 10) \<le> k" using Suc.IH by simp
    with False show ?thesis by (subst decimal_length.simps) simp
  qed
qed simp

lemma decimal_length_pos [simp]: "0 < decimal_length n"
  by (subst decimal_length.simps) simp

text \<open>
  Units that survive the program's output filter cost at most twice their UTF-8 size in JSON.
\<close>

lemma json_point_bytes_printable:
  assumes "\<forall>u \<in> set p. \<not> (u \<le> 8) \<and> \<not> (11 \<le> u \<and> u \<le> 31)" and "p \<noteq> []"
  shows "json_point_bytes p \<le> 2 * point_bytes p"
proof (cases "\<exists>u. p = [u]")
  case True
  then obtain u where p: "p = [u]" ..
  with assms(1) have u: "\<not> u \<le> 8" "\<not> (11 \<le> u \<and> u \<le> 31)" by auto
  show ?thesis
  proof (cases "high_surrogate u \<or> low_surrogate u")
    case True
    then have "unit_bytes u = 3" by (rule surrogate_bytes)
    with p show ?thesis by (auto simp: json_point_bytes_def point_bytes_def)
  next
    case False
    have "1 \<le> unit_bytes u" by simp
    moreover have "u < 0x20 \<Longrightarrow> u \<in> {9, 10}"
      using u by (auto simp: word_less_nat_alt word_le_nat_alt word_unat_eq_iff)
    ultimately show ?thesis
      using p False by (auto simp: json_point_bytes_def point_bytes_def)
  qed
next
  case False
  with assms(2) show ?thesis
    by (auto simp: json_point_bytes_def point_bytes_def split: list.splits)
qed

lemma json_string_bytes_printable:
  assumes "\<forall>u \<in> set s. \<not> (u \<le> 8) \<and> \<not> (11 \<le> u \<and> u \<le> 31)"
  shows "json_string_bytes s \<le> 2 + 2 * byteLength s"
proof -
  have "json_point_bytes p \<le> 2 * point_bytes p" if p: "p \<in> set (code_points s)" for p
  proof (rule json_point_bytes_printable)
    from p have "set p \<subseteq> set (concat (code_points s))" by (auto simp del: concat_code_points)
    with assms show "\<forall>u \<in> set p. \<not> (u \<le> 8) \<and> \<not> (11 \<le> u \<and> u \<le> 31)" by auto
    from p show "p \<noteq> []" by (rule code_points_nonempty)
  qed
  then have "sum_list (map json_point_bytes (code_points s)) \<le>
      sum_list (map (\<lambda>p. 2 * point_bytes p) (code_points s))"
    by (rule sum_list_mono)
  then show ?thesis
    by (simp add: json_string_bytes_def byteLength_def sum_list_const_mult)
qed

section \<open>Character classes\<close>

definition digit_char :: "char \<Rightarrow> bool" where
  "digit_char c \<longleftrightarrow> CHR ''0'' \<le> c \<and> c \<le> CHR ''9''"

definition lower_char :: "char \<Rightarrow> bool" where
  "lower_char c \<longleftrightarrow> CHR ''a'' \<le> c \<and> c \<le> CHR ''z''"

definition upper_char :: "char \<Rightarrow> bool" where
  "upper_char c \<longleftrightarrow> CHR ''A'' \<le> c \<and> c \<le> CHR ''Z''"

definition alnum_char :: "char \<Rightarrow> bool" where
  "alnum_char c \<longleftrightarrow> digit_char c \<or> lower_char c \<or> upper_char c"

text \<open>The class \<open>[a-f0-9]\<close> of digests.\<close>

definition hex_char :: "char \<Rightarrow> bool" where
  "hex_char c \<longleftrightarrow> digit_char c \<or> (CHR ''a'' \<le> c \<and> c \<le> CHR ''f'')"

text \<open>The class \<open>[A-Za-z0-9_-]\<close> of tokens and idempotency keys.\<close>

definition token_char :: "char \<Rightarrow> bool" where
  "token_char c \<longleftrightarrow> alnum_char c \<or> c = CHR ''_'' \<or> c = CHR ''-''"

text \<open>The slug expression \<open>/^[a-z0-9]+(?:-[a-z0-9]+)*$/\<close>, as an automaton with two states.\<close>

fun slug_tail :: "bool \<Rightarrow> string \<Rightarrow> bool" where
  "slug_tail nonempty [] = nonempty"
| "slug_tail nonempty (c # s) =
     (if digit_char c \<or> lower_char c then slug_tail True s
      else if c = CHR ''-'' \<and> nonempty then slug_tail False s
      else False)"

definition is_slug :: "string \<Rightarrow> bool" where
  "is_slug s = slug_tail False s"

end
