(* ===== verification/Contracts.thy ===== *)
theory Contracts
  imports JsString
begin

text \<open>
  The shared contracts of \<open>packages/contracts/src/index.ts\<close>: the enumerations of an execution,
  the transition graph of its states, the request and subscription schemas, and the schema of the
  public events. A zod schema over \<open>unknown\<close> input is a function from \<open>json\<close> to an option:
  \<open>None\<close> where \<open>safeParse\<close> fails. The check \<open>z.uuid()\<close> belongs to the zod package and is the
  parameter \<open>is_uuid\<close>.
\<close>

section \<open>Enumerations and limits\<close>

datatype language = Java | Python | Javascript

datatype mode = RUN | SUBMIT

datatype state = QUEUED | COMPILING | RUNNING | FINISHED | CANCELLED | INTERNAL_ERROR

datatype verdict =
    ACCEPTED | WRONG_ANSWER | COMPILATION_ERROR | RUNTIME_ERROR | TIME_LIMIT_EXCEEDED
  | MEMORY_LIMIT_EXCEEDED | OUTPUT_LIMIT_EXCEEDED | V_CANCELLED | V_INTERNAL_ERROR

datatype failure_code =
    QUEUE_TIMEOUT | JOB_FAILURE | LEASE_EXPIRED | JOB_TIMEOUT | CANCELLATION_TIMEOUT

datatype visibility = PUBLIC | HIDDEN

datatype stream = Stdout | Stderr

definition MAX_SOURCE_BYTES :: nat where "MAX_SOURCE_BYTES = 64 * 1024"

definition MAX_OUTPUT_BYTES :: nat where "MAX_OUTPUT_BYTES = 256 * 1024"

fun language_name :: "language \<Rightarrow> string" where
  "language_name Java = ''java''"
| "language_name Python = ''python''"
| "language_name Javascript = ''javascript''"

fun mode_name :: "mode \<Rightarrow> string" where
  "mode_name RUN = ''RUN''"
| "mode_name SUBMIT = ''SUBMIT''"

fun state_name :: "state \<Rightarrow> string" where
  "state_name QUEUED = ''QUEUED''"
| "state_name COMPILING = ''COMPILING''"
| "state_name RUNNING = ''RUNNING''"
| "state_name FINISHED = ''FINISHED''"
| "state_name CANCELLED = ''CANCELLED''"
| "state_name INTERNAL_ERROR = ''INTERNAL_ERROR''"

fun verdict_name :: "verdict \<Rightarrow> string" where
  "verdict_name ACCEPTED = ''ACCEPTED''"
| "verdict_name WRONG_ANSWER = ''WRONG_ANSWER''"
| "verdict_name COMPILATION_ERROR = ''COMPILATION_ERROR''"
| "verdict_name RUNTIME_ERROR = ''RUNTIME_ERROR''"
| "verdict_name TIME_LIMIT_EXCEEDED = ''TIME_LIMIT_EXCEEDED''"
| "verdict_name MEMORY_LIMIT_EXCEEDED = ''MEMORY_LIMIT_EXCEEDED''"
| "verdict_name OUTPUT_LIMIT_EXCEEDED = ''OUTPUT_LIMIT_EXCEEDED''"
| "verdict_name V_CANCELLED = ''CANCELLED''"
| "verdict_name V_INTERNAL_ERROR = ''INTERNAL_ERROR''"

fun failure_name :: "failure_code \<Rightarrow> string" where
  "failure_name QUEUE_TIMEOUT = ''QUEUE_TIMEOUT''"
| "failure_name JOB_FAILURE = ''JOB_FAILURE''"
| "failure_name LEASE_EXPIRED = ''LEASE_EXPIRED''"
| "failure_name JOB_TIMEOUT = ''JOB_TIMEOUT''"
| "failure_name CANCELLATION_TIMEOUT = ''CANCELLATION_TIMEOUT''"

fun stream_name :: "stream \<Rightarrow> string" where
  "stream_name Stdout = ''stdout''"
| "stream_name Stderr = ''stderr''"

text \<open>The result of one public case (\<open>PublicCaseResult\<close>).\<close>

record case_result =
  cr_caseId :: uuid
  cr_verdict :: verdict
  cr_outputTruncated :: "bool option"
  cr_stdout :: "jsstr option"
  cr_stderr :: "jsstr option"
  cr_exitCode :: "int option"
  cr_runtimeMs :: "int option"
  cr_memoryKiB :: "int option"

section \<open>The transition graph\<close>

fun transitions :: "state \<Rightarrow> state list" where
  "transitions QUEUED = [COMPILING, CANCELLED, INTERNAL_ERROR]"
| "transitions COMPILING = [RUNNING, FINISHED, CANCELLED, INTERNAL_ERROR]"
| "transitions RUNNING = [FINISHED, CANCELLED, INTERNAL_ERROR]"
| "transitions FINISHED = []"
| "transitions CANCELLED = []"
| "transitions INTERNAL_ERROR = []"

definition activeStates :: "state list" where
  "activeStates = [QUEUED, COMPILING, RUNNING]"

definition isTerminal :: "state \<Rightarrow> bool" where
  "isTerminal s = (length (transitions s) = 0)"

definition canTransition :: "state \<Rightarrow> state \<Rightarrow> bool" where
  "canTransition a b = (b \<in> set (transitions a))"

section \<open>Parsing request bodies\<close>

text \<open>A member of a JSON object; \<open>None\<close> is \<open>undefined\<close>.\<close>

fun member :: "json \<Rightarrow> string \<Rightarrow> json option" where
  "member (JObj kvs) k = map_of kvs k"
| "member _ k = None"

text \<open>\<open>z.strictObject\<close>: an object with no member outside the listed ones.\<close>

fun strict_object :: "string list \<Rightarrow> json \<Rightarrow> bool" where
  "strict_object ks (JObj kvs) = (\<forall>k \<in> set (map fst kvs). k \<in> set ks)"
| "strict_object ks _ = False"

text \<open>
  Expressions and enumerations of the schemas accept ASCII only: \<open>ascii\<close> is the string as
  characters, \<open>None\<close> if a unit is outside ASCII.
\<close>

definition ascii :: "jsstr \<Rightarrow> string option" where
  "ascii s = (if \<forall>u \<in> set s. u < 0x80 then Some (map (\<lambda>u. char_of (unat u)) s) else None)"

fun json_ascii :: "json \<Rightarrow> string option" where
  "json_ascii (JStr s) = ascii s"
| "json_ascii _ = None"

definition enum_of :: "('a \<Rightarrow> string) \<Rightarrow> 'a list \<Rightarrow> json option \<Rightarrow> 'a option" where
  "enum_of name xs v =
     (case v of None \<Rightarrow> None
      | Some j \<Rightarrow> (case json_ascii j of None \<Rightarrow> None | Some s \<Rightarrow> find (\<lambda>x. name x = s) xs))"

definition languageSchema :: "json option \<Rightarrow> language option" where
  "languageSchema = enum_of language_name [Java, Python, Javascript]"

definition modeSchema :: "json option \<Rightarrow> mode option" where
  "modeSchema = enum_of mode_name [RUN, SUBMIT]"

definition uuidSchema :: "(string \<Rightarrow> bool) \<Rightarrow> json option \<Rightarrow> uuid option" where
  "uuidSchema is_uuid v =
     (case v of None \<Rightarrow> None
      | Some j \<Rightarrow> (case json_ascii j of None \<Rightarrow> None | Some s \<Rightarrow> if is_uuid s then Some s else None))"

text \<open>\<open>z.number().int()\<close> accepts safe integers.\<close>

definition safe_int :: "int \<Rightarrow> bool" where
  "safe_int n \<longleftrightarrow> \<bar>n\<bar> \<le> 2 ^ 53 - 1"

definition nonnegativeInt :: "json option \<Rightarrow> int option" where
  "nonnegativeInt v =
     (case v of Some (JNum n) \<Rightarrow> if safe_int n \<and> 0 \<le> n then Some n else None | _ \<Rightarrow> None)"

record create_execution =
  ce_problemId :: uuid
  ce_language :: language
  ce_mode :: mode
  ce_sourceCode :: jsstr
  ce_competitionSlug :: "string option"

definition competitionSlug_ok :: "string \<Rightarrow> bool" where
  "competitionSlug_ok s \<longleftrightarrow> is_slug s \<and> length s \<le> 100"

definition sourceCode_ok :: "jsstr \<Rightarrow> bool" where
  "sourceCode_ok s \<longleftrightarrow> 1 \<le> length s \<and> byteLength s \<le> MAX_SOURCE_BYTES"

definition createExecutionSchema :: "(string \<Rightarrow> bool) \<Rightarrow> json \<Rightarrow> create_execution option" where
  "createExecutionSchema is_uuid body =
     (if \<not> strict_object [''problemId'', ''language'', ''mode'', ''sourceCode'', ''competitionSlug''] body
      then None
      else case (uuidSchema is_uuid (member body ''problemId''),
                 languageSchema (member body ''language''),
                 modeSchema (member body ''mode''),
                 member body ''sourceCode'') of
        (Some p, Some l, Some m, Some (JStr src)) \<Rightarrow>
          if \<not> sourceCode_ok src then None
          else (case member body ''competitionSlug'' of
                  None \<Rightarrow> Some \<lparr>ce_problemId = p, ce_language = l, ce_mode = m,
                               ce_sourceCode = src, ce_competitionSlug = None\<rparr>
                | Some j \<Rightarrow> (case json_ascii j of
                      Some c \<Rightarrow> if competitionSlug_ok c
                        then Some \<lparr>ce_problemId = p, ce_language = l, ce_mode = m,
                                   ce_sourceCode = src, ce_competitionSlug = Some c\<rparr>
                        else None
                    | None \<Rightarrow> None))
      | _ \<Rightarrow> None)"

definition idempotencyKeySchema :: "string option \<Rightarrow> string option" where
  "idempotencyKeySchema key =
     (case key of None \<Rightarrow> None
      | Some k \<Rightarrow> if 16 \<le> length k \<and> length k \<le> 128 \<and> list_all token_char k then Some k else None)"

section \<open>Subscriptions and public events\<close>

record subscription =
  su_executionId :: uuid
  su_attempt :: int
  su_afterSequence :: int

definition executionSubscriptionSchema :: "(string \<Rightarrow> bool) \<Rightarrow> json \<Rightarrow> subscription option" where
  "executionSubscriptionSchema is_uuid v =
     (if \<not> strict_object [''executionId'', ''attempt'', ''afterSequence''] v then None
      else case (uuidSchema is_uuid (member v ''executionId''),
                 nonnegativeInt (member v ''attempt''),
                 nonnegativeInt (member v ''afterSequence'')) of
        (Some e, Some a, Some q) \<Rightarrow>
          Some \<lparr>su_executionId = e, su_attempt = a, su_afterSequence = q\<rparr>
      | _ \<Rightarrow> None)"

text \<open>
  The three shapes of a public event and its identity. The stored payload is this value; its JSON
  text is \<open>event_json\<close>.
\<close>

datatype event_fields =
    ExecutionStatus state "bool option"
  | ConsoleOutput uuid stream jsstr
  | FinalVerdict state verdict "failure_code option"

record public_event =
  pe_executionId :: uuid
  pe_attempt :: int
  pe_sequence :: int
  pe_fields :: event_fields

definition publicExecutionEventSchema :: "(string \<Rightarrow> bool) \<Rightarrow> public_event \<Rightarrow> bool" where
  "publicExecutionEventSchema is_uuid e \<longleftrightarrow>
     is_uuid (pe_executionId e) \<and>
     safe_int (pe_attempt e) \<and> 0 \<le> pe_attempt e \<and>
     safe_int (pe_sequence e) \<and> 0 < pe_sequence e \<and>
     (case pe_fields e of
        ConsoleOutput c s text \<Rightarrow> is_uuid c \<and> byteLength text \<le> 4096
      | _ \<Rightarrow> True)"

fun fields_json :: "event_fields \<Rightarrow> (string \<times> json) list" where
  "fields_json (ExecutionStatus s c) =
     [(''kind'', JStr (js ''execution_status'')), (''state'', JStr (js (state_name s)))] @
     opt_member ''cancellationRequested'' JBool c"
| "fields_json (ConsoleOutput c s text) =
     [(''kind'', JStr (js ''console_output'')), (''caseId'', JStr (js c)),
      (''stream'', JStr (js (stream_name s))), (''text'', JStr text)]"
| "fields_json (FinalVerdict s v f) =
     [(''kind'', JStr (js ''final_verdict'')), (''state'', JStr (js (state_name s))),
      (''verdict'', JStr (js (verdict_name v)))] @
     opt_member ''failureCode'' (\<lambda>x. JStr (js (failure_name x))) f"

definition event_json :: "public_event \<Rightarrow> json" where
  "event_json e =
     JObj ([(''executionId'', JStr (js (pe_executionId e))), (''attempt'', JNum (pe_attempt e)),
            (''sequence'', JNum (pe_sequence e))] @ fields_json (pe_fields e))"

section \<open>Properties of the contracts\<close>

lemma isTerminal_iff: "isTerminal s \<longleftrightarrow> s \<in> {FINISHED, CANCELLED, INTERNAL_ERROR}"
  by (cases s) (auto simp: isTerminal_def)

lemma not_terminal_iff: "\<not> isTerminal s \<longleftrightarrow> s \<in> set activeStates"
  by (cases s) (auto simp: isTerminal_def activeStates_def)

lemma isTerminal_simps [simp]:
  "\<not> isTerminal QUEUED" "\<not> isTerminal COMPILING" "\<not> isTerminal RUNNING"
  "isTerminal FINISHED" "isTerminal CANCELLED" "isTerminal INTERNAL_ERROR"
  by (simp_all add: isTerminal_def)

lemma createExecutionSchema_Some:
  assumes "createExecutionSchema is_uuid body = Some c"
  shows "is_uuid (ce_problemId c)" and "sourceCode_ok (ce_sourceCode c)"
    and "ce_competitionSlug c = Some s \<Longrightarrow> competitionSlug_ok s"
    and "member body ''sourceCode'' = Some (JStr (ce_sourceCode c))"
  using assms
  by (auto simp: createExecutionSchema_def uuidSchema_def split: if_splits option.splits json.splits)

text \<open>How far a state is from the end of the graph: the measure every transition decreases.\<close>

fun remaining :: "state \<Rightarrow> nat" where
  "remaining QUEUED = 3"
| "remaining COMPILING = 2"
| "remaining RUNNING = 1"
| "remaining _ = 0"

lemma canTransition_remaining: "canTransition a b \<Longrightarrow> remaining b < remaining a"
  by (cases a; cases b) (auto simp: canTransition_def)

lemma terminal_no_transition: "isTerminal a \<Longrightarrow> \<not> canTransition a b"
  by (cases a) (auto simp: canTransition_def)

end
