(* ===== verification/Judge.thy ===== *)
theory Judge
  imports Contracts
begin

text \<open>
  The trusted judge of \<open>packages/judge/src/judge.ts\<close>: the selection of the cases of a pinned plan,
  the \<open>EXACT_NEWLINE\<close> comparison, the sanitised and bounded projection of public output, and the
  verdict of an observation. \<open>stripVTControlCharacters\<close> of \<open>node:util\<close> is the parameter
  \<open>strip\<close> and \<open>z.uuid()\<close> the parameter \<open>is_uuid\<close>; no property needs anything of either.
  An observation that is not even of the shape of \<open>observationSchema\<close> is \<open>None\<close>.
\<close>

section \<open>Plans and observations\<close>

record test_file =
  tf_name :: string
  tf_content :: jsstr

record judge_case =
  jc_id :: uuid
  jc_ordinal :: int
  jc_visibility :: visibility
  jc_input :: jsstr
  jc_files :: "test_file list"
  jc_expectedOutput :: jsstr

record judge_plan =
  jp_versionId :: uuid
  jp_comparator :: string
  jp_timeMs :: int
  jp_memoryKiB :: int
  jp_cases :: "judge_case list"

record observed_case =
  oc_caseId :: uuid
  oc_stdout :: jsstr
  oc_stderr :: jsstr
  oc_exitCode :: "int option"
  oc_failure :: "verdict option"
  oc_wallMs :: int
  oc_cpuMs :: "int option"
  oc_memoryKiB :: "int option"

record compilation =
  cp_ok :: bool
  cp_stdout :: jsstr
  cp_stderr :: jsstr

record observation =
  ob_cancellationConfirmed :: bool
  ob_compilation :: "compilation option"
  ob_cases :: "observed_case list"

record judged_result =
  jr_verdict :: verdict
  jr_runtimeMs :: "int option"
  jr_memoryKiB :: "int option"
  jr_publicCaseResults :: "case_result list option"

definition observedCaseSchema :: "(string \<Rightarrow> bool) \<Rightarrow> observed_case \<Rightarrow> bool" where
  "observedCaseSchema is_uuid c \<longleftrightarrow>
     is_uuid (oc_caseId c) \<and>
     (case oc_exitCode c of None \<Rightarrow> True | Some n \<Rightarrow> 0 \<le> n \<and> n \<le> 255) \<and>
     (case oc_failure c of None \<Rightarrow> True
      | Some f \<Rightarrow> f \<in> {TIME_LIMIT_EXCEEDED, MEMORY_LIMIT_EXCEEDED, OUTPUT_LIMIT_EXCEEDED}) \<and>
     0 \<le> oc_wallMs c \<and>
     (case oc_cpuMs c of None \<Rightarrow> True | Some n \<Rightarrow> safe_int n \<and> 0 \<le> n) \<and>
     (case oc_memoryKiB c of None \<Rightarrow> True | Some n \<Rightarrow> safe_int n \<and> 0 \<le> n) \<and>
     (oc_cpuMs c = None \<longleftrightarrow> oc_memoryKiB c = None)"

definition observationSchema :: "(string \<Rightarrow> bool) \<Rightarrow> observation \<Rightarrow> bool" where
  "observationSchema is_uuid ob \<longleftrightarrow>
     length (ob_cases ob) \<le> 100 \<and> (\<forall>c \<in> set (ob_cases ob). observedCaseSchema is_uuid c)"

definition JudgeProtocolError :: error where
  "JudgeProtocolError = PlainError ''INVALID_JUDGE_PROTOCOL''"

section \<open>Selecting the cases\<close>

definition selectCases :: "(string \<Rightarrow> bool) \<Rightarrow> judge_plan \<Rightarrow> mode \<Rightarrow> judge_case list result" where
  "selectCases is_uuid plan m =
     (let all = jp_cases plan in
      if jp_comparator plan \<noteq> ''EXACT_NEWLINE'' \<or> all = [] \<or> 100 < length all \<or>
         \<not> distinct (map jc_id all) \<or> \<not> distinct (map jc_ordinal all) \<or>
         (\<exists>c \<in> set all. \<not> is_uuid (jc_id c) \<or> jc_ordinal c < 0)
      then Inl JudgeProtocolError
      else let cases = sort_key jc_ordinal (filter (\<lambda>c. m = SUBMIT \<or> jc_visibility c = PUBLIC) all)
           in if cases = [] then Inl JudgeProtocolError else Inr cases)"

section \<open>Comparing and displaying output\<close>

text \<open>\<open>text.replace(/\r\n/g, '\n')\<close>.\<close>

fun crlf_to_lf :: "jsstr \<Rightarrow> jsstr" where
  "crlf_to_lf [] = []"
| "crlf_to_lf [u] = [u]"
| "crlf_to_lf (u # v # s) =
     (if u = 13 \<and> v = 10 then 10 # crlf_to_lf s else u # crlf_to_lf (v # s))"

definition compareOutput :: "jsstr \<Rightarrow> jsstr \<Rightarrow> bool" where
  "compareOutput actual expected =
     (let a = crlf_to_lf actual; e = crlf_to_lf expected
      in a = e \<or> a = e @ [10] \<or> a @ [10] = e)"

definition control_unit :: "code_unit \<Rightarrow> bool" where
  "control_unit u \<longleftrightarrow>
     u \<le> 0x08 \<or> (0x0b \<le> u \<and> u \<le> 0x1f) \<or> (0x7f \<le> u \<and> u \<le> 0x9f) \<or>
     (0x202a \<le> u \<and> u \<le> 0x202e) \<or> (0x2066 \<le> u \<and> u \<le> 0x2069)"

definition sanitized :: "(jsstr \<Rightarrow> jsstr) \<Rightarrow> jsstr \<Rightarrow> jsstr" where
  "sanitized strip text = filter (\<lambda>u. \<not> control_unit u) (strip text)"

fun display_loop :: "int \<Rightarrow> jsstr list \<Rightarrow> jsstr \<Rightarrow> int \<Rightarrow> jsstr" where
  "display_loop bytes [] result sz = result"
| "display_loop bytes (point # points) result sz =
     (let n = int (byteLength point)
      in if sz + n > bytes then result else display_loop bytes points (result @ point) (sz + n))"

definition display :: "(jsstr \<Rightarrow> jsstr) \<Rightarrow> jsstr \<Rightarrow> int \<Rightarrow> jsstr" where
  "display strip text bytes = display_loop bytes (code_points (sanitized strip text)) [] 0"

section \<open>The verdict of an observation\<close>

definition outputBytes :: "observation \<Rightarrow> nat" where
  "outputBytes ob =
     sum_list (map (\<lambda>c. byteLength (oc_stdout c) + byteLength (oc_stderr c)) (ob_cases ob)) +
     (case ob_compilation ob of None \<Rightarrow> 0
      | Some c \<Rightarrow> byteLength (cp_stdout c) + byteLength (cp_stderr c))"

definition current_verdict :: "judge_case \<Rightarrow> observed_case \<Rightarrow> verdict" where
  "current_verdict test c =
     (case oc_failure c of
        Some f \<Rightarrow> f
      | None \<Rightarrow>
          if oc_exitCode c \<noteq> Some 0 then RUNTIME_ERROR
          else if compareOutput (oc_stdout c) (jc_expectedOutput test) then ACCEPTED
          else WRONG_ANSWER)"

record judge_acc =
  ja_verdict :: verdict
  ja_budget :: int
  ja_results :: "case_result list"

definition project_case ::
    "(jsstr \<Rightarrow> jsstr) \<Rightarrow> judge_case \<Rightarrow> observed_case \<Rightarrow> verdict \<Rightarrow> int \<Rightarrow> case_result \<times> int" where
  "project_case strip test c current budget =
     (let out = display strip (oc_stdout c) (min 4096 budget);
          budget' = budget - int (byteLength out);
          err = display strip (oc_stderr c) (min 4096 budget');
          budget'' = budget' - int (byteLength err);
          truncated = byteLength (sanitized strip (oc_stdout c)) > byteLength out \<or>
                      byteLength (sanitized strip (oc_stderr c)) > byteLength err
      in (\<lparr>cr_caseId = jc_id test, cr_verdict = current,
           cr_outputTruncated = (if truncated then Some True else None),
           cr_stdout = Some out, cr_stderr = Some err, cr_exitCode = oc_exitCode c,
           cr_runtimeMs = oc_cpuMs c,
           cr_memoryKiB = (if oc_cpuMs c \<noteq> None then oc_memoryKiB c else None)\<rparr>,
          budget''))"

text \<open>
  One turn of \<open>observed.cases.forEach((o, i) => ..)\<close> and the whole loop. The selected cases from
  index \<open>i\<close> on are an argument; running out of them is the \<open>TypeError\<close> of \<open>cases[i]!\<close>.
\<close>

definition judge_case_step ::
    "(jsstr \<Rightarrow> jsstr) \<Rightarrow> mode \<Rightarrow> bool \<Rightarrow> judge_case \<Rightarrow> observed_case \<Rightarrow> judge_acc \<Rightarrow> judge_acc result"
  where
  "judge_case_step strip m is_last test c acc =
     (if oc_caseId c \<noteq> jc_id test \<or> (oc_failure c = None \<and> oc_exitCode c = None) \<or>
         (oc_failure c \<noteq> None \<and> \<not> is_last)
      then Inl JudgeProtocolError
      else let current = current_verdict test c;
               v = (if ja_verdict acc = ACCEPTED \<and> current \<noteq> ACCEPTED then current else ja_verdict acc)
           in if m = RUN
              then let (res, budget) = project_case strip test c current (ja_budget acc)
                   in Inr \<lparr>ja_verdict = v, ja_budget = budget, ja_results = ja_results acc @ [res]\<rparr>
              else Inr (acc\<lparr>ja_verdict := v\<rparr>))"

fun judge_loop ::
    "(jsstr \<Rightarrow> jsstr) \<Rightarrow> mode \<Rightarrow> judge_case list \<Rightarrow> observed_case list \<Rightarrow> judge_acc \<Rightarrow> judge_acc result"
  where
  "judge_loop strip m tests [] acc = Inr acc"
| "judge_loop strip m [] (c # cs) acc = Inl (PlainError ''TypeError'')"
| "judge_loop strip m (test # tests) (c # cs) acc =
     bind_result (judge_case_step strip m (cs = []) test c acc) (judge_loop strip m tests cs)"

text \<open>\<open>Math.max(...xs)\<close> of a nonempty array.\<close>

fun maximum :: "int list \<Rightarrow> int" where
  "maximum [] = 0"
| "maximum (x # xs) = fold max xs x"

definition judge ::
    "(string \<Rightarrow> bool) \<Rightarrow> (jsstr \<Rightarrow> jsstr) \<Rightarrow> judge_plan \<Rightarrow> mode \<Rightarrow> language \<Rightarrow> observation option
       \<Rightarrow> judged_result result" where
  "judge is_uuid strip plan m lang input =
     bind_result (selectCases is_uuid plan m) (\<lambda>cases.
       case input of
         None \<Rightarrow> Inl JudgeProtocolError
       | Some observed \<Rightarrow>
           if \<not> observationSchema is_uuid observed then Inl JudgeProtocolError
           else if outputBytes observed > 1024 * 1024 then Inl JudgeProtocolError
           else if ob_cancellationConfirmed observed then Inl (PlainError ''SANDBOX_CANCELLED'')
           else if (lang = Java \<and> ob_compilation observed = None) \<or>
                   (lang \<noteq> Java \<and> ob_compilation observed \<noteq> None) then Inl JudgeProtocolError
           else if (case ob_compilation observed of None \<Rightarrow> False | Some c \<Rightarrow> \<not> cp_ok c)
             then (if ob_cases observed \<noteq> [] then Inl JudgeProtocolError
                   else Inr \<lparr>jr_verdict = COMPILATION_ERROR, jr_runtimeMs = None,
                             jr_memoryKiB = None, jr_publicCaseResults = None\<rparr>)
           else if ob_cases observed = [] \<or> length (ob_cases observed) > length cases
             then Inl JudgeProtocolError
           else if length (ob_cases observed) \<noteq> length cases \<and>
                   oc_failure (last (ob_cases observed)) = None
             then Inl JudgeProtocolError
           else bind_result
             (judge_loop strip m cases (ob_cases observed)
                \<lparr>ja_verdict = ACCEPTED, ja_budget = 24 * 1024, ja_results = []\<rparr>)
             (\<lambda>acc.
               let measured = list_all (\<lambda>c. oc_cpuMs c \<noteq> None \<and> oc_memoryKiB c \<noteq> None) (ob_cases observed)
               in Inr \<lparr>jr_verdict = ja_verdict acc,
                       jr_runtimeMs = (if measured
                         then Some (maximum (map (the \<circ> oc_cpuMs) (ob_cases observed))) else None),
                       jr_memoryKiB = (if measured
                         then Some (maximum (map (the \<circ> oc_memoryKiB) (ob_cases observed))) else None),
                       jr_publicCaseResults = (if m = RUN then Some (ja_results acc) else None)\<rparr>))"

section \<open>The projection of output\<close>

lemma byteLength_code_point: "p \<in> set (code_points s) \<Longrightarrow> byteLength p = point_bytes p"
  by (induction s rule: code_points.induct) (auto simp: point_bytes_def split: if_splits)

lemma byteLength_take_points:
  "byteLength (concat (take k (code_points s))) = sum_list (map byteLength (take k (code_points s)))"
proof -
  have "map point_bytes (take k (code_points s)) = map byteLength (take k (code_points s))"
    by (intro map_cong refl byteLength_code_point [symmetric, of _ s]) (auto dest: in_set_takeD)
  then show ?thesis by (simp only: byteLength_def [of "concat _"] code_points_take)
qed

text \<open>The loop of \<open>display\<close> stops at the first point that would exceed the bound.\<close>

lemma display_loop_prefix:
  "\<exists>k \<le> length ps. display_loop b ps r n = r @ concat (take k ps) \<and>
     (n \<le> b \<longrightarrow> n + int (sum_list (map byteLength (take k ps))) \<le> b) \<and>
     (k < length ps \<longrightarrow> b < n + int (sum_list (map byteLength (take (Suc k) ps))))"
proof (induction ps arbitrary: r n)
  case (Cons p ps)
  show ?case
  proof (cases "n + int (byteLength p) > b")
    case True
    then show ?thesis by (intro exI [of _ 0]) simp
  next
    case False
    let ?m = "n + int (byteLength p)"
    from Cons.IH [of "r @ p" ?m] obtain k where k: "k \<le> length ps"
      "display_loop b ps (r @ p) ?m = (r @ p) @ concat (take k ps)"
      "?m \<le> b \<longrightarrow> ?m + int (sum_list (map byteLength (take k ps))) \<le> b"
      "k < length ps \<longrightarrow> b < ?m + int (sum_list (map byteLength (take (Suc k) ps)))"
      by blast
    with False show ?thesis by (intro exI [of _ "Suc k"]) (auto simp: algebra_simps)
  qed
qed simp

definition is_longest_fit :: "int \<Rightarrow> jsstr list \<Rightarrow> jsstr \<Rightarrow> bool" where
  "is_longest_fit b ps r \<longleftrightarrow>
     (\<exists>k \<le> length ps. r = concat (take k ps) \<and> int (byteLength r) \<le> b \<and>
        (k < length ps \<longrightarrow> b < int (byteLength (concat (take (Suc k) ps)))))"

lemma display_longest_fit:
  assumes "0 \<le> b"
  shows "is_longest_fit b (code_points (sanitized strip s)) (display strip s b)"
proof -
  let ?ps = "code_points (sanitized strip s)"
  from display_loop_prefix [of ?ps b "[]" 0] assms
  obtain k where k: "k \<le> length ?ps" "display strip s b = concat (take k ?ps)"
    "int (sum_list (map byteLength (take k ?ps))) \<le> b"
    "k < length ?ps \<longrightarrow> b < int (sum_list (map byteLength (take (Suc k) ?ps)))"
    unfolding display_def by auto
  then show ?thesis
    unfolding is_longest_fit_def by (intro exI [of _ k]) (simp add: byteLength_take_points)
qed

lemma display_byteLength: "0 \<le> b \<Longrightarrow> int (byteLength (display strip s b)) \<le> b"
  using display_longest_fit [of b strip s] by (auto simp: is_longest_fit_def)

lemma display_units: "set (display strip s b) \<subseteq> set (sanitized strip s)"
proof -
  obtain k where "display strip s b = concat (take k (code_points (sanitized strip s)))"
    using display_loop_prefix [of "code_points (sanitized strip s)" b "[]" 0]
    unfolding display_def by auto
  moreover have "set (concat (take k (code_points (sanitized strip s)))) \<subseteq>
      set (concat (code_points (sanitized strip s)))"
    by (auto simp del: concat_code_points dest: in_set_takeD)
  ultimately show ?thesis by simp
qed

lemma sanitized_no_control: "u \<in> set (sanitized strip s) \<Longrightarrow> \<not> control_unit u"
  by (simp add: sanitized_def)

lemma display_no_control: "u \<in> set (display strip s b) \<Longrightarrow> \<not> control_unit u"
  using display_units sanitized_no_control by blast

section \<open>The loop over the observed cases\<close>

text \<open>The first verdict that is not \<open>ACCEPTED\<close>.\<close>

fun first_failure :: "verdict list \<Rightarrow> verdict" where
  "first_failure [] = ACCEPTED"
| "first_failure (v # vs) = (if v \<noteq> ACCEPTED then v else first_failure vs)"

lemma first_failure_ACCEPTED: "first_failure vs = ACCEPTED \<longleftrightarrow> (\<forall>v \<in> set vs. v = ACCEPTED)"
  by (induction vs) auto

text \<open>What the loop demands of the observed case of a test, apart from the position of a failure.\<close>

definition well_reported :: "judge_case \<Rightarrow> observed_case \<Rightarrow> bool" where
  "well_reported t c \<longleftrightarrow> oc_caseId c = jc_id t \<and> (oc_failure c \<noteq> None \<or> oc_exitCode c \<noteq> None)"

lemma judge_case_step_Inr:
  "(\<exists>acc'. judge_case_step strip m is_last t c acc = Inr acc') \<longleftrightarrow>
     well_reported t c \<and> (oc_failure c = None \<or> is_last)"
  by (auto simp: judge_case_step_def well_reported_def Let_def split: prod.splits)

lemma judge_case_step_verdict:
  "judge_case_step strip m is_last t c acc = Inr acc' \<Longrightarrow>
     ja_verdict acc' = first_failure [ja_verdict acc, current_verdict t c]"
  by (auto simp: judge_case_step_def Let_def split: if_splits prod.splits)

lemma judge_case_step_Inl:
  "judge_case_step strip m is_last t c acc = Inl e \<Longrightarrow> e = JudgeProtocolError"
  by (auto simp: judge_case_step_def Let_def split: if_splits prod.splits)

lemma judge_loop_Inr:
  assumes "length cs \<le> length ts"
  shows "(\<exists>acc'. judge_loop strip m ts cs acc = Inr acc') \<longleftrightarrow>
     list_all2 well_reported (take (length cs) ts) cs \<and> (\<forall>c \<in> set (butlast cs). oc_failure c = None)"
  using assms
proof (induction strip m ts cs acc rule: judge_loop.induct)
  case (3 strip m t ts c cs acc)
  show ?case
  proof (cases "judge_case_step strip m (cs = []) t c acc")
    case (Inl e)
    then have "\<not> (well_reported t c \<and> (oc_failure c = None \<or> cs = []))"
      using judge_case_step_Inr [of strip m "cs = []" t c acc] by auto
    with Inl show ?thesis by auto
  next
    case (Inr acc')
    then have "well_reported t c \<and> (oc_failure c = None \<or> cs = [])"
      using judge_case_step_Inr [of strip m "cs = []" t c acc] by auto
    with Inr "3.IH" [of acc'] "3.prems" show ?thesis by auto
  qed
qed auto

lemma judge_loop_verdict:
  "judge_loop strip m ts cs acc = Inr acc' \<Longrightarrow>
     ja_verdict acc' = first_failure (ja_verdict acc # map2 current_verdict ts cs)"
proof (induction strip m ts cs acc rule: judge_loop.induct)
  case (3 strip m t ts c cs acc)
  then obtain acc1 where step: "judge_case_step strip m (cs = []) t c acc = Inr acc1"
    and rest: "judge_loop strip m ts cs acc1 = Inr acc'"
    by (auto simp: result_simps)
  from "3.IH" [OF rest] judge_case_step_verdict [OF step] show ?case by simp
qed auto

lemma judge_loop_Inl:
  "judge_loop strip m ts cs acc = Inl e \<Longrightarrow> length cs \<le> length ts \<Longrightarrow> e = JudgeProtocolError"
  by (induction strip m ts cs acc rule: judge_loop.induct)
    (auto simp: result_simps dest: judge_case_step_Inl)

text \<open>
  The public projection of one case: the text is free of control units, each stream is at most
  4096 bytes, and what is displayed is charged to the budget, which never goes below zero.
\<close>

definition stream_ok :: "jsstr option \<Rightarrow> bool" where
  "stream_ok s = (case s of None \<Rightarrow> False
     | Some t \<Rightarrow> byteLength t \<le> 4096 \<and> list_all (\<lambda>u. \<not> control_unit u) t)"

definition shown_bytes :: "case_result \<Rightarrow> nat" where
  "shown_bytes r = byteLength (the (cr_stdout r)) + byteLength (the (cr_stderr r))"

lemma project_case_bounds:
  assumes "project_case strip t c v budget = (r, budget')" and "0 \<le> budget"
  shows "0 \<le> budget'" and "budget' + int (shown_bytes r) = budget"
    and "stream_ok (cr_stdout r)" and "stream_ok (cr_stderr r)"
    and "cr_caseId r = jc_id t" and "cr_verdict r = v"
proof -
  define out where "out = display strip (oc_stdout c) (min 4096 budget)"
  define err where "err = display strip (oc_stderr c) (min 4096 (budget - int (byteLength out)))"
  have r: "cr_stdout r = Some out" "cr_stderr r = Some err" "cr_caseId r = jc_id t" "cr_verdict r = v"
    and b: "budget' = budget - int (byteLength out) - int (byteLength err)"
    using assms(1) unfolding project_case_def out_def err_def by (auto simp: Let_def)
  have out: "int (byteLength out) \<le> min 4096 budget"
    unfolding out_def using assms(2) by (intro display_byteLength) simp
  then have err: "int (byteLength err) \<le> min 4096 (budget - int (byteLength out))"
    unfolding err_def by (intro display_byteLength) simp
  show "0 \<le> budget'" "budget' + int (shown_bytes r) = budget"
    using b err by (simp_all add: shown_bytes_def r)
  show "stream_ok (cr_stdout r)" "stream_ok (cr_stderr r)"
    using out err unfolding r stream_ok_def
    by (auto simp: list_all_iff out_def err_def dest: display_no_control)
  show "cr_caseId r = jc_id t" "cr_verdict r = v" by (rule r)+
qed

definition projection_inv :: "judge_acc \<Rightarrow> bool" where
  "projection_inv acc \<longleftrightarrow>
     0 \<le> ja_budget acc \<and>
     ja_budget acc + int (sum_list (map shown_bytes (ja_results acc))) = 24 * 1024 \<and>
     list_all (\<lambda>r. stream_ok (cr_stdout r) \<and> stream_ok (cr_stderr r)) (ja_results acc)"

lemma judge_case_step_RUN:
  assumes "judge_case_step strip RUN is_last t c acc = Inr acc'" and "projection_inv acc"
  shows "projection_inv acc' \<and>
     (\<exists>r. ja_results acc' = ja_results acc @ [r] \<and> cr_caseId r = jc_id t \<and>
          cr_verdict r = current_verdict t c)"
proof -
  obtain r b where rb: "project_case strip t c (current_verdict t c) (ja_budget acc) = (r, b)"
    by fastforce
  from assms(2) have "0 \<le> ja_budget acc" by (simp add: projection_inv_def)
  note bounds = project_case_bounds [OF rb this]
  from assms(1) rb have "ja_results acc' = ja_results acc @ [r]" "ja_budget acc' = b"
    by (auto simp: judge_case_step_def Let_def split: if_splits)
  with bounds assms(2) show ?thesis by (auto simp: projection_inv_def)
qed

lemma judge_loop_RUN:
  assumes "judge_loop strip RUN ts cs acc = Inr acc'" and "projection_inv acc"
  shows "projection_inv acc' \<and>
     map (\<lambda>r. (cr_caseId r, cr_verdict r)) (ja_results acc') =
       map (\<lambda>r. (cr_caseId r, cr_verdict r)) (ja_results acc) @
       map2 (\<lambda>t c. (jc_id t, current_verdict t c)) ts cs"
  using assms
proof (induction strip RUN ts cs acc rule: judge_loop.induct)
  case (3 strip t ts c cs acc)
  then obtain acc1 where step: "judge_case_step strip RUN (cs = []) t c acc = Inr acc1"
    and rest: "judge_loop strip RUN ts cs acc1 = Inr acc'"
    by (auto simp: result_simps)
  from judge_case_step_RUN [OF step "3.prems"(2)] "3.hyps" [OF rest] show ?case by auto
qed auto

section \<open>The judge\<close>

lemma selectCases_Inr:
  "selectCases is_uuid plan m = Inr ts \<longleftrightarrow>
     jp_comparator plan = ''EXACT_NEWLINE'' \<and> length (jp_cases plan) \<le> 100 \<and>
     distinct (map jc_id (jp_cases plan)) \<and> distinct (map jc_ordinal (jp_cases plan)) \<and>
     (\<forall>c \<in> set (jp_cases plan). is_uuid (jc_id c) \<and> 0 \<le> jc_ordinal c) \<and> ts \<noteq> [] \<and>
     ts = sort_key jc_ordinal (filter (\<lambda>c. m = SUBMIT \<or> jc_visibility c = PUBLIC) (jp_cases plan))"
  by (auto simp: selectCases_def Let_def) force

lemma selectCases_Inl: "selectCases is_uuid plan m = Inl e \<Longrightarrow> e = JudgeProtocolError"
  by (auto simp: selectCases_def Let_def split: if_splits)

text \<open>The conditions under which \<open>judge\<close> reaches its loop.\<close>

definition judgeable :: "(string \<Rightarrow> bool) \<Rightarrow> language \<Rightarrow> observation \<Rightarrow> bool" where
  "judgeable is_uuid lang ob \<longleftrightarrow>
     observationSchema is_uuid ob \<and> outputBytes ob \<le> 1024 * 1024 \<and>
     \<not> ob_cancellationConfirmed ob \<and> (lang = Java \<longleftrightarrow> ob_compilation ob \<noteq> None)"

definition compiled :: "observation \<Rightarrow> bool" where
  "compiled ob = (case ob_compilation ob of None \<Rightarrow> True | Some c \<Rightarrow> cp_ok c)"

definition acc0 :: judge_acc where
  "acc0 = \<lparr>ja_verdict = ACCEPTED, ja_budget = 24 * 1024, ja_results = []\<rparr>"

definition closed_run :: "judge_case list \<Rightarrow> observed_case list \<Rightarrow> bool" where
  "closed_run ts cs \<longleftrightarrow>
     cs \<noteq> [] \<and> length cs \<le> length ts \<and> (length cs = length ts \<or> oc_failure (last cs) \<noteq> None)"

lemma projection_inv_acc0: "projection_inv acc0"
  by (simp add: projection_inv_def acc0_def)

text \<open>Inversion of a judged observation: rejected by the compiler, or judged case by case.\<close>

lemma judge_cases:
  assumes "judge is_uuid strip plan m lang inp = Inr r"
  obtains (compilation) ob ts where "inp = Some ob" "selectCases is_uuid plan m = Inr ts"
      "judgeable is_uuid lang ob" "\<not> compiled ob" "ob_cases ob = []"
      "r = \<lparr>jr_verdict = COMPILATION_ERROR, jr_runtimeMs = None, jr_memoryKiB = None,
            jr_publicCaseResults = None\<rparr>"
    | (judged) ob ts acc where "inp = Some ob" "selectCases is_uuid plan m = Inr ts"
      "judgeable is_uuid lang ob" "compiled ob" "closed_run ts (ob_cases ob)"
      "judge_loop strip m ts (ob_cases ob) acc0 = Inr acc" "jr_verdict r = ja_verdict acc"
      "jr_publicCaseResults r = (if m = RUN then Some (ja_results acc) else None)"
proof (cases inp)
  case None
  with assms show ?thesis by (auto simp: judge_def result_simps)
next
  case (Some ob)
  from assms obtain ts where ts: "selectCases is_uuid plan m = Inr ts"
    by (auto simp: judge_def result_simps)
  from assms Some ts have ok: "judgeable is_uuid lang ob"
    by (auto simp: judge_def judgeable_def split: if_splits)
  show ?thesis
  proof (cases "compiled ob")
    case False
    with assms Some ts ok show ?thesis
      by (intro compilation [of ob ts])
        (auto simp: judge_def judgeable_def compiled_def split: if_splits option.splits)
  next
    case True
    with assms Some ts ok obtain acc where "closed_run ts (ob_cases ob)"
      "judge_loop strip m ts (ob_cases ob) acc0 = Inr acc" "jr_verdict r = ja_verdict acc"
      "jr_publicCaseResults r = (if m = RUN then Some (ja_results acc) else None)"
      by (auto simp: judge_def judgeable_def compiled_def closed_run_def acc0_def result_simps Let_def
          split: if_splits option.splits)
    with Some ts ok True show ?thesis by (intro judged [of ob ts acc])
  qed
qed

lemma judge_judged:
  assumes "selectCases is_uuid plan m = Inr ts" and "judgeable is_uuid lang ob" and "compiled ob"
    and "closed_run ts (ob_cases ob)" and "judge_loop strip m ts (ob_cases ob) acc0 = Inr acc"
  shows "\<exists>r. judge is_uuid strip plan m lang (Some ob) = Inr r \<and> jr_verdict r = ja_verdict acc"
  using assms
  by (auto simp: judge_def judgeable_def compiled_def closed_run_def acc0_def Let_def
      split: if_splits option.splits)

definition case_passes :: "judge_case \<Rightarrow> observed_case \<Rightarrow> bool" where
  "case_passes t c \<longleftrightarrow>
     oc_caseId c = jc_id t \<and> oc_failure c = None \<and> oc_exitCode c = Some 0 \<and>
     compareOutput (oc_stdout c) (jc_expectedOutput t)"

lemma current_verdict_ACCEPTED:
  assumes "observedCaseSchema is_uuid c"
  shows "current_verdict t c = ACCEPTED \<longleftrightarrow>
     oc_failure c = None \<and> oc_exitCode c = Some 0 \<and> compareOutput (oc_stdout c) (jc_expectedOutput t)"
  using assms by (auto simp: current_verdict_def observedCaseSchema_def split: option.splits)

lemma all_passes:
  assumes "\<forall>c \<in> set cs. observedCaseSchema is_uuid c" and "length cs \<le> length ts"
  shows "list_all2 well_reported (take (length cs) ts) cs \<and>
      first_failure (map2 current_verdict ts cs) = ACCEPTED \<longleftrightarrow>
    list_all2 case_passes (take (length cs) ts) cs"
  using assms
proof (induction cs arbitrary: ts)
  case (Cons c cs)
  then obtain t us where ts: "ts = t # us" by (cases ts) auto
  with Cons.prems have "well_reported t c \<and> current_verdict t c = ACCEPTED \<longleftrightarrow> case_passes t c"
    using current_verdict_ACCEPTED [of is_uuid c t] by (auto simp: well_reported_def case_passes_def)
  with Cons ts show ?case by auto
qed simp

lemma list_all2_nth_last:
  assumes "list_all2 P ts cs" and "cs \<noteq> []"
  shows "P (last ts) (last cs)"
  using assms by (induction rule: list_all2_induct) auto

lemma accepted_iff:
  "(\<exists>r. judge is_uuid strip plan m lang (Some ob) = Inr r \<and> jr_verdict r = ACCEPTED) \<longleftrightarrow>
   (\<exists>ts. selectCases is_uuid plan m = Inr ts \<and> judgeable is_uuid lang ob \<and> compiled ob \<and>
         list_all2 case_passes ts (ob_cases ob))"
proof
  assume "\<exists>r. judge is_uuid strip plan m lang (Some ob) = Inr r \<and> jr_verdict r = ACCEPTED"
  then obtain r where "judge is_uuid strip plan m lang (Some ob) = Inr r" and v: "jr_verdict r = ACCEPTED"
    by blast
  then show "\<exists>ts. selectCases is_uuid plan m = Inr ts \<and> judgeable is_uuid lang ob \<and> compiled ob \<and>
         list_all2 case_passes ts (ob_cases ob)"
  proof (cases rule: judge_cases)
    case (judged ob' ts acc)
    let ?cs = "ob_cases ob"
    from judged(1,3,5,6) have ob: "ob' = ob" "length ?cs \<le> length ts" "?cs \<noteq> []"
      and schema: "\<forall>c \<in> set ?cs. observedCaseSchema is_uuid c"
      by (auto simp: closed_run_def judgeable_def observationSchema_def)
    with judged(6) judge_loop_Inr [of ?cs ts strip m acc0]
    have "list_all2 well_reported (take (length ?cs) ts) ?cs" by blast
    moreover have "first_failure (map2 current_verdict ts ?cs) = ACCEPTED"
      using judge_loop_verdict [OF judged(6)] judged(7) v ob by (simp add: acc0_def)
    ultimately have passes: "list_all2 case_passes (take (length ?cs) ts) ?cs"
      using all_passes [OF schema ob(2)] by blast
    then have "oc_failure (last ?cs) = None"
      using list_all2_nth_last [OF passes ob(3)] by (simp add: case_passes_def)
    with judged(5) ob have "length ?cs = length ts" by (auto simp: closed_run_def)
    with passes judged ob show ?thesis by (intro exI [of _ ts]) simp
  qed (use v in auto)
next
  assume "\<exists>ts. selectCases is_uuid plan m = Inr ts \<and> judgeable is_uuid lang ob \<and> compiled ob \<and>
         list_all2 case_passes ts (ob_cases ob)"
  then obtain ts where ts: "selectCases is_uuid plan m = Inr ts" and ok: "judgeable is_uuid lang ob"
    "compiled ob" and passes: "list_all2 case_passes ts (ob_cases ob)" by blast
  let ?cs = "ob_cases ob"
  from passes have len: "length ?cs = length ts" by (simp add: list_all2_lengthD)
  have schema: "\<forall>c \<in> set ?cs. observedCaseSchema is_uuid c"
    using ok(1) by (simp add: judgeable_def observationSchema_def)
  from passes len all_passes [OF schema, of ts]
  have wr: "list_all2 well_reported ts ?cs" "first_failure (map2 current_verdict ts ?cs) = ACCEPTED"
    by simp_all
  have "\<forall>c \<in> set ?cs. oc_failure c = None"
    using passes by (auto simp: case_passes_def in_set_conv_nth list_all2_conv_all_nth)
  then have "\<forall>c \<in> set (butlast ?cs). oc_failure c = None" by (auto dest: in_set_butlastD)
  with wr len judge_loop_Inr [of ?cs ts strip m acc0] obtain acc
    where acc: "judge_loop strip m ts ?cs acc0 = Inr acc" by auto
  have "closed_run ts ?cs" using ts len by (auto simp: closed_run_def selectCases_Inr)
  from judge_judged [OF ts ok this acc] judge_loop_verdict [OF acc] wr(2)
  show "\<exists>r. judge is_uuid strip plan m lang (Some ob) = Inr r \<and> jr_verdict r = ACCEPTED"
    by (auto simp: acc0_def)
qed

text \<open>
  C10. A submission is accepted exactly when the plan is well formed, the observation has the schema,
  is within the output bound, confirms no cancellation and fits the language, the compiler (if any)
  succeeded, and every selected case, in ordinal order and without exception, was observed to exit
  with 0, without a failure, and with the expected output.
\<close>

theorem judge_accepted_iff:
  "(\<exists>r. judge is_uuid strip plan m lang (Some ob) = Inr r \<and> jr_verdict r = ACCEPTED) \<longleftrightarrow>
   (\<exists>ts. selectCases is_uuid plan m = Inr ts \<and> judgeable is_uuid lang ob \<and> compiled ob \<and>
         list_all2 case_passes ts (ob_cases ob))"
  by (rule accepted_iff)

text \<open>
  C20. The verdict of a judged observation is the compilation error when the compiler failed, and
  otherwise that of the first observed case that is not accepted; the observed cases are the
  selected cases in order, a proper prefix of them only when the last one reports a limit failure,
  which no earlier case does.
\<close>

theorem judge_first_failure:
  assumes "judge is_uuid strip plan m lang (Some ob) = Inr r"
  shows "\<exists>ts. selectCases is_uuid plan m = Inr ts \<and>
     (if compiled ob
      then jr_verdict r = first_failure (map2 current_verdict ts (ob_cases ob)) \<and>
           map oc_caseId (ob_cases ob) = map jc_id (take (length (ob_cases ob)) ts) \<and>
           (length (ob_cases ob) = length ts \<or> oc_failure (last (ob_cases ob)) \<noteq> None) \<and>
           list_all (\<lambda>c. oc_failure c = None) (butlast (ob_cases ob))
      else jr_verdict r = COMPILATION_ERROR)"
  using assms
proof (cases rule: judge_cases)
  case (judged ob' ts acc)
  then have ob: "ob' = ob" "length (ob_cases ob) \<le> length ts" by (auto simp: closed_run_def)
  with judged(6) judge_loop_Inr [of "ob_cases ob" ts strip m acc0]
  have wr: "list_all2 well_reported (take (length (ob_cases ob)) ts) (ob_cases ob)"
    "\<forall>c \<in> set (butlast (ob_cases ob)). oc_failure c = None" by blast+
  from wr(1) have "map jc_id (take (length (ob_cases ob)) ts) = map oc_caseId (ob_cases ob)"
    by (intro nth_equalityI) (auto simp: list_all2_conv_all_nth well_reported_def)
  with wr judged ob judge_loop_verdict [OF judged(6)] show ?thesis
    by (intro exI [of _ ts]) (auto simp: acc0_def closed_run_def list_all_iff)
qed auto

text \<open>
  C21. What \<open>judge\<close> reveals: nothing of the cases of a submission; of a run, one result per observed
  case, in ordinal order, each of a case with public visibility and with the verdict of that case,
  each stream at most 4096 bytes of UTF-8 without control or bidirectional characters, and all
  streams together at most 24 KiB.
\<close>

theorem judge_public_results:
  assumes "judge is_uuid strip plan m lang (Some ob) = Inr r"
  shows "case jr_publicCaseResults r of
      None \<Rightarrow> m = SUBMIT \<or> \<not> compiled ob
    | Some rs \<Rightarrow> m = RUN \<and>
        (\<exists>ts. selectCases is_uuid plan RUN = Inr ts \<and> list_all (\<lambda>t. jc_visibility t = PUBLIC) ts \<and>
           map (\<lambda>x. (cr_caseId x, cr_verdict x)) rs =
             map2 (\<lambda>t c. (jc_id t, current_verdict t c)) ts (ob_cases ob)) \<and>
        list_all (\<lambda>x. stream_ok (cr_stdout x) \<and> stream_ok (cr_stderr x)) rs \<and>
        sum_list (map shown_bytes rs) \<le> 24 * 1024"
  using assms
proof (cases rule: judge_cases)
  case (judged ob' ts acc)
  show ?thesis
  proof (cases m)
    case RUN
    from judge_loop_RUN [OF judged(6) [unfolded RUN] projection_inv_acc0]
    have "projection_inv acc" "map (\<lambda>x. (cr_caseId x, cr_verdict x)) (ja_results acc) =
        map2 (\<lambda>t c. (jc_id t, current_verdict t c)) ts (ob_cases ob')"
      by (simp_all add: acc0_def)
    moreover have "list_all (\<lambda>t. jc_visibility t = PUBLIC) ts"
      using judged(2) RUN by (simp add: selectCases_Inr list_all_iff)
    ultimately show ?thesis
      using RUN judged by (auto simp: projection_inv_def)
  next
    case SUBMIT
    with judged(8) show ?thesis by simp
  qed
qed (cases m; simp)

text \<open>
  \<open>judge\<close> fails in two ways only: with the protocol error, or, for an observation that confirms
  a cancellation, with \<open>SANDBOX_CANCELLED\<close>; its indexing of the selected cases never goes out of range.
\<close>

lemma judge_errors:
  assumes "judge is_uuid strip plan m lang inp = Inl e"
  shows "e = JudgeProtocolError \<or>
     (e = PlainError ''SANDBOX_CANCELLED'' \<and> (\<exists>ob. inp = Some ob \<and> ob_cancellationConfirmed ob))"
proof (cases "selectCases is_uuid plan m")
  case (Inl e')
  with assms selectCases_Inl [OF Inl] show ?thesis by (simp add: judge_def)
next
  case (Inr ts)
  show ?thesis
  proof (cases "\<exists>ob. inp = Some ob \<and> judgeable is_uuid lang ob \<and> compiled ob \<and> closed_run ts (ob_cases ob)")
    case True
    then obtain ob where ob: "inp = Some ob" "judgeable is_uuid lang ob" "compiled ob"
      "closed_run ts (ob_cases ob)" by blast
    show ?thesis
    proof (cases "judge_loop strip m ts (ob_cases ob) acc0")
      case (Inl e')
      with ob Inr assms have "e = e'"
        by (auto simp: judge_def judgeable_def compiled_def closed_run_def acc0_def
            split: if_splits option.splits)
      with judge_loop_Inl [OF Inl] ob(4) show ?thesis by (simp add: closed_run_def)
    next
      case (Inr acc)
      from judge_judged [OF \<open>selectCases is_uuid plan m = Inr ts\<close> ob(2-4) Inr] assms ob(1)
      show ?thesis by auto
    qed
  next
    case False
    with assms Inr show ?thesis
      by (cases inp) (auto simp: judge_def judgeable_def compiled_def closed_run_def
          split: if_split_asm option.splits)
  qed
qed

text \<open>The selected cases are exactly those visible in the mode, in strictly increasing ordinal order.\<close>

lemma selectCases_sorted:
  assumes "selectCases is_uuid plan m = Inr ts"
  shows "sorted_wrt (<) (map jc_ordinal ts) \<and> distinct (map jc_id ts) \<and> ts \<noteq> [] \<and>
     set ts = {c \<in> set (jp_cases plan). m = SUBMIT \<or> jc_visibility c = PUBLIC}"
proof -
  let ?P = "\<lambda>c. m = SUBMIT \<or> jc_visibility c = PUBLIC"
  from assms have ts: "ts = sort_key jc_ordinal (filter ?P (jp_cases plan))" "ts \<noteq> []"
    and d: "distinct (map jc_id (jp_cases plan))" "distinct (map jc_ordinal (jp_cases plan))"
    unfolding selectCases_Inr by blast+
  have "mset (map jc_ordinal ts) = mset (map jc_ordinal (filter ?P (jp_cases plan)))"
    "mset (map jc_id ts) = mset (map jc_id (filter ?P (jp_cases plan)))"
    unfolding ts(1) by simp_all
  then have "distinct (map jc_ordinal ts)" "distinct (map jc_id ts)"
    using d [THEN distinct_map_filterI, of ?P] by (metis mset_eq_imp_distinct_iff)+
  moreover have "sorted (map jc_ordinal ts)" unfolding ts(1) by simp
  ultimately show ?thesis
    using ts by (auto simp: strict_sorted_iff)
qed

section \<open>A plan and an observation\<close>

text \<open>
  A plan with a public and a hidden case, listed out of order, and the observation of a run that
  printed a newline and a bell after the expected answer.
\<close>

definition sample_plan :: judge_plan where
  "sample_plan = \<lparr>jp_versionId = ''v'', jp_comparator = ''EXACT_NEWLINE'', jp_timeMs = 1000,
     jp_memoryKiB = 65536, jp_cases =
       [\<lparr>jc_id = ''hidden'', jc_ordinal = 7, jc_visibility = HIDDEN, jc_input = js ''2'', jc_files = [],
         jc_expectedOutput = js ''4''\<rparr>,
        \<lparr>jc_id = ''public'', jc_ordinal = 3, jc_visibility = PUBLIC, jc_input = js ''1'', jc_files = [],
         jc_expectedOutput = js ''1''\<rparr>]\<rparr>"

definition sample_case :: "uuid \<Rightarrow> jsstr \<Rightarrow> observed_case" where
  "sample_case i out = \<lparr>oc_caseId = i, oc_stdout = out, oc_stderr = [], oc_exitCode = Some 0,
     oc_failure = None, oc_wallMs = 5, oc_cpuMs = Some 4, oc_memoryKiB = Some 900\<rparr>"

definition sample_run :: observation where
  "sample_run = \<lparr>ob_cancellationConfirmed = False, ob_compilation = None,
     ob_cases = [sample_case ''public'' [0x31, 10, 7]]\<rparr>"

definition sample_submit :: observation where
  "sample_submit = \<lparr>ob_cancellationConfirmed = False, ob_compilation = None,
     ob_cases = [sample_case ''public'' [0x31, 13, 10], sample_case ''hidden'' [0x35]]\<rparr>"

lemma sample_selected:
  "selectCases (\<lambda>_. True) sample_plan SUBMIT =
     Inr [jp_cases sample_plan ! 1, jp_cases sample_plan ! 0]"
  by code_simp

lemmas judge_eval =
  judge_def selectCases_def sample_plan_def sample_run_def sample_submit_def sample_case_def
  observationSchema_def observedCaseSchema_def safe_int_def outputBytes_def js_def unit_bytes_def
  judge_case_step_def current_verdict_def compareOutput_def project_case_def display_def sanitized_def
  control_unit_def compiled_def

lemma sample_run_judged:
  "judge (\<lambda>_. True) id sample_plan RUN Python (Some sample_run) =
     Inr \<lparr>jr_verdict = WRONG_ANSWER, jr_runtimeMs = Some 4, jr_memoryKiB = Some 900,
          jr_publicCaseResults = Some [\<lparr>cr_caseId = ''public'', cr_verdict = WRONG_ANSWER,
            cr_outputTruncated = None, cr_stdout = Some [0x31, 10], cr_stderr = Some [],
            cr_exitCode = Some 0, cr_runtimeMs = Some 4, cr_memoryKiB = Some 900\<rparr>]\<rparr>"
  by (simp add: judge_eval)

lemma sample_submit_judged:
  "judge (\<lambda>_. True) id sample_plan SUBMIT Python (Some sample_submit) =
     Inr \<lparr>jr_verdict = WRONG_ANSWER, jr_runtimeMs = Some 4, jr_memoryKiB = Some 900,
          jr_publicCaseResults = None\<rparr>"
  by (simp add: judge_eval)

theorem judge_first_failure_witness:
  "\<exists>ts. selectCases (\<lambda>_. True) sample_plan SUBMIT = Inr ts \<and>
     WRONG_ANSWER = first_failure (map2 current_verdict ts (ob_cases sample_submit))"
proof -
  have "compiled sample_submit" by (simp add: judge_eval)
  with judge_first_failure [OF sample_submit_judged] show ?thesis by auto
qed

theorem judge_public_results_witness:
  "sum_list (map shown_bytes [\<lparr>cr_caseId = ''public'', cr_verdict = WRONG_ANSWER,
     cr_outputTruncated = None, cr_stdout = Some [0x31, 10], cr_stderr = Some [],
     cr_exitCode = Some 0, cr_runtimeMs = Some 4, cr_memoryKiB = Some 900\<rparr>]) \<le> 24 * 1024"
  using judge_public_results [OF sample_run_judged] by simp

lemma judge_errors_example:
  "PlainError ''SANDBOX_CANCELLED'' = JudgeProtocolError \<or>
   (\<exists>ob. Some (sample_run\<lparr>ob_cancellationConfirmed := True\<rparr>) = Some ob \<and> ob_cancellationConfirmed ob)"
proof -
  have "judge (\<lambda>_. True) id sample_plan RUN Python (Some (sample_run\<lparr>ob_cancellationConfirmed := True\<rparr>)) =
      Inl (PlainError ''SANDBOX_CANCELLED'')"
    by (simp add: judge_eval)
  from judge_errors [OF this] show ?thesis by blast
qed

end
