(* ===== verification/Text.thy ===== *)
theory Text
  imports JsString "HOL-Library.Sublist"
begin

text \<open>
  Text processing of the standard library, as far as the program uses it: decimal numerals and
  reading them back, \<open>split\<close>, \<open>join\<close>, \<open>trim\<close> and \<open>toLowerCase\<close> on ASCII, and the UTF-8
  encoding and decoding of \<open>Buffer\<close>. Each reader is related to its writer by a round trip.
\<close>

section \<open>Decimal text\<close>

text \<open>The text of an integer in a template literal.\<close>

fun nat_text :: "nat \<Rightarrow> string" where
  "nat_text n = (if n < 10 then [char_of (48 + n)] else nat_text (n div 10) @ [char_of (48 + n mod 10)])"

declare nat_text.simps [simp del]

definition int_text :: "int \<Rightarrow> string" where
  "int_text n = (if n < 0 then CHR ''-'' # nat_text (nat (- n)) else nat_text (nat n))"

text \<open>The value of a string of digits, as \<open>Number\<close> reads it when the value is a safe integer.\<close>

definition digits_value :: "string \<Rightarrow> nat" where
  "digits_value s = foldl (\<lambda>n c. 10 * n + (of_char c - 48)) 0 s"

lemma of_char_digit: "(n :: nat) < 10 \<Longrightarrow> (of_char (char_of (48 + n) :: char) :: nat) = 48 + n"
  by (simp add: take_bit_eq_mod)

lemma digit_char_of: "(n :: nat) < 10 \<Longrightarrow> digit_char (char_of (48 + n))"
proof -
  assume "n < 10"
  then have "n = 0 \<or> n = 1 \<or> n = 2 \<or> n = 3 \<or> n = 4 \<or> n = 5 \<or> n = 6 \<or> n = 7 \<or> n = 8 \<or> n = 9" by arith
  then show ?thesis by (elim disjE) (simp_all add: digit_char_def less_eq_char_def of_char_digit)
qed

lemma nat_text_digits: "nat_text n \<noteq> [] \<and> list_all digit_char (nat_text n)"
proof (induction n rule: nat_text.induct)
  case (1 n)
  then show ?case by (subst (1 2) nat_text.simps) (auto simp: digit_char_of)
qed

lemma digits_value_append:
  "digits_value (s @ [c]) = 10 * digits_value s + (of_char c - 48)"
  by (simp add: digits_value_def)

lemma digits_value_nat_text [simp]: "digits_value (nat_text n) = n"
proof (induction n rule: nat_text.induct)
  case (1 n)
  show ?case
  proof (cases "n < 10")
    case True
    then show ?thesis by (subst nat_text.simps) (simp add: digits_value_def of_char_digit)
  next
    case False
    with 1 have "digits_value (nat_text (n div 10)) = n div 10" by simp
    with False show ?thesis
      by (subst nat_text.simps) (simp add: digits_value_append of_char_digit)
  qed
qed

section \<open>Splitting, joining and trimming\<close>

text \<open>\<open>s.split(c)\<close> for a one-character separator, and \<open>join\<close>.\<close>

fun split_on :: "'a \<Rightarrow> 'a list \<Rightarrow> 'a list list" where
  "split_on c [] = [[]]"
| "split_on c (x # xs) =
     (if x = c then [] # split_on c xs
      else (case split_on c xs of [] \<Rightarrow> [[x]] | y # ys \<Rightarrow> (x # y) # ys))"

fun join_with :: "'a list \<Rightarrow> 'a list list \<Rightarrow> 'a list" where
  "join_with c [] = []"
| "join_with c [x] = x"
| "join_with c (x # y # ys) = x @ c @ join_with c (y # ys)"

lemma split_on_nonempty [simp]: "split_on c xs \<noteq> []"
  by (induction xs) (auto split: list.splits)

lemma split_on_append:
  "c \<notin> set xs \<Longrightarrow> split_on c (xs @ c # ys) = xs # split_on c ys"
  by (induction xs) auto

lemma split_on_single: "c \<notin> set xs \<Longrightarrow> split_on c xs = [xs]"
  by (induction xs) auto

lemma split_join:
  "list_all (\<lambda>x. c \<notin> set x) xs \<Longrightarrow> xs \<noteq> [] \<Longrightarrow> split_on c (join_with [c] xs) = xs"
  by (induction xs rule: induct_list012) (auto simp: split_on_append split_on_single)

text \<open>\<open>s.trim()\<close>: the white space and line terminators of ECMAScript.\<close>

definition js_space :: "code_unit \<Rightarrow> bool" where
  "js_space u \<longleftrightarrow>
     (9 \<le> u \<and> u \<le> 13) \<or> u = 0x20 \<or> u = 0xA0 \<or> u = 0x1680 \<or> (0x2000 \<le> u \<and> u \<le> 0x200A) \<or>
     u = 0x2028 \<or> u = 0x2029 \<or> u = 0x202F \<or> u = 0x205F \<or> u = 0x3000 \<or> u = 0xFEFF"

definition js_trim :: "jsstr \<Rightarrow> jsstr" where
  "js_trim s = rev (dropWhile js_space (rev (dropWhile js_space s)))"

lemma js_trim_id:
  "s \<noteq> [] \<Longrightarrow> \<not> js_space (hd s) \<Longrightarrow> \<not> js_space (last s) \<Longrightarrow> js_trim s = s"
proof -
  assume s: "s \<noteq> []" "\<not> js_space (hd s)" "\<not> js_space (last s)"
  then have "dropWhile js_space s = s" by (cases s) auto
  moreover from s have "dropWhile js_space (rev s) = rev s" by (cases s rule: rev_cases) auto
  ultimately show ?thesis by (simp add: js_trim_def)
qed

lemma js_trim_append_space:
  "s \<noteq> [] \<Longrightarrow> \<not> js_space (hd s) \<Longrightarrow> js_space u \<Longrightarrow> js_trim (s @ [u]) = js_trim s"
  by (cases s) (simp_all add: js_trim_def)

text \<open>\<open>trim\<close> and \<open>toLowerCase\<close> of ASCII text.\<close>

definition ascii_trim :: "string \<Rightarrow> string" where
  "ascii_trim s = (let sp = (\<lambda>c. js_space (of_char c)) in rev (dropWhile sp (rev (dropWhile sp s))))"

definition lower_case :: "char \<Rightarrow> char" where
  "lower_case c = (if upper_char c then char_of (of_char c + 32 :: nat) else c)"

definition ascii_lower :: "string \<Rightarrow> string" where
  "ascii_lower s = map lower_case s"

section \<open>UTF-8\<close>

type_synonym byte = "8 word"
type_synonym bytes = "byte list"

text \<open>\<open>Buffer.from(s)\<close>: a lone surrogate is replaced by U+FFFD.\<close>

definition point_value :: "jsstr \<Rightarrow> nat" where
  "point_value p =
     (case p of
        [u] \<Rightarrow> if high_surrogate u \<or> low_surrogate u then 0xFFFD else unat u
      | [u, v] \<Rightarrow> 0x10000 + (unat u - 0xD800) * 0x400 + (unat v - 0xDC00)
      | _ \<Rightarrow> 0)"

definition encode_value :: "nat \<Rightarrow> bytes" where
  "encode_value n =
     (if n < 0x80 then [of_nat n]
      else if n < 0x800 then [of_nat (0xC0 + n div 0x40), of_nat (0x80 + n mod 0x40)]
      else if n < 0x10000
      then [of_nat (0xE0 + n div 0x1000), of_nat (0x80 + n div 0x40 mod 0x40), of_nat (0x80 + n mod 0x40)]
      else [of_nat (0xF0 + n div 0x40000), of_nat (0x80 + n div 0x1000 mod 0x40),
            of_nat (0x80 + n div 0x40 mod 0x40), of_nat (0x80 + n mod 0x40)])"

definition utf8_encode :: "jsstr \<Rightarrow> bytes" where
  "utf8_encode s = concat (map (encode_value \<circ> point_value) (code_points s))"

text \<open>
  \<open>buffer.toString()\<close>: the UTF-8 decoder of the Encoding standard. The state of an unfinished
  sequence is the number of missing bytes, the range of the next one and the value so far; a byte
  out of range ends the sequence with U+FFFD and is read again.
\<close>

definition utf8_lead :: "nat \<Rightarrow> (nat \<times> nat \<times> nat \<times> nat) option" where
  "utf8_lead b =
     (if 0xC2 \<le> b \<and> b \<le> 0xDF then Some (1, 0x80, 0xBF, b - 0xC0)
      else if b = 0xE0 then Some (2, 0xA0, 0xBF, 0)
      else if b = 0xED then Some (2, 0x80, 0x9F, 0xD)
      else if 0xE1 \<le> b \<and> b \<le> 0xEF then Some (2, 0x80, 0xBF, b - 0xE0)
      else if b = 0xF0 then Some (3, 0x90, 0xBF, 0)
      else if 0xF1 \<le> b \<and> b \<le> 0xF3 then Some (3, 0x80, 0xBF, b - 0xF0)
      else if b = 0xF4 then Some (3, 0x80, 0x8F, 4)
      else None)"

definition units_of :: "nat \<Rightarrow> jsstr" where
  "units_of n =
     (if n < 0x10000 then [of_nat n]
      else [of_nat (0xD800 + (n - 0x10000) div 0x400), of_nat (0xDC00 + (n - 0x10000) mod 0x400)])"

function utf8_run :: "(nat \<times> nat \<times> nat \<times> nat) option \<Rightarrow> bytes \<Rightarrow> jsstr" where
  "utf8_run None [] = []"
| "utf8_run (Some st) [] = [0xFFFD]"
| "utf8_run None (b # bs) =
     (if unat b < 0x80 then of_nat (unat b) # utf8_run None bs
      else (case utf8_lead (unat b) of None \<Rightarrow> 0xFFFD # utf8_run None bs | Some st \<Rightarrow> utf8_run (Some st) bs))"
| "utf8_run (Some (n, lo, hi, v)) (b # bs) =
     (if lo \<le> unat b \<and> unat b \<le> hi
      then (let v' = 0x40 * v + (unat b - 0x80)
            in if n \<le> 1 then units_of v' @ utf8_run None bs else utf8_run (Some (n - 1, 0x80, 0xBF, v')) bs)
      else 0xFFFD # utf8_run None (b # bs))"
  by pat_completeness auto
termination
  by (relation "measure (\<lambda>(st, bs). 2 * length bs + (if st = None then 0 else 1))") auto

definition utf8_decode :: "bytes \<Rightarrow> jsstr" where
  "utf8_decode bs = utf8_run None bs"

lemma length_utf8_run: "length (utf8_run st bs) \<le> length bs + (if st = None then 0 else 1)"
  by (induction st bs rule: utf8_run.induct) (auto simp: units_of_def Let_def split: option.splits)

lemma byteLength_le: "byteLength s \<le> 3 * length s"
proof (induction s)
  case (Cons u s)
  then show ?case using byteLength_Cons_le [of u s] unit_bytes_bounds(2) [of u] by (simp del: unit_bytes_bounds)
qed simp

text \<open>Decoding at most triples the size: every unit costs a byte and is at most three bytes again.\<close>

lemma byteLength_decode: "byteLength (utf8_decode bs) \<le> 3 * length bs"
  using byteLength_le [of "utf8_decode bs"] length_utf8_run [of None bs]
  unfolding utf8_decode_def by simp

text \<open>Code units of ASCII text.\<close>

lemma utf8_run_ascii: "list_all (\<lambda>b. unat b < 0x80) bs \<Longrightarrow> utf8_run None bs = map (\<lambda>b. of_nat (unat b)) bs"
  by (induction bs) auto

end
