(* ===== verification/RuntimePolicy.thy ===== *)
theory RuntimePolicy
  imports Judge Text
begin

text \<open>
  The operator's policy of \<open>packages/runtime-policy/src/index.ts\<close>: the trusted runtime manifest, the
  resource caps, the schema of a sandbox request, the runtime profile of each language and the
  arguments of \<open>docker create\<close>. \<open>z.uuid()\<close> is the parameter \<open>is_uuid\<close>.
\<close>

section \<open>The manifest\<close>

text \<open>\<open>/^[a-z0-9][a-z0-9./:_-]*@sha256:[a-f0-9]{64}$/\<close>; the class before the \<open>@\<close> excludes it.\<close>

definition image_char :: "char \<Rightarrow> bool" where
  "image_char c \<longleftrightarrow> digit_char c \<or> lower_char c \<or> c \<in> {CHR ''.'', CHR ''/'', CHR '':'', CHR ''_'', CHR ''-''}"

definition imageSchema :: "string \<Rightarrow> bool" where
  "imageSchema s =
     (let name = takeWhile (\<lambda>c. c \<noteq> CHR ''@'') s; digest = dropWhile (\<lambda>c. c \<noteq> CHR ''@'') s
      in name \<noteq> [] \<and> (digit_char (hd name) \<or> lower_char (hd name)) \<and> list_all image_char name \<and>
         take 8 digest = ''@sha256:'' \<and> length (drop 8 digest) = 64 \<and> list_all hex_char (drop 8 digest))"

record manifest =
  mf_java :: string
  mf_python :: string
  mf_javascript :: string

definition manifestSchema :: "manifest \<Rightarrow> bool" where
  "manifestSchema m \<longleftrightarrow> imageSchema (mf_java m) \<and> imageSchema (mf_python m) \<and> imageSchema (mf_javascript m)"

fun manifest_image :: "manifest \<Rightarrow> language \<Rightarrow> string" where
  "manifest_image m Java = mf_java m"
| "manifest_image m Python = mf_python m"
| "manifest_image m Javascript = mf_javascript m"

section \<open>Caps\<close>

record caps =
  cap_sourceBytes :: nat
  cap_outputBytes :: int
  cap_artifactBytes :: nat
  cap_artifactFiles :: nat
  cap_inputBytes :: nat
  cap_inputFiles :: nat
  cap_maxCases :: nat
  cap_scratchBytes :: int
  cap_pids :: int
  cap_compileMs :: int
  cap_totalMs :: int
  cap_caseMs :: int
  cap_compileMemoryMiB :: int
  cap_maxMemoryMiB :: int
  cap_maxFileBytes :: int

definition CAPS :: caps where
  "CAPS = \<lparr>cap_sourceBytes = MAX_SOURCE_BYTES, cap_outputBytes = 256 * 1024,
     cap_artifactBytes = 8 * 1024 * 1024, cap_artifactFiles = 256, cap_inputBytes = 256 * 1024,
     cap_inputFiles = 16, cap_maxCases = 100, cap_scratchBytes = 32 * 1024 * 1024, cap_pids = 64,
     cap_compileMs = 15000, cap_totalMs = 30000, cap_caseMs = 10000, cap_compileMemoryMiB = 512,
     cap_maxMemoryMiB = 1024, cap_maxFileBytes = 8 * 1024 * 1024\<rparr>"

section \<open>Sandbox requests\<close>

definition file_name_char :: "char \<Rightarrow> bool" where
  "file_name_char c \<longleftrightarrow> alnum_char c \<or> c = CHR ''.'' \<or> c = CHR ''_'' \<or> c = CHR ''-''"

definition inputFileNameSchema :: "string \<Rightarrow> bool" where
  "inputFileNameSchema s \<longleftrightarrow>
     1 \<le> length s \<and> length s \<le> 100 \<and> alnum_char (hd s) \<and> list_all file_name_char (tl s) \<and>
     s \<notin> {''Solution.java'', ''Solution.class'', ''solution.py'', ''solution.js''} \<and>
     \<not> suffix ''.class'' s"

definition inputFileSchema :: "test_file \<Rightarrow> bool" where
  "inputFileSchema f \<longleftrightarrow>
     inputFileNameSchema (tf_name f) \<and> byteLength (tf_content f) \<le> cap_inputBytes CAPS"

record sandbox_case =
  sc_id :: uuid
  sc_input :: jsstr
  sc_files :: "test_file list"

record sandbox_request =
  sr_executionId :: uuid
  sr_attempt :: int
  sr_language :: language
  sr_sourceCode :: jsstr
  sr_cases :: "sandbox_case list"
  sr_timeMs :: int
  sr_memoryMiB :: int

definition sandboxCaseSchema :: "(string \<Rightarrow> bool) \<Rightarrow> sandbox_case \<Rightarrow> bool" where
  "sandboxCaseSchema is_uuid t \<longleftrightarrow>
     is_uuid (sc_id t) \<and> byteLength (sc_input t) \<le> cap_inputBytes CAPS \<and>
     list_all inputFileSchema (sc_files t) \<and> length (sc_files t) \<le> cap_inputFiles CAPS \<and>
     distinct (map tf_name (sc_files t))"

definition case_bytes :: "sandbox_case \<Rightarrow> nat" where
  "case_bytes t = byteLength (sc_input t) + sum_list (map (byteLength \<circ> tf_content) (sc_files t))"

definition sandboxRequestSchema :: "(string \<Rightarrow> bool) \<Rightarrow> sandbox_request \<Rightarrow> bool" where
  "sandboxRequestSchema is_uuid r \<longleftrightarrow>
     is_uuid (sr_executionId r) \<and> safe_int (sr_attempt r) \<and> 0 < sr_attempt r \<and>
     sr_sourceCode r \<noteq> [] \<and> byteLength (sr_sourceCode r) \<le> cap_sourceBytes CAPS \<and>
     list_all (sandboxCaseSchema is_uuid) (sr_cases r) \<and>
     1 \<le> length (sr_cases r) \<and> length (sr_cases r) \<le> cap_maxCases CAPS \<and>
     1 \<le> sr_timeMs r \<and> sr_timeMs r \<le> cap_caseMs CAPS \<and>
     32 \<le> sr_memoryMiB r \<and> sr_memoryMiB r \<le> cap_maxMemoryMiB CAPS \<and>
     distinct (map sc_id (sr_cases r)) \<and>
     sum_list (map case_bytes (sr_cases r)) \<le> 1024 * 1024"

section \<open>Profiles\<close>

fun profile_filename :: "language \<Rightarrow> string" where
  "profile_filename Java = ''Solution.java''"
| "profile_filename Python = ''solution.py''"
| "profile_filename Javascript = ''solution.js''"

fun profile_command :: "language \<Rightarrow> string list" where
  "profile_command Java =
     [''/opt/java/openjdk/bin/java'', ''-XX:ActiveProcessorCount=1'', ''-XX:+UseSerialGC'', ''-Xmx128m'',
      ''-XX:MaxMetaspaceSize=96m'', ''-XX:ReservedCodeCacheSize=32m'', ''-cp'', ''/work'', ''Solution'']"
| "profile_command Python = [''/usr/local/bin/python3'', ''-I'', ''-B'', ''/work/solution.py'']"
| "profile_command Javascript = [''/usr/local/bin/node'', ''--max-old-space-size=128'', ''/work/solution.js'']"

section \<open>The arguments of \<open>docker create\<close>\<close>

text \<open>\<open>/^ac-[a-f0-9-]{36}$/\<close>.\<close>

definition container_name :: "string \<Rightarrow> bool" where
  "container_name s \<longleftrightarrow>
     take 3 s = ''ac-'' \<and> length (drop 3 s) = 36 \<and> list_all (\<lambda>c. hex_char c \<or> c = CHR ''-'') (drop 3 s)"

record owner =
  ow_executionId :: uuid
  ow_attempt :: int
  ow_deadline :: millis

definition containerArgs :: "string \<Rightarrow> string \<Rightarrow> int \<Rightarrow> owner \<Rightarrow> error + string list" where
  "containerArgs name img memoryMiB own =
     (if \<not> container_name name then Inl (PlainError ''INVALID_CONTAINER_NAME'')
      else if \<not> imageSchema img then Inl ZodError
      else if memoryMiB < 32 \<or> memoryMiB > cap_maxMemoryMiB CAPS then Inl (PlainError ''INVALID_MEMORY_LIMIT'')
      else Inr
        [''create'', ''--name'', name, ''--pull=never'', ''--runtime=runsc'', ''--network=none'', ''--ipc=private'',
         ''--read-only'', ''--user=10001:10001'', ''--cap-drop=ALL'', ''--security-opt=no-new-privileges:true'',
         ''--pids-limit'', int_text (cap_pids CAPS), ''--cpus=1'', ''--memory'', int_text memoryMiB @ ''m'',
         ''--memory-swap'', int_text memoryMiB @ ''m'', ''--ulimit'', ''nofile=128:128'', ''--ulimit'',
         ''fsize='' @ int_text (cap_maxFileBytes CAPS) @ '':'' @ int_text (cap_maxFileBytes CAPS),
         ''--ulimit'', ''core=0:0'', ''--ulimit'',
         ''nproc='' @ int_text (cap_pids CAPS) @ '':'' @ int_text (cap_pids CAPS), ''--tmpfs'',
         ''/work:rw,nosuid,nodev,noexec,size='' @ int_text (cap_scratchBytes CAPS) @ '',mode=1777'',
         ''--tmpfs'', ''/tmp:rw,nosuid,nodev,noexec,size=8388608,mode=1777'', ''--workdir=/work'',
         ''--log-driver=none'', ''--label'', ''arenacore.managed=true'',
         ''--label'', ''arenacore.execution='' @ ow_executionId own,
         ''--label'', ''arenacore.attempt='' @ int_text (ow_attempt own),
         ''--label'', ''arenacore.deadline='' @ int_text (ow_deadline own),
         ''--entrypoint=/bin/sleep'', img, ''infinity''])"

lemma containerArgs_create:
  "containerArgs name img m own = Inr args \<Longrightarrow> \<exists>rest. args = ''create'' # ''--name'' # name # rest"
  by (auto simp: containerArgs_def split: if_splits)

end
