(* ===== verification/Metrics.thy ===== *)
theory Metrics
  imports RuntimePolicy
begin

text \<open>
  The readers of the cgroup files of \<open>apps/runner/src/metrics.ts\<close> and the difference of two
  snapshots. File contents and command output are JavaScript strings; a regular expression that
  accepts ASCII only is tested on the ASCII characters of the text.
\<close>

section \<open>Counters\<close>

definition integer :: "jsstr \<Rightarrow> string \<Rightarrow> int result" where
  "integer v name =
     (case ascii v of
        None \<Rightarrow> Inl (PlainError (''INVALID_CGROUP_'' @ name))
      | Some s \<Rightarrow>
          if s = [] \<or> \<not> list_all digit_char s \<or> \<not> safe_int (int (digits_value s))
          then Inl (PlainError (''INVALID_CGROUP_'' @ name))
          else Inr (int (digits_value s)))"

definition unifiedCgroupPath :: "jsstr \<Rightarrow> jsstr result" where
  "unifiedCgroupPath v =
     (case filter (prefix (js ''0::'')) (split_on 10 (js_trim v)) of
        [line] \<Rightarrow>
          (let path = drop 3 line
           in if \<not> prefix (js ''/'') path \<or> path = js ''/'' \<or> 0 \<in> set path
              then Inl (PlainError ''SCOPED_CGROUP_REQUIRED'') else Inr path)
      | _ \<Rightarrow> Inl (PlainError ''UNIFIED_CGROUP_REQUIRED''))"

text \<open>\<open>/^([a-z0-9_.-]+) ([0-9]+)$/\<close>: neither group contains the space between them.\<close>

definition counter_name_char :: "char \<Rightarrow> bool" where
  "counter_name_char c \<longleftrightarrow>
     lower_char c \<or> digit_char c \<or> c = CHR ''_'' \<or> c = CHR ''.'' \<or> c = CHR ''-''"

definition counter_line :: "jsstr \<Rightarrow> (string \<times> jsstr) option" where
  "counter_line line =
     (case ascii line of
        None \<Rightarrow> None
      | Some s \<Rightarrow>
          (case split_on (CHR '' '') s of
             [name, digits] \<Rightarrow>
               if name \<noteq> [] \<and> list_all counter_name_char name \<and> digits \<noteq> [] \<and> list_all digit_char digits
               then Some (name, js digits) else None
           | _ \<Rightarrow> None))"

text \<open>The \<open>Map\<close> in insertion order.\<close>

fun keyedCounters_loop :: "jsstr list \<Rightarrow> (string \<times> int) list \<Rightarrow> (string \<times> int) list result" where
  "keyedCounters_loop [] acc = Inr acc"
| "keyedCounters_loop (line # lines) acc =
     (case counter_line line of
        None \<Rightarrow> Inl (PlainError ''INVALID_CGROUP_COUNTERS'')
      | Some (name, digits) \<Rightarrow>
          if name \<in> set (map fst acc) then Inl (PlainError ''INVALID_CGROUP_COUNTERS'')
          else bind_result (integer digits ''COUNTER'') (\<lambda>n. keyedCounters_loop lines (acc @ [(name, n)])))"

definition keyedCounters :: "jsstr \<Rightarrow> (string \<times> int) list result" where
  "keyedCounters v = keyedCounters_loop (split_on 10 (js_trim v)) []"

section \<open>Snapshots\<close>

record cgroup_snapshot =
  cs_path :: jsstr
  cs_cpuUsec :: int
  cs_memoryPeakBytes :: int
  cs_oomKills :: int

record metric_delta =
  md_cpuMs :: int
  md_memoryKiB :: int
  md_oomKilled :: bool

text \<open>\<open>Math.ceil(a / b)\<close> for positive \<open>b\<close>; the quotients of safe integers by 1000 and 1024 round the same way.\<close>

definition math_ceil_div :: "int \<Rightarrow> int \<Rightarrow> int" where
  "math_ceil_div a b = - ((- a) div b)"

definition metricDelta :: "cgroup_snapshot \<Rightarrow> cgroup_snapshot \<Rightarrow> metric_delta result" where
  "metricDelta before after =
     (if cs_path after \<noteq> cs_path before then Inl (PlainError ''CGROUP_IDENTITY_CHANGED'')
      else if cs_cpuUsec after < cs_cpuUsec before \<or> cs_memoryPeakBytes after < cs_memoryPeakBytes before \<or>
              cs_oomKills after < cs_oomKills before
      then Inl (PlainError ''CGROUP_COUNTER_REGRESSION'')
      else Inr \<lparr>md_cpuMs = math_ceil_div (cs_cpuUsec after - cs_cpuUsec before) 1000,
                md_memoryKiB = math_ceil_div (cs_memoryPeakBytes after) 1024,
                md_oomKilled = (cs_oomKills after > cs_oomKills before)\<rparr>)"

definition snapshot_ok :: "cgroup_snapshot \<Rightarrow> bool" where
  "snapshot_ok s \<longleftrightarrow>
     0 \<le> cs_cpuUsec s \<and> safe_int (cs_cpuUsec s) \<and> 0 \<le> cs_memoryPeakBytes s \<and> safe_int (cs_memoryPeakBytes s)"

lemma math_ceil_div_bounds: "0 \<le> a \<Longrightarrow> 0 < b \<Longrightarrow> 0 \<le> math_ceil_div a b \<and> math_ceil_div a b \<le> a"
proof -
  assume a: "0 \<le> a" and b: "0 < b"
  have "- a \<le> (- a) div b"
    using a b by (smt (verit) div_by_1 zdiv_mono2_neg zero_less_one neg_le_0_iff_le div_0)
  moreover have "(- a) div b \<le> 0" using a b by (simp add: div_nonpos_pos_le0)
  ultimately show ?thesis by (simp add: math_ceil_div_def)
qed

lemma metricDelta_ok:
  assumes "metricDelta before after = Inr m" and "snapshot_ok before" and "snapshot_ok after"
  shows "0 \<le> md_cpuMs m \<and> safe_int (md_cpuMs m) \<and> 0 \<le> md_memoryKiB m \<and> safe_int (md_memoryKiB m)"
proof -
  have m: "md_cpuMs m = math_ceil_div (cs_cpuUsec after - cs_cpuUsec before) 1000"
    "md_memoryKiB m = math_ceil_div (cs_memoryPeakBytes after) 1024"
    "cs_cpuUsec before \<le> cs_cpuUsec after"
    using assms(1) by (auto simp: metricDelta_def split: if_splits)
  then show ?thesis
    using assms(2,3) math_ceil_div_bounds [of "cs_cpuUsec after - cs_cpuUsec before" 1000]
      math_ceil_div_bounds [of "cs_memoryPeakBytes after" 1024]
    by (auto simp: snapshot_ok_def safe_int_def)
qed

section \<open>Reading what the kernel writes\<close>

text \<open>The flat keyed format of \<open>cpu.stat\<close> and \<open>memory.events\<close>: one counter per line.\<close>

definition print_counter :: "string \<times> int \<Rightarrow> jsstr" where
  "print_counter kv = js (fst kv @ '' '' @ int_text (snd kv))"

definition print_counters :: "(string \<times> int) list \<Rightarrow> jsstr" where
  "print_counters kvs = join_with [10] (map print_counter kvs) @ [10]"

definition counter_ok :: "string \<times> int \<Rightarrow> bool" where
  "counter_ok kv \<longleftrightarrow> fst kv \<noteq> [] \<and> list_all counter_name_char (fst kv) \<and> 0 \<le> snd kv \<and> safe_int (snd kv)"

lemma of_nat_of_char: "of_nat (of_char c) = (of_char c :: code_unit)"
  by (cases c) (simp add: of_char_def of_bool_def)

lemma char_unit: "unat (of_char c :: code_unit) = of_char c"
proof -
  have "(of_char c :: nat) < 2 ^ 16" by (rule less_trans [OF nat_of_char_less_256]) simp
  then show ?thesis unfolding of_nat_of_char [symmetric] by (simp add: unat_of_nat take_bit_nat_eq_self)
qed

lemma ascii_js: "list_all (\<lambda>c. of_char c < (128 :: nat)) s \<Longrightarrow> ascii (js s) = Some s"
  by (induction s) (auto simp: ascii_def js_def word_less_nat_alt char_unit split: if_splits)

text \<open>A counter name and a numeral are ASCII without white space, so a line has exactly one space.\<close>

definition plain_char :: "char \<Rightarrow> bool" where
  "plain_char c \<longleftrightarrow> 33 \<le> (of_char c :: nat) \<and> of_char c < (128 :: nat)"

lemma digit_plain: "digit_char c \<Longrightarrow> plain_char c"
  by (auto simp: digit_char_def plain_char_def less_eq_char_def)

lemma counter_name_plain: "counter_name_char c \<Longrightarrow> plain_char c"
  by (auto simp: counter_name_char_def digit_plain lower_char_def plain_char_def less_eq_char_def)
    (auto simp: digit_char_def less_eq_char_def)

lemma plain_unit: "plain_char c \<Longrightarrow> \<not> js_space (of_char c)"
  by (auto simp: plain_char_def js_space_def word_le_nat_alt char_unit word_unat_eq_iff)

lemma counter_ok_plain:
  assumes "counter_ok kv"
  shows "list_all plain_char (fst kv)" "list_all plain_char (int_text (snd kv))"
    "list_all digit_char (int_text (snd kv))" "int_text (snd kv) \<noteq> []"
    "int (digits_value (int_text (snd kv))) = snd kv"
  using assms nat_text_digits [of "nat (snd kv)"]
  by (auto simp: counter_ok_def int_text_def list_all_iff counter_name_plain digit_plain)

lemma print_counter_units:
  assumes "counter_ok kv"
  shows "print_counter kv \<noteq> []" "\<not> js_space (hd (print_counter kv))"
    "\<not> js_space (last (print_counter kv))" "10 \<notin> set (print_counter kv)"
proof -
  note p = counter_ok_plain [OF assms]
  from assms have ne: "fst kv \<noteq> []" by (simp add: counter_ok_def)
  then show "print_counter kv \<noteq> []" by (simp add: print_counter_def js_def)
  from ne p(1) show "\<not> js_space (hd (print_counter kv))"
    by (cases "fst kv") (auto simp: print_counter_def js_def plain_unit)
  from p(2,4) show "\<not> js_space (last (print_counter kv))"
    by (cases "int_text (snd kv)" rule: rev_cases) (auto simp: print_counter_def js_def plain_unit)
  have "js_space 10" by (simp add: js_space_def)
  then have "10 \<noteq> (of_char c :: code_unit)" if "plain_char c" for c using plain_unit [OF that] by auto
  moreover have "(10 :: code_unit) \<noteq> of_char (CHR '' '')" by simp
  ultimately show "10 \<notin> set (print_counter kv)"
    using p(1,2) by (auto simp: print_counter_def js_def list_all_iff)
qed

lemma counter_line_print:
  assumes "counter_ok kv"
  shows "counter_line (print_counter kv) = Some (fst kv, js (int_text (snd kv)))"
proof -
  note p = counter_ok_plain [OF assms]
  have "list_all (\<lambda>c. of_char c < (128 :: nat)) (fst kv @ '' '' @ int_text (snd kv))"
    using p(1,2) by (auto simp: list_all_iff plain_char_def)
  then have a: "ascii (print_counter kv) = Some (fst kv @ '' '' @ int_text (snd kv))"
    unfolding print_counter_def by (rule ascii_js)
  have "\<not> plain_char (CHR '' '')" by (simp add: plain_char_def)
  with p(1,2) have "CHR '' '' \<notin> set (fst kv)" "CHR '' '' \<notin> set (int_text (snd kv))"
    by (auto simp: list_all_iff)
  then have "split_on (CHR '' '') (fst kv @ '' '' @ int_text (snd kv)) = [fst kv, int_text (snd kv)]"
    by (simp add: split_on_append split_on_single)
  then show ?thesis using a p(3,4) assms by (simp add: counter_line_def counter_ok_def)
qed

lemma integer_print:
  assumes "counter_ok kv" shows "integer (js (int_text (snd kv))) name = Inr (snd kv)"
proof -
  note p = counter_ok_plain [OF assms]
  have "ascii (js (int_text (snd kv))) = Some (int_text (snd kv))"
    using p(2) by (intro ascii_js) (auto simp: list_all_iff plain_char_def)
  with p(3-5) assms show ?thesis by (simp add: integer_def counter_ok_def)
qed

lemma keyedCounters_loop_print:
  "list_all counter_ok kvs \<Longrightarrow> distinct (map fst (acc @ kvs)) \<Longrightarrow>
     keyedCounters_loop (map print_counter kvs) acc = Inr (acc @ kvs)"
proof (induction kvs arbitrary: acc)
  case (Cons kv kvs)
  then show ?case
    using Cons.IH [of "acc @ [kv]"] by (auto simp: counter_line_print integer_print image_iff)
qed simp

lemma trim_print_counters:
  assumes "list_all counter_ok kvs" and "kvs \<noteq> []"
  shows "js_trim (print_counters kvs) = join_with [10] (map print_counter kvs)"
proof -
  let ?t = "join_with [10] (map print_counter kvs)"
  have hd: "?t \<noteq> [] \<and> \<not> js_space (hd ?t)"
    using assms by (cases kvs rule: remdups_adj.cases) (auto simp: print_counter_units)
  have last: "\<not> js_space (last ?t)"
    using assms
  proof (induction kvs rule: induct_list012)
    case (3 x y zs)
    moreover from "3.prems" have "join_with [10] (map print_counter (y # zs)) \<noteq> []"
      by (cases zs) (auto simp: print_counter_units)
    ultimately show ?case by (simp add: print_counter_units)
  qed (auto simp: print_counter_units)
  have "js_space 10" by (simp add: js_space_def)
  with hd have "js_trim (?t @ [10]) = js_trim ?t" by (intro js_trim_append_space) auto
  also have "\<dots> = ?t" using hd last by (intro js_trim_id) auto
  finally show ?thesis by (simp add: print_counters_def)
qed

text \<open>
  Reading a cgroup counter file is the inverse of the kernel's writing it: for distinct well-formed
  names and values that are safe integers, \<open>keyedCounters\<close> gives back exactly the counters printed,
  in order.
\<close>

lemma keyedCounters_print:
  assumes "list_all counter_ok kvs" and "distinct (map fst kvs)" and "kvs \<noteq> []"
  shows "keyedCounters (print_counters kvs) = Inr kvs"
proof -
  have "list_all (\<lambda>x. 10 \<notin> set x) (map print_counter kvs)"
    using assms(1) by (auto simp: list_all_iff print_counter_units)
  then have "split_on 10 (js_trim (print_counters kvs)) = map print_counter kvs"
    using assms(1,3) by (simp add: trim_print_counters split_join)
  then show ?thesis
    using keyedCounters_loop_print [of kvs "[]"] assms(1,2) by (simp add: keyedCounters_def)
qed

lemma keyedCounters_print_example:
  "keyedCounters (print_counters [(''usage_usec'', 12345), (''oom_kill'', 0)]) =
     Inr [(''usage_usec'', 12345), (''oom_kill'', 0)]"
  by (rule keyedCounters_print)
    (simp_all add: counter_ok_def counter_name_char_def lower_char_def less_eq_char_def safe_int_def)

end
