(* ===== verification/Transport.thy ===== *)
theory Transport
  imports Metrics
begin

text \<open>
  The sandbox runner's way to the outside: actions that read and extend a log of everything the
  process asked of its host, the Docker command line transport of \<open>apps/runner/src/transport.ts\<close>, the
  archives of \<open>apps/runner/src/artifacts.ts\<close> and the cgroup reader of \<open>apps/runner/src/metrics.ts\<close>.

  The host is a parameter: a record of functions of the log so far, so that its answers may depend
  on the whole history. Nothing is assumed of it unless a property says so. It stands for the
  processes the transport spawns, the clock, the abort signal, \<open>randomUUID\<close>, the file system, and the
  code outside the repository: \<open>JSON.parse\<close>, \<open>path.resolve\<close> and the \<open>tar-stream\<close> package.
\<close>

section \<open>Actions\<close>

text \<open>An action on a mutable state, with exceptions: the state survives a throw.\<close>

type_synonym ('s, 'e, 'a) action = "'s \<Rightarrow> ('e + 'a) \<times> 's"

definition return_act :: "'a \<Rightarrow> ('s, 'e, 'a) action" where
  "return_act x s = (Inr x, s)"

definition throw_act :: "'e \<Rightarrow> ('s, 'e, 'a) action" where
  "throw_act e s = (Inl e, s)"

definition bind_act :: "('s, 'e, 'a) action \<Rightarrow> ('a \<Rightarrow> ('s, 'e, 'b) action) \<Rightarrow> ('s, 'e, 'b) action" where
  "bind_act m f s = (case m s of (Inl e, t) \<Rightarrow> (Inl e, t) | (Inr x, t) \<Rightarrow> f x t)"

definition catch_act :: "('s, 'e, 'a) action \<Rightarrow> ('e \<Rightarrow> ('s, 'e, 'a) action) \<Rightarrow> ('s, 'e, 'a) action" where
  "catch_act m h s = (case m s of (Inl e, t) \<Rightarrow> h e t | (Inr x, t) \<Rightarrow> (Inr x, t))"

definition finally_act :: "('s, 'e, 'a) action \<Rightarrow> ('s, 'e, unit) action \<Rightarrow> ('s, 'e, 'a) action" where
  "finally_act m f s = (case m s of (r, t) \<Rightarrow> (case f t of (Inl e, u) \<Rightarrow> (Inl e, u) | (Inr _, u) \<Rightarrow> (r, u)))"

definition modify_act :: "('s \<Rightarrow> 's) \<Rightarrow> ('s, 'e, unit) action" where
  "modify_act f s = (Inr (), f s)"

definition get_act :: "('s \<Rightarrow> 'a) \<Rightarrow> ('s, 'e, 'a) action" where
  "get_act f s = (Inr (f s), s)"

section \<open>Errors and results\<close>

datatype docker_code = DOCKER_UNAVAILABLE | COMMAND_FAILED | COMMAND_TIMEOUT | OUTPUT_LIMIT | ABORTED

text \<open>
  What the runner's code throws: a \<open>DockerError\<close>, the \<open>SandboxCleanupError\<close> of the contracts, a
  plain \<open>Error\<close> with its message, or a schema rejection.
\<close>

datatype runner_error =
    DockerErr docker_code
  | CleanupErr
  | RunnerErr string
  | RunnerZod

fun runner_error_of :: "error \<Rightarrow> runner_error" where
  "runner_error_of (PlainError m) = RunnerErr m"
| "runner_error_of ZodError = RunnerZod"
| "runner_error_of (ApiError s c r) = RunnerErr c"
| "runner_error_of (DbError m) = RunnerErr m"

definition lift_result :: "'a result \<Rightarrow> ('s, runner_error, 'a) action" where
  "lift_result r s = (case r of Inl e \<Rightarrow> (Inl (runner_error_of e), s) | Inr x \<Rightarrow> (Inr x, s))"

record command_result =
  rs_stdout :: bytes
  rs_stderr :: bytes
  rs_exitCode :: int

record docker_options =
  do_input :: "bytes option"
  do_signal :: bool
  do_timeoutMs :: "int option"
  do_maxBytes :: "int option"
  do_allowFailure :: bool

definition no_options :: docker_options where
  "no_options = \<lparr>do_input = None, do_signal = False, do_timeoutMs = None, do_maxBytes = None, do_allowFailure = False\<rparr>"

section \<open>Relations that actions respect\<close>

text \<open>
  A relation between the states before and after an action, and the error it threw, if any. It is
  closed under sequencing. \<open>obeys m\<close> says that every run of \<open>m\<close> respects the relation; the rules
  follow the syntax of actions, so that a claim about a handler reduces to its primitive actions.
\<close>

locale action_relation =
  fixes R :: "'e option \<Rightarrow> 's \<Rightarrow> 's \<Rightarrow> bool"
    and raised :: "'e \<Rightarrow> bool"
  assumes R_refl: "R None s s"
    and R_raise: "raised e \<Longrightarrow> R (Some e) s s"
    and R_trans: "R None s t \<Longrightarrow> R err t u \<Longrightarrow> R err s u"
begin

definition obeys :: "('s, 'e, 'a) action \<Rightarrow> bool" where
  "obeys m \<longleftrightarrow>
     (\<forall>s t. (\<forall>x. m s = (Inr x, t) \<longrightarrow> R None s t) \<and> (\<forall>e. m s = (Inl e, t) \<longrightarrow> R (Some e) s t))"

lemma obeysD: "obeys m \<Longrightarrow> m s = (Inr x, t) \<Longrightarrow> R None s t" "obeys m \<Longrightarrow> m s = (Inl e, t) \<Longrightarrow> R (Some e) s t"
  unfolding obeys_def by blast+

lemma obeys_return: "obeys (return_act x)"
  and obeys_throw: "raised e \<Longrightarrow> obeys (throw_act e)"
  and obeys_get: "obeys (get_act g)"
  and obeys_modify: "(\<And>s. R None s (f s)) \<Longrightarrow> obeys (modify_act f)"
  by (auto simp: obeys_def return_act_def throw_act_def get_act_def modify_act_def R_refl R_raise)

lemma obeys_bind:
  assumes "obeys m" and "\<And>x. obeys (f x)" shows "obeys (bind_act m f)"
  unfolding obeys_def
proof (intro allI conjI impI)
  fix s t x assume "bind_act m f s = (Inr x, t)"
  then show "R None s t"
    by (auto simp: bind_act_def split: prod.splits sum.splits intro: R_trans obeysD assms)
next
  fix s t e assume "bind_act m f s = (Inl e, t)"
  then show "R (Some e) s t"
    by (auto simp: bind_act_def split: prod.splits sum.splits intro: R_trans obeysD assms)
qed

text \<open>A handler continues from the state at the throw.\<close>

lemma obeys_catch:
  assumes "obeys m" and "\<And>e s t. R (Some e) s t \<Longrightarrow> obeys (h e)"
    and "\<And>e err s t u. R (Some e) s t \<Longrightarrow> R err t u \<Longrightarrow> R err s u"
  shows "obeys (catch_act m h)"
proof -
  have "(case r of Inr x \<Rightarrow> R None s t | Inl e \<Rightarrow> R (Some e) s t)" if run: "catch_act m h s = (r, t)" for s r t
  proof -
    obtain r1 u where m: "m s = (r1, u)" by (cases "m s")
    show ?thesis
    proof (cases r1)
      case (Inl e)
      with m assms(1) have R: "R (Some e) s u" by (blast dest: obeysD)
      note he = assms(2) [OF R]
      from Inl m run have "h e u = (r, t)" by (simp add: catch_act_def)
      with he R show ?thesis by (cases r) (auto dest: obeysD intro: assms(3))
    next
      case (Inr x)
      with m run assms(1) show ?thesis by (auto simp: catch_act_def dest: obeysD)
    qed
  qed
  then show ?thesis unfolding obeys_def by (metis sum.case)
qed

lemma obeys_finally:
  assumes "obeys m" and "\<And>err s t. R err s t \<Longrightarrow> R err s (f t)"
  shows "obeys (finally_act m (modify_act f))"
  using assms unfolding obeys_def
  by (auto simp: finally_act_def modify_act_def split: prod.splits)

end

section \<open>The command transport\<close>

text \<open>What the spawned process and the timers do until the process is closed with an exit code.\<close>

datatype child_event =
    OutChunk bytes
  | ErrChunk bytes
  | AbortFired
  | TimerFired
  | SpawnFailed

record child =
  ch_events :: "child_event list"
  ch_exitCode :: "int option"

record collected =
  ct_out :: bytes
  ct_err :: bytes
  ct_bytes :: int
  ct_reason :: "docker_code option"

text \<open>\<open>stop\<close>: the first reason wins; the process is killed.\<close>

definition stop :: "docker_code \<Rightarrow> collected \<Rightarrow> collected" where
  "stop code c = c\<lparr>ct_reason := (case ct_reason c of None \<Rightarrow> Some code | r \<Rightarrow> r)\<rparr>"

definition max_bytes :: "docker_options \<Rightarrow> int" where
  "max_bytes opts = (case do_maxBytes opts of None \<Rightarrow> 65536 | Some n \<Rightarrow> n)"

definition collect_out :: "docker_options \<Rightarrow> bool \<Rightarrow> bytes \<Rightarrow> collected \<Rightarrow> collected" where
  "collect_out opts is_out chunk c =
     (let c' = c\<lparr>ct_bytes := ct_bytes c + int (length chunk)\<rparr>
      in if ct_bytes c' > max_bytes opts then stop OUTPUT_LIMIT c'
         else if is_out then c'\<lparr>ct_out := ct_out c' @ chunk\<rparr> else c'\<lparr>ct_err := ct_err c' @ chunk\<rparr>)"

fun child_step :: "docker_options \<Rightarrow> child_event \<Rightarrow> collected \<Rightarrow> collected" where
  "child_step opts (OutChunk b) c = collect_out opts True b c"
| "child_step opts (ErrChunk b) c = collect_out opts False b c"
| "child_step opts AbortFired c = (if do_signal opts then stop ABORTED c else c)"
| "child_step opts TimerFired c = stop COMMAND_TIMEOUT c"
| "child_step opts SpawnFailed c = stop DOCKER_UNAVAILABLE c"

definition command_outcome :: "docker_options \<Rightarrow> child \<Rightarrow> docker_code + command_result" where
  "command_outcome opts ch =
     (let c = fold (child_step opts) (ch_events ch) \<lparr>ct_out = [], ct_err = [], ct_bytes = 0, ct_reason = None\<rparr>;
          result = \<lparr>rs_stdout = ct_out c, rs_stderr = ct_err c,
            rs_exitCode = (case ch_exitCode ch of None \<Rightarrow> - 1 | Some n \<Rightarrow> n)\<rparr>
      in case ct_reason c of
           Some code \<Rightarrow> Inl code
         | None \<Rightarrow>
             if rs_exitCode result \<noteq> 0 \<and> \<not> do_allowFailure opts then Inl COMMAND_FAILED else Inr result)"

lemma collected_bytes:
  "ct_bytes c = int (length (ct_out c) + length (ct_err c)) \<and> 0 \<le> ct_bytes c \<Longrightarrow>
   ct_reason (fold (child_step opts) evs c) = None \<Longrightarrow>
   ct_reason c = None \<and>
   ct_bytes (fold (child_step opts) evs c) =
     int (length (ct_out (fold (child_step opts) evs c)) + length (ct_err (fold (child_step opts) evs c))) \<and>
   (ct_bytes c \<le> max_bytes opts \<longrightarrow> ct_bytes (fold (child_step opts) evs c) \<le> max_bytes opts)"
proof (induction evs arbitrary: c)
  case (Cons ev evs)
  have sticky: "ct_reason (fold (child_step opts) es x) \<noteq> None" if "ct_reason x \<noteq> None" for es x
    using that
  proof (induction es arbitrary: x)
    case (Cons e es)
    then show ?case by (cases e) (auto simp: stop_def collect_out_def Let_def split: option.splits)
  qed simp
  have none: "ct_reason (child_step opts ev c) = None"
    using sticky [of "child_step opts ev c" evs] Cons.prems(2)
    by (cases "ct_reason (child_step opts ev c)") simp_all
  then have ok: "ct_bytes (child_step opts ev c) =
      int (length (ct_out (child_step opts ev c)) + length (ct_err (child_step opts ev c)))"
    "0 \<le> ct_bytes (child_step opts ev c)" "ct_reason c = None"
    "ct_bytes c \<le> max_bytes opts \<Longrightarrow> ct_bytes (child_step opts ev c) \<le> max_bytes opts"
    using Cons.prems(1)
    by (cases ev; auto simp: stop_def collect_out_def Let_def split: option.splits if_splits)+
  from Cons.IH [of "child_step opts ev c"] Cons.prems(2) ok show ?case by auto
qed simp

text \<open>A command that resolves never produced more than its byte limit.\<close>

lemma command_outcome_bounded:
  assumes "command_outcome opts ch = Inr r" and "0 \<le> max_bytes opts"
  shows "int (length (rs_stdout r) + length (rs_stderr r)) \<le> max_bytes opts"
  using assms collected_bytes [of "\<lparr>ct_out = [], ct_err = [], ct_bytes = 0, ct_reason = None\<rparr>" opts "ch_events ch"]
  by (auto simp: command_outcome_def Let_def split: option.splits if_splits)

section \<open>The host\<close>

datatype event =
    EDocker "string list" docker_options "docker_code + command_result"
  | ENow millis
  | EAborted bool
  | EUuid string
  | ERead string "bytes option"

record tar_entry =
  te_name :: string
  te_type :: string
  te_size :: "int option"
  te_data :: bytes

record host =
  h_spawn :: "event list \<Rightarrow> string list \<Rightarrow> docker_options \<Rightarrow> child"
  h_now :: "event list \<Rightarrow> millis"
  h_aborted :: "event list \<Rightarrow> bool"
  h_uuid :: "event list \<Rightarrow> string"
  h_read :: "event list \<Rightarrow> string \<Rightarrow> bytes option"
  h_json :: "jsstr \<Rightarrow> json option"
  h_resolve :: "string \<Rightarrow> jsstr \<Rightarrow> string"
  h_pack :: "(string \<times> bytes) list \<Rightarrow> bytes"
  h_extract :: "bytes \<Rightarrow> tar_entry list option"

text \<open>
  The supervisor's mutable state: its own fields, the log, and the variables of the execution in
  progress (\<open>archive\<close>, \<open>observation\<close> and \<open>budget\<close>).
\<close>

record sup =
  su_ready :: bool
  su_shuttingDown :: bool
  su_active :: "string list"
  su_log :: "event list"
  su_budget :: int
  su_archive :: bytes
  su_compilation :: "compilation option"
  su_cases :: "observed_case list"

type_synonym 'a runner_act = "(sup, runner_error, 'a) action"

definition log_event :: "event \<Rightarrow> sup \<Rightarrow> sup" where
  "log_event ev s = s\<lparr>su_log := su_log s @ [ev]\<rparr>"

definition date_now :: "host \<Rightarrow> millis runner_act" where
  "date_now h s = (let t = h_now h (su_log s) in (Inr t, log_event (ENow t) s))"

definition signal_aborted :: "host \<Rightarrow> bool runner_act" where
  "signal_aborted h s = (let b = h_aborted h (su_log s) in (Inr b, log_event (EAborted b) s))"

definition random_uuid :: "host \<Rightarrow> string runner_act" where
  "random_uuid h s = (let u = h_uuid h (su_log s) in (Inr u, log_event (EUuid u) s))"

definition read_file :: "host \<Rightarrow> string \<Rightarrow> jsstr runner_act" where
  "read_file h path s =
     (let r = h_read h (su_log s) path
      in (case r of None \<Rightarrow> Inl (RunnerErr ''ENOENT'') | Some b \<Rightarrow> Inr (utf8_decode b), log_event (ERead path r) s))"

definition spawn_command :: "host \<Rightarrow> string list \<Rightarrow> docker_options \<Rightarrow> command_result runner_act" where
  "spawn_command h args opts s =
     (let r = command_outcome opts (h_spawn h (su_log s) args opts)
      in (case r of Inl c \<Rightarrow> Inl (DockerErr c) | Inr x \<Rightarrow> Inr x, log_event (EDocker args opts r) s))"

definition command :: "host \<Rightarrow> string list \<Rightarrow> docker_options \<Rightarrow> command_result runner_act" where
  "command h args opts =
     (if do_signal opts
      then bind_act (signal_aborted h) (\<lambda>b. if b then throw_act (DockerErr ABORTED) else spawn_command h args opts)
      else spawn_command h args opts)"

section \<open>Archives\<close>

definition packFiles :: "host \<Rightarrow> (string \<times> bytes) list \<Rightarrow> bytes result" where
  "packFiles h files =
     (let archive = h_pack h files
      in if length archive > cap_artifactBytes CAPS then Inl (PlainError ''ARTIFACT_LIMIT'') else Inr archive)"

text \<open>\<open>[A-Za-z_$][A-Za-z0-9_$]*\<close>, and the two path expressions over it.\<close>

definition java_identifier :: "string \<Rightarrow> bool" where
  "java_identifier s \<longleftrightarrow>
     s \<noteq> [] \<and> \<not> digit_char (hd s) \<and> list_all (\<lambda>c. alnum_char c \<or> c = CHR ''_'' \<or> c = CHR ''$'') s"

definition class_directory :: "string \<Rightarrow> bool" where
  "class_directory s =
     (let parts = split_on (CHR ''/'') s
      in last parts = [] \<and> butlast parts \<noteq> [] \<and> list_all java_identifier (butlast parts))"

definition class_file :: "string \<Rightarrow> bool" where
  "class_file s =
     (let parts = split_on (CHR ''/'') s
      in list_all java_identifier (butlast parts) \<and> suffix ''.class'' (last parts) \<and>
         java_identifier (take (length (last parts) - 6) (last parts)))"

definition entry_name :: "tar_entry \<Rightarrow> string" where
  "entry_name e = (if prefix ''./'' (te_name e) then drop 2 (te_name e) else te_name e)"

fun extract_loop :: "tar_entry list \<Rightarrow> (string \<times> bytes) list \<Rightarrow> nat \<Rightarrow> (string \<times> bytes) list result" where
  "extract_loop [] files sz = Inr files"
| "extract_loop (e # es) files sz =
     (let name = entry_name e
      in if te_type e = ''directory'' \<and> (name = [] \<or> name = ''.'' \<or> class_directory name)
         then extract_loop es files sz
         else if te_type e \<noteq> ''file'' \<or> \<not> class_file name \<or> name \<in> set (map fst files) \<or>
                 (case te_size e of None \<Rightarrow> True | Some n \<Rightarrow> n > cap_maxFileBytes CAPS) \<or>
                 length files \<ge> cap_artifactFiles CAPS \<or>
                 sz + length (te_data e) > cap_artifactBytes CAPS
         then Inl (PlainError ''INVALID_ARTIFACT_ARCHIVE'')
         else extract_loop es (files @ [(name, te_data e)]) (sz + length (te_data e)))"

definition java_artifacts :: "host \<Rightarrow> bytes \<Rightarrow> (string \<times> bytes) list result" where
  "java_artifacts h archive =
     (if length archive > cap_artifactBytes CAPS then Inl (PlainError ''ARTIFACT_LIMIT'')
      else case h_extract h archive of
        None \<Rightarrow> Inl (PlainError ''INVALID_ARTIFACT_ARCHIVE'')
      | Some entries \<Rightarrow>
          bind_result (extract_loop entries [] 0) (\<lambda>files.
            if ''Solution.class'' \<notin> set (map fst files) then Inl (PlainError ''MISSING_ENTRYPOINT'') else Inr files))"

definition normalizeJavaArtifacts :: "host \<Rightarrow> bytes \<Rightarrow> bytes result" where
  "normalizeJavaArtifacts h archive = bind_result (java_artifacts h archive) (packFiles h)"

lemma extract_loop_files:
  assumes "extract_loop es files sz = Inr out"
    and "list_all class_file (map fst files)" "distinct (map fst files)"
    and "length files \<le> cap_artifactFiles CAPS" "sum_list (map (length \<circ> snd) files) = sz"
    and "sz \<le> cap_artifactBytes CAPS"
  shows "list_all class_file (map fst out) \<and> distinct (map fst out) \<and>
     length out \<le> cap_artifactFiles CAPS \<and> sum_list (map (length \<circ> snd) out) \<le> cap_artifactBytes CAPS"
  using assms
proof (induction es files sz rule: extract_loop.induct)
  case (2 e es files sz)
  then show ?case by (simp add: Let_def split: if_splits option.splits)
qed simp

text \<open>
  C27. Whatever archive a compiled program leaves behind, the artifacts that reach the run sandbox are
  class files only: every path is a chain of Java identifiers ending in \<open>.class\<close> (so no parent
  directories, no absolute paths, no other file types), no path occurs twice, at most 256 files with
  at most 8 MiB in all, and the entry point is among them.
\<close>

theorem java_artifacts_safe:
  assumes "java_artifacts h archive = Inr files"
  shows "list_all class_file (map fst files) \<and> distinct (map fst files) \<and> length files \<le> 256 \<and>
     sum_list (map (length \<circ> snd) files) \<le> 8 * 1024 * 1024 \<and> ''Solution.class'' \<in> set (map fst files)"
proof -
  from assms obtain es where "extract_loop es [] 0 = Inr files" and "''Solution.class'' \<in> set (map fst files)"
    by (auto simp: java_artifacts_def result_simps split: if_splits option.splits)
  with extract_loop_files [of es "[]" 0 files] show ?thesis by (simp add: CAPS_def)
qed

section \<open>The cgroup reader\<close>

definition proc_root :: string where "proc_root = ''/proc''"

definition cgroup_root :: string where "cgroup_root = ''/sys/fs/cgroup''"

definition read_or_unavailable :: "host \<Rightarrow> string \<Rightarrow> jsstr runner_act" where
  "read_or_unavailable h path = catch_act (read_file h path) (\<lambda>e. throw_act (RunnerErr ''CGROUP_FILES_UNAVAILABLE''))"

definition snapshot_of_texts :: "jsstr \<Rightarrow> jsstr \<Rightarrow> jsstr \<Rightarrow> jsstr \<Rightarrow> cgroup_snapshot result" where
  "snapshot_of_texts relative cpuText peakText eventText =
     bind_result (keyedCounters cpuText) (\<lambda>cpu.
     bind_result (keyedCounters eventText) (\<lambda>events.
       case (map_of cpu ''usage_usec'', map_of events ''oom_kill'') of
         (Some cpuUsec, Some oomKills) \<Rightarrow>
           map_result (\<lambda>peak. \<lparr>cs_path = relative, cs_cpuUsec = cpuUsec, cs_memoryPeakBytes = peak,
             cs_oomKills = oomKills\<rparr>) (integer (js_trim peakText) ''MEMORY_PEAK'')
       | _ \<Rightarrow> Inl (PlainError ''CGROUP_METRICS_MISSING'')))"

definition snapshot :: "host \<Rightarrow> string \<Rightarrow> cgroup_snapshot runner_act" where
  "snapshot h container =
     (if \<not> container_name container then throw_act (RunnerErr ''INVALID_CONTAINER_NAME'')
      else
        bind_act (command h [''inspect'', container, ''--format'', ''{{.State.Pid}}''] no_options) (\<lambda>pidResult.
        bind_act (lift_result (integer (js_trim (utf8_decode (rs_stdout pidResult))) ''PID'')) (\<lambda>pid.
        if pid < 2 then throw_act (RunnerErr ''INVALID_CGROUP_PID'')
        else
          bind_act (read_or_unavailable h (proc_root @ ''/'' @ int_text pid @ ''/cgroup'')) (\<lambda>membership.
          bind_act (lift_result (unifiedCgroupPath membership)) (\<lambda>relative.
          let directory = h_resolve h cgroup_root (js ''.'' @ relative);
              root = h_resolve h cgroup_root []
          in if \<not> prefix (root @ ''/'') directory then throw_act (RunnerErr ''INVALID_CGROUP_PATH'')
             else
               bind_act (read_or_unavailable h (directory @ ''/cpu.stat'')) (\<lambda>cpuText.
               bind_act (read_or_unavailable h (directory @ ''/memory.peak'')) (\<lambda>peakText.
               bind_act (read_or_unavailable h (directory @ ''/memory.events'')) (\<lambda>eventText.
               lift_result (snapshot_of_texts relative cpuText peakText eventText)))))))))"

end
