(* ===== verification/Supervisor.thy ===== *)
theory Supervisor
  imports Transport
begin

text \<open>
  The sandbox supervisor of \<open>apps/runner/src/supervisor.ts\<close>: the preflight of the Docker host, one
  disposable container per phase, the loop over the cases of a request, the reaper of containers
  whose deadline passed and the shutdown. Everything it asks of Docker is in the log.
\<close>

section \<open>Reading Docker's JSON\<close>

definition json_has :: "json \<Rightarrow> string \<Rightarrow> json \<Rightarrow> bool" where
  "json_has j k v \<longleftrightarrow> member j k = Some v"

definition json_object :: "json \<Rightarrow> string \<Rightarrow> json option" where
  "json_object j k = (case member j k of Some (JObj kvs) \<Rightarrow> Some (JObj kvs) | _ \<Rightarrow> None)"

fun json_text :: "json \<Rightarrow> jsstr option" where
  "json_text (JStr s) = Some s"
| "json_text _ = None"

definition json_texts :: "json \<Rightarrow> string \<Rightarrow> jsstr list option" where
  "json_texts j k =
     (case member j k of
        Some (JArr xs) \<Rightarrow> if list_all (\<lambda>x. json_text x \<noteq> None) xs then Some (map (the \<circ> json_text) xs) else None
      | _ \<Rightarrow> None)"

definition parse_json :: "host \<Rightarrow> command_result \<Rightarrow> json runner_act" where
  "parse_json h r =
     (case h_json h (utf8_decode (rs_stdout r)) of
        None \<Rightarrow> throw_act (RunnerErr ''SyntaxError'') | Some j \<Rightarrow> return_act j)"

section \<open>Preflight\<close>

definition infoSchema :: "json \<Rightarrow> bool" where
  "infoSchema j \<longleftrightarrow>
     json_has j ''OSType'' (JStr (js ''linux'')) \<and> json_has j ''CgroupVersion'' (JStr (js ''2'')) \<and>
     (json_has j ''CgroupDriver'' (JStr (js ''systemd'')) \<or> json_has j ''CgroupDriver'' (JStr (js ''cgroupfs''))) \<and>
     json_object j ''Runtimes'' \<noteq> None \<and> json_texts j ''SecurityOptions'' \<noteq> None \<and>
     json_has j ''MemoryLimit'' (JBool True) \<and> json_has j ''PidsLimit'' (JBool True) \<and>
     json_has j ''CPUCfsQuota'' (JBool True)"

definition dockerInfoFormat :: string where
  "dockerInfoFormat = ''{\"OSType\":{{json .OSType}},\"CgroupVersion\":{{json .CgroupVersion}},\"CgroupDriver\":{{json .CgroupDriver}},\"Runtimes\":{{json .Runtimes}},\"SecurityOptions\":{{json .SecurityOptions}},\"MemoryLimit\":{{json .MemoryLimit}},\"PidsLimit\":{{json .PidsLimit}},\"CPUCfsQuota\":{{json .CPUCfsQuota}}}''"

definition allowed_env :: "jsstr \<Rightarrow> bool" where
  "allowed_env v \<longleftrightarrow>
     list_ex (\<lambda>n. prefix (js (n @ ''='')) v)
       [''PATH'', ''LANG'', ''LANGUAGE'', ''LC_ALL'', ''JAVA_HOME'', ''JAVA_VERSION'', ''NODE_VERSION'', ''YARN_VERSION'',
        ''PYTHON_VERSION'', ''PYTHON_SHA256'', ''GPG_KEY'']"

definition image_env :: "json \<Rightarrow> jsstr list option" where
  "image_env cfg = (if json_has cfg ''Env'' JNull then Some [] else json_texts cfg ''Env'')"

definition includes_text :: "'a list \<Rightarrow> 'a list \<Rightarrow> bool" where
  "includes_text p s \<longleftrightarrow> list_ex (prefix p) (suffixes s)"

definition check_image :: "host \<Rightarrow> string \<Rightarrow> unit runner_act" where
  "check_image h img =
     bind_act (command h [''image'', ''inspect'', img, ''--format'', ''{{json .}}''] no_options) (\<lambda>result.
     bind_act (parse_json h result) (\<lambda>data.
       case (json_texts data ''RepoDigests'', json_object data ''Config'') of
         (Some digests, Some cfg) \<Rightarrow>
           (case image_env cfg of
              None \<Rightarrow> throw_act RunnerZod
            | Some env \<Rightarrow>
                if \<not> json_has cfg ''User'' (JStr (js ''10001:10001'')) then throw_act RunnerZod
                else if js img \<notin> set digests \<or> \<not> list_all allowed_env env
                then throw_act (RunnerErr ''UNTRUSTED_RUNTIME_IMAGE'') else return_act ())
       | _ \<Rightarrow> throw_act RunnerZod))"

definition preflight :: "host \<Rightarrow> manifest \<Rightarrow> unit runner_act" where
  "preflight h mf =
     bind_act (modify_act (\<lambda>s. s\<lparr>su_ready := False\<rparr>)) (\<lambda>_.
     bind_act (command h [''info'', ''--format'', dockerInfoFormat] no_options) (\<lambda>result.
     bind_act (parse_json h result) (\<lambda>info.
       if \<not> infoSchema info then throw_act RunnerZod
       else if member (the (json_object info ''Runtimes'')) ''runsc'' = None \<or>
               \<not> list_ex (includes_text (js ''seccomp'')) (the (json_texts info ''SecurityOptions''))
       then throw_act (RunnerErr ''ISOLATION_UNAVAILABLE'')
       else
         bind_act (check_image h (mf_java mf)) (\<lambda>_.
         bind_act (check_image h (mf_python mf)) (\<lambda>_.
         bind_act (check_image h (mf_javascript mf)) (\<lambda>_.
         modify_act (\<lambda>s. s\<lparr>su_ready := True\<rparr>)))))))"

section \<open>One container\<close>

definition blank :: "bytes \<Rightarrow> bool" where
  "blank out \<longleftrightarrow> js_trim (utf8_decode out) = []"

definition ps_args :: "string \<Rightarrow> string list" where
  "ps_args name = [''ps'', ''--all'', ''--quiet'', ''--filter'', ''name=^/'' @ name @ ''$'']"

definition destroy :: "host \<Rightarrow> string \<Rightarrow> unit runner_act" where
  "destroy h name =
     bind_act (command h [''rm'', ''--force'', name] (no_options\<lparr>do_allowFailure := True\<rparr>)) (\<lambda>_.
     bind_act (command h (ps_args name) no_options) (\<lambda>result.
       if \<not> blank (rs_stdout result) then throw_act CleanupErr else return_act ()))"

definition nproc_limit :: "json \<Rightarrow> bool" where
  "nproc_limit u \<longleftrightarrow> json_has u ''Hard'' (JNum (cap_pids CAPS)) \<and> json_has u ''Soft'' (JNum (cap_pids CAPS))"

definition ulimitSchema :: "json \<Rightarrow> bool" where
  "ulimitSchema u \<longleftrightarrow>
     (case (member u ''Name'', member u ''Hard'', member u ''Soft'') of
        (Some (JStr _), Some (JNum _), Some (JNum _)) \<Rightarrow> True | _ \<Rightarrow> False)"

definition hostConfigSchema :: "int \<Rightarrow> json \<Rightarrow> bool" where
  "hostConfigSchema memoryMiB hc \<longleftrightarrow>
     json_has hc ''Runtime'' (JStr (js ''runsc'')) \<and> json_has hc ''NetworkMode'' (JStr (js ''none'')) \<and>
     json_has hc ''ReadonlyRootfs'' (JBool True) \<and> json_has hc ''Privileged'' (JBool False) \<and>
     json_has hc ''Memory'' (JNum (memoryMiB * 1024 * 1024)) \<and>
     json_has hc ''MemorySwap'' (JNum (memoryMiB * 1024 * 1024)) \<and>
     json_has hc ''NanoCpus'' (JNum 1000000000) \<and> json_has hc ''PidsLimit'' (JNum (cap_pids CAPS)) \<and>
     json_texts hc ''CapDrop'' \<noteq> None \<and> json_texts hc ''SecurityOpt'' \<noteq> None \<and> json_has hc ''Binds'' JNull \<and>
     (case member hc ''Ulimits'' of Some (JArr us) \<Rightarrow> list_all ulimitSchema us | _ \<Rightarrow> False)"

definition host_config_secure :: "json \<Rightarrow> bool" where
  "host_config_secure hc =
     (case (json_texts hc ''CapDrop'', json_texts hc ''SecurityOpt'', member hc ''Ulimits'') of
        (Some drops, Some opts, Some (JArr us)) \<Rightarrow>
          js ''ALL'' \<in> set drops \<and> list_ex (prefix (js ''no-new-privileges'')) opts \<and>
          (case find (\<lambda>u. json_has u ''Name'' (JStr (js ''nproc''))) us of None \<Rightarrow> False | Some u \<Rightarrow> nproc_limit u)
      | _ \<Rightarrow> False)"

definition verifyContainer :: "host \<Rightarrow> string \<Rightarrow> int \<Rightarrow> unit runner_act" where
  "verifyContainer h name memoryMiB =
     bind_act (command h [''inspect'', name, ''--format'', ''{{json .}}''] no_options) (\<lambda>result.
     bind_act (parse_json h result) (\<lambda>data.
       case (json_object data ''Config'', member data ''Mounts'', json_object data ''HostConfig'') of
         (Some cfg, Some (JArr []), Some hc) \<Rightarrow>
           if \<not> json_has cfg ''User'' (JStr (js ''10001:10001'')) \<or> \<not> hostConfigSchema memoryMiB hc
           then throw_act RunnerZod
           else if \<not> host_config_secure hc then throw_act (RunnerErr ''SANDBOX_POLICY_MISMATCH'')
           else return_act ()
       | _ \<Rightarrow> throw_act RunnerZod))"

datatype container_state = C_RUNNING | C_STOPPED | C_OOM

definition containerState :: "host \<Rightarrow> string \<Rightarrow> container_state runner_act" where
  "containerState h name =
     bind_act (command h [''inspect'', name, ''--format'', ''{{json .State}}''] no_options) (\<lambda>result.
     bind_act (parse_json h result) (\<lambda>data.
       case (member data ''OOMKilled'', member data ''Running'', member data ''Pid'') of
         (Some (JBool oom), Some (JBool running), Some (JNum pid)) \<Rightarrow>
           if \<not> safe_int pid \<or> pid < 0 then throw_act (RunnerErr ''INVALID_CONTAINER_STATE'')
           else if oom \<and> \<not> running \<and> pid = 0 then return_act C_OOM
           else if \<not> oom \<and> \<not> running \<and> pid = 0 then return_act C_STOPPED
           else if \<not> oom \<and> running \<and> 2 \<le> pid then return_act C_RUNNING
           else throw_act (RunnerErr ''INVALID_CONTAINER_STATE'')
       | _ \<Rightarrow> throw_act (RunnerErr ''INVALID_CONTAINER_STATE'')))"

definition untar_args :: "string \<Rightarrow> string list" where
  "untar_args name = [''exec'', ''--interactive'', name, ''/bin/tar'', ''-x'', ''-f'', ''-'', ''-C'', ''/work'']"

definition with_signal :: docker_options where
  "with_signal = no_options\<lparr>do_signal := True\<rparr>"

definition abort_check :: "host \<Rightarrow> unit runner_act" where
  "abort_check h = bind_act (signal_aborted h) (\<lambda>b. if b then throw_act (DockerErr ABORTED) else return_act ())"

definition sandbox_inside ::
    "host \<Rightarrow> manifest \<Rightarrow> sandbox_request \<Rightarrow> int \<Rightarrow> bytes \<Rightarrow> millis \<Rightarrow> string \<Rightarrow> (string \<Rightarrow> unit runner_act)
       \<Rightarrow> unit runner_act" where
  "sandbox_inside h mf req memoryMiB archive deadline name body =
     bind_act (abort_check h) (\<lambda>_.
     bind_act (lift_result (containerArgs name (manifest_image mf (sr_language req)) memoryMiB
         \<lparr>ow_executionId = sr_executionId req, ow_attempt = sr_attempt req, ow_deadline = deadline\<rparr>)) (\<lambda>args.
     bind_act (command h args with_signal) (\<lambda>_.
     bind_act (abort_check h) (\<lambda>_.
     bind_act (verifyContainer h name memoryMiB) (\<lambda>_.
     bind_act (command h [''start'', name] with_signal) (\<lambda>_.
     bind_act (command h (untar_args name) (with_signal\<lparr>do_input := Some archive\<rparr>)) (\<lambda>_.
     body name)))))))"

definition sandbox ::
    "host \<Rightarrow> manifest \<Rightarrow> sandbox_request \<Rightarrow> bool \<Rightarrow> bytes \<Rightarrow> millis \<Rightarrow> (string \<Rightarrow> unit runner_act) \<Rightarrow> unit runner_act"
  where
  "sandbox h mf req compile archive deadline body =
     bind_act (random_uuid h) (\<lambda>u.
       let name = ''ac-'' @ u
       in finally_act
            (sandbox_inside h mf req (if compile then cap_compileMemoryMiB CAPS else sr_memoryMiB req)
               archive deadline name body)
            (catch_act (destroy h name)
               (\<lambda>_. bind_act (modify_act (\<lambda>s. s\<lparr>su_ready := False\<rparr>)) (\<lambda>_. throw_act CleanupErr))))"

section \<open>Compilation\<close>

definition result_bytes :: "command_result \<Rightarrow> int" where
  "result_bytes r = int (length (rs_stdout r) + length (rs_stderr r))"

definition javac_args :: "string \<Rightarrow> string list" where
  "javac_args name = [''exec'', name, ''/opt/java/openjdk/bin/javac'', ''-J-Xmx256m'', ''-proc:none'',
     ''-encoding'', ''UTF-8'', ''-d'', ''/work/classes'', ''/work/Solution.java'']"

definition spend :: "int \<Rightarrow> unit runner_act" where
  "spend n = modify_act (\<lambda>s. s\<lparr>su_budget := su_budget s - n\<rparr>)"

definition compile_phase :: "host \<Rightarrow> millis \<Rightarrow> string \<Rightarrow> unit runner_act" where
  "compile_phase h deadline name =
     bind_act (command h [''exec'', name, ''/bin/mkdir'', ''/work/classes''] with_signal) (\<lambda>_.
     bind_act (date_now h) (\<lambda>now.
     bind_act (get_act su_budget) (\<lambda>budget.
     bind_act (command h (javac_args name)
         \<lparr>do_input = None, do_signal = True, do_timeoutMs = Some (min (cap_compileMs CAPS) (deadline - now)),
          do_maxBytes = Some budget, do_allowFailure = True\<rparr>) (\<lambda>result.
     bind_act (spend (result_bytes result)) (\<lambda>_.
     bind_act (modify_act (\<lambda>s. s\<lparr>su_compilation := Some \<lparr>cp_ok = (rs_exitCode result = 0),
         cp_stdout = utf8_decode (rs_stdout result), cp_stderr = utf8_decode (rs_stderr result)\<rparr>\<rparr>)) (\<lambda>_.
     if rs_exitCode result = 0
     then bind_act (command h [''exec'', name, ''/bin/tar'', ''-c'', ''-f'', ''-'', ''-C'', ''/work/classes'', ''.'']
            (with_signal\<lparr>do_maxBytes := Some (int (cap_artifactBytes CAPS))\<rparr>)) (\<lambda>out.
          bind_act (lift_result (normalizeJavaArtifacts h (rs_stdout out))) (\<lambda>a.
          modify_act (\<lambda>s. s\<lparr>su_archive := a\<rparr>)))
     else return_act ()))))))"

section \<open>Cases\<close>

definition push_case :: "observed_case \<Rightarrow> unit runner_act" where
  "push_case c = modify_act (\<lambda>s. s\<lparr>su_cases := su_cases s @ [c]\<rparr>)"

definition observed ::
    "uuid \<Rightarrow> command_result \<Rightarrow> verdict option \<Rightarrow> int \<Rightarrow> (int \<times> int) option \<Rightarrow> observed_case" where
  "observed caseId r failure wallMs measured =
     \<lparr>oc_caseId = caseId, oc_stdout = utf8_decode (rs_stdout r), oc_stderr = utf8_decode (rs_stderr r),
      oc_exitCode = Some (rs_exitCode r), oc_failure = failure, oc_wallMs = wallMs,
      oc_cpuMs = map_option fst measured, oc_memoryKiB = map_option snd measured\<rparr>"

definition unobserved :: "uuid \<Rightarrow> verdict \<Rightarrow> int \<Rightarrow> observed_case" where
  "unobserved caseId failure wallMs =
     \<lparr>oc_caseId = caseId, oc_stdout = [], oc_stderr = [], oc_exitCode = None, oc_failure = Some failure,
      oc_wallMs = wallMs, oc_cpuMs = None, oc_memoryKiB = None\<rparr>"

text \<open>The elapsed time \<open>Date.now() - started\<close>.\<close>

definition elapsed :: "host \<Rightarrow> millis \<Rightarrow> int runner_act" where
  "elapsed h started = bind_act (date_now h) (\<lambda>now. return_act (now - started))"

text \<open>After the command: the metrics, or the state of a container whose metrics are gone.\<close>

definition measure_case :: "host \<Rightarrow> string \<Rightarrow> cgroup_snapshot \<Rightarrow> metric_delta runner_act" where
  "measure_case h name before =
     bind_act (snapshot h name) (\<lambda>after. lift_result (metricDelta before after))"

definition settle_case ::
    "host \<Rightarrow> string \<Rightarrow> uuid \<Rightarrow> millis \<Rightarrow> cgroup_snapshot \<Rightarrow> command_result \<Rightarrow> unit runner_act" where
  "settle_case h name caseId started before result =
     bind_act
       (catch_act (bind_act (measure_case h name before) (\<lambda>m. return_act (Inr m)))
          (\<lambda>e. bind_act (containerState h name) (\<lambda>st.
             if st \<noteq> C_RUNNING then return_act (Inl st) else throw_act e)))
       (\<lambda>measured.
         bind_act (elapsed h started) (\<lambda>wallMs.
           case measured of
             Inl st \<Rightarrow> push_case (observed caseId result
               (if st = C_OOM then Some MEMORY_LIMIT_EXCEEDED else None) wallMs None)
           | Inr m \<Rightarrow> push_case (observed caseId result
               (if md_oomKilled m then Some MEMORY_LIMIT_EXCEEDED else None) wallMs
               (Some (md_cpuMs m, md_memoryKiB m)))))"

definition run_case ::
    "host \<Rightarrow> sandbox_request \<Rightarrow> millis \<Rightarrow> sandbox_case \<Rightarrow> string \<Rightarrow> millis \<Rightarrow> unit runner_act" where
  "run_case h req deadline test name started =
     bind_act (snapshot h name) (\<lambda>before.
     bind_act (date_now h) (\<lambda>now.
     bind_act (get_act su_budget) (\<lambda>budget.
     bind_act (command h ([''exec'', ''--interactive'', name] @ profile_command (sr_language req))
         \<lparr>do_input = Some (utf8_encode (sc_input test)), do_signal = True,
          do_timeoutMs = Some (max 1 (min (sr_timeMs req) (deadline - now))),
          do_maxBytes = Some budget, do_allowFailure = True\<rparr>) (\<lambda>result.
     bind_act (spend (result_bytes result)) (\<lambda>_.
     settle_case h name (sc_id test) started before result)))))"

text \<open>A command that timed out or exceeded its output becomes the failure of the case.\<close>

definition case_failed :: "host \<Rightarrow> uuid \<Rightarrow> millis \<Rightarrow> runner_error \<Rightarrow> unit runner_act" where
  "case_failed h caseId started e =
     (case e of
        DockerErr COMMAND_TIMEOUT \<Rightarrow>
          bind_act (elapsed h started) (\<lambda>wallMs. push_case (unobserved caseId TIME_LIMIT_EXCEEDED wallMs))
      | DockerErr OUTPUT_LIMIT \<Rightarrow>
          bind_act (elapsed h started) (\<lambda>wallMs.
          bind_act (push_case (unobserved caseId OUTPUT_LIMIT_EXCEEDED wallMs)) (\<lambda>_.
          modify_act (\<lambda>s. s\<lparr>su_budget := 0\<rparr>)))
      | _ \<Rightarrow> throw_act e)"

definition case_body ::
    "host \<Rightarrow> sandbox_request \<Rightarrow> millis \<Rightarrow> sandbox_case \<Rightarrow> string \<Rightarrow> unit runner_act" where
  "case_body h req deadline test name =
     bind_act
       (if sc_files test \<noteq> []
        then bind_act (lift_result (packFiles h (map (\<lambda>f. (tf_name f, utf8_encode (tf_content f))) (sc_files test))))
          (\<lambda>files. bind_act (command h (untar_args name) (with_signal\<lparr>do_input := Some files\<rparr>)) (\<lambda>_. return_act ()))
        else return_act ()) (\<lambda>_.
     bind_act (date_now h) (\<lambda>started.
     catch_act (run_case h req deadline test name started) (case_failed h (sc_id test) started)))"

fun case_loop ::
    "host \<Rightarrow> manifest \<Rightarrow> sandbox_request \<Rightarrow> millis \<Rightarrow> sandbox_case list \<Rightarrow> unit runner_act" where
  "case_loop h mf req deadline [] = return_act ()"
| "case_loop h mf req deadline (test # tests) =
     bind_act (abort_check h) (\<lambda>_.
     bind_act (get_act su_budget) (\<lambda>budget.
     if budget \<le> 0 then push_case (unobserved (sc_id test) OUTPUT_LIMIT_EXCEEDED 0)
     else
       bind_act (get_act su_archive) (\<lambda>archive.
       bind_act (sandbox h mf req False archive deadline (case_body h req deadline test)) (\<lambda>_.
       bind_act (get_act su_cases) (\<lambda>cases.
       if cases \<noteq> [] \<and> oc_failure (last cases) \<noteq> None then return_act ()
       else case_loop h mf req deadline tests)))))"

section \<open>An execution\<close>

definition observation_act :: "observation runner_act" where
  "observation_act = get_act (\<lambda>s. \<lparr>ob_cancellationConfirmed = False, ob_compilation = su_compilation s,
     ob_cases = su_cases s\<rparr>)"

definition execution_key :: "sandbox_request \<Rightarrow> string" where
  "execution_key req = sr_executionId req @ '':'' @ int_text (sr_attempt req)"

text \<open>The guards and the registration at the start of \<open>execute\<close>, and the \<open>finally\<close> at its end.\<close>

definition start_execution :: "(string \<Rightarrow> bool) \<Rightarrow> sandbox_request \<Rightarrow> unit runner_act" where
  "start_execution is_uuid req s =
     (if \<not> sandboxRequestSchema is_uuid req then (Inl RunnerZod, s)
      else if \<not> su_ready s \<or> su_shuttingDown s then (Inl (RunnerErr ''RUNNER_NOT_READY''), s)
      else if length (su_active s) \<ge> 2 then (Inl (RunnerErr ''RUNNER_CAPACITY''), s)
      else if execution_key req \<in> set (su_active s) then (Inl (RunnerErr ''DUPLICATE_ATTEMPT''), s)
      else (Inr (), s\<lparr>su_active := su_active s @ [execution_key req]\<rparr>))"

definition end_execution :: "string \<Rightarrow> sup \<Rightarrow> sup" where
  "end_execution key s = s\<lparr>su_active := filter (\<lambda>k. k \<noteq> key) (su_active s)\<rparr>"

definition fresh_variables :: "sup \<Rightarrow> sup" where
  "fresh_variables s =
     s\<lparr>su_budget := cap_outputBytes CAPS, su_archive := [], su_compilation := None, su_cases := []\<rparr>"

definition compile_if_java :: "host \<Rightarrow> manifest \<Rightarrow> sandbox_request \<Rightarrow> millis \<Rightarrow> unit runner_act" where
  "compile_if_java h mf req deadline =
     (if sr_language req = Java
      then bind_act (get_act su_archive) (\<lambda>archive.
             sandbox h mf req True archive deadline (compile_phase h deadline))
      else return_act ())"

definition execute_body :: "host \<Rightarrow> manifest \<Rightarrow> sandbox_request \<Rightarrow> millis \<Rightarrow> observation runner_act" where
  "execute_body h mf req deadline =
     bind_act (lift_result (packFiles h [(profile_filename (sr_language req), utf8_encode (sr_sourceCode req))]))
       (\<lambda>archive.
     bind_act (modify_act (\<lambda>s. s\<lparr>su_archive := archive\<rparr>)) (\<lambda>_.
     bind_act (compile_if_java h mf req deadline) (\<lambda>_.
     bind_act (get_act su_compilation) (\<lambda>compilation.
     if sr_language req = Java \<and> (case compilation of None \<Rightarrow> True | Some c \<Rightarrow> \<not> cp_ok c) then observation_act
     else bind_act (case_loop h mf req deadline (sr_cases req)) (\<lambda>_. observation_act)))))"

definition execute :: "host \<Rightarrow> manifest \<Rightarrow> (string \<Rightarrow> bool) \<Rightarrow> sandbox_request \<Rightarrow> observation runner_act" where
  "execute h mf is_uuid req =
     bind_act (start_execution is_uuid req) (\<lambda>_.
     bind_act (modify_act fresh_variables) (\<lambda>_.
     bind_act (date_now h) (\<lambda>now.
     finally_act (execute_body h mf req (now + cap_totalMs CAPS))
       (modify_act (end_execution (execution_key req))))))"

section \<open>Reaping and shutdown\<close>

text \<open>\<open>/^[a-f0-9]{12,64}$/\<close>.\<close>

definition container_id :: "string \<Rightarrow> bool" where
  "container_id s \<longleftrightarrow> 12 \<le> length s \<and> length s \<le> 64 \<and> list_all hex_char s"

text \<open>
  \<open>Number(label)\<close> when it is a safe integer. The label is decimal, as \<open>containerArgs\<close> writes it, or
  missing; other numeric notations are not told apart from text that is no number.
\<close>

definition label_deadline :: "json \<Rightarrow> int option" where
  "label_deadline labels =
     (case member labels ''arenacore.deadline'' of
        Some (JStr v) \<Rightarrow>
          (case ascii (js_trim v) of
             Some s \<Rightarrow>
               if s = [] then Some 0
               else if list_all digit_char s \<and> safe_int (int (digits_value s)) then Some (int (digits_value s))
               else None
           | None \<Rightarrow> None)
      | _ \<Rightarrow> None)"

fun string_record :: "json \<Rightarrow> bool" where
  "string_record (JObj kvs) = list_all (\<lambda>(k, v). json_text v \<noteq> None) kvs"
| "string_record _ = False"

definition reap_container :: "host \<Rightarrow> millis \<Rightarrow> string \<Rightarrow> unit runner_act" where
  "reap_container h now i =
     bind_act (command h [''inspect'', i, ''--format'', ''{{json .Config.Labels}}''] no_options) (\<lambda>detail.
     bind_act (parse_json h detail) (\<lambda>labels.
       if \<not> string_record labels then throw_act RunnerZod
       else if (case label_deadline labels of None \<Rightarrow> True | Some t \<Rightarrow> t \<le> now)
       then
         bind_act (command h [''rm'', ''--force'', i] no_options) (\<lambda>_.
         bind_act (command h [''ps'', ''--all'', ''--quiet'', ''--filter'', ''id='' @ i] no_options) (\<lambda>remaining.
           if \<not> blank (rs_stdout remaining)
           then bind_act (modify_act (\<lambda>s. s\<lparr>su_ready := False\<rparr>)) (\<lambda>_. throw_act CleanupErr)
           else return_act ()))
       else return_act ()))"

fun reap_loop :: "host \<Rightarrow> millis \<Rightarrow> jsstr list \<Rightarrow> unit runner_act" where
  "reap_loop h now [] = return_act ()"
| "reap_loop h now (i # ids) =
     (case ascii i of
        Some s \<Rightarrow>
          if \<not> container_id s then throw_act (RunnerErr ''INVALID_CONTAINER_ID'')
          else bind_act (reap_container h now s) (\<lambda>_. reap_loop h now ids)
      | None \<Rightarrow> throw_act (RunnerErr ''INVALID_CONTAINER_ID''))"

definition reapExpired :: "host \<Rightarrow> millis \<Rightarrow> unit runner_act" where
  "reapExpired h now =
     bind_act (command h [''ps'', ''--all'', ''--quiet'', ''--filter'', ''label=arenacore.managed=true''] no_options) (\<lambda>result.
     reap_loop h now (take 100 (filter (\<lambda>l. l \<noteq> []) (split_on 10 (js_trim (utf8_decode (rs_stdout result)))))))"

text \<open>\<open>stopAccepting\<close> also aborts the signal of every active execution.\<close>

definition stopAccepting :: "sup \<Rightarrow> sup" where
  "stopAccepting s = s\<lparr>su_shuttingDown := True\<rparr>"

end
