(* ===== verification/SandboxSafety.thy ===== *)
theory SandboxSafety
  imports Supervisor
begin

text \<open>
  What the supervisor guarantees of the containers it creates, and of its admission: a small
  program logic for actions, the discipline of the log as a \<^theory_text>\<open>locale\<close>, its two instances, and the
  properties.
\<close>

section \<open>Creations and confirmations\<close>

definition created_name :: "event \<Rightarrow> string option" where
  "created_name ev =
     (case ev of
        EDocker (verb # option # name # rest) opts r \<Rightarrow> if verb = ''create'' then Some name else None
      | _ \<Rightarrow> None)"

text \<open>Docker listed the containers of that name, successfully, and there was none.\<close>

definition confirmed_absent :: "string \<Rightarrow> event \<Rightarrow> bool" where
  "confirmed_absent name ev =
     (case ev of
        EDocker args opts (Inr r) \<Rightarrow> args = ps_args name \<and> blank (rs_stdout r)
      | _ \<Rightarrow> False)"

text \<open>The containers whose creation was asked for and whose absence was not confirmed afterwards.\<close>

fun unconfirmed :: "event list \<Rightarrow> string list" where
  "unconfirmed [] = []"
| "unconfirmed (ev # evs) =
     (case created_name ev of
        None \<Rightarrow> []
      | Some name \<Rightarrow> if list_ex (confirmed_absent name) evs then [] else [name]) @ unconfirmed evs"

lemma unconfirmed_append:
  "unconfirmed (a @ b) = filter (\<lambda>n. \<not> list_ex (confirmed_absent n) b) (unconfirmed a) @ unconfirmed b"
  by (induction a) (auto split: option.splits)

definition no_create :: "event list \<Rightarrow> bool" where
  "no_create evs = list_all (\<lambda>ev. created_name ev = None) evs"

lemma unconfirmed_no_create: "no_create evs \<Longrightarrow> unconfirmed evs = []"
  by (induction evs) (auto simp: no_create_def)

section \<open>The actions inside a sandbox\<close>

text \<open>
  The actions inside a sandbox only append to the log, create no container, leave the readiness of
  the supervisor alone and never throw the cleanup error.
\<close>

definition quietly :: "runner_error option \<Rightarrow> sup \<Rightarrow> sup \<Rightarrow> bool" where
  "quietly err s t \<longleftrightarrow>
     err \<noteq> Some CleanupErr \<and> (\<exists>seg. su_log t = su_log s @ seg \<and> no_create seg)"

interpretation quiet: action_relation quietly "\<lambda>e. e \<noteq> CleanupErr"
proof unfold_locales
  show "quietly err s u" if "quietly None s t" "quietly err t u" for err s t u
    using that unfolding quietly_def by (auto simp: no_create_def)
qed (auto simp: quietly_def no_create_def)

named_theorems quiet_intros \<open>actions that create no container\<close>

declare quiet.obeys_return [quiet_intros] quiet.obeys_throw [quiet_intros] quiet.obeys_get [quiet_intros]
  quiet.obeys_bind [quiet_intros]

lemma runner_error_of_cleanup [simp]: "runner_error_of e \<noteq> CleanupErr"
  by (cases e) simp_all

lemma quiet_lift [quiet_intros]: "quiet.obeys (lift_result res)"
  by (auto simp: quiet.obeys_def lift_result_def quiet.R_refl quiet.R_raise split: sum.splits)

lemma quiet_catch [quiet_intros]: "quiet.obeys m \<Longrightarrow> (\<And>e. e \<noteq> CleanupErr \<Longrightarrow> quiet.obeys (h e)) \<Longrightarrow>
    quiet.obeys (catch_act m h)"
proof (rule quiet.obeys_catch)
  show "quiet.obeys (h e)" if "\<And>e. e \<noteq> CleanupErr \<Longrightarrow> quiet.obeys (h e)" "quietly (Some e) s t" for e s t
    using that by (auto simp: quietly_def)
  show "quietly err s u" if "quietly (Some e) s t" "quietly err t u" for e err s t u
    using that quiet.R_trans [of s t err u] by (auto simp: quietly_def)
qed

lemmas event_actions = date_now_def signal_aborted_def random_uuid_def read_file_def spawn_command_def
  Let_def no_create_def created_name_def

lemma quiet_event:
  assumes "\<And>s. snd (m s) = log_event (g s) s" and "\<And>s. created_name (g s) = None"
    and "\<And>s t. m s \<noteq> (Inl CleanupErr, t)"
  shows "quiet.obeys m"
  unfolding quiet.obeys_def
proof (intro allI conjI impI)
  fix s t x assume "m s = (Inr x, t)"
  with assms(1) [of s] assms(2) [of s] show "quietly None s t"
    by (auto simp: quietly_def log_event_def no_create_def)
next
  fix s t e assume "m s = (Inl e, t)"
  with assms(1) [of s] assms(2) [of s] assms(3) [of s t] show "quietly (Some e) s t"
    by (auto simp: quietly_def log_event_def no_create_def)
qed

lemma quiet_events [quiet_intros]:
  "quiet.obeys (date_now h)" "quiet.obeys (signal_aborted h)" "quiet.obeys (random_uuid h)"
  "quiet.obeys (read_file h path)"
proof -
  show "quiet.obeys (date_now h)"
    by (rule quiet_event [where g = "\<lambda>s. ENow (h_now h (su_log s))"]) (simp_all add: event_actions)
  show "quiet.obeys (signal_aborted h)"
    by (rule quiet_event [where g = "\<lambda>s. EAborted (h_aborted h (su_log s))"]) (simp_all add: event_actions)
  show "quiet.obeys (random_uuid h)"
    by (rule quiet_event [where g = "\<lambda>s. EUuid (h_uuid h (su_log s))"]) (simp_all add: event_actions)
  show "quiet.obeys (read_file h path)"
    by (rule quiet_event [where g = "\<lambda>s. ERead path (h_read h (su_log s) path)"])
      (auto simp: event_actions split: option.splits)
qed

lemma quiet_modify [quiet_intros]: "(\<And>s. su_log (f s) = su_log s) \<Longrightarrow> quiet.obeys (modify_act f)"
  by (rule quiet.obeys_modify) (simp add: quietly_def no_create_def)

lemma quiet_spawn: "hd args \<noteq> ''create'' \<Longrightarrow> quiet.obeys (spawn_command h args opts)"
  by (rule quiet_event [where g = "\<lambda>s. EDocker args opts (command_outcome opts (h_spawn h (su_log s) args opts))"])
    (auto simp: event_actions split: list.splits sum.splits)

lemma quiet_command [quiet_intros]: "hd args \<noteq> ''create'' \<Longrightarrow> quiet.obeys (command h args opts)"
  by (auto simp: command_def intro!: quiet_intros quiet_spawn)

lemma quiet_if [quiet_intros]: "quiet.obeys a \<Longrightarrow> quiet.obeys b \<Longrightarrow> quiet.obeys (if c then a else b)"
  by simp

lemma quiet_parse_json [quiet_intros]: "quiet.obeys (parse_json h r)"
  by (auto simp: parse_json_def intro!: quiet_intros split: option.splits)

lemma quiet_abort_check [quiet_intros]: "quiet.obeys (abort_check h)"
  unfolding abort_check_def by (intro quiet_intros) simp

lemma quiet_verifyContainer [quiet_intros]: "quiet.obeys (verifyContainer h name m)"
  unfolding verifyContainer_def
  by (intro quiet_intros) (auto intro!: quiet_intros split: option.splits json.splits list.splits)

lemma quiet_containerState [quiet_intros]: "quiet.obeys (containerState h name)"
  unfolding containerState_def
  by (intro quiet_intros) (auto intro!: quiet_intros split: option.splits json.splits)

lemma quiet_snapshot [quiet_intros]: "quiet.obeys (snapshot h name)"
  unfolding snapshot_def read_or_unavailable_def Let_def by (intro quiet_intros) simp_all

lemma quiet_elapsed [quiet_intros]: "quiet.obeys (elapsed h t)"
  unfolding elapsed_def by (intro quiet_intros)

lemma quiet_push_case [quiet_intros]: "quiet.obeys (push_case c)"
  unfolding push_case_def by (intro quiet_intros) simp

lemma quiet_spend [quiet_intros]: "quiet.obeys (spend n)"
  unfolding spend_def by (intro quiet_intros) simp

lemma quiet_settle_case [quiet_intros]: "quiet.obeys (settle_case h name i t before r)"
  unfolding settle_case_def measure_case_def
  by (intro quiet_intros) (auto intro!: quiet_intros split: sum.splits)

lemma quiet_case_failed [quiet_intros]: "e \<noteq> CleanupErr \<Longrightarrow> quiet.obeys (case_failed h i t e)"
  unfolding case_failed_def
  by (cases e) (auto intro!: quiet_intros split: docker_code.splits)

lemma quiet_case_body: "quiet.obeys (case_body h req deadline test name)"
  unfolding case_body_def run_case_def untar_args_def by (intro quiet_intros) simp_all

lemma quiet_compile_phase: "quiet.obeys (compile_phase h deadline name)"
  unfolding compile_phase_def javac_args_def by (intro quiet_intros) simp_all

section \<open>Every container is confirmed absent\<close>

text \<open>Up to the removal, the only container without a confirmation is the one of the sandbox.\<close>

definition only_creating :: "string \<Rightarrow> runner_error option \<Rightarrow> sup \<Rightarrow> sup \<Rightarrow> bool" where
  "only_creating name err s t \<longleftrightarrow>
     err \<noteq> Some CleanupErr \<and> (\<exists>seg. su_log t = su_log s @ seg \<and> set (unconfirmed seg) \<subseteq> {name})"

interpretation only: action_relation "only_creating name" "\<lambda>e. e \<noteq> CleanupErr" for name
proof unfold_locales
  show "only_creating name err s u" if "only_creating name None s t" "only_creating name err t u" for err s t u
    using that unfolding only_creating_def
    by (auto simp: unconfirmed_append)
qed (auto simp: only_creating_def)

text \<open>
  A sandbox as a whole: after any result but the cleanup error every container is confirmed absent,
  and after the cleanup error the supervisor is not ready.
\<close>

definition tidily :: "runner_error option \<Rightarrow> sup \<Rightarrow> sup \<Rightarrow> bool" where
  "tidily err s t \<longleftrightarrow>
     (\<exists>seg. su_log t = su_log s @ seg \<and>
        (if err = Some CleanupErr then \<not> su_ready t else unconfirmed seg = []))"

interpretation tidy: action_relation tidily "\<lambda>e. e \<noteq> CleanupErr"
proof unfold_locales
  show "tidily err s u" if "tidily None s t" "tidily err t u" for err s t u
  proof -
    from that obtain a b where "su_log u = su_log s @ a @ b" "unconfirmed a = []"
      "if err = Some CleanupErr then \<not> su_ready u else unconfirmed b = []"
      by (auto simp: tidily_def)
    then show ?thesis unfolding tidily_def by (intro exI [of _ "a @ b"]) (simp add: unconfirmed_append)
  qed
qed (auto simp: tidily_def)

lemma quietly_only: "quietly err s t \<Longrightarrow> only_creating name err s t"
  by (auto simp: quietly_def only_creating_def unconfirmed_no_create)

lemma quietly_tidily: "quietly err s t \<Longrightarrow> tidily err s t"
  by (auto simp: quietly_def tidily_def unconfirmed_no_create)

lemma quiet_only: "quiet.obeys m \<Longrightarrow> only.obeys name m"
  unfolding quiet.obeys_def only.obeys_def by (blast intro: quietly_only)

lemma quiet_tidy: "quiet.obeys m \<Longrightarrow> tidy.obeys m"
  unfolding quiet.obeys_def tidy.obeys_def by (blast intro: quietly_tidily)

lemma only_create:
  assumes "containerArgs name img m own = Inr args" shows "only.obeys name (command h args opts)"
proof -
  from containerArgs_create [OF assms] obtain rest where "args = ''create'' # ''--name'' # name # rest" ..
  then have "only.obeys name (spawn_command h args opts)"
    by (auto simp: only.obeys_def only_creating_def event_actions log_event_def split: sum.splits)
  then show ?thesis
    unfolding command_def
    by (auto intro!: only.obeys_bind [OF quiet_only [OF quiet_events(2)]] only.obeys_throw)
qed

lemma only_lift_bind:
  "(\<And>x. res = Inr x \<Longrightarrow> only.obeys name (f x)) \<Longrightarrow> only.obeys name (bind_act (lift_result res) f)"
  by (cases res) (auto simp: only.obeys_def bind_act_def lift_result_def only.R_raise)

lemma only_sandbox_inside:
  assumes "\<And>n. quiet.obeys (body n)"
  shows "only.obeys name (sandbox_inside h mf req m archive deadline name body)"
  unfolding sandbox_inside_def untar_args_def
  by (intro only.obeys_bind [OF quiet_only] only_lift_bind quiet_intros only.obeys_bind [OF only_create]
      quiet_only assms; assumption?) simp_all

lemma destroy_confirms:
  assumes "destroy h name s = (r, t)"
  shows "\<exists>seg. su_log t = su_log s @ seg \<and> no_create seg \<and> (r = Inr () \<longrightarrow> list_ex (confirmed_absent name) seg)"
  using assms
  by (auto simp: destroy_def bind_act_def command_def no_options_def spawn_command_def Let_def log_event_def
      return_act_def throw_act_def no_create_def created_name_def confirmed_absent_def ps_args_def
      split: sum.splits if_splits prod.splits)

lemma tidy_sandbox:
  assumes "\<And>n. quiet.obeys (body n)"
  shows "tidy.obeys (sandbox h mf req compile archive deadline body)"
proof -
  have "case r of Inr x \<Rightarrow> tidily None s t | Inl e \<Rightarrow> tidily (Some e) s t"
    if run: "sandbox h mf req compile archive deadline body s = (r, t)" for s r t
  proof -
    let ?u = "h_uuid h (su_log s)"
    let ?name = "''ac-'' @ ?u"
    let ?inside = "sandbox_inside h mf req (if compile then cap_compileMemoryMiB CAPS else sr_memoryMiB req)
        archive deadline ?name body"
    let ?s1 = "log_event (EUuid ?u) s"
    obtain r1 s2 where inside: "?inside ?s1 = (r1, s2)" by (cases "?inside ?s1")
    obtain r2 s3 where destr: "destroy h ?name s2 = (r2, s3)" by (cases "destroy h ?name s2")
    have "only_creating ?name (case r1 of Inr x \<Rightarrow> None | Inl e \<Rightarrow> Some e) ?s1 s2"
      using only.obeysD [OF only_sandbox_inside [OF assms]] inside by (cases r1) auto
    then obtain seg2 where seg2: "su_log s2 = su_log ?s1 @ seg2" "set (unconfirmed seg2) \<subseteq> {?name}"
      and r1: "r1 \<noteq> Inl CleanupErr"
      by (auto simp: only_creating_def split: sum.splits)
    from destroy_confirms [OF destr] obtain seg3 where seg3: "su_log s3 = su_log s2 @ seg3" "no_create seg3"
      "r2 = Inr () \<longrightarrow> list_ex (confirmed_absent ?name) seg3" by blast
    have t: "su_log t = su_log s3" and r: "if r2 = Inr () then r = r1 else r = Inl CleanupErr \<and> \<not> su_ready t"
      using run inside destr
      by (auto simp: sandbox_def bind_act_def random_uuid_def Let_def finally_act_def catch_act_def
          modify_act_def throw_act_def split: sum.splits prod.splits)
    let ?seg = "EUuid ?u # seg2 @ seg3"
    have log: "su_log t = su_log s @ ?seg" using t seg2(1) seg3(1) by (simp add: log_event_def)
    have "unconfirmed ?seg = []" if "r2 = Inr ()"
    proof -
      have "filter (\<lambda>n. \<not> list_ex (confirmed_absent n) seg3) (unconfirmed seg2) = []"
        using seg2(2) seg3(3) that by (auto simp: filter_empty_conv)
      with seg3(2) show ?thesis by (simp add: unconfirmed_append unconfirmed_no_create created_name_def)
    qed
    with log r r1 show ?thesis
      unfolding tidily_def by (auto split: sum.splits if_splits intro!: exI [of _ ?seg])
  qed
  then show ?thesis unfolding tidy.obeys_def by (metis sum.case)
qed

lemma tidy_case_loop: "tidy.obeys (case_loop h mf req deadline tests)"
proof (induction tests)
  case (Cons test tests)
  have "tidy.obeys (sandbox h mf req False archive deadline (case_body h req deadline test))" for archive
    by (rule tidy_sandbox) (rule quiet_case_body)
  with Cons.IH show ?case
    by (auto intro!: tidy.obeys_bind tidy.obeys_get tidy.obeys_return quiet_tidy [OF quiet_abort_check]
        quiet_tidy [OF quiet_push_case])
qed (simp add: tidy.obeys_return)

lemma tidy_execute_body: "tidy.obeys (execute_body h mf req deadline)"
proof -
  have "tidy.obeys (compile_if_java h mf req deadline)"
    unfolding compile_if_java_def
    by (auto intro!: tidy.obeys_bind tidy.obeys_get tidy.obeys_return tidy_sandbox quiet_compile_phase)
  then show ?thesis
    unfolding execute_body_def observation_act_def
    by (auto intro!: tidy.obeys_bind tidy.obeys_get quiet_tidy [OF quiet_lift] quiet_tidy [OF quiet_modify]
        tidy_case_loop)
qed

lemma tidy_execute: "tidy.obeys (execute h mf is_uuid req)"
proof -
  have start: "tidy.obeys (start_execution is_uuid req)"
    by (auto simp: tidy.obeys_def tidily_def start_execution_def split: if_splits)
  have fin: "tidy.obeys (finally_act (execute_body h mf req deadline) (modify_act (end_execution k)))" for deadline k
    by (rule tidy.obeys_finally [OF tidy_execute_body]) (auto simp: tidily_def end_execution_def)
  show ?thesis
    unfolding execute_def
    by (intro tidy.obeys_bind start fin quiet_tidy [OF quiet_modify] quiet_tidy [OF quiet_events(1)])
      (simp add: fresh_variables_def)
qed

text \<open>
  C22. No container outlives an execution unnoticed: however Docker, the clock and the abort signal
  behave, when \<open>execute\<close> settles with an observation or with any error other than the cleanup error,
  the absence of every container it asked Docker to create was confirmed by a later, successful and
  empty listing of that name; and after the cleanup error the supervisor is not ready, so that it
  refuses every further request until a preflight succeeds.
\<close>

theorem execute_confirms_absence:
  "if fst (execute h mf is_uuid req s) = Inl CleanupErr
   then \<not> su_ready (snd (execute h mf is_uuid req s)) \<and>
        fst (start_execution is_uuid req' (snd (execute h mf is_uuid req s))) \<noteq> Inr ()
   else \<exists>events. su_log (snd (execute h mf is_uuid req s)) = su_log s @ events \<and> unconfirmed events = []"
proof -
  obtain r t where run: "execute h mf is_uuid req s = (r, t)" by (cases "execute h mf is_uuid req s")
  show ?thesis
    using tidy.obeysD [OF tidy_execute] run
    by (cases r) (fastforce simp: tidily_def start_execution_def)+
qed

section \<open>Admission\<close>

text \<open>
  Executions interleave: each registers at its start, ends later, and the host may be stopped or
  fail its preflight at any time in between. These are the steps that touch the shared fields.
\<close>

inductive admission_step :: "(string \<Rightarrow> bool) \<Rightarrow> sup \<Rightarrow> sup \<Rightarrow> bool" for is_uuid where
  admit: "start_execution is_uuid req s = (Inr (), t) \<Longrightarrow> admission_step is_uuid s t"
| finish: "admission_step is_uuid s (end_execution key s)"
| stopped: "admission_step is_uuid s (stopAccepting s)"
| ready: "admission_step is_uuid s (s\<lparr>su_ready := b\<rparr>)"

definition idle :: "sup \<Rightarrow> bool" where
  "idle s \<longleftrightarrow> su_active s = [] \<and> \<not> su_shuttingDown s"

definition admission_inv :: "sup \<Rightarrow> bool" where
  "admission_inv s \<longleftrightarrow> length (su_active s) \<le> 2 \<and> distinct (su_active s)"

lemma start_execution_Inr:
  "start_execution is_uuid req s = (Inr (), t) \<longleftrightarrow>
     sandboxRequestSchema is_uuid req \<and> su_ready s \<and> \<not> su_shuttingDown s \<and> length (su_active s) < 2 \<and>
     execution_key req \<notin> set (su_active s) \<and> t = s\<lparr>su_active := su_active s @ [execution_key req]\<rparr>"
  by (auto simp: start_execution_def split: if_splits)

interpretation admission: invariant_system idle "admission_step is_uuid" admission_inv for is_uuid
proof unfold_locales
  show "admission_inv s" if "idle s" for s using that by (simp add: idle_def admission_inv_def)
  show "admission_inv t" if "admission_inv s" "admission_step is_uuid s t" for s t
    using that(2,1)
  proof (cases rule: admission_step.cases)
    case (finish key)
    with that(1) show ?thesis
      by (auto simp: admission_inv_def end_execution_def intro: le_trans [OF length_filter_le])
  qed (auto simp: admission_inv_def start_execution_Inr stopAccepting_def)
qed

text \<open>
  However executions start and end, at most two are in progress, never two of the same attempt, and
  once the supervisor is shutting down none is admitted any more.
\<close>

lemma supervisor_capacity:
  assumes "reach idle (admission_step is_uuid) s"
  shows "length (su_active s) \<le> 2 \<and> distinct (su_active s) \<and>
     (su_shuttingDown s \<longrightarrow> (\<forall>req t. start_execution is_uuid req s \<noteq> (Inr (), t)))"
  using admission.reach_inv [OF assms] by (auto simp: admission_inv_def start_execution_Inr)

end
