(* ===== verification/Observations.thy ===== *)
theory Observations
  imports SandboxSafety
begin

text \<open>
  What the observation of an execution looks like: the cases of the request in order, each with a
  well-formed report, a failure only in the last one, and output within the budget. This is what the
  judge demands, so the judge accepts every observation of the supervisor.
\<close>

section \<open>Runs of composed actions\<close>

lemma bind_actE:
  assumes "bind_act m f s = (r, t)"
  obtains (thrown) e where "m s = (Inl e, t)" "r = Inl e"
    | (proceeds) x u where "m s = (Inr x, u)" "f x u = (r, t)"
  using assms by (auto simp: bind_act_def split: prod.splits sum.splits)

lemma bind_act_InrE:
  assumes "bind_act m f s = (Inr y, t)"
  obtains x u where "m s = (Inr x, u)" "f x u = (Inr y, t)"
  using assms by (auto elim: bind_actE)

lemma lift_result_eq [simp]:
  "lift_result res s = (Inr x, t) \<longleftrightarrow> res = Inr x \<and> t = s"
  by (auto simp: lift_result_def split: sum.splits)

lemma return_act_eq [simp]: "return_act x s = (r, t) \<longleftrightarrow> r = Inr x \<and> t = s"
  and throw_act_eq [simp]: "throw_act e s = (r', t) \<longleftrightarrow> r' = Inl e \<and> t = s"
  and get_act_eq [simp]: "get_act g s = (r'', t) \<longleftrightarrow> r'' = Inr (g s) \<and> t = s"
  and modify_act_eq [simp]: "modify_act f s = (r''', t) \<longleftrightarrow> r''' = Inr () \<and> t = f s"
  by (auto simp: return_act_def throw_act_def get_act_def modify_act_def)

lemma bind_get_act [simp]: "bind_act (get_act g) f s = f (g s) s"
  and bind_modify_act [simp]: "bind_act (modify_act k) f' s = f' () (k s)"
  by (simp_all add: bind_act_def get_act_def modify_act_def)

section \<open>Actions that leave the variables of the execution alone\<close>

definition variables :: "sup \<Rightarrow> int \<times> compilation option \<times> observed_case list" where
  "variables s = (su_budget s, su_compilation s, su_cases s)"

definition framed :: "runner_error option \<Rightarrow> sup \<Rightarrow> sup \<Rightarrow> bool" where
  "framed err s t \<longleftrightarrow> variables t = variables s \<and> prefix (su_log s) (su_log t)"

interpretation frame: action_relation framed "\<lambda>_. True"
  by unfold_locales (auto simp: framed_def)

named_theorems frame_intros \<open>actions that keep the variables of the execution\<close>

declare frame.obeys_return [frame_intros] frame.obeys_throw [OF TrueI, frame_intros]
  frame.obeys_get [frame_intros] frame.obeys_bind [frame_intros]

lemma frame_lift [frame_intros]: "frame.obeys (lift_result res)"
  by (auto simp: frame.obeys_def lift_result_def frame.R_refl framed_def split: sum.splits)

lemma frame_catch [frame_intros]:
  "frame.obeys m \<Longrightarrow> (\<And>e. frame.obeys (h e)) \<Longrightarrow> frame.obeys (catch_act m h)"
  by (rule frame.obeys_catch) (auto simp: framed_def)

lemma frame_modify [frame_intros]:
  "(\<And>s. variables (f s) = variables s) \<Longrightarrow> (\<And>s. su_log (f s) = su_log s) \<Longrightarrow> frame.obeys (modify_act f)"
  by (rule frame.obeys_modify) (simp add: framed_def)

lemma frame_event:
  assumes "\<And>s. snd (m s) = log_event (g s) s" shows "frame.obeys m"
proof -
  have "framed err s t" if "m s = (r, t)" for err s r t
    using assms [of s] that by (auto simp: framed_def variables_def log_event_def)
  then show ?thesis unfolding frame.obeys_def by blast
qed

lemma frame_events [frame_intros]:
  "frame.obeys (date_now h)" "frame.obeys (signal_aborted h)" "frame.obeys (random_uuid h)"
  "frame.obeys (read_file h path)" "frame.obeys (spawn_command h args opts)"
  by (rule frame_event, simp add: event_actions)+

lemma frame_command [frame_intros]: "frame.obeys (command h args opts)"
  by (auto simp: command_def intro!: frame_intros)

lemma frame_if [frame_intros]: "frame.obeys a \<Longrightarrow> frame.obeys b \<Longrightarrow> frame.obeys (if c then a else b)"
  by simp

lemma frame_parse_json [frame_intros]: "frame.obeys (parse_json h r)"
  by (auto simp: parse_json_def intro!: frame_intros split: option.splits)

lemma frame_abort_check [frame_intros]: "frame.obeys (abort_check h)"
  unfolding abort_check_def by (intro frame_intros)

lemma frame_verifyContainer [frame_intros]: "frame.obeys (verifyContainer h name m)"
  unfolding verifyContainer_def
  by (intro frame_intros) (auto intro!: frame_intros split: option.splits json.splits list.splits)

lemma frame_containerState [frame_intros]: "frame.obeys (containerState h name)"
  unfolding containerState_def
  by (intro frame_intros) (auto intro!: frame_intros split: option.splits json.splits)

lemma frame_snapshot [frame_intros]: "frame.obeys (snapshot h name)"
  unfolding snapshot_def read_or_unavailable_def Let_def by (intro frame_intros)

lemma frame_elapsed [frame_intros]: "frame.obeys (elapsed h t)"
  unfolding elapsed_def by (intro frame_intros)

lemma frame_destroy [frame_intros]: "frame.obeys (destroy h name)"
  unfolding destroy_def by (intro frame_intros)

lemma framedD:
  assumes "frame.obeys m" and "m s = (r, t)"
  shows "su_budget t = su_budget s" "su_compilation t = su_compilation s" "su_cases t = su_cases s"
    "prefix (su_log s) (su_log t)"
proof -
  have "\<exists>err. framed err s t"
    using assms frame.obeysD(1) [OF assms(1)] frame.obeysD(2) [OF assms(1)] by (cases r) blast+
  then show "su_budget t = su_budget s" "su_compilation t = su_compilation s" "su_cases t = su_cases s"
    "prefix (su_log s) (su_log t)"
    by (auto simp: framed_def variables_def)
qed

section \<open>Measurements\<close>

lemma integer_ok: "integer v name = Inr n \<Longrightarrow> 0 \<le> n \<and> safe_int n"
  by (auto simp: integer_def split: option.splits if_splits)

definition counters_ok :: "(string \<times> int) list \<Rightarrow> bool" where
  "counters_ok kvs \<longleftrightarrow> (\<forall>kv \<in> set kvs. 0 \<le> snd kv \<and> safe_int (snd kv))"

lemma keyedCounters_loop_ok: "keyedCounters_loop ls acc = Inr kvs \<Longrightarrow> counters_ok acc \<Longrightarrow> counters_ok kvs"
proof (induction ls arbitrary: acc)
  case (Cons l ls)
  then obtain name digits n where "integer digits ''COUNTER'' = Inr n"
    and loop: "keyedCounters_loop ls (acc @ [(name, n)]) = Inr kvs"
    by (auto simp: result_simps split: option.splits if_splits)
  with Cons.prems(2) have "counters_ok (acc @ [(name, n)])" by (auto simp: counters_ok_def dest: integer_ok)
  with loop show ?case by (rule Cons.IH)
qed simp

lemma keyedCounters_ok: "keyedCounters v = Inr kvs \<Longrightarrow> map_of kvs k = Some n \<Longrightarrow> 0 \<le> n \<and> safe_int n"
  using keyedCounters_loop_ok [of _ "[]" kvs] map_of_SomeD [of kvs k n]
  by (fastforce simp: keyedCounters_def counters_ok_def)

lemma snapshot_of_texts_ok:
  assumes "snapshot_of_texts p a b c = Inr x" shows "snapshot_ok x"
proof -
  from assms obtain cpu events where k: "keyedCounters a = Inr cpu" "keyedCounters c = Inr events"
    and rest: "(case (map_of cpu ''usage_usec'', map_of events ''oom_kill'') of
         (Some cpuUsec, Some oomKills) \<Rightarrow>
           map_result (\<lambda>peak. \<lparr>cs_path = p, cs_cpuUsec = cpuUsec, cs_memoryPeakBytes = peak,
             cs_oomKills = oomKills\<rparr>) (integer (js_trim b) ''MEMORY_PEAK'')
       | _ \<Rightarrow> Inl (PlainError ''CGROUP_METRICS_MISSING'')) = Inr x"
    by (auto simp: snapshot_of_texts_def bind_result_Inr)
  from rest obtain u n peak where "map_of cpu ''usage_usec'' = Some u"
    and "integer (js_trim b) ''MEMORY_PEAK'' = Inr peak"
    and "x = \<lparr>cs_path = p, cs_cpuUsec = u, cs_memoryPeakBytes = peak, cs_oomKills = n\<rparr>"
    by (cases "map_of cpu ''usage_usec''"; cases "map_of events ''oom_kill''") (auto simp: map_result_Inr)
  with keyedCounters_ok [OF k(1)] integer_ok show ?thesis by (auto simp: snapshot_ok_def)
qed

lemma snapshot_Inr: "snapshot h name s = (Inr x, t) \<Longrightarrow> snapshot_ok x"
  by (auto simp: snapshot_def Let_def snapshot_of_texts_ok split: if_split_asm elim!: bind_act_InrE)

section \<open>One case\<close>

text \<open>
  The clock of the host does not go backwards, and the processes it runs exit with a status of the
  operating system (none of them is killed by a signal from outside).
\<close>

definition steady_host :: "host \<Rightarrow> bool" where
  "steady_host h \<longleftrightarrow>
     (\<forall>log ext. h_now h log \<le> h_now h (log @ ext)) \<and>
     (\<forall>log args opts. \<exists>n. ch_exitCode (h_spawn h log args opts) = Some n \<and> 0 \<le> n \<and> n \<le> 255)"

lemma command_Inr:
  assumes "command h args opts s = (Inr r, t)" and "steady_host h"
  shows "0 \<le> rs_exitCode r \<and> rs_exitCode r \<le> 255 \<and>
     (0 \<le> max_bytes opts \<longrightarrow> result_bytes r \<le> max_bytes opts)"
proof -
  from assms(1) obtain log where c: "command_outcome opts (h_spawn h log args opts) = Inr r"
    by (auto simp: command_def spawn_command_def Let_def signal_aborted_def bind_act_def
        split: if_splits sum.splits)
  from assms(2) obtain n where "ch_exitCode (h_spawn h log args opts) = Some n" "0 \<le> n" "n \<le> 255"
    unfolding steady_host_def by blast
  with c have "0 \<le> rs_exitCode r" "rs_exitCode r \<le> 255"
    by (auto simp: command_outcome_def Let_def split: option.splits if_splits)
  then show ?thesis using command_outcome_bounded [OF c] by (simp add: result_bytes_def)
qed

lemma steady_later: "steady_host h \<Longrightarrow> t \<le> h_now h l \<Longrightarrow> prefix l l' \<Longrightarrow> t \<le> h_now h l'"
  unfolding steady_host_def prefix_def by (metis order_trans)

lemma elapsed_Inr:
  assumes "elapsed h started s = (Inr w, t)" and "steady_host h" and "started \<le> h_now h (su_log s)"
  shows "0 \<le> w"
  using assms by (auto simp: elapsed_def date_now_def bind_act_def Let_def)

text \<open>A case as the supervisor reports it, from output of at most \<open>n\<close> bytes.\<close>

definition report_ok :: "uuid \<Rightarrow> observed_case \<Rightarrow> bool" where
  "report_ok i c \<longleftrightarrow>
     oc_caseId c = i \<and> 0 \<le> oc_wallMs c \<and>
     opt_all (\<lambda>x. 0 \<le> x \<and> x \<le> 255) (oc_exitCode c) \<and>
     opt_all (\<lambda>f. f \<in> {TIME_LIMIT_EXCEEDED, MEMORY_LIMIT_EXCEEDED, OUTPUT_LIMIT_EXCEEDED}) (oc_failure c) \<and>
     opt_all (\<lambda>x. safe_int x \<and> 0 \<le> x) (oc_cpuMs c) \<and> opt_all (\<lambda>x. safe_int x \<and> 0 \<le> x) (oc_memoryKiB c) \<and>
     (oc_cpuMs c = None \<longleftrightarrow> oc_memoryKiB c = None) \<and>
     (oc_failure c \<noteq> None \<or> oc_exitCode c \<noteq> None)"

definition out_bytes :: "observed_case \<Rightarrow> nat" where
  "out_bytes c = byteLength (oc_stdout c) + byteLength (oc_stderr c)"

definition reported :: "uuid \<Rightarrow> int \<Rightarrow> observed_case \<Rightarrow> bool" where
  "reported i n c \<longleftrightarrow> report_ok i c \<and> 0 \<le> n \<and> int (out_bytes c) \<le> 3 * n"

lemmas report_defs = reported_def report_ok_def out_bytes_def

lemma reported_mono: "reported i n c \<Longrightarrow> n \<le> m \<Longrightarrow> reported i m c"
  by (auto simp: reported_def)

lemma reported_unobserved:
  "f \<in> {TIME_LIMIT_EXCEEDED, MEMORY_LIMIT_EXCEEDED, OUTPUT_LIMIT_EXCEEDED} \<Longrightarrow> 0 \<le> w \<Longrightarrow> 0 \<le> n \<Longrightarrow>
     reported i n (unobserved i f w)"
  by (simp add: report_defs unobserved_def)

lemma reported_observed:
  assumes "0 \<le> rs_exitCode r" "rs_exitCode r \<le> 255" "0 \<le> w"
    and "f = None \<or> f = Some MEMORY_LIMIT_EXCEEDED"
    and "opt_all (\<lambda>(a, b). safe_int a \<and> 0 \<le> a \<and> safe_int b \<and> 0 \<le> b) m"
  shows "reported i (result_bytes r) (observed i r f w m)"
  using assms byteLength_decode [of "rs_stdout r"] byteLength_decode [of "rs_stderr r"]
  by (cases m) (auto simp: report_defs observed_def result_bytes_def)

lemma settle_case_spec:
  assumes "settle_case h name i started before result s = (r, t)" and h: "steady_host h"
    and started: "started \<le> h_now h (su_log s)" and before: "snapshot_ok before"
    and exit: "0 \<le> rs_exitCode result" "rs_exitCode result \<le> 255"
  shows "su_budget t = su_budget s \<and> su_compilation t = su_compilation s \<and>
     (if r = Inr () then \<exists>c. su_cases t = su_cases s @ [c] \<and> reported i (result_bytes result) c
      else su_cases t = su_cases s)"
proof -
  let ?measure = "catch_act (bind_act (measure_case h name before) (\<lambda>m. return_act (Inr m)))
    (\<lambda>e. bind_act (containerState h name) (\<lambda>st. if st \<noteq> C_RUNNING then return_act (Inl st) else throw_act e))"
  have frame: "frame.obeys ?measure"
    unfolding measure_case_def by (intro frame_intros)
  show ?thesis
    using assms(1) unfolding settle_case_def
  proof (cases rule: bind_actE)
    case (thrown e)
    with framedD [OF frame thrown(1)] show ?thesis by auto
  next
    case (proceeds measured u)
    note u = framedD [OF frame proceeds(1)]
    have ok: "opt_all (\<lambda>(a, b). safe_int a \<and> 0 \<le> a \<and> safe_int b \<and> 0 \<le> b) (Some (md_cpuMs m, md_memoryKiB m))"
      if "measured = Inr m" for m
    proof -
      from proceeds(1) that obtain after where "metricDelta before after = Inr m" "snapshot_ok after"
        by (auto simp: catch_act_def measure_case_def split: prod.splits sum.splits if_splits
            elim!: bind_actE dest: snapshot_Inr)
      with metricDelta_ok [of before after m] before show ?thesis by simp
    qed
    from proceeds(2) show ?thesis
    proof (cases rule: bind_actE)
      case (thrown e)
      with framedD [OF frame_elapsed thrown(1)] u show ?thesis by simp
    next
      case (proceeds w v)
      note v = framedD [OF frame_elapsed proceeds(1)]
      have "0 \<le> w" using elapsed_Inr [OF proceeds(1) h] steady_later [OF h started] u by blast
      with proceeds(2) u v ok exit show ?thesis
        by (auto simp: push_case_def intro!: reported_observed split: sum.splits)
    qed
  qed
qed

lemma run_case_spec:
  assumes "run_case h req deadline test name started s = (r, t)" and h: "steady_host h"
    and started: "started \<le> h_now h (su_log s)" and budget: "0 \<le> su_budget s"
  shows "su_compilation t = su_compilation s \<and> 0 \<le> su_budget t \<and> su_budget t \<le> su_budget s \<and>
     (if r = Inr () then \<exists>c. su_cases t = su_cases s @ [c] \<and> reported (sc_id test) (su_budget s - su_budget t) c
      else su_cases t = su_cases s)"
  using assms(1) unfolding run_case_def
proof (cases rule: bind_actE)
  case (thrown e)
  with framedD [OF frame_snapshot thrown(1)] budget show ?thesis by simp
next
  case (proceeds before s1)
  note f1 = framedD [OF frame_snapshot proceeds(1)] and before = snapshot_Inr [OF proceeds(1)]
  from proceeds(2) show ?thesis
  proof (cases rule: bind_actE)
    case (thrown e)
    with framedD [OF frame_events(1) thrown(1)] f1 budget show ?thesis by simp
  next
    case (proceeds now s2)
    note f2 = framedD [OF frame_events(1) proceeds(1)]
    let ?opts = "\<lparr>do_input = Some (utf8_encode (sc_input test)), do_signal = True,
          do_timeoutMs = Some (max 1 (min (sr_timeMs req) (deadline - now))),
          do_maxBytes = Some (su_budget s2), do_allowFailure = True\<rparr>"
    from proceeds(2) have "bind_act (command h ([''exec'', ''--interactive'', name] @ profile_command (sr_language req)) ?opts)
        (\<lambda>result. bind_act (spend (result_bytes result)) (\<lambda>_.
           settle_case h name (sc_id test) started before result)) s2 = (r, t)"
      by simp
    then show ?thesis
    proof (cases rule: bind_actE)
      case (thrown e)
      with framedD [OF frame_command thrown(1)] f1 f2 budget show ?thesis by simp
    next
      case (proceeds result s3)
      note f3 = framedD [OF frame_command proceeds(1)] and c = command_Inr [OF proceeds(1) h]
      let ?s4 = "s3\<lparr>su_budget := su_budget s3 - result_bytes result\<rparr>"
      from proceeds(2) have "settle_case h name (sc_id test) started before result ?s4 = (r, t)"
        by (simp add: spend_def)
      note settle_case_spec [OF this h _ before]
      moreover have "started \<le> h_now h (su_log ?s4)"
        by (rule steady_later [OF h started]) (use f1 f2 f3 in \<open>auto intro: prefix_order.trans\<close>)
      moreover have "result_bytes result \<le> su_budget s" "0 \<le> result_bytes result"
        using c budget f1 f2 by (simp_all add: max_bytes_def result_bytes_def)
      ultimately show ?thesis using c f1 f2 f3 by (auto split: if_splits)
    qed
  qed
qed

lemma case_failed_Inr:
  assumes "case_failed h i started e s = (Inr (), t)" and h: "steady_host h"
    and started: "started \<le> h_now h (su_log s)" and budget: "0 \<le> su_budget s"
  shows "su_compilation t = su_compilation s \<and> 0 \<le> su_budget t \<and> su_budget t \<le> su_budget s \<and>
     (\<exists>c. su_cases t = su_cases s @ [c] \<and> reported i (su_budget s - su_budget t) c)"
proof -
  from assms(1) obtain w u where u: "elapsed h started s = (Inr w, u)"
    and t: "t = u\<lparr>su_cases := su_cases u @ [unobserved i TIME_LIMIT_EXCEEDED w]\<rparr> \<or>
            t = u\<lparr>su_cases := su_cases u @ [unobserved i OUTPUT_LIMIT_EXCEEDED w], su_budget := 0\<rparr>"
    by (cases e) (auto simp: case_failed_def push_case_def split: docker_code.splits elim!: bind_act_InrE)
  have "0 \<le> w" by (rule elapsed_Inr [OF u h started])
  with t budget framedD [OF frame_elapsed u] show ?thesis
    by (auto intro!: reported_unobserved)
qed

text \<open>What a case adds to the variables of the execution.\<close>

definition case_added :: "uuid \<Rightarrow> sup \<Rightarrow> sup \<Rightarrow> bool" where
  "case_added i s t \<longleftrightarrow>
     su_compilation t = su_compilation s \<and> 0 \<le> su_budget t \<and> su_budget t \<le> su_budget s \<and>
     (\<exists>c. su_cases t = su_cases s @ [c] \<and> reported i (su_budget s - su_budget t) c)"

lemma case_body_Inr:
  assumes "case_body h req deadline test name s = (Inr (), t)" and h: "steady_host h" and budget: "0 \<le> su_budget s"
  shows "case_added (sc_id test) s t"
proof -
  let ?unpack = "if sc_files test \<noteq> []
        then bind_act (lift_result (packFiles h (map (\<lambda>f. (tf_name f, utf8_encode (tf_content f))) (sc_files test))))
          (\<lambda>files. bind_act (command h (untar_args name) (with_signal\<lparr>do_input := Some files\<rparr>)) (\<lambda>_. return_act ()))
        else return_act ()"
  have fu: "frame.obeys ?unpack" by (intro frame_intros)
  from assms(1) obtain x u started v where u: "?unpack s = (Inr x, u)"
    and v: "date_now h u = (Inr started, v)"
    and run: "catch_act (run_case h req deadline test name started) (case_failed h (sc_id test) started) v = (Inr (), t)"
    unfolding case_body_def by (auto elim!: bind_act_InrE)
  note f = framedD [OF fu u] framedD [OF frame_events(1) v]
  have in_v: "started \<le> h_now h (su_log v)"
    using v h by (auto simp: date_now_def Let_def log_event_def steady_host_def)
  obtain r w where w: "run_case h req deadline test name started v = (r, w)"
    by (cases "run_case h req deadline test name started v")
  have bv: "0 \<le> su_budget v" using budget f by simp
  note spec = run_case_spec [OF w h in_v bv]
  show ?thesis
  proof (cases r)
    case (Inr y)
    with run w have "t = w" by (simp add: catch_act_def)
    with spec Inr f show ?thesis by (simp add: case_added_def)
  next
    case (Inl e)
    with run w have cf: "case_failed h (sc_id test) started e w = (Inr (), t)" by (simp add: catch_act_def)
    have "started \<le> h_now h (su_log w)"
    proof -
      have "quiet.obeys (run_case h req deadline test name started)"
        unfolding run_case_def by (intro quiet_intros) simp_all
      with w Inl have "quietly (Some e) v w" by (auto dest: quiet.obeysD)
      then have "prefix (su_log v) (su_log w)" by (auto simp: quietly_def)
      with h in_v show ?thesis by (rule steady_later)
    qed
    with case_failed_Inr [OF cf h] spec Inl f show ?thesis
      by (auto simp: case_added_def elim!: reported_mono)
  qed
qed

section \<open>The whole execution\<close>

text \<open>A sandbox whose body succeeds changes the variables of the execution only in its body.\<close>

lemma sandbox_Inr:
  assumes "sandbox h mf req compile archive deadline body s = (Inr (), t)"
  obtains name u v where "framed None s u" "body name u = (Inr (), v)" "framed None v t"
proof -
  let ?u = "h_uuid h (su_log s)"
  let ?name = "''ac-'' @ ?u"
  let ?s1 = "log_event (EUuid ?u) s"
  let ?m = "if compile then cap_compileMemoryMiB CAPS else sr_memoryMiB req"
  obtain v where inside: "sandbox_inside h mf req ?m archive deadline ?name body ?s1 = (Inr (), v)"
    and destr: "destroy h ?name v = (Inr (), t)"
    using assms
    by (auto simp: sandbox_def random_uuid_def Let_def bind_act_def [of "random_uuid h"] finally_act_def catch_act_def
        bind_act_def split: sum.splits prod.splits)
  have 1: "framed None s ?s1" by (auto simp: framed_def variables_def log_event_def)
  from inside obtain u where "framed None ?s1 u" "body ?name u = (Inr (), v)"
    unfolding sandbox_inside_def
    by (elim bind_act_InrE) (meson frame.R_trans frame.obeysD(1) frame_abort_check frame_lift frame_command
        frame_verifyContainer)
  with 1 have "framed None s u" "body ?name u = (Inr (), v)" by (auto intro: frame.R_trans)
  moreover have "framed None v t" using destr frame_destroy by (auto dest: frame.obeysD)
  ultimately show ?thesis using that by blast
qed

text \<open>
  What the loop over the cases adds: reports of a prefix of the cases in order, a failure only in the
  last one, and a whole prefix unless the last one failed; all within the budget that was spent.
\<close>

definition reports_of :: "uuid list \<Rightarrow> observed_case list \<Rightarrow> bool" where
  "reports_of ids cs \<longleftrightarrow>
     length cs \<le> length ids \<and> list_all2 report_ok (take (length cs) ids) cs \<and>
     list_all (\<lambda>c. oc_failure c = None) (butlast cs) \<and>
     (length cs < length ids \<longrightarrow> cs \<noteq> [] \<and> oc_failure (last cs) \<noteq> None)"

lemma reports_of_Cons:
  assumes "report_ok i c" and "oc_failure c = None" and "reports_of ids cs"
  shows "reports_of (i # ids) (c # cs)"
  using assms by (auto simp: reports_of_def)

lemma case_loop_Inr:
  assumes "case_loop h mf req deadline tests s = (Inr (), t)" and "steady_host h" and "0 \<le> su_budget s"
  shows "\<exists>cs. su_cases t = su_cases s @ cs \<and> reports_of (map sc_id tests) cs \<and>
     su_compilation t = su_compilation s \<and> 0 \<le> su_budget t \<and> su_budget t \<le> su_budget s \<and>
     int (sum_list (map out_bytes cs)) \<le> 3 * (su_budget s - su_budget t)"
  using assms(1,3)
proof (induction tests arbitrary: s)
  case Nil
  then show ?case by (simp add: reports_of_def)
next
  case (Cons test tests)
  from Cons.prems(1) obtain a where a: "abort_check h s = (Inr (), a)"
    and rest: "(if su_budget a \<le> 0 then push_case (unobserved (sc_id test) OUTPUT_LIMIT_EXCEEDED 0)
      else bind_act (sandbox h mf req False (su_archive a) deadline (case_body h req deadline test)) (\<lambda>_.
       bind_act (get_act su_cases) (\<lambda>cases.
       if cases \<noteq> [] \<and> oc_failure (last cases) \<noteq> None then return_act ()
       else case_loop h mf req deadline tests))) a = (Inr (), t)"
    by (auto elim!: bind_act_InrE split: if_splits)
  note fa = framedD [OF frame_abort_check a]
  show ?case
  proof (cases "su_budget a \<le> 0")
    case True
    with rest have "t = a\<lparr>su_cases := su_cases a @ [unobserved (sc_id test) OUTPUT_LIMIT_EXCEEDED 0]\<rparr>"
      by (simp add: push_case_def)
    moreover have "report_ok (sc_id test) (unobserved (sc_id test) OUTPUT_LIMIT_EXCEEDED 0)"
      by (simp add: report_ok_def unobserved_def)
    ultimately show ?thesis
      using fa Cons.prems(2)
      by (intro exI [of _ "[unobserved (sc_id test) OUTPUT_LIMIT_EXCEEDED 0]"])
        (simp add: reports_of_def out_bytes_def, simp add: unobserved_def)
  next
    case False
    with rest obtain b where b: "sandbox h mf req False (su_archive a) deadline (case_body h req deadline test) a = (Inr (), b)"
      and rest': "(if su_cases b \<noteq> [] \<and> oc_failure (last (su_cases b)) \<noteq> None then return_act ()
        else case_loop h mf req deadline tests) b = (Inr (), t)"
      by (auto elim!: bind_act_InrE)
    from b obtain name u v where uv: "framed None a u" "case_body h req deadline test name u = (Inr (), v)" "framed None v b"
      by (rule sandbox_Inr)
    from uv(1) Cons.prems(2) fa have "0 \<le> su_budget u" by (simp add: framed_def variables_def)
    from case_body_Inr [OF uv(2) assms(2) this] obtain c where c: "su_cases b = su_cases s @ [c]"
      "reported (sc_id test) (su_budget s - su_budget b) c" "su_compilation b = su_compilation s"
      "0 \<le> su_budget b" "su_budget b \<le> su_budget s"
      using uv(1,3) fa by (auto simp: case_added_def framed_def variables_def)
    show ?thesis
    proof (cases "oc_failure c = None")
      case True
      with rest' c(1) have "case_loop h mf req deadline tests b = (Inr (), t)" by simp
      from Cons.IH [OF this c(4)] obtain cs where cs: "su_cases t = su_cases b @ cs" "reports_of (map sc_id tests) cs"
        "su_compilation t = su_compilation b" "0 \<le> su_budget t" "su_budget t \<le> su_budget b"
        "int (sum_list (map out_bytes cs)) \<le> 3 * (su_budget b - su_budget t)"
        by blast
      with c True show ?thesis
        by (intro exI [of _ "c # cs"]) (auto simp: reported_def intro: reports_of_Cons)
    next
      case False
      with rest' c(1) have "t = b" by simp
      with c False show ?thesis
        by (intro exI [of _ "[c]"]) (auto simp: reported_def reports_of_def)
    qed
  qed
qed

definition compilation_bytes :: "compilation option \<Rightarrow> nat" where
  "compilation_bytes c = (case c of None \<Rightarrow> 0 | Some x \<Rightarrow> byteLength (cp_stdout x) + byteLength (cp_stderr x))"

lemma frame_modify_archive: "frame.obeys (modify_act (\<lambda>s. s\<lparr>su_archive := a\<rparr>))"
  by (intro frame_intros) (simp_all add: variables_def)

lemma compile_phase_Inr:
  assumes "compile_phase h deadline name s = (Inr (), t)" and "steady_host h" and "0 \<le> su_budget s"
  shows "su_cases t = su_cases s \<and> su_compilation t \<noteq> None \<and> 0 \<le> su_budget t \<and>
     int (compilation_bytes (su_compilation t)) \<le> 3 * (su_budget s - su_budget t)"
proof -
  from assms(1) obtain x a now b result c where a: "command h [''exec'', name, ''/bin/mkdir'', ''/work/classes''] with_signal s = (Inr x, a)"
    and b: "date_now h a = (Inr now, b)"
    and c: "command h (javac_args name) \<lparr>do_input = None, do_signal = True,
        do_timeoutMs = Some (min (cap_compileMs CAPS) (deadline - now)), do_maxBytes = Some (su_budget b),
        do_allowFailure = True\<rparr> b = (Inr result, c)"
    and rest: "(if rs_exitCode result = 0
       then bind_act (command h [''exec'', name, ''/bin/tar'', ''-c'', ''-f'', ''-'', ''-C'', ''/work/classes'', ''.'']
              (with_signal\<lparr>do_maxBytes := Some (int (cap_artifactBytes CAPS))\<rparr>)) (\<lambda>out.
            bind_act (lift_result (normalizeJavaArtifacts h (rs_stdout out))) (\<lambda>a.
            modify_act (\<lambda>s. s\<lparr>su_archive := a\<rparr>)))
       else return_act ()) (c\<lparr>su_budget := su_budget c - result_bytes result,
         su_compilation := Some \<lparr>cp_ok = (rs_exitCode result = 0),
           cp_stdout = utf8_decode (rs_stdout result), cp_stderr = utf8_decode (rs_stderr result)\<rparr>\<rparr>) = (Inr (), t)"
    unfolding compile_phase_def spend_def by (auto elim!: bind_act_InrE)
  have fr: "frame.obeys (if rs_exitCode result = 0
       then bind_act (command h [''exec'', name, ''/bin/tar'', ''-c'', ''-f'', ''-'', ''-C'', ''/work/classes'', ''.'']
              (with_signal\<lparr>do_maxBytes := Some (int (cap_artifactBytes CAPS))\<rparr>)) (\<lambda>out.
            bind_act (lift_result (normalizeJavaArtifacts h (rs_stdout out))) (\<lambda>a.
            modify_act (\<lambda>s. s\<lparr>su_archive := a\<rparr>)))
       else return_act ())"
    by (intro frame_intros frame_modify_archive) (simp_all add: variables_def)
  note f = framedD [OF frame_command a] framedD [OF frame_events(1) b] framedD [OF frame_command c]
    framedD [OF fr rest]
  have "result_bytes result \<le> su_budget s" using command_Inr [OF c assms(2)] assms(3) f by (simp add: max_bytes_def)
  with f show ?thesis
    using byteLength_decode [of "rs_stdout result"] byteLength_decode [of "rs_stderr result"]
    by (auto simp: compilation_bytes_def result_bytes_def)
qed

text \<open>What an observation of the supervisor promises to the judge.\<close>

definition observation_ok :: "language \<Rightarrow> uuid list \<Rightarrow> observation \<Rightarrow> bool" where
  "observation_ok lang ids ob \<longleftrightarrow>
     \<not> ob_cancellationConfirmed ob \<and> (lang = Java \<longleftrightarrow> ob_compilation ob \<noteq> None) \<and>
     outputBytes ob \<le> 768 * 1024 \<and>
     (if compiled ob then reports_of ids (ob_cases ob) else ob_cases ob = [])"

lemma outputBytes_alt: "outputBytes ob = sum_list (map out_bytes (ob_cases ob)) + compilation_bytes (ob_compilation ob)"
  by (simp add: outputBytes_def out_bytes_def compilation_bytes_def comp_def cong: map_cong)

lemma execute_body_Inr:
  assumes run: "execute_body h mf req deadline s = (Inr ob, t)" and h: "steady_host h"
    and s: "su_budget s = 262144" "su_compilation s = None" "su_cases s = []"
  shows "observation_ok (sr_language req) (map sc_id (sr_cases req)) ob"
proof -
  from run obtain archive b where b: "compile_if_java h mf req deadline (s\<lparr>su_archive := archive\<rparr>) = (Inr (), b)"
    and rest: "(if sr_language req = Java \<and> (case su_compilation b of None \<Rightarrow> True | Some c \<Rightarrow> \<not> cp_ok c)
      then observation_act
      else bind_act (case_loop h mf req deadline (sr_cases req)) (\<lambda>_. observation_act)) b = (Inr ob, t)"
    unfolding execute_body_def by (auto elim!: bind_act_InrE split: if_splits)
  have compiled_b: "su_cases b = [] \<and> (sr_language req = Java \<longleftrightarrow> su_compilation b \<noteq> None) \<and> 0 \<le> su_budget b \<and>
      int (compilation_bytes (su_compilation b)) \<le> 3 * (262144 - su_budget b)"
  proof (cases "sr_language req = Java")
    case True
    with b have "sandbox h mf req True archive deadline (compile_phase h deadline) (s\<lparr>su_archive := archive\<rparr>) = (Inr (), b)"
      by (simp add: compile_if_java_def)
    then obtain name u v where uv: "framed None (s\<lparr>su_archive := archive\<rparr>) u"
      "compile_phase h deadline name u = (Inr (), v)" "framed None v b" by (rule sandbox_Inr)
    from uv(1) s have "0 \<le> su_budget u" by (simp add: framed_def variables_def)
    from compile_phase_Inr [OF uv(2) h this] uv(1,3) s True show ?thesis
      by (auto simp: framed_def variables_def)
  next
    case False
    with b s show ?thesis by (simp add: compile_if_java_def compilation_bytes_def)
  qed
  show ?thesis
  proof (cases "sr_language req = Java \<and> (case su_compilation b of None \<Rightarrow> True | Some c \<Rightarrow> \<not> cp_ok c)")
    case True
    with rest compiled_b show ?thesis
      by (auto simp: observation_ok_def observation_act_def outputBytes_alt compiled_def split: option.splits)
  next
    case False
    with rest obtain c where c: "case_loop h mf req deadline (sr_cases req) b = (Inr (), c)"
      and ob: "observation_act c = (Inr ob, t)"
      by (auto elim!: bind_act_InrE)
    from case_loop_Inr [OF c h] compiled_b obtain cs where cs: "su_cases c = cs"
      "reports_of (map sc_id (sr_cases req)) cs" "su_compilation c = su_compilation b" "0 \<le> su_budget c"
      "int (sum_list (map out_bytes cs)) \<le> 3 * (su_budget b - su_budget c)"
      by auto
    have "int (outputBytes ob) \<le> 3 * (262144 - su_budget b) + 3 * (su_budget b - su_budget c)"
      using ob cs compiled_b by (simp add: observation_act_def outputBytes_alt)
    also have "\<dots> \<le> 786432" using cs(4) by (simp add: algebra_simps)
    finally have "int (outputBytes ob) \<le> 786432" .
    then have "outputBytes ob \<le> 768 * 1024" by simp
    with ob cs compiled_b False show ?thesis
      by (auto simp: observation_ok_def observation_act_def compiled_def split: option.splits)
  qed
qed

lemma execute_Inr:
  assumes "execute h mf is_uuid req s = (Inr ob, t)" and "steady_host h"
  shows "sandboxRequestSchema is_uuid req \<and> observation_ok (sr_language req) (map sc_id (sr_cases req)) ob"
proof -
  from assms(1) obtain a now b c where a: "start_execution is_uuid req s = (Inr (), a)"
    and b: "date_now h (fresh_variables a) = (Inr now, b)"
    and c: "execute_body h mf req (now + cap_totalMs CAPS) b = (Inr ob, c)"
    unfolding execute_def
    by (auto simp: finally_act_def modify_act_def split: prod.splits sum.splits elim!: bind_act_InrE)
  have "su_budget b = 262144" "su_compilation b = None" "su_cases b = []"
    using framedD [OF frame_events(1) b] by (simp_all add: fresh_variables_def CAPS_def)
  from execute_body_Inr [OF c assms(2) this] a show ?thesis by (simp add: start_execution_Inr)
qed

section \<open>The judge accepts it\<close>

lemma report_ok_schema: "report_ok i c \<Longrightarrow> is_uuid i \<Longrightarrow> observedCaseSchema is_uuid c"
  by (auto simp: report_ok_def observedCaseSchema_def split: option.splits)

lemma reports_of_schema:
  assumes "reports_of ids cs" and "\<forall>i \<in> set ids. is_uuid i" and "length ids \<le> 100"
  shows "length cs \<le> 100 \<and> (\<forall>c \<in> set cs. observedCaseSchema is_uuid c)"
proof -
  from assms(1) have "list_all2 report_ok (take (length cs) ids) cs" "length cs \<le> length ids"
    by (simp_all add: reports_of_def)
  then have "\<forall>c \<in> set cs. \<exists>i \<in> set ids. report_ok i c"
    by (metis in_set_conv_nth list_all2_conv_all_nth in_set_takeD)
  with assms(2,3) \<open>length cs \<le> length ids\<close> show ?thesis by (meson le_trans report_ok_schema)
qed

lemma observation_judged:
  assumes sel: "selectCases is_uuid plan m = Inr ts" and ob: "observation_ok lang (map jc_id ts) ob"
  shows "\<exists>res. judge is_uuid strip plan m lang (Some ob) = Inr res"
proof -
  have ts: "ts \<noteq> []" "length ts \<le> 100" "\<forall>t \<in> set ts. is_uuid (jc_id t)"
    using sel by (auto simp: selectCases_Inr intro: order_trans [OF length_filter_le])
  have schema: "observationSchema is_uuid ob"
  proof (cases "compiled ob")
    case True
    with ob ts reports_of_schema [of "map jc_id ts" "ob_cases ob" is_uuid] show ?thesis
      by (auto simp: observation_ok_def observationSchema_def)
  next
    case False
    with ob show ?thesis by (auto simp: observation_ok_def observationSchema_def)
  qed
  with ob have judgeable: "judgeable is_uuid lang ob" by (simp add: judgeable_def observation_ok_def)
  show ?thesis
  proof (cases "compiled ob")
    case False
    with judgeable sel ob show ?thesis
      by (auto simp: judge_def judgeable_def compiled_def observation_ok_def split: option.splits)
  next
    case True
    with ob have r: "reports_of (map jc_id ts) (ob_cases ob)" by (simp add: observation_ok_def)
    then have closed: "closed_run ts (ob_cases ob)" using ts(1) by (auto simp: reports_of_def closed_run_def)
    have "list_all2 well_reported (take (length (ob_cases ob)) ts) (ob_cases ob)"
      using r by (auto simp: reports_of_def take_map list_all2_map1 report_ok_def well_reported_def elim!: list_all2_mono)
    moreover have "\<forall>c \<in> set (butlast (ob_cases ob)). oc_failure c = None"
      using r by (simp add: reports_of_def list_all_iff)
    ultimately obtain acc where "judge_loop strip m ts (ob_cases ob) acc0 = Inr acc"
      using judge_loop_Inr [of "ob_cases ob" ts strip m acc0] closed by (auto simp: closed_run_def)
    from judge_judged [OF sel judgeable True closed this] show ?thesis by blast
  qed
qed

end
