(* ===== verification/Database.thy ===== *)
theory Database
  imports Judge
begin

text \<open>
  The database of \<open>prisma/schema.prisma\<close> and its migrations, as far as the modelled components
  use it: one record per table row, the tables as lists of rows, and the writes with the triggers,
  checks and unique constraints of the migrations. A write that violates one of them is
  \<open>Inl (DbError ..)\<close>; the caller's transaction then rolls back, that is, it has no new database.

  Rows are identified by what the schema declares unique: an event by execution, attempt and
  sequence, an outbox intent by execution, kind and generation. Columns that no code reads are left
  out: the \<open>updatedAt\<close> of every table but the discussion posts (Prisma maintains them, and the
  lifecycle trigger exempts them), the identifiers and times of audit events, the creation times of
  versions, competitions, credentials, likes and login attempts.
\<close>

section \<open>Rows\<close>

datatype role = USER | MODERATOR | ADMIN

datatype difficulty = EASY | MEDIUM | HARD

datatype inputMode = STDIN | FILES

datatype profileVisibility = PV_PUBLIC | PV_PRIVATE

datatype themePreference = SYSTEM | DARK | LIGHT

datatype discussionStatus = DS_VISIBLE | DS_HIDDEN | DS_DELETED

datatype competitionKind = CONTEST | TOURNAMENT

datatype reportReason = SPAM | HARASSMENT | SOLUTION_LEAK | OFF_TOPIC | OTHER

datatype reportStatus = PENDING | RESOLVED | DISMISSED

record user =
  us_id :: uuid
  us_issuer :: string
  us_subject :: string
  us_displayName :: jsstr
  us_username :: string
  us_bio :: "jsstr option"
  us_location :: "jsstr option"
  us_website :: "jsstr option"
  us_avatarUrl :: "jsstr option"
  us_profileVisibility :: profileVisibility
  us_themePreference :: themePreference
  us_productNotifications :: bool
  us_competitionNotifications :: bool
  us_deactivatedAt :: "millis option"
  us_suspendedUntil :: "millis option"
  us_bannedAt :: "millis option"
  us_restrictionReason :: "jsstr option"
  us_role :: role
  us_createdAt :: millis

record problem =
  pr_id :: uuid
  pr_slug :: string
  pr_currentVersionId :: "uuid option"
  pr_createdAt :: millis

record version =
  vn_id :: uuid
  vn_problemId :: uuid
  vn_number :: int
  vn_published :: bool
  vn_title :: jsstr
  vn_difficulty :: difficulty
  vn_tags :: "string list"
  vn_statementMarkdown :: jsstr
  vn_constraints :: "jsstr list"
  vn_timeMs :: int
  vn_memoryKiB :: int
  vn_templates :: json
  vn_inputMode :: inputMode
  vn_comparator :: string

record test_case =
  tc_id :: uuid
  tc_problemVersionId :: uuid
  tc_ordinal :: int
  tc_visibility :: visibility
  tc_input :: jsstr
  tc_expectedOutput :: jsstr
  tc_files :: "test_file list"

record execution =
  ex_id :: uuid
  ex_userId :: uuid
  ex_problemVersionId :: uuid
  ex_competitionRoundId :: "uuid option"
  ex_language :: language
  ex_mode :: mode
  ex_sourceCode :: jsstr
  ex_payloadHash :: string
  ex_idempotencyKey :: string
  ex_state :: state
  ex_verdict :: "verdict option"
  ex_attempt :: int
  ex_lastSequence :: int
  ex_leaseToken :: "uuid option"
  ex_leaseExpiresAt :: "millis option"
  ex_runtimeMs :: "int option"
  ex_memoryKiB :: "int option"
  ex_publicResults :: "case_result list option"
  ex_createdAt :: millis
  ex_finishedAt :: "millis option"
  ex_queueExpiresAt :: millis
  ex_failureCode :: "failure_code option"
  ex_cancellationRequestedAt :: "millis option"

datatype outbox_kind =
    EXECUTION_CREATED | EXECUTION_RECOVERY | EXECUTION_CANCELLED | EXECUTION_EXPIRED

record outbox =
  ox_executionId :: uuid
  ox_kind :: outbox_kind
  ox_generation :: int
  ox_createdAt :: millis
  ox_publishedAt :: "millis option"
  ox_dispatchToken :: "uuid option"
  ox_dispatchExpiresAt :: "millis option"
  ox_nextDispatchAt :: millis
  ox_dispatchAttempts :: int

record event_row =
  ev_executionId :: uuid
  ev_attempt :: int
  ev_sequence :: int
  ev_payload :: public_event
  ev_bytes :: int
  ev_expiresAt :: millis

record notification =
  nt_id :: uuid
  nt_userId :: uuid
  nt_kind :: string
  nt_title :: jsstr
  nt_body :: jsstr
  nt_href :: "string option"
  nt_dedupeKey :: "string option"
  nt_readAt :: "millis option"
  nt_createdAt :: millis

record rate_limit =
  rl_key :: string
  rl_count :: int
  rl_expiresAt :: millis

record competition =
  co_id :: uuid
  co_slug :: string
  co_kind :: competitionKind
  co_title :: jsstr
  co_description :: jsstr
  co_rulesMarkdown :: jsstr
  co_prizeLabel :: "jsstr option"
  co_startsAt :: millis
  co_endsAt :: millis
  co_published :: bool
  co_ownerId :: "uuid option"

record competition_round =
  rd_id :: uuid
  rd_competitionId :: uuid
  rd_title :: jsstr
  rd_ordinal :: int
  rd_startsAt :: millis
  rd_endsAt :: millis

record competition_problem =
  cb_roundId :: uuid
  cb_problemId :: uuid
  cb_ordinal :: int
  cb_points :: int

record registration =
  rg_competitionId :: uuid
  rg_userId :: uuid
  rg_joinedAt :: millis

record session =
  se_id :: uuid
  se_tokenHash :: string
  se_csrfTokenHash :: string
  se_userId :: uuid
  se_expiresAt :: millis
  se_revokedAt :: "millis option"
  se_createdAt :: millis

record credential =
  cd_id :: uuid
  cd_userId :: uuid
  cd_email :: string
  cd_passwordHash :: string

record auth_attempt =
  aa_stateHash :: string
  aa_browserTokenHash :: string
  aa_encryptedPayload :: string
  aa_expiresAt :: millis

record audit_event =
  ae_actorId :: "uuid option"
  ae_action :: string
  ae_targetId :: "uuid option"

record discussion_post =
  dp_id :: uuid
  dp_problemId :: uuid
  dp_authorId :: uuid
  dp_parentId :: "uuid option"
  dp_title :: "jsstr option"
  dp_body :: jsstr
  dp_status :: discussionStatus
  dp_createdAt :: millis
  dp_updatedAt :: millis

record content_report =
  rp_id :: uuid
  rp_postId :: uuid
  rp_reporterId :: uuid
  rp_reason :: reportReason
  rp_details :: "jsstr option"
  rp_status :: reportStatus
  rp_moderatorId :: "uuid option"
  rp_moderatorNote :: "jsstr option"
  rp_createdAt :: millis
  rp_resolvedAt :: "millis option"

record discussion_like =
  dl_postId :: uuid
  dl_userId :: uuid

record db =
  db_users :: "user list"
  db_problems :: "problem list"
  db_versions :: "version list"
  db_testCases :: "test_case list"
  db_executions :: "execution list"
  db_outbox :: "outbox list"
  db_events :: "event_row list"
  db_notifications :: "notification list"
  db_executionLimits :: "rate_limit list"
  db_competitions :: "competition list"
  db_rounds :: "competition_round list"
  db_competitionProblems :: "competition_problem list"
  db_registrations :: "registration list"
  db_sessions :: "session list"
  db_credentials :: "credential list"
  db_authAttempts :: "auth_attempt list"
  db_authLimits :: "rate_limit list"
  db_auditEvents :: "audit_event list"
  db_discussionPosts :: "discussion_post list"
  db_contentReports :: "content_report list"
  db_discussionLikes :: "discussion_like list"
  db_discussionLimits :: "rate_limit list"

type_synonym 'a tx = "('a \<times> db) result"

definition empty_db :: db where
  "empty_db = \<lparr>db_users = [], db_problems = [], db_versions = [], db_testCases = [],
     db_executions = [], db_outbox = [], db_events = [], db_notifications = [],
     db_executionLimits = [], db_competitions = [], db_rounds = [], db_competitionProblems = [],
     db_registrations = [], db_sessions = [], db_credentials = [], db_authAttempts = [],
     db_authLimits = [], db_auditEvents = [], db_discussionPosts = [], db_contentReports = [],
     db_discussionLikes = [], db_discussionLimits = []\<rparr>"

section \<open>Clocks and code outside the repository\<close>

text \<open>
  The clocks one call reads: \<open>ck_db\<close> is the \<open>clock_timestamp()\<close> its query returned,
  \<open>ck_trigger\<close> the later one a trigger reads, \<open>ck_start\<close> PostgreSQL's \<open>CURRENT_TIMESTAMP\<close> (the
  start of the transaction), \<open>ck_host\<close> the \<open>Date.now()\<close> of the process.
\<close>

record clock =
  ck_start :: millis
  ck_db :: millis
  ck_trigger :: millis
  ck_host :: millis

definition clock_ok :: "clock \<Rightarrow> bool" where
  "clock_ok ck \<longleftrightarrow> ck_start ck \<le> ck_db ck \<and> ck_db ck \<le> ck_trigger ck"

text \<open>
  Code the repository calls and does not contain: \<open>z.uuid()\<close> of zod, \<open>stripVTControlCharacters\<close>
  of \<open>node:util\<close>, and the identifier \<open>gen_random_uuid()\<close> gives to the notification of an execution.
\<close>

record env =
  is_uuid :: "string \<Rightarrow> bool"
  strip_vt :: "jsstr \<Rightarrow> jsstr"
  notification_id :: "uuid \<Rightarrow> uuid"

section \<open>Executions\<close>

text \<open>PostgreSQL's \<open>INTEGER\<close> has 32 bits.\<close>

definition int4 :: "int \<Rightarrow> bool" where
  "int4 n \<longleftrightarrow> - (2 ^ 31) \<le> n \<and> n < 2 ^ 31"

definition valid_execution_terminal_fields :: "execution \<Rightarrow> bool" where
  "valid_execution_terminal_fields r \<longleftrightarrow>
     (ex_state r \<in> {QUEUED, COMPILING, RUNNING} \<and> ex_verdict r = None \<and> ex_finishedAt r = None \<and>
        ex_failureCode r = None) \<or>
     (ex_state r = FINISHED \<and> ex_verdict r \<noteq> None \<and>
        ex_verdict r \<noteq> Some V_CANCELLED \<and> ex_verdict r \<noteq> Some V_INTERNAL_ERROR \<and>
        ex_finishedAt r \<noteq> None \<and> ex_failureCode r = None) \<or>
     (ex_state r = CANCELLED \<and> ex_verdict r = Some V_CANCELLED \<and> ex_finishedAt r \<noteq> None \<and>
        ex_failureCode r = None) \<or>
     (ex_state r = INTERNAL_ERROR \<and> ex_verdict r = Some V_INTERNAL_ERROR \<and> ex_finishedAt r \<noteq> None)"

definition valid_execution_lease_pair :: "execution \<Rightarrow> bool" where
  "valid_execution_lease_pair r \<longleftrightarrow>
     (ex_leaseToken r = None \<and> ex_leaseExpiresAt r = None) \<or>
     (ex_leaseToken r \<noteq> None \<and> ex_leaseExpiresAt r \<noteq> None \<and> ex_state r \<in> {COMPILING, RUNNING})"

text \<open>The \<open>CHECK\<close> constraints of the table and the ranges of its columns.\<close>

definition execution_checks :: "execution \<Rightarrow> bool" where
  "execution_checks r \<longleftrightarrow>
     1 \<le> byteLength (ex_sourceCode r) \<and> byteLength (ex_sourceCode r) \<le> 65536 \<and>
     0 \<notin> set (ex_sourceCode r) \<and>
     opt_all (\<lambda>n. 0 \<le> n \<and> int4 n) (ex_runtimeMs r) \<and> opt_all (\<lambda>n. 0 \<le> n \<and> int4 n) (ex_memoryKiB r) \<and>
     (ex_mode r = RUN \<or> ex_publicResults r = None) \<and>
     valid_execution_terminal_fields r \<and>
     0 \<le> ex_attempt r \<and> int4 (ex_attempt r) \<and> 0 \<le> ex_lastSequence r \<and> int4 (ex_lastSequence r) \<and>
     ex_createdAt r < ex_queueExpiresAt r \<and>
     valid_execution_lease_pair r"

text \<open>The columns the trigger keeps immutable.\<close>

definition request_of ::
    "execution \<Rightarrow> (uuid \<times> uuid \<times> uuid \<times> uuid option) \<times> (language \<times> mode \<times> jsstr \<times> string \<times> string) \<times> millis \<times> millis"
  where
  "request_of r =
     ((ex_id r, ex_userId r, ex_problemVersionId r, ex_competitionRoundId r),
      (ex_language r, ex_mode r, ex_sourceCode r, ex_payloadHash r, ex_idempotencyKey r),
      ex_createdAt r, ex_queueExpiresAt r)"

definition expired_lease :: "millis \<Rightarrow> execution \<Rightarrow> bool" where
  "expired_lease now r = (case ex_leaseExpiresAt r of None \<Rightarrow> False | Some t \<Rightarrow> t \<le> now)"

definition protect_execution_lifecycle :: "millis \<Rightarrow> execution \<Rightarrow> execution \<Rightarrow> error option" where
  "protect_execution_lifecycle now old new =
     (if request_of new \<noteq> request_of old
      then Some (DbError ''execution request and version snapshot are immutable'')
      else if ex_cancellationRequestedAt old \<noteq> None \<and>
              ex_cancellationRequestedAt new \<noteq> ex_cancellationRequestedAt old
      then Some (DbError ''cancellation request is immutable'')
      else if ex_leaseToken old \<noteq> None \<and> ex_leaseToken new \<noteq> None \<and>
              (ex_leaseToken new, ex_attempt new) \<noteq> (ex_leaseToken old, ex_attempt old) \<and>
              \<not> (ex_state old \<in> {COMPILING, RUNNING} \<and> expired_lease now old \<and>
                  ex_state new = COMPILING \<and> ex_attempt new = ex_attempt old + 1 \<and>
                  ex_leaseToken new \<noteq> ex_leaseToken old)
      then Some (DbError ''lease replacement requires expired authority and a new attempt'')
      else if isTerminal (ex_state old) \<and> new \<noteq> old
      then Some (DbError ''terminal executions are immutable'')
      else if ex_state new \<noteq> ex_state old \<and>
              \<not> ((ex_state old = QUEUED \<and> ex_state new \<in> {COMPILING, CANCELLED, INTERNAL_ERROR}) \<or>
                  (ex_state old = COMPILING \<and> ex_state new \<in> {RUNNING, FINISHED, CANCELLED, INTERNAL_ERROR}) \<or>
                  (ex_state old = RUNNING \<and> ex_state new \<in> {FINISHED, CANCELLED, INTERNAL_ERROR}) \<or>
                  (ex_state old = RUNNING \<and> ex_state new = COMPILING \<and> expired_lease now old \<and>
                   ex_attempt new = ex_attempt old + 1 \<and> ex_leaseToken new \<noteq> ex_leaseToken old))
      then Some (DbError ''invalid execution state transition'')
      else if ex_attempt new < ex_attempt old \<or>
              (ex_attempt new = ex_attempt old \<and> ex_lastSequence new < ex_lastSequence old)
      then Some (DbError ''execution attempt and sequence cannot regress'')
      else if ex_failureCode new = Some QUEUE_TIMEOUT \<and>
              \<not> (ex_state old = QUEUED \<and> ex_state new = INTERNAL_ERROR)
      then Some (DbError ''queue timeout requires queued execution'')
      else None)"

definition find_execution :: "db \<Rightarrow> uuid \<Rightarrow> execution option" where
  "find_execution d i = find_by ex_id i (db_executions d)"

definition put_execution :: "uuid \<Rightarrow> (execution \<Rightarrow> execution) \<Rightarrow> db \<Rightarrow> db" where
  "put_execution i f d = d\<lparr>db_executions := update_by ex_id i f (db_executions d)\<rparr>"

text \<open>\<open>tx.execution.update({where: {id}, data})\<close>.\<close>

definition update_execution :: "clock \<Rightarrow> uuid \<Rightarrow> (execution \<Rightarrow> execution) \<Rightarrow> db \<Rightarrow> db result" where
  "update_execution ck i f d =
     (case find_execution d i of
        None \<Rightarrow> Inl (DbError ''P2025'')
      | Some old \<Rightarrow>
          (case protect_execution_lifecycle (ck_trigger ck) old (f old) of
             Some e \<Rightarrow> Inl e
           | None \<Rightarrow>
               if execution_checks (f old) then Inr (put_execution i f d)
               else Inl (DbError ''execution check constraint'')))"

definition version_published :: "db \<Rightarrow> uuid \<Rightarrow> bool" where
  "version_published d v \<longleftrightarrow> (\<exists>x \<in> set (db_versions d). vn_id x = v \<and> vn_published x)"

text \<open>\<open>tx.execution.create({data})\<close>: the trigger on insertion, the checks and the unique keys.\<close>

definition create_execution_row :: "execution \<Rightarrow> db \<Rightarrow> db result" where
  "create_execution_row r d =
     (if ex_state r \<noteq> QUEUED then Inl (DbError ''executions must start queued'')
      else if \<not> version_published d (ex_problemVersionId r)
      then Inl (DbError ''execution version must be published'')
      else if \<not> execution_checks r then Inl (DbError ''execution check constraint'')
      else if ex_userId r \<notin> us_id ` set (db_users d) then Inl (DbError ''P2003'')
      else if (ex_userId r, ex_idempotencyKey r) \<in> (\<lambda>x. (ex_userId x, ex_idempotencyKey x)) ` set (db_executions d)
      then Inl (DbError ''P2002'')
      else map_result (\<lambda>rows. d\<lparr>db_executions := rows\<rparr>) (insert_by ex_id r (db_executions d)))"

section \<open>Outbox intents\<close>

type_synonym outbox_key = "uuid \<times> outbox_kind \<times> int"

definition ox_key :: "outbox \<Rightarrow> outbox_key" where
  "ox_key x = (ox_executionId x, ox_kind x, ox_generation x)"

definition find_outbox :: "db \<Rightarrow> outbox_key \<Rightarrow> outbox option" where
  "find_outbox d k = find_by ox_key k (db_outbox d)"

definition put_outbox :: "outbox_key \<Rightarrow> (outbox \<Rightarrow> outbox) \<Rightarrow> db \<Rightarrow> db" where
  "put_outbox k f d = d\<lparr>db_outbox := update_by ox_key k f (db_outbox d)\<rparr>"

text \<open>A new intent with the defaults of the schema, and its insertion.\<close>

definition new_outbox :: "clock \<Rightarrow> outbox_key \<Rightarrow> outbox" where
  "new_outbox ck k =
     (case k of (e, knd, g) \<Rightarrow>
       \<lparr>ox_executionId = e, ox_kind = knd, ox_generation = g, ox_createdAt = ck_host ck,
        ox_publishedAt = None, ox_dispatchToken = None, ox_dispatchExpiresAt = None,
        ox_nextDispatchAt = ck_host ck, ox_dispatchAttempts = 0\<rparr>)"

definition create_outbox :: "clock \<Rightarrow> outbox_key \<Rightarrow> db \<Rightarrow> db result" where
  "create_outbox ck k d =
     (if fst k \<notin> ex_id ` set (db_executions d) then Inl (DbError ''P2003'')
      else map_result (\<lambda>rows. d\<lparr>db_outbox := rows\<rparr>)
             (insert_by ox_key (new_outbox ck k) (db_outbox d)))"

definition upsert_outbox :: "clock \<Rightarrow> outbox_key \<Rightarrow> (outbox \<Rightarrow> outbox) \<Rightarrow> db \<Rightarrow> db result" where
  "upsert_outbox ck k f d =
     (case find_outbox d k of
        None \<Rightarrow> create_outbox ck k d
      | Some _ \<Rightarrow> Inr (put_outbox k f d))"

section \<open>Public events\<close>

definition ev_key :: "event_row \<Rightarrow> uuid \<times> int \<times> int" where
  "ev_key e = (ev_executionId e, ev_attempt e, ev_sequence e)"

definition create_event :: "event_row \<Rightarrow> db \<Rightarrow> db result" where
  "create_event e d =
     (if ev_executionId e \<notin> ex_id ` set (db_executions d) then Inl (DbError ''P2003'')
      else if \<not> (0 \<le> ev_attempt e \<and> int4 (ev_attempt e) \<and> 0 < ev_sequence e \<and> int4 (ev_sequence e) \<and>
                 0 < ev_bytes e \<and> ev_bytes e \<le> 16384)
      then Inl (DbError ''event check constraint'')
      else map_result (\<lambda>rows. d\<lparr>db_events := rows\<rparr>) (insert_by ev_key e (db_events d)))"

definition events_of :: "db \<Rightarrow> uuid \<Rightarrow> event_row list" where
  "events_of d i = filter (\<lambda>e. ev_executionId e = i) (db_events d)"

definition public_case_ids :: "db \<Rightarrow> uuid \<Rightarrow> uuid list" where
  "public_case_ids d v =
     map tc_id (filter (\<lambda>t. tc_problemVersionId t = v \<and> tc_visibility t = PUBLIC) (db_testCases d))"

section \<open>Notifications of results\<close>

text \<open>
  \<open>create_execution_result_notification\<close> of the migration \<open>fenced_execution_notifications\<close>: the
  row it inserts for each joined execution, the column widths, and \<open>ON CONFLICT DO NOTHING\<close>.
\<close>

definition verdict_words :: "verdict \<Rightarrow> string" where
  "verdict_words v =
     map (\<lambda>c. if c = CHR ''_'' then CHR '' '' else if upper_char c then char_of (of_char c + (32 :: nat)) else c)
       (verdict_name v)"

definition result_dedupeKey :: "uuid \<Rightarrow> string" where
  "result_dedupeKey i = ''execution:'' @ i @ '':result''"

definition result_notification ::
    "env \<Rightarrow> clock \<Rightarrow> execution \<Rightarrow> version \<Rightarrow> problem \<Rightarrow> verdict \<Rightarrow> notification" where
  "result_notification env ck e v p verdict =
     \<lparr>nt_id = notification_id env (ex_id e), nt_userId = ex_userId e, nt_kind = ''EXECUTION_RESULT'',
      nt_title = js ''Submission judged'',
      nt_body = vn_title v @ js '': '' @ js (verdict_words verdict) @ js ''.'',
      nt_href = Some (''/problems/'' @ pr_slug p @ ''?tab=submissions''),
      nt_dedupeKey = Some (result_dedupeKey (ex_id e)), nt_readAt = None, nt_createdAt = ck_start ck\<rparr>"

definition find_user :: "db \<Rightarrow> uuid \<Rightarrow> user option" where
  "find_user d i = find_by us_id i (db_users d)"

definition find_version :: "db \<Rightarrow> uuid \<Rightarrow> version option" where
  "find_version d i = find_by vn_id i (db_versions d)"

definition find_problem :: "db \<Rightarrow> uuid \<Rightarrow> problem option" where
  "find_problem d i = find_by pr_id i (db_problems d)"

definition notification_conflict :: "notification \<Rightarrow> db \<Rightarrow> bool" where
  "notification_conflict n d \<longleftrightarrow>
     nt_dedupeKey n \<noteq> None \<and>
     (\<exists>x \<in> set (db_notifications d). nt_userId x = nt_userId n \<and> nt_dedupeKey x = nt_dedupeKey n)"

text \<open>\<open>Notification_href_check\<close>: a path of the site.\<close>

definition href_char :: "char \<Rightarrow> bool" where
  "href_char c \<longleftrightarrow> alnum_char c \<or> c \<in> set ''/_?=&.-''"

definition href_path :: "string \<Rightarrow> bool" where
  "href_path h \<longleftrightarrow> h \<noteq> [] \<and> hd h = CHR ''/'' \<and> list_all href_char (tl h)"

definition insert_notification :: "notification \<Rightarrow> db \<Rightarrow> db result" where
  "insert_notification n d =
     (if 160 < length (code_points (nt_title n)) \<or> 500 < length (code_points (nt_body n)) \<or>
         \<not> opt_all (\<lambda>h. length h \<le> 500) (nt_href n) \<or> \<not> opt_all (\<lambda>h. length h \<le> 200) (nt_dedupeKey n)
      then Inl (DbError ''value too long'')
      else if \<not> opt_all href_path (nt_href n) then Inl (DbError ''notification check constraint'')
      else if nt_userId n \<notin> us_id ` set (db_users d) then Inl (DbError ''P2003'')
      else if notification_conflict n d then Inr d
      else map_result (\<lambda>rows. d\<lparr>db_notifications := rows\<rparr>) (insert_by nt_id n (db_notifications d)))"

definition create_execution_result_notification ::
    "env \<Rightarrow> clock \<Rightarrow> uuid \<Rightarrow> int \<Rightarrow> uuid \<Rightarrow> verdict \<Rightarrow> db \<Rightarrow> db result" where
  "create_execution_result_notification env ck i expected_attempt expected_token verdict d =
     (if verdict = V_CANCELLED then Inl (DbError ''invalid execution notification verdict'')
      else case find_execution d i of
        None \<Rightarrow> Inr d
      | Some e \<Rightarrow>
          (case (find_user d (ex_userId e), find_version d (ex_problemVersionId e)) of
             (Some u, Some v) \<Rightarrow>
               (case find_problem d (vn_problemId v) of
                  Some p \<Rightarrow>
                    if ex_mode e = SUBMIT \<and> ex_state e \<in> {COMPILING, RUNNING} \<and>
                       ex_attempt e = expected_attempt \<and> ex_leaseToken e = Some expected_token \<and>
                       us_productNotifications u
                    then insert_notification (result_notification env ck e v p verdict) d
                    else Inr d
                | None \<Rightarrow> Inr d)
           | _ \<Rightarrow> Inr d))"

section \<open>The tables as stores of rows\<close>

interpretation executions: row_store find_execution put_execution "\<lambda>f. \<forall>r. ex_id (f r) = ex_id r"
  by unfold_locales (simp_all add: find_execution_def put_execution_def table_simps)

interpretation outboxes: row_store find_outbox put_outbox "\<lambda>f. \<forall>x. ox_key (f x) = ox_key x"
  by unfold_locales (simp_all add: find_outbox_def put_outbox_def table_simps)

lemma find_execution_Some:
  "find_execution d i = Some r \<Longrightarrow> r \<in> set (db_executions d) \<and> ex_id r = i"
  unfolding find_execution_def by (rule find_by_Some)

lemma find_execution_in:
  "distinct (map ex_id (db_executions d)) \<Longrightarrow> r \<in> set (db_executions d) \<Longrightarrow>
     find_execution d (ex_id r) = Some r"
  unfolding find_execution_def by (rule find_by_distinct)

lemma find_execution_ids: "find_execution d i \<noteq> None \<longleftrightarrow> i \<in> ex_id ` set (db_executions d)"
  unfolding find_execution_def by (metis find_by_None)

lemma ids_put_execution:
  "(\<And>r. ex_id (f r) = ex_id r) \<Longrightarrow>
     map ex_id (db_executions (put_execution i f d)) = map ex_id (db_executions d)"
  by (simp add: put_execution_def table_simps)

lemma update_execution_Inr:
  "update_execution ck i f d = Inr d' \<longleftrightarrow>
     (\<exists>old. find_execution d i = Some old \<and>
        protect_execution_lifecycle (ck_trigger ck) old (f old) = None \<and> execution_checks (f old) \<and>
        d' = put_execution i f d)"
  by (auto simp: update_execution_def split: option.splits)

text \<open>What the lifecycle trigger guarantees of an update it lets through.\<close>

definition lease_replaced :: "millis \<Rightarrow> execution \<Rightarrow> execution \<Rightarrow> bool" where
  "lease_replaced now old new \<longleftrightarrow>
     expired_lease now old \<and> ex_attempt new = ex_attempt old + 1 \<and> ex_leaseToken new \<noteq> ex_leaseToken old"

definition trigger_transition :: "millis \<Rightarrow> execution \<Rightarrow> execution \<Rightarrow> bool" where
  "trigger_transition now old new \<longleftrightarrow>
     canTransition (ex_state old) (ex_state new) \<or>
     (ex_state old = RUNNING \<and> ex_state new = COMPILING \<and> lease_replaced now old new)"

lemma canTransition_iff:
  "canTransition a b \<longleftrightarrow>
     (a = QUEUED \<and> b \<in> {COMPILING, CANCELLED, INTERNAL_ERROR}) \<or>
     (a = COMPILING \<and> b \<in> {RUNNING, FINISHED, CANCELLED, INTERNAL_ERROR}) \<or>
     (a = RUNNING \<and> b \<in> {FINISHED, CANCELLED, INTERNAL_ERROR})"
  by (cases a) (simp_all add: canTransition_def)

lemma protect_None_iff:
  "protect_execution_lifecycle now old new = None \<longleftrightarrow>
     request_of new = request_of old \<and>
     (ex_cancellationRequestedAt old \<noteq> None \<longrightarrow>
        ex_cancellationRequestedAt new = ex_cancellationRequestedAt old) \<and>
     (ex_leaseToken old \<noteq> None \<and> ex_leaseToken new \<noteq> None \<and>
        (ex_leaseToken new, ex_attempt new) \<noteq> (ex_leaseToken old, ex_attempt old) \<longrightarrow>
      ex_state old \<in> {COMPILING, RUNNING} \<and> ex_state new = COMPILING \<and> lease_replaced now old new) \<and>
     (isTerminal (ex_state old) \<longrightarrow> new = old) \<and>
     (ex_state new \<noteq> ex_state old \<longrightarrow> trigger_transition now old new) \<and>
     ex_attempt old \<le> ex_attempt new \<and>
     (ex_attempt new = ex_attempt old \<longrightarrow> ex_lastSequence old \<le> ex_lastSequence new) \<and>
     (ex_failureCode new = Some QUEUE_TIMEOUT \<longrightarrow> ex_state old = QUEUED \<and> ex_state new = INTERNAL_ERROR)"
proof -
  have if_None: "(if c then Some e else x) = None \<longleftrightarrow> \<not> c \<and> x = None" for c and e :: error and x
    by simp
  show ?thesis
    unfolding protect_execution_lifecycle_def if_None trigger_transition_def canTransition_iff lease_replaced_def
    by (simp only: not_less de_Morgan_conj de_Morgan_disj not_not imp_conv_disj) argo
qed

lemma protect_None:
  assumes "protect_execution_lifecycle now old new = None"
  shows "request_of new = request_of old"
    and "isTerminal (ex_state old) \<Longrightarrow> new = old"
    and "ex_attempt old \<le> ex_attempt new"
    and "ex_attempt new = ex_attempt old \<Longrightarrow> ex_lastSequence old \<le> ex_lastSequence new"
    and "ex_attempt new = ex_attempt old \<Longrightarrow>
           ex_state new = ex_state old \<or> canTransition (ex_state old) (ex_state new)"
    and "ex_cancellationRequestedAt old \<noteq> None \<Longrightarrow>
           ex_cancellationRequestedAt new = ex_cancellationRequestedAt old"
  using assms unfolding protect_None_iff trigger_transition_def lease_replaced_def by auto

lemma request_of_eq:
  assumes "request_of new = request_of old"
  shows "ex_id new = ex_id old" "ex_userId new = ex_userId old" "ex_mode new = ex_mode old"
    "ex_problemVersionId new = ex_problemVersionId old" "ex_queueExpiresAt new = ex_queueExpiresAt old"
  using assms by (simp_all add: request_of_def)

end
