(* ===== verification/Serialization.thy ===== *)
theory Serialization
  imports Database
begin

text \<open>
  The serialization boundary of \<open>apps/api/src/executions/serialization.ts\<close>: what of a stored
  execution a client may see.
\<close>

record snapshot =
  sn_executionId :: uuid
  sn_problemId :: uuid
  sn_language :: language
  sn_mode :: mode
  sn_state :: state
  sn_attempt :: int
  sn_lastSequence :: int
  sn_verdict :: "verdict option"
  sn_cancellationRequested :: "bool option"
  sn_runtimeMs :: "int option"
  sn_memoryKiB :: "int option"
  sn_publicCaseResults :: "case_result list option"
  sn_failureCode :: "failure_code option"

definition publicResultsSchema :: "case_result list \<Rightarrow> bool" where
  "publicResultsSchema rs =
     list_all (\<lambda>r. opt_all safe_int (cr_exitCode r) \<and> opt_all (\<lambda>n. 0 \<le> n) (cr_runtimeMs r) \<and>
                   opt_all (\<lambda>n. 0 \<le> n) (cr_memoryKiB r)) rs"

text \<open>
  \<open>publicSnapshot(row)\<close>, the row being an execution with the problem of its version and the
  identifiers of the public cases of that version.
\<close>

definition publicSnapshot :: "execution \<Rightarrow> uuid \<Rightarrow> uuid list \<Rightarrow> snapshot result" where
  "publicSnapshot r problemId testCases =
     (let dto = \<lparr>sn_executionId = ex_id r, sn_problemId = problemId, sn_language = ex_language r,
            sn_mode = ex_mode r, sn_state = ex_state r, sn_attempt = ex_attempt r,
            sn_lastSequence = ex_lastSequence r, sn_verdict = ex_verdict r,
            sn_cancellationRequested = (if ex_cancellationRequestedAt r \<noteq> None then Some True else None),
            sn_runtimeMs = ex_runtimeMs r, sn_memoryKiB = ex_memoryKiB r,
            sn_publicCaseResults = None, sn_failureCode = ex_failureCode r\<rparr>
      in case ex_publicResults r of
           None \<Rightarrow> Inr dto
         | Some results \<Rightarrow>
             if ex_mode r = RUN
             then if publicResultsSchema results
                  then Inr (dto\<lparr>sn_publicCaseResults :=
                              Some (filter (\<lambda>x. cr_caseId x \<in> set testCases) results)\<rparr>)
                  else Inl ZodError
             else Inr dto)"

lemma publicSnapshot_fields:
  assumes "publicSnapshot r p ids = Inr s"
  shows "sn_executionId s = ex_id r" "sn_attempt s = ex_attempt r" "sn_lastSequence s = ex_lastSequence r"
    "sn_state s = ex_state r" "sn_verdict s = ex_verdict r" "sn_mode s = ex_mode r"
  using assms by (auto simp: publicSnapshot_def Let_def split: option.splits if_splits)

text \<open>
  A snapshot shows case results of runs only, and of them only those whose case is a public case
  of the pinned version, whatever the results column of the stored row holds.
\<close>

lemma publicSnapshot_private:
  assumes "publicSnapshot r problemId testCases = Inr s" and "sn_publicCaseResults s = Some rs"
  shows "ex_mode r = RUN \<and> list_all (\<lambda>x. cr_caseId x \<in> set testCases) rs \<and>
     (\<exists>stored. ex_publicResults r = Some stored \<and> set rs \<subseteq> set stored)"
  using assms by (auto simp: publicSnapshot_def Let_def list_all_iff split: option.splits if_splits)

end
