(* ===== verification/JobStore.thy ===== *)
theory JobStore
  imports Serialization
begin

text \<open>
  The durable job protocol of \<open>apps/api/src/executions/job-store.ts\<close>, operation by operation. Every
  operation is one transaction: from the clocks it reads, its arguments and the database it yields a
  result and the new database, or the error that rolls it back. Row locks make the transactions on
  one execution serial, so interleaving is the order of the operations.
\<close>

section \<open>Constants, leases and results\<close>

definition LEASE_MS :: int where "LEASE_MS = 30000"
definition CANCEL_GRACE_MS :: int where "CANCEL_GRACE_MS = 15000"
definition MAX_ATTEMPTS :: int where "MAX_ATTEMPTS = 3"
definition REPLAY_ROWS :: nat where "REPLAY_ROWS = 256"
definition REPLAY_BYTES :: int where "REPLAY_BYTES = 256 * 1024"
definition REPLAY_TTL_MS :: int where "REPLAY_TTL_MS = 600000"

record lease =
  le_executionId :: uuid
  le_attempt :: int
  le_token :: uuid

definition worker_verdict :: "verdict \<Rightarrow> bool" where
  "worker_verdict v \<longleftrightarrow> v \<noteq> V_CANCELLED \<and> v \<noteq> V_INTERNAL_ERROR"

definition resultSchema :: "env \<Rightarrow> judged_result \<Rightarrow> bool" where
  "resultSchema env r \<longleftrightarrow>
     worker_verdict (jr_verdict r) \<and>
     opt_all (\<lambda>n. safe_int n \<and> 0 \<le> n) (jr_runtimeMs r) \<and>
     opt_all (\<lambda>n. safe_int n \<and> 0 \<le> n) (jr_memoryKiB r) \<and>
     opt_all (\<lambda>rs. length rs \<le> 100 \<and>
        list_all (\<lambda>c. is_uuid env (cr_caseId c) \<and> worker_verdict (cr_verdict c) \<and>
                      opt_all safe_int (cr_exitCode c) \<and>
                      opt_all (\<lambda>n. safe_int n \<and> 0 \<le> n) (cr_runtimeMs c) \<and>
                      opt_all (\<lambda>n. safe_int n \<and> 0 \<le> n) (cr_memoryKiB c)) rs) (jr_publicCaseResults r)"

definition case_json :: "case_result \<Rightarrow> json" where
  "case_json c =
     JObj ([(''caseId'', JStr (js (cr_caseId c))), (''verdict'', JStr (js (verdict_name (cr_verdict c))))] @
       opt_member ''outputTruncated'' JBool (cr_outputTruncated c) @
       opt_member ''stdout'' JStr (cr_stdout c) @ opt_member ''stderr'' JStr (cr_stderr c) @
       opt_member ''exitCode'' JNum (cr_exitCode c) @ opt_member ''runtimeMs'' JNum (cr_runtimeMs c) @
       opt_member ''memoryKiB'' JNum (cr_memoryKiB c))"

definition result_json :: "judged_result \<Rightarrow> json" where
  "result_json r =
     JObj ([(''verdict'', JStr (js (verdict_name (jr_verdict r))))] @
       opt_member ''runtimeMs'' JNum (jr_runtimeMs r) @ opt_member ''memoryKiB'' JNum (jr_memoryKiB r) @
       opt_member ''publicCaseResults'' (\<lambda>rs. JArr (map case_json rs)) (jr_publicCaseResults r))"

definition safeConsole :: "env \<Rightarrow> jsstr \<Rightarrow> jsstr" where
  "safeConsole env s = filter (\<lambda>u. \<not> control_unit u) (strip_vt env s)"

section \<open>Locking, validity and deadlines\<close>

definition locked :: "db \<Rightarrow> uuid \<Rightarrow> execution option" where
  "locked d i = find_execution d i"

definition deadline :: "execution \<Rightarrow> millis" where
  "deadline row = ex_queueExpiresAt row + 600000"

definition valid :: "millis \<Rightarrow> execution \<Rightarrow> lease \<Rightarrow> bool" where
  "valid now row l \<longleftrightarrow>
     \<not> isTerminal (ex_state row) \<and> ex_state row \<noteq> QUEUED \<and> ex_attempt row = le_attempt l \<and>
     ex_leaseToken row = Some (le_token l) \<and>
     (case ex_leaseExpiresAt row of None \<Rightarrow> False | Some t \<Rightarrow> now < t) \<and>
     now < deadline row"

definition notifyExecution :: "env \<Rightarrow> clock \<Rightarrow> execution \<Rightarrow> verdict \<Rightarrow> db \<Rightarrow> db result" where
  "notifyExecution env ck row verdict d =
     (case ex_leaseToken row of
        None \<Rightarrow> Inr d
      | Some token \<Rightarrow>
          if ex_mode row \<noteq> SUBMIT \<or> verdict = V_CANCELLED then Inr d
          else create_execution_result_notification env ck (ex_id row) (ex_attempt row) token verdict d)"

section \<open>Events and their retention\<close>

definition newest_first :: "event_row list \<Rightarrow> event_row list" where
  "newest_first es = sort_key (\<lambda>e. (- ev_attempt e, - ev_sequence e)) es"

fun discard :: "nat \<Rightarrow> int \<Rightarrow> event_row list \<Rightarrow> event_row list" where
  "discard i tot [] = []"
| "discard i tot (e # es) =
     (let tot' = tot + ev_bytes e
      in (if REPLAY_ROWS \<le> i \<or> REPLAY_BYTES < tot' then [e] else []) @ discard (Suc i) tot' es)"

definition event_payload :: "execution \<Rightarrow> event_fields \<Rightarrow> public_event" where
  "event_payload row flds =
     \<lparr>pe_executionId = ex_id row, pe_attempt = ex_attempt row,
      pe_sequence = ex_lastSequence row + 1, pe_fields = flds\<rparr>"

definition event_bytes :: "public_event \<Rightarrow> int" where
  "event_bytes p = int (json_bytes (event_json p))"

definition event :: "env \<Rightarrow> clock \<Rightarrow> execution \<Rightarrow> event_fields \<Rightarrow> db \<Rightarrow> int tx" where
  "event env ck row flds d =
     (let payload = event_payload row flds; bytes = event_bytes payload; seqn = ex_lastSequence row + 1
      in if \<not> publicExecutionEventSchema (is_uuid env) payload then Inl ZodError
         else if 16384 < bytes then Inl (PlainError ''PUBLIC_EVENT_TOO_LARGE'')
         else bind_result
           (create_event \<lparr>ev_executionId = ex_id row, ev_attempt = ex_attempt row, ev_sequence = seqn,
                          ev_payload = payload, ev_bytes = bytes,
                          ev_expiresAt = ck_host ck + REPLAY_TTL_MS\<rparr> d)
           (\<lambda>d1. let gone = map ev_key (discard 0 0 (newest_first (events_of d1 (ex_id row))))
                 in Inr (seqn, d1\<lparr>db_events := filter (\<lambda>e. ev_key e \<notin> set gone) (db_events d1)\<rparr>)))"

section \<open>Terminal transitions and claims\<close>

fun terminal_verdict :: "state \<Rightarrow> verdict" where
  "terminal_verdict CANCELLED = V_CANCELLED"
| "terminal_verdict _ = V_INTERNAL_ERROR"

definition terminal_row :: "clock \<Rightarrow> state \<Rightarrow> failure_code option \<Rightarrow> int \<Rightarrow> execution \<Rightarrow> execution" where
  "terminal_row ck st failureCode seqn r =
     r\<lparr>ex_state := st, ex_verdict := Some (terminal_verdict st), ex_failureCode := failureCode,
       ex_finishedAt := Some (ck_host ck), ex_leaseToken := None, ex_leaseExpiresAt := None,
       ex_lastSequence := seqn\<rparr>"

definition terminal ::
    "env \<Rightarrow> clock \<Rightarrow> execution \<Rightarrow> state \<Rightarrow> failure_code option \<Rightarrow> db \<Rightarrow> db result" where
  "terminal env ck row st failureCode d =
     bind_result (event env ck row (FinalVerdict st (terminal_verdict st) failureCode) d) (\<lambda>(seqn, d1).
     bind_result (notifyExecution env ck row (terminal_verdict st) d1) (\<lambda>d2.
       update_execution ck (ex_id row) (terminal_row ck st failureCode seqn) d2))"

definition claim_row :: "clock \<Rightarrow> uuid \<Rightarrow> execution \<Rightarrow> int \<Rightarrow> execution \<Rightarrow> execution" where
  "claim_row ck token row seqn r =
     r\<lparr>ex_state := COMPILING, ex_attempt := ex_attempt row + 1, ex_lastSequence := seqn,
       ex_leaseToken := Some token,
       ex_leaseExpiresAt := Some (min (ck_db ck + LEASE_MS) (deadline row))\<rparr>"

definition claim :: "env \<Rightarrow> clock \<Rightarrow> uuid \<Rightarrow> uuid \<Rightarrow> db \<Rightarrow> (lease \<times> execution) option tx" where
  "claim env ck token i d =
     (case locked d i of
        None \<Rightarrow> Inr (None, d)
      | Some row \<Rightarrow>
          if isTerminal (ex_state row) then Inr (None, d)
          else if ex_state row = QUEUED \<and> ex_queueExpiresAt row \<le> ck_db ck
          then map_result (Pair None) (terminal env ck row INTERNAL_ERROR (Some QUEUE_TIMEOUT) d)
          else if ex_state row \<noteq> QUEUED \<and>
                  (case ex_leaseExpiresAt row of None \<Rightarrow> False | Some t \<Rightarrow> ck_db ck < t)
          then Inr (None, d)
          else if ex_cancellationRequestedAt row \<noteq> None
          then map_result (Pair None) (terminal env ck row INTERNAL_ERROR (Some CANCELLATION_TIMEOUT) d)
          else if deadline row \<le> ck_db ck \<or> MAX_ATTEMPTS \<le> ex_attempt row
          then map_result (Pair None)
                 (terminal env ck row INTERNAL_ERROR
                    (Some (if MAX_ATTEMPTS \<le> ex_attempt row then LEASE_EXPIRED else JOB_TIMEOUT)) d)
          else
            let row' = row\<lparr>ex_attempt := ex_attempt row + 1, ex_lastSequence := 0, ex_state := COMPILING\<rparr>;
                d1 = d\<lparr>db_events := filter (\<lambda>e. ev_executionId e \<noteq> i) (db_events d)\<rparr>
            in bind_result (event env ck row' (ExecutionStatus COMPILING None) d1) (\<lambda>(seqn, d2).
               bind_result (update_execution ck i (claim_row ck token row seqn) d2) (\<lambda>d3.
                 Inr (Some (\<lparr>le_executionId = i, le_attempt = ex_attempt row + 1, le_token = token\<rparr>,
                            claim_row ck token row seqn row), d3))))"

section \<open>Operations under a lease\<close>

datatype renewal = ACTIVE | CANCEL | LOST

definition renewal_end :: "clock \<Rightarrow> execution \<Rightarrow> millis" where
  "renewal_end ck row =
     (let e = min (ck_db ck + LEASE_MS) (deadline row)
      in case ex_cancellationRequestedAt row of None \<Rightarrow> e | Some t \<Rightarrow> min e (t + CANCEL_GRACE_MS))"

definition renew :: "clock \<Rightarrow> lease \<Rightarrow> db \<Rightarrow> renewal tx" where
  "renew ck l d =
     (case locked d (le_executionId l) of
        None \<Rightarrow> Inr (LOST, d)
      | Some row \<Rightarrow>
          if \<not> valid (ck_db ck) row l then Inr (LOST, d)
          else if renewal_end ck row \<le> ck_db ck then Inr (LOST, d)
          else map_result (Pair (if ex_cancellationRequestedAt row \<noteq> None then CANCEL else ACTIVE))
                 (update_execution ck (ex_id row)
                    (\<lambda>r. r\<lparr>ex_leaseExpiresAt := Some (renewal_end ck row)\<rparr>) d))"

definition markRunning :: "env \<Rightarrow> clock \<Rightarrow> lease \<Rightarrow> db \<Rightarrow> bool tx" where
  "markRunning env ck l d =
     (case locked d (le_executionId l) of
        None \<Rightarrow> Inr (False, d)
      | Some row \<Rightarrow>
          if \<not> valid (ck_db ck) row l \<or> ex_cancellationRequestedAt row \<noteq> None \<or> ex_state row \<noteq> COMPILING
          then Inr (False, d)
          else bind_result (event env ck row (ExecutionStatus RUNNING None) d) (\<lambda>(seqn, d1).
               map_result (Pair True)
                 (update_execution ck (ex_id row) (\<lambda>r. r\<lparr>ex_state := RUNNING, ex_lastSequence := seqn\<rparr>) d1)))"

definition console :: "env \<Rightarrow> clock \<Rightarrow> lease \<Rightarrow> uuid \<Rightarrow> stream \<Rightarrow> jsstr \<Rightarrow> db \<Rightarrow> bool tx" where
  "console env ck l caseId strm s d =
     (if \<not> is_uuid env caseId \<or> 4096 < byteLength s then Inl (PlainError ''INVALID_PUBLIC_OUTPUT'')
      else case locked d (le_executionId l) of
        None \<Rightarrow> Inr (False, d)
      | Some row \<Rightarrow>
          if \<not> valid (ck_db ck) row l \<or> ex_cancellationRequestedAt row \<noteq> None then Inr (False, d)
          else if ex_mode row \<noteq> RUN \<or> caseId \<notin> set (public_case_ids d (ex_problemVersionId row))
          then Inl (PlainError ''PRIVATE_OUTPUT_REJECTED'')
          else bind_result (event env ck row (ConsoleOutput caseId strm (safeConsole env s)) d) (\<lambda>(seqn, d1).
               map_result (Pair True)
                 (update_execution ck (ex_id row) (\<lambda>r. r\<lparr>ex_lastSequence := seqn\<rparr>) d1)))"

definition safe_case :: "env \<Rightarrow> case_result \<Rightarrow> case_result" where
  "safe_case env c =
     c\<lparr>cr_stdout := map_option (safeConsole env) (cr_stdout c),
       cr_stderr := map_option (safeConsole env) (cr_stderr c)\<rparr>"

definition finish_row :: "env \<Rightarrow> clock \<Rightarrow> judged_result \<Rightarrow> int \<Rightarrow> execution \<Rightarrow> execution" where
  "finish_row env ck result seqn r =
     r\<lparr>ex_state := FINISHED, ex_verdict := Some (jr_verdict result), ex_finishedAt := Some (ck_host ck),
       ex_lastSequence := seqn, ex_leaseToken := None, ex_leaseExpiresAt := None,
       ex_runtimeMs := (case jr_runtimeMs result of None \<Rightarrow> ex_runtimeMs r | Some n \<Rightarrow> Some n),
       ex_memoryKiB := (case jr_memoryKiB result of None \<Rightarrow> ex_memoryKiB r | Some n \<Rightarrow> Some n),
       ex_publicResults := (case jr_publicCaseResults result of None \<Rightarrow> ex_publicResults r
                            | Some cs \<Rightarrow> Some (map (safe_case env) cs))\<rparr>"

definition private_output :: "db \<Rightarrow> execution \<Rightarrow> case_result list \<Rightarrow> bool" where
  "private_output d row cs \<longleftrightarrow>
     (let ids = map cr_caseId cs
      in ex_mode row \<noteq> RUN \<or> \<not> distinct ids \<or>
         length (filter (\<lambda>c. c \<in> set ids) (public_case_ids d (ex_problemVersionId row))) \<noteq> length ids)"

definition finish :: "env \<Rightarrow> clock \<Rightarrow> lease \<Rightarrow> judged_result \<Rightarrow> db \<Rightarrow> bool tx" where
  "finish env ck l result d =
     (if \<not> resultSchema env result then Inl ZodError
      else if MAX_OUTPUT_BYTES < json_bytes (result_json result)
      then Inl (PlainError ''PUBLIC_RESULT_TOO_LARGE'')
      else case locked d (le_executionId l) of
        None \<Rightarrow> Inr (False, d)
      | Some row \<Rightarrow>
          if \<not> valid (ck_db ck) row l then Inr (False, d)
          else if ex_cancellationRequestedAt row \<noteq> None
          then map_result (Pair True) (terminal env ck row CANCELLED None d)
          else if (case jr_publicCaseResults result of None \<Rightarrow> False | Some cs \<Rightarrow> private_output d row cs)
          then Inl (PlainError ''PRIVATE_OUTPUT_REJECTED'')
          else bind_result (event env ck row (FinalVerdict FINISHED (jr_verdict result) None) d) (\<lambda>(seqn, d1).
               bind_result (notifyExecution env ck row (jr_verdict result) d1) (\<lambda>d2.
                 map_result (Pair True)
                   (update_execution ck (ex_id row) (finish_row env ck result seqn) d2))))"

definition fail :: "env \<Rightarrow> clock \<Rightarrow> lease \<Rightarrow> bool \<Rightarrow> db \<Rightarrow> bool tx" where
  "fail env ck l cleanupConfirmed d =
     (case locked d (le_executionId l) of
        None \<Rightarrow> Inr (False, d)
      | Some row \<Rightarrow>
          if \<not> valid (ck_db ck) row l then Inr (False, d)
          else let requested = ex_cancellationRequestedAt row \<noteq> None
               in map_result (Pair True)
                    (terminal env ck row
                       (if requested \<and> cleanupConfirmed then CANCELLED else INTERNAL_ERROR)
                       (if requested then if cleanupConfirmed then None else Some CANCELLATION_TIMEOUT
                        else Some JOB_FAILURE) d))"

definition recover :: "env \<Rightarrow> clock \<Rightarrow> lease \<Rightarrow> db \<Rightarrow> bool tx" where
  "recover env ck l d =
     (case locked d (le_executionId l) of
        None \<Rightarrow> Inr (False, d)
      | Some row \<Rightarrow>
          if \<not> valid (ck_db ck) row l then Inr (False, d)
          else if ex_cancellationRequestedAt row \<noteq> None
          then map_result (Pair True) (terminal env ck row CANCELLED None d)
          else if MAX_ATTEMPTS \<le> ex_attempt row
          then map_result (Pair True) (terminal env ck row INTERNAL_ERROR (Some JOB_FAILURE) d)
          else bind_result
            (update_execution ck (ex_id row) (\<lambda>r. r\<lparr>ex_leaseExpiresAt := Some (ck_db ck)\<rparr>) d) (\<lambda>d1.
             map_result (Pair True)
               (upsert_outbox ck (ex_id row, EXECUTION_RECOVERY, ex_attempt row)
                  (\<lambda>x. x\<lparr>ox_publishedAt := None, ox_dispatchToken := None, ox_dispatchExpiresAt := None,
                         ox_nextDispatchAt := ck_db ck\<rparr>) d1)))"

section \<open>Cancellation by the owner\<close>

record receipt =
  rc_executionId :: uuid
  rc_state :: state
  rc_cancellationRequested :: "bool option"

definition NOT_FOUND :: error where
  "NOT_FOUND = ApiError 404 ''NOT_FOUND'' None"

definition cancel :: "env \<Rightarrow> clock \<Rightarrow> uuid \<Rightarrow> uuid \<Rightarrow> bool \<Rightarrow> db \<Rightarrow> receipt tx" where
  "cancel env ck userId i activeAllowed d =
     (case locked d i of
        None \<Rightarrow> Inl NOT_FOUND
      | Some row \<Rightarrow>
          if ex_userId row \<noteq> userId then Inl NOT_FOUND
          else if ex_state row = QUEUED
          then bind_result (terminal env ck row CANCELLED None d) (\<lambda>d1.
               map_result (Pair \<lparr>rc_executionId = i, rc_state = CANCELLED, rc_cancellationRequested = None\<rparr>)
                 (create_outbox ck (i, EXECUTION_CANCELLED, 0) d1))
          else if \<not> isTerminal (ex_state row)
          then if \<not> activeAllowed then Inl (ApiError 503 ''CANCELLATION_UNAVAILABLE'' None)
               else let rcpt = \<lparr>rc_executionId = i, rc_state = ex_state row,
                                rc_cancellationRequested = Some True\<rparr>
                    in if ex_cancellationRequestedAt row = None
                       then bind_result (event env ck row (ExecutionStatus (ex_state row) (Some True)) d)
                              (\<lambda>(seqn, d1). map_result (Pair rcpt)
                                (update_execution ck i
                                   (\<lambda>r. r\<lparr>ex_cancellationRequestedAt := Some (ck_db ck),
                                          ex_lastSequence := seqn\<rparr>) d1))
                       else Inr (rcpt, d)
          else Inr (\<lparr>rc_executionId = i, rc_state = ex_state row, rc_cancellationRequested = None\<rparr>, d))"

section \<open>Replay\<close>

record replay_result =
  ry_snapshot :: snapshot
  ry_replayAvailable :: bool
  ry_events :: "public_event list"

definition safe_event :: "env \<Rightarrow> execution \<Rightarrow> uuid list \<Rightarrow> event_row \<Rightarrow> bool" where
  "safe_event env row publicIds e \<longleftrightarrow>
     publicExecutionEventSchema (is_uuid env) (ev_payload e) \<and>
     pe_executionId (ev_payload e) = ex_id row \<and> pe_attempt (ev_payload e) = ex_attempt row \<and>
     pe_sequence (ev_payload e) = ev_sequence e \<and>
     (case pe_fields (ev_payload e) of
        ConsoleOutput c _ _ \<Rightarrow> ex_mode row = RUN \<and> c \<in> set publicIds
      | _ \<Rightarrow> True)"

definition replay_rows :: "clock \<Rightarrow> execution \<Rightarrow> int \<Rightarrow> db \<Rightarrow> event_row list" where
  "replay_rows ck row after d =
     take REPLAY_ROWS (sort_key ev_sequence
       (filter (\<lambda>e. ev_executionId e = ex_id row \<and> ev_attempt e = ex_attempt row \<and>
                    after < ev_sequence e \<and> ck_host ck < ev_expiresAt e) (db_events d)))"

definition replay :: "env \<Rightarrow> clock \<Rightarrow> uuid \<Rightarrow> uuid \<Rightarrow> int \<Rightarrow> int \<Rightarrow> db \<Rightarrow> replay_result result" where
  "replay env ck userId i attempt after d =
     (case find_execution d i of
        None \<Rightarrow> Inl NOT_FOUND
      | Some row \<Rightarrow>
          if ex_userId row \<noteq> userId then Inl NOT_FOUND
          else case find_version d (ex_problemVersionId row) of
            None \<Rightarrow> Inl (DbError ''P2025'')
          | Some v \<Rightarrow>
              let events = replay_rows ck row after d;
                  publicIds = public_case_ids d (ex_problemVersionId row);
                  safe = list_all (safe_event env row publicIds) events;
                  contiguous = safe \<and> attempt = ex_attempt row \<and> after \<le> ex_lastSequence row \<and>
                    int (length events) = ex_lastSequence row - after \<and>
                    map ev_sequence events = map (\<lambda>k. after + int k + 1) [0 ..< length events]
              in map_result (\<lambda>s. \<lparr>ry_snapshot = s, ry_replayAvailable = contiguous,
                                  ry_events = (if contiguous then map ev_payload events else [])\<rparr>)
                   (publicSnapshot row (vn_problemId v) publicIds))"

section \<open>Maintenance\<close>

text \<open>
  What the database decides in a maintenance pass: which rows other transactions hold locked
  (\<open>SKIP LOCKED\<close>) and in which order a \<open>LIMIT\<close> without \<open>ORDER BY\<close> scans.
\<close>

record schedule =
  sc_locked :: "uuid \<Rightarrow> bool"
  sc_outbox_locked :: "outbox_key \<Rightarrow> bool"
  sc_outbox_rank :: "outbox_key \<Rightarrow> nat"
  sc_event_rank :: "(uuid \<times> int \<times> int) \<Rightarrow> nat"

definition maintain_due :: "clock \<Rightarrow> execution \<Rightarrow> bool" where
  "maintain_due ck r \<longleftrightarrow>
     ex_state r \<in> {COMPILING, RUNNING} \<and>
     (expired_lease (ck_db ck) r \<or>
      (case ex_cancellationRequestedAt r of None \<Rightarrow> False | Some t \<Rightarrow> t \<le> ck_db ck - 15000))"

text \<open>\<open>ORDER BY "leaseExpiresAt"\<close> puts null last.\<close>

definition nulls_last :: "millis option \<Rightarrow> bool \<times> millis" where
  "nulls_last t = (case t of None \<Rightarrow> (True, 0) | Some m \<Rightarrow> (False, m))"

definition maintain_rows :: "schedule \<Rightarrow> clock \<Rightarrow> db \<Rightarrow> execution list" where
  "maintain_rows sc ck d =
     take 100 (sort_key (nulls_last \<circ> ex_leaseExpiresAt)
       (filter (\<lambda>r. maintain_due ck r \<and> \<not> sc_locked sc (ex_id r)) (db_executions d)))"

definition maintain_row :: "env \<Rightarrow> clock \<Rightarrow> execution \<Rightarrow> db \<Rightarrow> db result" where
  "maintain_row env ck row d =
     (if ex_cancellationRequestedAt row \<noteq> None \<or> MAX_ATTEMPTS \<le> ex_attempt row \<or> deadline row \<le> ck_db ck
      then terminal env ck row INTERNAL_ERROR
             (Some (if ex_cancellationRequestedAt row \<noteq> None then CANCELLATION_TIMEOUT
                    else if MAX_ATTEMPTS \<le> ex_attempt row then LEASE_EXPIRED else JOB_TIMEOUT)) d
      else upsert_outbox ck (ex_id row, EXECUTION_RECOVERY, ex_attempt row) (\<lambda>x. x) d)"

definition reoffer :: "clock \<Rightarrow> db \<Rightarrow> outbox \<Rightarrow> bool" where
  "reoffer ck d x \<longleftrightarrow>
     (case ox_publishedAt x of None \<Rightarrow> False | Some t \<Rightarrow> t < ck_db ck - 10000) \<and>
     (case find_execution d (ox_executionId x) of
        None \<Rightarrow> False
      | Some e \<Rightarrow>
          (ex_state e = QUEUED \<and> ox_kind x = EXECUTION_CREATED) \<or>
          (ex_state e \<in> {COMPILING, RUNNING} \<and> expired_lease (ck_db ck) e \<and>
           ox_kind x = EXECUTION_RECOVERY \<and> ox_generation x = ex_attempt e))"

definition reoffer_outbox :: "schedule \<Rightarrow> clock \<Rightarrow> db \<Rightarrow> db" where
  "reoffer_outbox sc ck d =
     (let ks = take 100 (sort_key (sc_outbox_rank sc)
            (map ox_key (filter (\<lambda>x. reoffer ck d x \<and> \<not> sc_outbox_locked sc (ox_key x)) (db_outbox d))))
      in d\<lparr>db_outbox := map (\<lambda>x. if ox_key x \<in> set ks then x\<lparr>ox_publishedAt := None\<rparr> else x) (db_outbox d)\<rparr>)"

definition purge_events :: "schedule \<Rightarrow> clock \<Rightarrow> db \<Rightarrow> db" where
  "purge_events sc ck d =
     (let ks = take 1000 (sort_key (sc_event_rank sc)
            (map ev_key (filter (\<lambda>e. ev_expiresAt e < ck_db ck) (db_events d))))
      in d\<lparr>db_events := filter (\<lambda>e. ev_key e \<notin> set ks) (db_events d)\<rparr>)"

definition maintain :: "env \<Rightarrow> schedule \<Rightarrow> clock \<Rightarrow> db \<Rightarrow> db result" where
  "maintain env sc ck d =
     map_result (\<lambda>d1. purge_events sc ck (reoffer_outbox sc ck d1))
       (fold_result (maintain_row env ck) (maintain_rows sc ck d) d)"

end
