(* ===== verification/JobEvents.thy ===== *)
theory JobEvents
  imports JobStore
begin

text \<open>
  Public events of executions: what one call of \<open>event\<close> does to the event table, the retention
  bound it maintains, and that events written by the protocol always fit.
\<close>

section \<open>Retention\<close>

lemma discard_drop:
  assumes "\<forall>e \<in> set es. 0 \<le> ev_bytes e"
  shows "\<exists>k \<le> length es. discard i tot es = drop k es \<and>
     (0 < k \<longrightarrow> i + k \<le> REPLAY_ROWS \<and> tot + sum_list (map ev_bytes (take k es)) \<le> REPLAY_BYTES) \<and>
     (k < length es \<longrightarrow> REPLAY_ROWS \<le> i + k \<or> REPLAY_BYTES < tot + sum_list (map ev_bytes (take (Suc k) es)))"
  using assms
proof (induction es arbitrary: i tot)
  case (Cons e es)
  let ?tot = "tot + ev_bytes e"
  from Cons.prems have nonneg: "0 \<le> ev_bytes e" "\<forall>e \<in> set es. 0 \<le> ev_bytes e" by auto
  from Cons.IH [OF nonneg(2), of "Suc i" ?tot] obtain k where k: "k \<le> length es"
    "discard (Suc i) ?tot es = drop k es"
    "0 < k \<longrightarrow> Suc i + k \<le> REPLAY_ROWS \<and> ?tot + sum_list (map ev_bytes (take k es)) \<le> REPLAY_BYTES"
    "k < length es \<longrightarrow> REPLAY_ROWS \<le> Suc i + k \<or> REPLAY_BYTES < ?tot + sum_list (map ev_bytes (take (Suc k) es))"
    by blast
  show ?case
  proof (cases "REPLAY_ROWS \<le> i \<or> REPLAY_BYTES < ?tot")
    case True
    have "0 \<le> sum_list (map ev_bytes (take k es))"
      using nonneg(2) by (intro sum_list_nonneg) (auto dest: in_set_takeD)
    with True k(3) have "k = 0" by auto
    with k(2) True show ?thesis by (intro exI [of _ 0]) auto
  next
    case False
    with k show ?thesis by (intro exI [of _ "Suc k"]) (auto simp: algebra_simps)
  qed
qed simp

lemma set_discard: "set (discard i tot es) \<subseteq> set es"
  by (induction i tot es rule: discard.induct) (auto simp: Let_def)

lemma filter_not_dropped:
  assumes "distinct (map f xs)"
  shows "filter (\<lambda>x. f x \<notin> f ` set (drop k xs)) xs = take k xs"
  using assms
proof (induction xs arbitrary: k)
  case (Cons x xs)
  show ?case
  proof (cases k)
    case 0
    then show ?thesis by (auto simp: filter_empty_conv)
  next
    case (Suc j)
    from Cons.prems have "f x \<notin> f ` set (drop j xs)" by (auto dest: in_set_dropD)
    with Cons Suc show ?thesis by simp
  qed
qed simp

text \<open>The newest rows of \<open>es\<close> that fit in 256 rows and 256 KiB, and no fewer.\<close>

definition newest_fit :: "event_row list \<Rightarrow> event_row list \<Rightarrow> bool" where
  "newest_fit es kept \<longleftrightarrow>
     (\<exists>k \<le> length es. mset kept = mset (take k (newest_first es)) \<and> k \<le> REPLAY_ROWS \<and>
        sum_list (map ev_bytes (take k (newest_first es))) \<le> REPLAY_BYTES \<and>
        (k < length es \<longrightarrow> k = REPLAY_ROWS \<or>
           REPLAY_BYTES < sum_list (map ev_bytes (take (Suc k) (newest_first es)))))"

lemma mset_newest_first [simp]: "mset (newest_first es) = mset es"
  by (simp add: newest_first_def)

lemma set_newest_first [simp]: "set (newest_first es) = set es"
  by (simp add: newest_first_def)

lemma length_newest_first [simp]: "length (newest_first es) = length es"
  by (simp add: newest_first_def)

lemma newest_fit_retained:
  assumes "\<forall>e \<in> set es. 0 \<le> ev_bytes e" and "distinct (map ev_key es)"
  shows "newest_fit es (filter (\<lambda>e. ev_key e \<notin> ev_key ` set (discard 0 0 (newest_first es))) es)"
proof -
  let ?L = "newest_first es"
  have "\<forall>e \<in> set ?L. 0 \<le> ev_bytes e" using assms(1) by simp
  from discard_drop [OF this, of 0 0] obtain k where k: "k \<le> length es" "discard 0 0 ?L = drop k ?L"
    "0 < k \<longrightarrow> k \<le> REPLAY_ROWS \<and> sum_list (map ev_bytes (take k ?L)) \<le> REPLAY_BYTES"
    "k < length es \<longrightarrow> REPLAY_ROWS \<le> k \<or> REPLAY_BYTES < sum_list (map ev_bytes (take (Suc k) ?L))"
    by auto
  have "mset (map ev_key ?L) = mset (map ev_key es)" by simp
  with assms(2) have "distinct (map ev_key ?L)" by (metis mset_eq_imp_distinct_iff)
  then have "filter (\<lambda>e. ev_key e \<notin> ev_key ` set (drop k ?L)) ?L = take k ?L"
    by (rule filter_not_dropped)
  then have "mset (filter (\<lambda>e. ev_key e \<notin> ev_key ` set (discard 0 0 ?L)) es) = mset (take k ?L)"
    unfolding k(2) by (metis mset_filter mset_newest_first)
  with k show ?thesis
    unfolding newest_fit_def
    by (intro exI [of _ k]) (cases "k = 0"; auto simp: REPLAY_ROWS_def REPLAY_BYTES_def)
qed

lemma newest_fit_bounds:
  assumes "newest_fit es kept"
  shows "length kept \<le> REPLAY_ROWS" and "sum_list (map ev_bytes kept) \<le> REPLAY_BYTES"
proof -
  from assms obtain k where k: "k \<le> length es" "mset kept = mset (take k (newest_first es))"
    "k \<le> REPLAY_ROWS" "sum_list (map ev_bytes (take k (newest_first es))) \<le> REPLAY_BYTES"
    unfolding newest_fit_def by blast
  from k(2) have "length kept = length (take k (newest_first es))" by (rule mset_eq_length)
  with k show "length kept \<le> REPLAY_ROWS" by simp
  have "sum_list (map ev_bytes kept) = sum_list (map ev_bytes (take k (newest_first es)))"
    using k(2) by (metis mset_map sum_mset_sum_list)
  with k show "sum_list (map ev_bytes kept) \<le> REPLAY_BYTES" by simp
qed

section \<open>One event\<close>

definition new_event :: "clock \<Rightarrow> execution \<Rightarrow> event_fields \<Rightarrow> event_row" where
  "new_event ck row flds =
     \<lparr>ev_executionId = ex_id row, ev_attempt = ex_attempt row, ev_sequence = ex_lastSequence row + 1,
      ev_payload = event_payload row flds, ev_bytes = event_bytes (event_payload row flds),
      ev_expiresAt = ck_host ck + REPLAY_TTL_MS\<rparr>"

definition retained_events :: "uuid \<Rightarrow> event_row list \<Rightarrow> event_row list" where
  "retained_events i es =
     filter (\<lambda>e. ev_key e \<notin>
       ev_key ` set (discard 0 0 (newest_first (filter (\<lambda>e. ev_executionId e = i) es)))) es"

lemma event_Inr:
  "event env ck row flds d = Inr (seqn, d') \<longleftrightarrow>
     seqn = ex_lastSequence row + 1 \<and>
     publicExecutionEventSchema (is_uuid env) (event_payload row flds) \<and>
     event_bytes (event_payload row flds) \<le> 16384 \<and> 0 < event_bytes (event_payload row flds) \<and>
     ex_id row \<in> ex_id ` set (db_executions d) \<and> 0 \<le> ex_attempt row \<and> int4 (ex_attempt row) \<and>
     0 \<le> ex_lastSequence row \<and> int4 seqn \<and> ev_key (new_event ck row flds) \<notin> ev_key ` set (db_events d) \<and>
     d' = d\<lparr>db_events := retained_events (ex_id row) (db_events d @ [new_event ck row flds])\<rparr>"
  by (auto simp: event_def Let_def create_event_def result_simps new_event_def ev_key_def
      retained_events_def events_of_def)

lemma retained_events_other:
  assumes "i \<noteq> j"
  shows "filter (\<lambda>e. ev_executionId e = j) (retained_events i es) = filter (\<lambda>e. ev_executionId e = j) es"
proof -
  let ?D = "discard 0 0 (newest_first (filter (\<lambda>e. ev_executionId e = i) es))"
  have D: "ev_executionId x = i" if "x \<in> set ?D" for x
    using that set_discard [of 0 0 "newest_first (filter (\<lambda>e. ev_executionId e = i) es)"] by auto
  have "ev_key e \<notin> ev_key ` set ?D" if "ev_executionId e = j" for e
  proof
    assume "ev_key e \<in> ev_key ` set ?D"
    then obtain x where "x \<in> set ?D" "ev_key e = ev_key x" by blast
    with that D [of x] assms show False by (simp add: ev_key_def)
  qed
  then show ?thesis
    unfolding retained_events_def by (auto simp: filter_filter intro!: filter_cong)
qed

lemma retained_events_fit:
  assumes "\<forall>e \<in> set es. ev_executionId e = i \<longrightarrow> 0 \<le> ev_bytes e" and "distinct (map ev_key es)"
  shows "newest_fit (filter (\<lambda>e. ev_executionId e = i) es)
           (filter (\<lambda>e. ev_executionId e = i) (retained_events i es))"
proof -
  let ?F = "filter (\<lambda>e. ev_executionId e = i)"
  have "newest_fit (?F es) (filter (\<lambda>e. ev_key e \<notin> ev_key ` set (discard 0 0 (newest_first (?F es)))) (?F es))"
    using assms by (intro newest_fit_retained) (auto intro: distinct_map_filter)
  moreover have "?F (retained_events i es) =
      filter (\<lambda>e. ev_key e \<notin> ev_key ` set (discard 0 0 (newest_first (?F es)))) (?F es)"
    by (simp add: retained_events_def filter_filter conj_commute)
  ultimately show ?thesis by simp
qed

lemma set_retained_events: "set (retained_events i es) \<subseteq> set es"
  by (auto simp: retained_events_def)

section \<open>The size of an event\<close>

text \<open>
  What the size bound needs of the code outside the repository: a UUID has 36 characters, and
  \<open>stripVTControlCharacters\<close>, which removes escape sequences, does not lengthen its argument.
\<close>

definition env_ok :: "env \<Rightarrow> bool" where
  "env_ok env \<longleftrightarrow>
     (\<forall>s. is_uuid env s \<longrightarrow> length s = 36) \<and>
     (\<forall>s. byteLength (strip_vt env s) \<le> byteLength s)"

lemma length_code_points: "length (code_points s) \<le> length s"
  by (induction s rule: code_points.induct) auto

lemma json_point_bytes_le: "json_point_bytes p \<le> 6"
  by (auto simp: json_point_bytes_def unit_bytes_def split: list.splits)

lemma json_string_bytes_js: "json_string_bytes (js s) \<le> 2 + 6 * length s"
proof -
  have "sum_list (map json_point_bytes ps) \<le> 6 * length ps" for ps
  proof (induction ps)
    case (Cons p ps)
    with json_point_bytes_le [of p] show ?case by simp
  qed simp
  from this [of "code_points (js s)"]
    length_code_points [of "js s"] show ?thesis
    by (simp add: json_string_bytes_def js_def)
qed

lemma json_number_bytes: "safe_int n \<Longrightarrow> json_bytes (JNum n) \<le> 17"
proof -
  assume "safe_int n"
  then have "nat \<bar>n\<bar> < 10 ^ 16" by (simp add: safe_int_def)
  from decimal_length_bound [OF _ this] show ?thesis by (cases "n < 0") auto
qed

lemma name_lengths:
  "length (state_name st) \<le> 14" "length (verdict_name v) \<le> 21" "length (failure_name f) \<le> 20"
  "length (stream_name strm) \<le> 6"
proof -
  show "length (state_name st) \<le> 14" by (cases st) simp_all
  show "length (verdict_name v) \<le> 21" by (cases v) simp_all
  show "length (failure_name f) \<le> 20" by (cases f) simp_all
  show "length (stream_name strm) \<le> 6" by (cases strm) simp_all
qed

lemma fields_bytes:
  "pe_fields p = ExecutionStatus st c \<or> pe_fields p = FinalVerdict st v f \<Longrightarrow>
   safe_int (pe_attempt p) \<Longrightarrow> safe_int (pe_sequence p) \<Longrightarrow> length (pe_executionId p) \<le> 36 \<Longrightarrow>
   event_bytes p \<le> 1000"
  using json_number_bytes [of "pe_attempt p"] json_number_bytes [of "pe_sequence p"]
    json_string_bytes_js [of "pe_executionId p"] json_string_bytes_js [of "state_name st"]
    json_string_bytes_js [of "verdict_name v"] json_string_bytes_js [of "failure_name (the f)"]
    json_string_bytes_js [of "''execution_status''"] json_string_bytes_js [of "''final_verdict''"]
    name_lengths(1) [of st] name_lengths(2) [of v] name_lengths(3) [of "the f"]
  by (auto simp: event_bytes_def event_json_def opt_member_def split: option.splits)

lemma console_bytes:
  assumes "pe_fields p = ConsoleOutput c strm s" and "safe_int (pe_attempt p)" and "safe_int (pe_sequence p)"
    and "length (pe_executionId p) \<le> 36" and "length c \<le> 36" and "byteLength s \<le> 4096"
    and "\<forall>u \<in> set s. \<not> control_unit u"
  shows "event_bytes p \<le> 10000"
proof -
  have "json_string_bytes s \<le> 2 + 2 * byteLength s"
    using assms(7) by (intro json_string_bytes_printable) (auto simp: control_unit_def)
  with assms(1-6) show ?thesis
    using json_number_bytes [of "pe_attempt p"] json_number_bytes [of "pe_sequence p"]
      json_string_bytes_js [of "pe_executionId p"] json_string_bytes_js [of c]
      json_string_bytes_js [of "stream_name strm"] json_string_bytes_js [of "''console_output''"]
      name_lengths(4) [of strm]
    by (simp add: event_bytes_def event_json_def)
qed

text \<open>The fields an event may have for a row: public console text of a run, or no text at all.\<close>

definition fields_ok :: "env \<Rightarrow> db \<Rightarrow> execution \<Rightarrow> event_fields \<Rightarrow> bool" where
  "fields_ok env d row flds =
     (case flds of
        ConsoleOutput c strm s \<Rightarrow>
          ex_mode row = RUN \<and> c \<in> set (public_case_ids d (ex_problemVersionId row)) \<and> is_uuid env c \<and>
          byteLength s \<le> 4096 \<and> (\<forall>u \<in> set s. \<not> control_unit u)
      | _ \<Rightarrow> True)"

lemma event_bytes_pos: "0 < event_bytes p"
  by (simp add: event_bytes_def event_json_def)

lemma event_succeeds:
  assumes "env_ok env" and "is_uuid env (ex_id row)" and "fields_ok env d0 row flds"
    and "0 \<le> ex_attempt row" and "int4 (ex_attempt row)" and "0 \<le> ex_lastSequence row"
    and "int4 (ex_lastSequence row + 1)" and "ex_id row \<in> ex_id ` set (db_executions d)"
    and "(ex_id row, ex_attempt row, ex_lastSequence row + 1) \<notin> ev_key ` set (db_events d)"
  shows "event env ck row flds d =
     Inr (ex_lastSequence row + 1,
          d\<lparr>db_events := retained_events (ex_id row) (db_events d @ [new_event ck row flds])\<rparr>)"
proof -
  let ?p = "event_payload row flds"
  have p: "pe_executionId ?p = ex_id row" "pe_attempt ?p = ex_attempt row"
    "pe_sequence ?p = ex_lastSequence row + 1" "pe_fields ?p = flds"
    by (simp_all add: event_payload_def)
  have safe: "safe_int (pe_attempt ?p)" "safe_int (pe_sequence ?p)"
    using assms(4-7) by (simp_all add: p safe_int_def int4_def)
  have len: "length (pe_executionId ?p) \<le> 36" using assms(1,2) by (simp add: p env_ok_def)
  have "event_bytes ?p \<le> 16384"
  proof (cases flds)
    case (ConsoleOutput c strm s)
    with assms(1,3) have "length c \<le> 36" "byteLength s \<le> 4096" "\<forall>u \<in> set s. \<not> control_unit u"
      by (auto simp: fields_ok_def env_ok_def)
    from console_bytes [OF _ safe len this] ConsoleOutput p show ?thesis by fastforce
  next
    case (ExecutionStatus st c)
    then show ?thesis using fields_bytes [of ?p st c, OF _ safe len] p by fastforce
  next
    case (FinalVerdict st v f)
    then show ?thesis using fields_bytes [of ?p st _ v f, OF _ safe len] p by fastforce
  qed
  moreover have "publicExecutionEventSchema (is_uuid env) ?p"
    using assms(2-4,6) safe
    by (auto simp: publicExecutionEventSchema_def p fields_ok_def split: event_fields.splits)
  ultimately show ?thesis
    using assms(4-9) by (auto simp: event_Inr new_event_def ev_key_def event_bytes_pos)
qed

end
