(* ===== verification/JobInvariant.thy ===== *)
theory JobInvariant
  imports JobEvents
begin

text \<open>
  The invariant of the execution tables and the order in which an execution advances, with the
  lemmas that every transaction of the protocol is an instance of: an event and an update of its
  row, an update alone, a change of the outbox, and a removal of events.
\<close>

section \<open>The invariant\<close>

definition clean_streams :: "case_result \<Rightarrow> bool" where
  "clean_streams c \<longleftrightarrow>
     opt_all (list_all (\<lambda>u. \<not> control_unit u)) (cr_stdout c) \<and>
     opt_all (list_all (\<lambda>u. \<not> control_unit u)) (cr_stderr c)"

definition leased :: "execution \<Rightarrow> bool" where
  "leased r \<longleftrightarrow> ex_leaseToken r \<noteq> None \<and> 1 \<le> ex_attempt r \<and> opt_all (\<lambda>t. t \<le> deadline r) (ex_leaseExpiresAt r)"

definition row_ok :: "env \<Rightarrow> db \<Rightarrow> execution \<Rightarrow> bool" where
  "row_ok env d r \<longleftrightarrow>
     execution_checks r \<and> is_uuid env (ex_id r) \<and> version_published d (ex_problemVersionId r) \<and> ex_attempt r \<le> MAX_ATTEMPTS \<and>
     (ex_state r = QUEUED \<longrightarrow> ex_attempt r = 0 \<and> ex_cancellationRequestedAt r = None) \<and>
     (ex_state r \<in> {COMPILING, RUNNING} \<longrightarrow> leased r) \<and>
     opt_all (list_all (\<lambda>c. cr_caseId c \<in> set (public_case_ids d (ex_problemVersionId r)) \<and> clean_streams c))
       (ex_publicResults r)"

definition owner_key :: "execution \<Rightarrow> uuid \<times> string" where
  "owner_key r = (ex_userId r, ex_idempotencyKey r)"

definition executions_inv :: "env \<Rightarrow> db \<Rightarrow> bool" where
  "executions_inv env d \<longleftrightarrow>
     distinct (map ex_id (db_executions d)) \<and> distinct (map owner_key (db_executions d)) \<and> (\<forall>r \<in> set (db_executions d). row_ok env d r)"

definition event_ok :: "env \<Rightarrow> db \<Rightarrow> execution \<Rightarrow> event_row \<Rightarrow> bool" where
  "event_ok env d r e \<longleftrightarrow>
     ev_attempt e = ex_attempt r \<and> 0 < ev_sequence e \<and> ev_sequence e \<le> ex_lastSequence r \<and>
     safe_event env r (public_case_ids d (ex_problemVersionId r)) e \<and>
     ev_bytes e = event_bytes (ev_payload e) \<and> ev_bytes e \<le> 16384"

definition events_inv :: "env \<Rightarrow> db \<Rightarrow> bool" where
  "events_inv env d \<longleftrightarrow>
     distinct (map ev_key (db_events d)) \<and>
     (\<forall>e \<in> set (db_events d). \<exists>r. find_execution d (ev_executionId e) = Some r \<and> event_ok env d r e) \<and>
     (\<forall>i. length (events_of d i) \<le> REPLAY_ROWS \<and> sum_list (map ev_bytes (events_of d i)) \<le> REPLAY_BYTES)"

definition outbox_inv :: "db \<Rightarrow> bool" where
  "outbox_inv d \<longleftrightarrow>
     distinct (map ox_key (db_outbox d)) \<and>
     (\<forall>x \<in> set (db_outbox d). \<exists>r. find_execution d (ox_executionId x) = Some r \<and>
        (ox_kind x \<in> {EXECUTION_CANCELLED, EXECUTION_EXPIRED} \<longrightarrow> isTerminal (ex_state r)))"

text \<open>
  What the catalogue must satisfy, none of which the protocol writes: primary keys are unique, and
  titles and slugs are short enough for a notification (the administration bounds them far lower).
\<close>

definition catalog_inv :: "db \<Rightarrow> bool" where
  "catalog_inv d \<longleftrightarrow>
     distinct (map tc_id (db_testCases d)) \<and>
     (\<forall>v \<in> set (db_versions d). length (vn_title v) \<le> 400) \<and>
     (\<forall>p \<in> set (db_problems d). length (pr_slug p) \<le> 400 \<and> list_all href_char (pr_slug p))"

definition db_inv :: "env \<Rightarrow> db \<Rightarrow> bool" where
  "db_inv env d \<longleftrightarrow> executions_inv env d \<and> events_inv env d \<and> outbox_inv d \<and> catalog_inv d"

section \<open>How an execution advances\<close>

text \<open>
  The order every transaction respects: the request never changes, attempts never decrease, within
  an attempt the sequence never decreases and the state follows the contract's graph, terminal rows
  are final, and a requested cancellation stays and excludes \<open>FINISHED\<close>.
\<close>

definition row_le :: "execution \<Rightarrow> execution \<Rightarrow> bool" where
  "row_le old new \<longleftrightarrow>
     request_of new = request_of old \<and> ex_attempt old \<le> ex_attempt new \<and>
     (ex_attempt new = ex_attempt old \<longrightarrow>
        ex_lastSequence old \<le> ex_lastSequence new \<and> remaining (ex_state new) \<le> remaining (ex_state old)) \<and>
     (isTerminal (ex_state old) \<longrightarrow> new = old) \<and>
     (ex_cancellationRequestedAt old \<noteq> None \<longrightarrow>
        ex_cancellationRequestedAt new = ex_cancellationRequestedAt old \<and>
        (ex_state old \<noteq> FINISHED \<longrightarrow> ex_state new \<noteq> FINISHED))"

definition db_le :: "db \<Rightarrow> db \<Rightarrow> bool" where
  "db_le d d' \<longleftrightarrow>
     (\<forall>i old. find_execution d i = Some old \<longrightarrow> (\<exists>new. find_execution d' i = Some new \<and> row_le old new))"

text \<open>The tables no transaction of the protocol writes.\<close>

definition keeps :: "db \<Rightarrow> db \<Rightarrow> bool" where
  "keeps d d' \<longleftrightarrow>
     db_users d' = db_users d \<and> db_problems d' = db_problems d \<and> db_versions d' = db_versions d \<and>
     db_testCases d' = db_testCases d \<and> db_competitions d' = db_competitions d \<and>
     db_rounds d' = db_rounds d \<and> db_competitionProblems d' = db_competitionProblems d \<and>
     db_registrations d' = db_registrations d"

definition good_step :: "env \<Rightarrow> db \<Rightarrow> db \<Rightarrow> bool" where
  "good_step env d d' \<longleftrightarrow> db_inv env d' \<and> db_le d d' \<and> keeps d d'"

lemma row_le_refl [simp]: "row_le r r"
  by (simp add: row_le_def)

lemma row_le_trans: "row_le a b \<Longrightarrow> row_le b c \<Longrightarrow> row_le a c"
proof -
  assume ab: "row_le a b" and bc: "row_le b c"
  have "ex_attempt c = ex_attempt a \<Longrightarrow> ex_attempt b = ex_attempt a \<and> ex_attempt c = ex_attempt b"
    using ab bc unfolding row_le_def by linarith
  with ab bc show "row_le a c"
    unfolding row_le_def by (intro conjI impI; force)
qed

lemma db_le_refl [simp]: "db_le d d"
  by (simp add: db_le_def)

lemma db_le_trans: "db_le a b \<Longrightarrow> db_le b c \<Longrightarrow> db_le a c"
  unfolding db_le_def by (meson row_le_trans)

lemma keeps_refl [simp]: "keeps d d"
  by (simp add: keeps_def)

lemma keeps_public: "keeps d d' \<Longrightarrow> public_case_ids d' = public_case_ids d"
  by (rule ext) (simp add: public_case_ids_def keeps_def)

lemma keeps_published: "keeps d d' \<Longrightarrow> version_published d' = version_published d"
  by (rule ext) (simp add: version_published_def keeps_def)

lemma keeps_catalog: "keeps d d' \<Longrightarrow> catalog_inv d' = catalog_inv d"
  by (simp add: catalog_inv_def keeps_def)

lemma keeps_trans: "keeps a b \<Longrightarrow> keeps b c \<Longrightarrow> keeps a c"
  by (simp add: keeps_def)

lemma good_step_refl: "db_inv env d \<Longrightarrow> good_step env d d"
  by (simp add: good_step_def)

lemma good_step_trans: "good_step env a b \<Longrightarrow> good_step env b c \<Longrightarrow> good_step env a c"
  by (auto simp: good_step_def intro: db_le_trans keeps_trans)

section \<open>Updates of one row\<close>

lemma protect_row_le:
  assumes "protect_execution_lifecycle now old new = None"
    and "ex_cancellationRequestedAt old \<noteq> None \<Longrightarrow> ex_state old \<noteq> FINISHED \<Longrightarrow> ex_state new \<noteq> FINISHED"
  shows "row_le old new"
proof -
  note p = protect_None [OF assms(1)]
  have "remaining (ex_state new) \<le> remaining (ex_state old)" if "ex_attempt new = ex_attempt old"
    using p(5) [OF that] canTransition_remaining by fastforce
  with p assms(2) show ?thesis by (simp add: row_le_def)
qed

lemma find_put:
  assumes "find_execution d i = Some old" and "\<And>r. ex_id (f r) = ex_id r"
    and "db_executions d' = db_executions (put_execution i f d)"
  shows "find_execution d' j = (if j = i then Some (f old) else find_execution d j)"
proof -
  have "find_execution d' j = find_execution (put_execution i f d) j"
    by (simp add: find_execution_def assms(3))
  also have "\<dots> = (if i = j then map_option f (find_execution d i) else find_execution d j)"
    by (rule executions.lookup_store) (simp add: assms(2))
  finally show ?thesis using assms(1) by auto
qed

lemma executions_inv_find:
  "executions_inv env d \<Longrightarrow> find_execution d i = Some r \<Longrightarrow> row_ok env d r"
  by (auto simp: executions_inv_def dest: find_execution_Some)

lemma executions_inv_put:
  assumes "executions_inv env d" and "find_execution d i = Some old" and "\<And>r. ex_id (f r) = ex_id r"
    and "db_executions d' = db_executions (put_execution i f d)" and "keeps d d'" and "row_ok env d (f old)"
    and "request_of (f old) = request_of old"
  shows "executions_inv env d'"
proof -
  have "owner_key (if ex_id r = i then f r else r) = owner_key r" if "r \<in> set (db_executions d)" for r
  proof (cases "ex_id r = i")
    case True
    have "find_execution d (ex_id r) = Some r"
      using assms(1) that by (intro find_execution_in) (simp_all add: executions_inv_def)
    with True assms(2,7) show ?thesis by (simp add: owner_key_def request_of_def)
  qed simp
  then have "map owner_key (db_executions d') = map owner_key (db_executions d)"
    unfolding assms(4) by (simp add: put_execution_def update_by_def)
  then have k: "distinct (map owner_key (db_executions d'))"
    using assms(1) by (simp add: executions_inv_def)
  have d: "distinct (map ex_id (db_executions d'))"
    using assms(1) ids_put_execution [of f i d] assms(3,4) by (simp add: executions_inv_def)
  have "row_ok env d' r" if "r \<in> set (db_executions d')" for r
  proof -
    have "find_execution d' (ex_id r) = Some r" by (rule find_execution_in [OF d that])
    with find_put [OF assms(2-4)] executions_inv_find [OF assms(1)] assms(6)
    have "row_ok env d r" by (auto split: if_splits)
    then show ?thesis by (simp add: row_ok_def keeps_public [OF assms(5)] keeps_published [OF assms(5)])
  qed
  with d k show ?thesis by (simp add: executions_inv_def)
qed

lemma event_ok_keeps: "keeps d d' \<Longrightarrow> event_ok env d' r e = event_ok env d r e"
  by (simp add: event_ok_def keeps_public)

lemma row_update_good:
  assumes inv: "db_inv env d" and old: "find_execution d i = Some old" and key: "\<And>r. ex_id (f r) = ex_id r"
    and put: "db_executions d' = db_executions (put_execution i f d)" and keep: "keeps d d'"
    and ok: "row_ok env d (f old)" and le: "row_le old (f old)" and ox: "db_outbox d' = db_outbox d"
    and ev: "distinct (map ev_key (db_events d'))"
      "\<And>e. e \<in> set (db_events d') \<Longrightarrow> ev_executionId e \<noteq> i \<Longrightarrow> e \<in> set (db_events d)"
      "\<And>e. e \<in> set (db_events d') \<Longrightarrow> ev_executionId e = i \<Longrightarrow> event_ok env d (f old) e"
      "\<And>j. j \<noteq> i \<Longrightarrow> events_of d' j = events_of d j"
      "length (events_of d' i) \<le> REPLAY_ROWS" "sum_list (map ev_bytes (events_of d' i)) \<le> REPLAY_BYTES"
  shows "good_step env d d'"
proof -
  note found = find_put [OF old key put]
  from inv have invs: "executions_inv env d" "events_inv env d" "outbox_inv d" by (simp_all add: db_inv_def)
  have "events_inv env d'"
    unfolding events_inv_def
  proof (intro conjI ballI allI)
    show "distinct (map ev_key (db_events d'))" by (rule ev(1))
    fix e assume e: "e \<in> set (db_events d')"
    show "\<exists>r. find_execution d' (ev_executionId e) = Some r \<and> event_ok env d' r e"
      using invs(2) ev(2,3) [OF e] found by (auto simp: events_inv_def event_ok_keeps [OF keep])
  next
    fix j
    show "length (events_of d' j) \<le> REPLAY_ROWS" "sum_list (map ev_bytes (events_of d' j)) \<le> REPLAY_BYTES"
      using ev(4) [of j] ev(5,6) invs(2) by (cases "j = i"; simp add: events_inv_def)+
  qed
  moreover have "outbox_inv d'"
  proof -
    have "\<exists>r'. find_execution d' j = Some r' \<and> (isTerminal (ex_state r) \<longrightarrow> isTerminal (ex_state r'))"
      if "find_execution d j = Some r" for j r
      using that le old by (auto simp: found row_le_def)
    with invs(3) show ?thesis unfolding outbox_inv_def ox by fastforce
  qed
  moreover have "db_le d d'" using old le by (simp add: db_le_def found)
  ultimately show ?thesis
    using executions_inv_put [OF invs(1) old key put keep ok] le keep inv keeps_catalog [OF keep]
    by (simp add: good_step_def db_inv_def row_le_def)
qed

text \<open>Events that satisfy the invariant for a row satisfy it for the updated row of the same attempt.\<close>

lemma event_ok_advance:
  assumes "event_ok env d old e" and "request_of new = request_of old" and "ex_attempt new = ex_attempt old"
    and "ex_lastSequence old \<le> ex_lastSequence new"
  shows "event_ok env d new e"
  using assms(1,3,4) request_of_eq [OF assms(2)]
  by (auto simp: event_ok_def safe_event_def split: event_fields.splits)

lemma events_inv_row:
  assumes "events_inv env d" and "find_execution d i = Some old" and "e \<in> set (db_events d)"
    and "ev_executionId e = i"
  shows "event_ok env d old e"
  using assms by (auto simp: events_inv_def)

text \<open>An update that leaves attempt and sequence as they are and writes no event.\<close>

lemma update_good:
  assumes inv: "db_inv env d" and upd: "update_execution ck i f d = Inr d'"
    and key: "\<And>r. ex_id (f r) = ex_id r" and old: "find_execution d i = Some old"
    and ok: "row_ok env d (f old)" and same: "ex_attempt (f old) = ex_attempt old"
    and cancel: "ex_cancellationRequestedAt old \<noteq> None \<Longrightarrow> ex_state old \<noteq> FINISHED \<Longrightarrow> ex_state (f old) \<noteq> FINISHED"
  shows "good_step env d d'"
proof -
  from upd old have d': "d' = put_execution i f d"
    and p: "protect_execution_lifecycle (ck_trigger ck) old (f old) = None"
    by (auto simp: update_execution_Inr)
  have le: "row_le old (f old)" using protect_row_le [OF p] cancel by blast
  have "events_inv env d" using inv by (simp add: db_inv_def)
  note row = events_inv_row [OF this old]
  show ?thesis
  proof (rule row_update_good [OF inv old key _ _ ok le])
    fix e assume e: "e \<in> set (db_events d')" "ev_executionId e = i"
    from e(1) have "e \<in> set (db_events d)" by (simp add: d' put_execution_def)
    show "event_ok env d (f old) e"
      by (rule event_ok_advance [OF row [OF \<open>e \<in> set (db_events d)\<close> e(2)]])
        (use le same in \<open>simp_all add: row_le_def\<close>)
  qed (use inv in \<open>auto simp: d' put_execution_def keeps_def db_inv_def events_inv_def events_of_def\<close>)
qed

lemma new_event_ok:
  assumes "publicExecutionEventSchema (is_uuid env) (event_payload row flds)"
    and "event_bytes (event_payload row flds) \<le> 16384" and "0 \<le> ex_lastSequence row"
    and "fields_ok env d row flds" and "request_of new = request_of row" and "ex_attempt new = ex_attempt row"
    and "ex_lastSequence new = ex_lastSequence row + 1"
  shows "event_ok env d new (new_event ck row flds)"
  using assms request_of_eq [OF assms(5)]
  by (auto simp: event_ok_def new_event_def safe_event_def event_payload_def fields_ok_def
      split: event_fields.splits)

lemma event_update_good:
  assumes inv: "db_inv env d" and old: "find_execution d i = Some old"
    and es: "es = db_events d \<and> ex_attempt row = ex_attempt old \<and> ex_lastSequence row = ex_lastSequence old \<or>
             es = filter (\<lambda>e. ev_executionId e \<noteq> i) (db_events d)"
    and req: "request_of row = request_of old" and flds: "fields_ok env d row flds"
    and ev: "event env ck row flds (d\<lparr>db_events := es\<rparr>) = Inr (seqn, d1)"
    and upd: "update_execution ck i f (d1\<lparr>db_notifications := ns\<rparr>) = Inr d'"
    and key: "\<And>r. ex_id (f r) = ex_id r"
    and ok: "row_ok env d (f old)" and att: "ex_attempt (f old) = ex_attempt row"
    and seqn: "ex_lastSequence (f old) = ex_lastSequence row + 1"
    and cancel: "ex_cancellationRequestedAt old \<noteq> None \<Longrightarrow> ex_state old \<noteq> FINISHED \<Longrightarrow> ex_state (f old) \<noteq> FINISHED"
  shows "good_step env d d'"
proof -
  let ?n = "new_event ck row flds"
  have i: "ex_id row = i" using old request_of_eq(1) [OF req] by (auto dest: find_execution_Some)
  have n: "ev_executionId ?n = i" by (simp add: new_event_def i)
  from ev have d1: "d1 = d\<lparr>db_events := retained_events i (es @ [?n])\<rparr>"
    and fresh: "ev_key ?n \<notin> ev_key ` set es"
    and schema: "publicExecutionEventSchema (is_uuid env) (event_payload row flds)"
      "event_bytes (event_payload row flds) \<le> 16384" "0 \<le> ex_lastSequence row"
    unfolding event_Inr i by simp_all
  from upd old d1 have p: "protect_execution_lifecycle (ck_trigger ck) old (f old) = None"
    and d': "d' = put_execution i f (d1\<lparr>db_notifications := ns\<rparr>)"
    by (auto simp: update_execution_Inr find_execution_def)
  have le: "row_le old (f old)" using protect_row_le [OF p] cancel by blast
  have req': "request_of (f old) = request_of old" using le by (simp add: row_le_def)
  have evs: "db_events d' = retained_events i (es @ [?n])" by (simp add: d' d1 put_execution_def)
  have einv: "events_inv env d" using inv by (simp add: db_inv_def)
  have sub: "set es \<subseteq> set (db_events d)" using es by auto
  have "distinct (map ev_key es)"
    using es einv by (auto simp: events_inv_def intro: distinct_map_filter)
  with fresh have dist: "distinct (map ev_key (es @ [?n]))" by auto
  have ok_i: "event_ok env d (f old) e" if "e \<in> set (es @ [?n])" "ev_executionId e = i" for e
  proof (cases "e = ?n")
    case True
    show ?thesis unfolding True
      by (rule new_event_ok [OF schema flds _ att seqn]) (simp add: req' req)
  next
    case False
    with that have e: "e \<in> set es" "e \<in> set (db_events d)" using sub by auto
    with es that(2) have "ex_attempt row = ex_attempt old" "ex_lastSequence row = ex_lastSequence old" by auto
    with att seqn show ?thesis
      by (intro event_ok_advance [OF events_inv_row [OF einv old e(2) that(2)] req']) simp_all
  qed
  then have nonneg: "\<forall>e \<in> set (es @ [?n]). ev_executionId e = i \<longrightarrow> 0 \<le> ev_bytes e"
    using event_bytes_pos by (auto simp: event_ok_def less_imp_le)
  have other: "events_of d' j = events_of d j" if "j \<noteq> i" for j
  proof -
    have "filter (\<lambda>e. ev_executionId e = j) es = filter (\<lambda>e. ev_executionId e = j) (db_events d)"
      using es that filter_filter_weaker [of "\<lambda>e. ev_executionId e = j" "\<lambda>e. ev_executionId e \<noteq> i" "db_events d"]
      by auto
    then show ?thesis
      using retained_events_other [of i j "es @ [?n]"] that n by (simp add: events_of_def evs)
  qed
  have bounds: "length (events_of d' i) \<le> REPLAY_ROWS" "sum_list (map ev_bytes (events_of d' i)) \<le> REPLAY_BYTES"
    unfolding events_of_def evs by (rule newest_fit_bounds [OF retained_events_fit [OF nonneg dist]])+
  show ?thesis
  proof (rule row_update_good [OF inv old key _ _ ok le _ _ _ _ other bounds])
    show "distinct (map ev_key (db_events d'))"
      unfolding evs retained_events_def using dist by (rule distinct_map_filter)
    fix e assume e: "e \<in> set (db_events d')"
    then have e': "e \<in> set (es @ [?n])" unfolding evs using set_retained_events by blast
    show "e \<in> set (db_events d)" if "ev_executionId e \<noteq> i" using e' that n sub by auto
    show "event_ok env d (f old) e" if "ev_executionId e = i" by (rule ok_i [OF e' that])
  qed (simp_all add: d' d1 put_execution_def keeps_def)
qed

lemma notifyExecution_Inr:
  "notifyExecution env ck row v d = Inr d' \<Longrightarrow> d' = d\<lparr>db_notifications := db_notifications d'\<rparr>"
  by (auto simp: notifyExecution_def create_execution_result_notification_def insert_notification_def
      result_simps split: option.splits if_splits)

section \<open>The outbox and the removal of events\<close>

lemma outbox_good:
  assumes "db_inv env d" and "outbox_inv (d\<lparr>db_outbox := xs\<rparr>)"
  shows "good_step env d (d\<lparr>db_outbox := xs\<rparr>)"
  using assms
  by (auto simp: good_step_def db_inv_def db_le_def keeps_def executions_inv_def row_ok_def
      public_case_ids_def version_published_def events_inv_def event_ok_def events_of_def find_execution_def catalog_inv_def)

lemma create_outbox_good:
  assumes inv: "db_inv env d" and cr: "create_outbox ck k d = Inr d'"
    and final: "fst (snd k) \<in> {EXECUTION_CANCELLED, EXECUTION_EXPIRED} \<Longrightarrow>
       \<exists>r. find_execution d (fst k) = Some r \<and> isTerminal (ex_state r)"
  shows "good_step env d d'"
proof -
  obtain i kd g where k: "k = (i, kd, g)" by (cases k)
  from cr have d': "d' = d\<lparr>db_outbox := db_outbox d @ [new_outbox ck k]\<rparr>"
    and fresh: "ox_key (new_outbox ck k) \<notin> ox_key ` set (db_outbox d)"
    and "i \<in> ex_id ` set (db_executions d)"
    by (auto simp: create_outbox_def result_simps k split: if_splits)
  then have i: "find_execution d i \<noteq> None" unfolding find_execution_ids by simp
  have "outbox_inv d'"
    using inv fresh i final
    by (auto simp: d' db_inv_def outbox_inv_def find_execution_def new_outbox_def k)
  with inv show ?thesis unfolding d' by (rule outbox_good)
qed

lemma outbox_inv_map:
  assumes "outbox_inv d" and "\<And>x. ox_key (g x) = ox_key x"
  shows "outbox_inv (d\<lparr>db_outbox := map g (db_outbox d)\<rparr>)"
proof -
  have "ox_key \<circ> g = ox_key" using assms(2) by auto
  moreover have "ox_executionId (g x) = ox_executionId x" "ox_kind (g x) = ox_kind x" for x
    using assms(2) [of x] by (simp_all add: ox_key_def)
  ultimately show ?thesis
    using assms(1) by (auto simp: outbox_inv_def find_execution_def)
qed

lemma upsert_outbox_good:
  assumes inv: "db_inv env d" and up: "upsert_outbox ck (i, EXECUTION_RECOVERY, g) f d = Inr d'"
    and key: "\<And>x. ox_key (f x) = ox_key x"
  shows "good_step env d d'"
proof (cases "find_outbox d (i, EXECUTION_RECOVERY, g)")
  case None
  with up have "create_outbox ck (i, EXECUTION_RECOVERY, g) d = Inr d'" by (simp add: upsert_outbox_def)
  then show ?thesis by (rule create_outbox_good [OF inv]) auto
next
  case (Some x)
  with up have "d' = d\<lparr>db_outbox := map (\<lambda>x. if ox_key x = (i, EXECUTION_RECOVERY, g) then f x else x) (db_outbox d)\<rparr>"
    by (simp add: upsert_outbox_def put_outbox_def update_by_def)
  moreover have "outbox_inv (d\<lparr>db_outbox := map (\<lambda>x. if ox_key x = (i, EXECUTION_RECOVERY, g) then f x else x) (db_outbox d)\<rparr>)"
    using inv key by (intro outbox_inv_map) (auto simp: db_inv_def)
  ultimately show ?thesis using outbox_good [OF inv] by simp
qed

lemma filter_events_good:
  assumes inv: "db_inv env d"
  shows "good_step env d (d\<lparr>db_events := filter P (db_events d)\<rparr>)" (is "good_step env d ?d'")
proof -
  from inv have einv: "events_inv env d" by (simp add: db_inv_def)
  then have nonneg: "\<forall>e \<in> set (db_events d). 0 \<le> ev_bytes e"
    using event_bytes_pos by (force simp: events_inv_def event_ok_def less_imp_le)
  have evs: "events_of ?d' i = filter P (events_of d i)" for i
    by (simp add: events_of_def conj_commute)
  have "length (events_of ?d' i) \<le> length (events_of d i)" for i
    unfolding evs by (rule length_filter_le)
  moreover have "sum_list (map ev_bytes (events_of ?d' i)) \<le> sum_list (map ev_bytes (events_of d i))" for i
    unfolding evs using nonneg by (intro sum_list_filter_le_int) (simp add: events_of_def)
  ultimately have "events_inv env ?d'"
    using einv unfolding events_inv_def
    by (fastforce simp: find_execution_def event_ok_def public_case_ids_def intro: order_trans distinct_map_filter)
  with inv show ?thesis
    by (auto simp: good_step_def db_inv_def db_le_def keeps_def executions_inv_def row_ok_def
        public_case_ids_def version_published_def outbox_inv_def find_execution_def catalog_inv_def)
qed

end
