(* ===== verification/JobSafety.thy ===== *)
theory JobSafety
  imports JobInvariant
begin

text \<open>
  Every operation of the job store, whenever it commits, keeps the invariant and advances every
  execution in the order of \<open>row_le\<close>.
\<close>

section \<open>Terminal transitions\<close>

lemma row_ok_of_update:
  assumes "row_ok env d old" and "execution_checks new" and "request_of new = request_of old"
    and "0 \<le> ex_attempt new" and "ex_attempt new \<le> MAX_ATTEMPTS" and "ex_state new \<noteq> QUEUED"
    and "ex_state new \<in> {COMPILING, RUNNING} \<Longrightarrow> leased new"
    and "opt_all (list_all (\<lambda>c. cr_caseId c \<in> set (public_case_ids d (ex_problemVersionId old)) \<and> clean_streams c))
       (ex_publicResults new)"
  shows "row_ok env d new"
  using assms request_of_eq [OF assms(3)] by (simp add: row_ok_def)

lemma request_of_updates [simp]:
  "request_of (ex_state_update u1 r) = request_of r"
  "request_of (ex_verdict_update u2 r) = request_of r"
  "request_of (ex_attempt_update u3 r) = request_of r"
  "request_of (ex_lastSequence_update u4 r) = request_of r"
  "request_of (ex_leaseToken_update u5 r) = request_of r"
  "request_of (ex_leaseExpiresAt_update u6 r) = request_of r"
  "request_of (ex_runtimeMs_update u7 r) = request_of r"
  "request_of (ex_memoryKiB_update u8 r) = request_of r"
  "request_of (ex_publicResults_update u9 r) = request_of r"
  "request_of (ex_finishedAt_update u10 r) = request_of r"
  "request_of (ex_failureCode_update u11 r) = request_of r"
  "request_of (ex_cancellationRequestedAt_update u12 r) = request_of r"
  by (simp_all add: request_of_def)

lemma request_of_rows [simp]:
  "request_of (terminal_row ck st fc n r) = request_of r"
  "request_of (claim_row ck token row n r) = request_of r"
  "request_of (finish_row env ck result n r) = request_of r"
  by (simp_all add: terminal_row_def claim_row_def finish_row_def)

lemma update_checks:
  "update_execution ck i f d = Inr d' \<Longrightarrow> find_execution d i = Some old \<Longrightarrow> execution_checks (f old)"
  by (auto simp: update_execution_Inr)

lemma row_okD:
  assumes "row_ok env d r"
  shows "0 \<le> ex_attempt r" "ex_attempt r \<le> MAX_ATTEMPTS" "execution_checks r" "is_uuid env (ex_id r)"
    "opt_all (list_all (\<lambda>c. cr_caseId c \<in> set (public_case_ids d (ex_problemVersionId r)) \<and> clean_streams c))
       (ex_publicResults r)"
    "ex_state r \<in> {COMPILING, RUNNING} \<Longrightarrow> leased r"
    "ex_state r = QUEUED \<Longrightarrow> ex_attempt r = 0 \<and> ex_cancellationRequestedAt r = None"
  using assms by (simp_all add: row_ok_def execution_checks_def)

lemma db_inv_row: "db_inv env d \<Longrightarrow> find_execution d i = Some r \<Longrightarrow> row_ok env d r"
  unfolding db_inv_def by (blast intro: executions_inv_find)

text \<open>The shape all event-writing transactions share, from which their effect is read off.\<close>

lemma event_notify_update:
  assumes inv: "db_inv env d" and old: "find_execution d i = Some old"
    and es: "es = db_events d \<and> ex_attempt row = ex_attempt old \<and> ex_lastSequence row = ex_lastSequence old \<or>
             es = filter (\<lambda>e. ev_executionId e \<noteq> i) (db_events d)"
    and req: "request_of row = request_of old" and flds: "fields_ok env d row flds"
    and ev: "event env ck row flds (d\<lparr>db_events := es\<rparr>) = Inr (seqn, d1)"
    and d2: "d2 = d1\<lparr>db_notifications := db_notifications d2\<rparr>"
    and upd: "update_execution ck i f d2 = Inr d'"
    and key: "\<And>r. request_of (f r) = request_of r"
    and ok: "execution_checks (f old) \<Longrightarrow> row_ok env d (f old)" and att: "ex_attempt (f old) = ex_attempt row"
    and last: "ex_lastSequence (f old) = ex_lastSequence row + 1"
    and cancel: "ex_cancellationRequestedAt old \<noteq> None \<Longrightarrow> ex_state old \<noteq> FINISHED \<Longrightarrow> ex_state (f old) \<noteq> FINISHED"
  shows "good_step env d d' \<and> find_execution d' i = Some (f old) \<and> db_outbox d' = db_outbox d"
proof -
  have keyi: "\<And>r. ex_id (f r) = ex_id r" using key request_of_eq(1) by blast
  from ev have d1: "d1 = d\<lparr>db_events := db_events d1\<rparr>" by (auto simp: event_Inr)
  have same: "find_execution d2 j = find_execution d j" "db_outbox d2 = db_outbox d"
    "db_executions d2 = db_executions d" for j
    by (subst d2, subst d1, simp add: find_execution_def)+
  have "execution_checks (f old)" using update_checks [OF upd] old same by simp
  with ok have ok': "row_ok env d (f old)" by blast
  from upd have "update_execution ck i f (d1\<lparr>db_notifications := db_notifications d2\<rparr>) = Inr d'"
    by (subst d2 [symmetric])
  from event_update_good [OF inv old es req flds ev this keyi ok' att last cancel]
  have "good_step env d d'" .
  moreover from upd have d': "d' = put_execution i f d2" by (auto simp: update_execution_Inr)
  have "find_execution d' i = Some (f old)"
    using executions.lookup_store [of f i d2 i] keyi old same by (simp add: d')
  moreover have "db_outbox d' = db_outbox d" using same by (simp add: d' put_execution_def)
  ultimately show ?thesis by blast
qed

lemma terminal_good:
  assumes inv: "db_inv env d" and row: "find_execution d (ex_id row) = Some row"
    and st: "st \<in> {CANCELLED, INTERNAL_ERROR}" and fin: "terminal env ck row st fc d = Inr d'"
  shows "good_step env d d' \<and> db_outbox d' = db_outbox d \<and>
     find_execution d' (ex_id row) = Some (terminal_row ck st fc (ex_lastSequence row + 1) row)"
proof -
  from fin obtain seqn d1 d2
    where ev: "event env ck row (FinalVerdict st (terminal_verdict st) fc) d = Inr (seqn, d1)"
      and nt: "notifyExecution env ck row (terminal_verdict st) d1 = Inr d2"
      and upd: "update_execution ck (ex_id row) (terminal_row ck st fc seqn) d2 = Inr d'"
    by (auto simp: terminal_def result_simps)
  have seqn: "seqn = ex_lastSequence row + 1" using ev by (simp add: event_Inr)
  note ok = db_inv_row [OF inv row]
  have "good_step env d d' \<and>
      find_execution d' (ex_id row) = Some (terminal_row ck st fc (ex_lastSequence row + 1) row) \<and>
      db_outbox d' = db_outbox d"
  proof (rule event_notify_update [OF inv row, where es = "db_events d" and row = row
        and f = "terminal_row ck st fc (ex_lastSequence row + 1)"])
    show "d2 = d1\<lparr>db_notifications := db_notifications d2\<rparr>" by (rule notifyExecution_Inr [OF nt])
    show "event env ck row (FinalVerdict st (terminal_verdict st) fc) (d\<lparr>db_events := db_events d\<rparr>) = Inr (seqn, d1)"
      using ev by simp
    show "update_execution ck (ex_id row) (terminal_row ck st fc (ex_lastSequence row + 1)) d2 = Inr d'"
      using upd by (simp add: seqn)
    assume "execution_checks (terminal_row ck st fc (ex_lastSequence row + 1) row)"
    with row_okD [OF ok] st show "row_ok env d (terminal_row ck st fc (ex_lastSequence row + 1) row)"
      by (intro row_ok_of_update [OF ok]) (auto simp: terminal_row_def)
  qed (use st in \<open>auto simp: fields_ok_def terminal_row_def\<close>)
  then show ?thesis by blast
qed

text \<open>A terminal transition leaves the other executions alone.\<close>

lemma update_other:
  assumes "update_execution ck i f d = Inr d'" and "j \<noteq> i" and "\<And>r. ex_id (f r) = ex_id r"
  shows "find_execution d' j = find_execution d j"
  using assms executions.lookup_store_other [of f i j d] by (auto simp: update_execution_Inr)

lemma event_same_executions: "event env ck row flds d = Inr (n, d') \<Longrightarrow> db_executions d' = db_executions d"
  by (auto simp: event_Inr)

lemma terminal_other:
  assumes "terminal env ck row st fc d = Inr d'" and "j \<noteq> ex_id row"
  shows "find_execution d' j = find_execution d j"
proof -
  from assms(1) obtain n d1 d2
    where ev: "event env ck row (FinalVerdict st (terminal_verdict st) fc) d = Inr (n, d1)"
      and nt: "notifyExecution env ck row (terminal_verdict st) d1 = Inr d2"
      and upd: "update_execution ck (ex_id row) (terminal_row ck st fc n) d2 = Inr d'"
    by (auto simp: terminal_def result_simps)
  have "db_executions d2 = db_executions d"
    using event_same_executions [OF ev] by (subst notifyExecution_Inr [OF nt]) simp
  with update_other [OF upd assms(2)] show ?thesis by (simp add: terminal_row_def find_execution_def)
qed

section \<open>The operations\<close>

lemma claim_cases:
  assumes "claim env ck token i d = Inr (res, d')"
  obtains (nothing) "res = None" "d' = d"
    | (expired) row fc where "res = None" "find_execution d i = Some row" "\<not> isTerminal (ex_state row)"
        "terminal env ck row INTERNAL_ERROR (Some fc) d = Inr d'"
    | (claimed) row seqn d2 where "find_execution d i = Some row" "\<not> isTerminal (ex_state row)"
        "ex_state row = QUEUED \<and> ck_db ck < ex_queueExpiresAt row \<or> ex_state row \<noteq> QUEUED \<and> opt_all (\<lambda>t. t \<le> ck_db ck) (ex_leaseExpiresAt row)"
        "ex_cancellationRequestedAt row = None" "ck_db ck < deadline row" "ex_attempt row < MAX_ATTEMPTS"
        "event env ck (row\<lparr>ex_attempt := ex_attempt row + 1, ex_lastSequence := 0, ex_state := COMPILING\<rparr>)
           (ExecutionStatus COMPILING None)
           (d\<lparr>db_events := filter (\<lambda>e. ev_executionId e \<noteq> i) (db_events d)\<rparr>) = Inr (seqn, d2)"
        "update_execution ck i (claim_row ck token row seqn) d2 = Inr d'"
        "res = Some (\<lparr>le_executionId = i, le_attempt = ex_attempt row + 1, le_token = token\<rparr>,
                     claim_row ck token row seqn row)"
proof (cases "find_execution d i")
  case None
  with assms have "res = None" "d' = d" by (simp_all add: claim_def locked_def)
  then show ?thesis by (rule nothing)
next
  case (Some row)
  show ?thesis
  proof (cases "isTerminal (ex_state row) \<or> ex_state row \<noteq> QUEUED \<and>
                  (case ex_leaseExpiresAt row of None \<Rightarrow> False | Some t \<Rightarrow> ck_db ck < t)")
    case True
    with assms Some have "Inr (res, d') = Inr (None, d)"
      by (cases "isTerminal (ex_state row)"; cases "ex_leaseExpiresAt row") (simp_all add: claim_def locked_def)
    then have "res = None" "d' = d" by simp_all
    then show ?thesis by (rule nothing)
  next
    case act: False
    show ?thesis
    proof (cases "ex_state row = QUEUED \<and> ex_queueExpiresAt row \<le> ck_db ck \<or>
        ex_cancellationRequestedAt row \<noteq> None \<or> deadline row \<le> ck_db ck \<or> MAX_ATTEMPTS \<le> ex_attempt row")
      case True
      with assms Some act have "\<exists>fc. res = None \<and> terminal env ck row INTERNAL_ERROR (Some fc) d = Inr d'"
        by (auto simp: claim_def locked_def result_simps split: if_splits)
      with Some act expired show ?thesis by blast
    next
      case False
      with act have cond: "ex_state row = QUEUED \<and> ck_db ck < ex_queueExpiresAt row \<or>
          ex_state row \<noteq> QUEUED \<and> opt_all (\<lambda>t. t \<le> ck_db ck) (ex_leaseExpiresAt row)"
        by (auto simp: opt_all_def split: option.splits)
      from assms Some act False obtain seqn d2 where
        "event env ck (row\<lparr>ex_attempt := ex_attempt row + 1, ex_lastSequence := 0, ex_state := COMPILING\<rparr>)
           (ExecutionStatus COMPILING None)
           (d\<lparr>db_events := filter (\<lambda>e. ev_executionId e \<noteq> i) (db_events d)\<rparr>) = Inr (seqn, d2)"
        "update_execution ck i (claim_row ck token row seqn) d2 = Inr d'"
        "res = Some (\<lparr>le_executionId = i, le_attempt = ex_attempt row + 1, le_token = token\<rparr>,
                     claim_row ck token row seqn row)"
        by (auto simp: claim_def locked_def result_simps Let_def)
      with Some act False cond show ?thesis by (intro claimed) auto
    qed
  qed
qed

lemma claim_good:
  assumes inv: "db_inv env d" and cl: "claim env ck token i d = Inr (res, d')"
  shows "good_step env d d'"
  using cl
proof (cases rule: claim_cases)
  case nothing
  with inv show ?thesis by (simp add: good_step_refl)
next
  case (expired row fc)
  then have "find_execution d (ex_id row) = Some row" by (auto dest: find_execution_Some)
  from terminal_good [OF inv this _ expired(4)] show ?thesis by simp
next
  case (claimed row seqn d2)
  let ?row = "row\<lparr>ex_attempt := ex_attempt row + 1, ex_lastSequence := 0, ex_state := COMPILING\<rparr>"
  have seqn: "seqn = 1" using claimed(7) by (simp add: event_Inr)
  note ok = db_inv_row [OF inv claimed(1)]
  have "good_step env d d' \<and> find_execution d' i = Some (claim_row ck token row 1 row) \<and> db_outbox d' = db_outbox d"
  proof (rule event_notify_update [OF inv claimed(1), where row = ?row and f = "claim_row ck token row 1"])
    show "event env ck ?row (ExecutionStatus COMPILING None)
        (d\<lparr>db_events := filter (\<lambda>e. ev_executionId e \<noteq> i) (db_events d)\<rparr>) = Inr (seqn, d2)"
      by (rule claimed(7))
    show "update_execution ck i (claim_row ck token row 1) d2 = Inr d'" using claimed(8) seqn by simp
    assume "execution_checks (claim_row ck token row 1 row)"
    then show "row_ok env d (claim_row ck token row 1 row)"
      using row_okD [OF ok] claimed(6)
      by (intro row_ok_of_update [OF ok]) (auto simp: claim_row_def leased_def deadline_def)
  qed (auto simp: fields_ok_def claim_row_def)
  then show ?thesis by blast
qed

lemma locked_row: "locked d i = Some row \<Longrightarrow> find_execution d (ex_id row) = Some row \<and> ex_id row = i"
  unfolding locked_def using find_execution_Some by metis

lemma valid_active: "valid now row l \<Longrightarrow> ex_state row \<in> {COMPILING, RUNNING}"
  by (cases "ex_state row") (auto simp: valid_def)

lemma renewal_end_le: "renewal_end ck row \<le> deadline row"
  by (auto simp: renewal_end_def Let_def split: option.splits)

lemma lease_update_good:
  assumes inv: "db_inv env d" and row: "find_execution d (ex_id row) = Some row"
    and act: "ex_state row \<in> {COMPILING, RUNNING}" and t: "t \<le> deadline row"
    and upd: "update_execution ck (ex_id row) (\<lambda>r. r\<lparr>ex_leaseExpiresAt := Some t\<rparr>) d = Inr d'"
  shows "good_step env d d'"
proof (rule update_good [OF inv upd _ row])
  note ok = db_inv_row [OF inv row]
  show "row_ok env d (row\<lparr>ex_leaseExpiresAt := Some t\<rparr>)"
    using row_okD [OF ok] act t update_checks [OF upd row]
    by (intro row_ok_of_update [OF ok]) (auto simp: leased_def deadline_def)
qed (use act in auto)

lemma renew_good:
  assumes inv: "db_inv env d" and op: "renew ck l d = Inr (res, d')"
  shows "good_step env d d'"
proof (cases "d' = d")
  case True
  with inv show ?thesis by (simp add: good_step_refl)
next
  case False
  with op obtain row where row: "locked d (le_executionId l) = Some row" "valid (ck_db ck) row l"
    "update_execution ck (ex_id row) (\<lambda>r. r\<lparr>ex_leaseExpiresAt := Some (renewal_end ck row)\<rparr>) d = Inr d'"
    by (auto simp: renew_def result_simps split: option.splits if_splits)
  show ?thesis
    by (rule lease_update_good [OF inv conjunct1 [OF locked_row [OF row(1)]] valid_active [OF row(2)]
        renewal_end_le row(3)])
qed

lemma recover_good:
  assumes inv: "db_inv env d" and op: "recover env ck l d = Inr (res, d')"
  shows "good_step env d d'"
proof (cases "d' = d")
  case True
  with inv show ?thesis by (simp add: good_step_refl)
next
  case False
  with op obtain row where row: "locked d (le_executionId l) = Some row" "valid (ck_db ck) row l"
    by (auto simp: recover_def split: option.splits if_splits)
  let ?f = "\<lambda>x. x\<lparr>ox_publishedAt := None, ox_dispatchToken := None, ox_dispatchExpiresAt := None,
                   ox_nextDispatchAt := ck_db ck\<rparr>"
  have alt: "(\<exists>st fc. st \<in> {CANCELLED, INTERNAL_ERROR} \<and> terminal env ck row st fc d = Inr d') \<or>
      (\<exists>d1. update_execution ck (ex_id row) (\<lambda>r. r\<lparr>ex_leaseExpiresAt := Some (ck_db ck)\<rparr>) d = Inr d1 \<and>
         upsert_outbox ck (ex_id row, EXECUTION_RECOVERY, ex_attempt row) ?f d1 = Inr d')"
  proof (cases "ex_cancellationRequestedAt row \<noteq> None \<or> MAX_ATTEMPTS \<le> ex_attempt row")
    case True
    then have "\<exists>st fc. st \<in> {CANCELLED, INTERNAL_ERROR} \<and> terminal env ck row st fc d = Inr d'"
      using op row by (cases "ex_cancellationRequestedAt row = None") (auto simp: recover_def result_simps)
    then show ?thesis ..
  next
    case False
    with op row show ?thesis by (auto simp: recover_def result_simps)
  qed
  note found = conjunct1 [OF locked_row [OF row(1)]]
  from alt show ?thesis
  proof (elim disjE exE conjE)
    fix st fc assume "st \<in> {CANCELLED, INTERNAL_ERROR}" "terminal env ck row st fc d = Inr d'"
    from terminal_good [OF inv found this] show ?thesis by blast
  next
    fix d1 assume upd: "update_execution ck (ex_id row) (\<lambda>r. r\<lparr>ex_leaseExpiresAt := Some (ck_db ck)\<rparr>) d = Inr d1"
      and up: "upsert_outbox ck (ex_id row, EXECUTION_RECOVERY, ex_attempt row) ?f d1 = Inr d'"
    have "ck_db ck \<le> deadline row" using row(2) by (simp add: valid_def)
    from lease_update_good [OF inv found valid_active [OF row(2)] this upd] have g: "good_step env d d1" .
    then have "db_inv env d1" by (simp add: good_step_def)
    from upsert_outbox_good [OF this up] have "good_step env d1 d'" by (simp add: ox_key_def)
    with g show ?thesis by (rule good_step_trans)
  qed
qed

lemma markRunning_good:
  assumes inv: "db_inv env d" and op: "markRunning env ck l d = Inr (res, d')"
  shows "good_step env d d'"
proof (cases "d' = d")
  case True
  with inv show ?thesis by (simp add: good_step_refl)
next
  case False
  with op obtain row where row: "locked d (le_executionId l) = Some row" "ex_state row = COMPILING"
    and "\<not> (\<not> valid (ck_db ck) row l \<or> ex_cancellationRequestedAt row \<noteq> None \<or> ex_state row \<noteq> COMPILING)"
    by (auto simp: markRunning_def split: option.splits if_splits)
  with op obtain seqn d1 where ev: "event env ck row (ExecutionStatus RUNNING None) d = Inr (seqn, d1)"
    and upd: "update_execution ck (ex_id row) (\<lambda>r. r\<lparr>ex_state := RUNNING, ex_lastSequence := seqn\<rparr>) d1 = Inr d'"
    by (auto simp: markRunning_def result_simps)
  note found = conjunct1 [OF locked_row [OF row(1)]]
  note ok = db_inv_row [OF inv found]
  have seqn: "seqn = ex_lastSequence row + 1" using ev by (simp add: event_Inr)
  have "good_step env d d' \<and> find_execution d' (ex_id row) =
      Some (row\<lparr>ex_state := RUNNING, ex_lastSequence := seqn\<rparr>) \<and> db_outbox d' = db_outbox d"
  proof (rule event_notify_update [OF inv found, where row = row and es = "db_events d"
        and f = "\<lambda>r. r\<lparr>ex_state := RUNNING, ex_lastSequence := seqn\<rparr>"])
    assume "execution_checks (row\<lparr>ex_state := RUNNING, ex_lastSequence := seqn\<rparr>)"
    then show "row_ok env d (row\<lparr>ex_state := RUNNING, ex_lastSequence := seqn\<rparr>)"
      using row_okD [OF ok] row(2) by (intro row_ok_of_update [OF ok]) (auto simp: leased_def deadline_def)
  qed (use ev upd seqn in \<open>auto simp: fields_ok_def\<close>)
  then show ?thesis by blast
qed

lemma safeConsole_clean: "list_all (\<lambda>u. \<not> control_unit u) (safeConsole env s)"
  by (simp add: safeConsole_def list_all_iff)

lemma safeConsole_bytes: "env_ok env \<Longrightarrow> byteLength (safeConsole env s) \<le> byteLength s"
  using byteLength_filter [of _ "strip_vt env s"] by (auto simp: safeConsole_def env_ok_def intro: order_trans)

lemma console_good:
  assumes inv: "db_inv env d" and env: "env_ok env" and op: "console env ck l c strm s d = Inr (res, d')"
  shows "good_step env d d'"
proof (cases "d' = d")
  case True
  with inv show ?thesis by (simp add: good_step_refl)
next
  case False
  with op obtain row where row: "locked d (le_executionId l) = Some row" "valid (ck_db ck) row l"
    and pub: "ex_mode row = RUN" "c \<in> set (public_case_ids d (ex_problemVersionId row))" "is_uuid env c"
      "byteLength s \<le> 4096" "ex_cancellationRequestedAt row = None"
    by (auto simp: console_def split: option.splits if_splits)
  with op obtain seqn d1 where
    ev: "event env ck row (ConsoleOutput c strm (safeConsole env s)) d = Inr (seqn, d1)"
    and upd: "update_execution ck (ex_id row) (\<lambda>r. r\<lparr>ex_lastSequence := seqn\<rparr>) d1 = Inr d'"
    by (auto simp: console_def result_simps)
  note found = conjunct1 [OF locked_row [OF row(1)]]
  note ok = db_inv_row [OF inv found] and act = valid_active [OF row(2)]
  have seqn: "seqn = ex_lastSequence row + 1" using ev by (simp add: event_Inr)
  have flds: "fields_ok env d row (ConsoleOutput c strm (safeConsole env s))"
    using pub safeConsole_bytes [OF env, of s] safeConsole_clean [of env s]
    by (auto simp: fields_ok_def list_all_iff)
  have "good_step env d d' \<and> find_execution d' (ex_id row) = Some (row\<lparr>ex_lastSequence := seqn\<rparr>) \<and>
      db_outbox d' = db_outbox d"
  proof (rule event_notify_update [OF inv found, where row = row and es = "db_events d"
        and f = "\<lambda>r. r\<lparr>ex_lastSequence := seqn\<rparr>"])
    assume "execution_checks (row\<lparr>ex_lastSequence := seqn\<rparr>)"
    then show "row_ok env d (row\<lparr>ex_lastSequence := seqn\<rparr>)"
      using row_okD [OF ok] act by (intro row_ok_of_update [OF ok]) (auto simp: leased_def deadline_def)
  qed (use ev upd seqn flds act in auto)
  then show ?thesis by blast
qed

lemma public_output_in:
  assumes "\<not> private_output d row cs" and "distinct (public_case_ids d (ex_problemVersionId row))"
  shows "ex_mode row = RUN" and "\<And>c. c \<in> set cs \<Longrightarrow> cr_caseId c \<in> set (public_case_ids d (ex_problemVersionId row))"
proof -
  let ?ids = "map cr_caseId cs" and ?pub = "public_case_ids d (ex_problemVersionId row)"
  from assms(1) have run: "ex_mode row = RUN" and d: "distinct ?ids"
    and len: "length (filter (\<lambda>c. c \<in> set ?ids) ?pub) = length ?ids"
    by (auto simp: private_output_def Let_def)
  show "ex_mode row = RUN" by (rule run)
  have "card (set ?ids \<inter> set ?pub) = card (set ?ids)"
    using len assms(2) distinct_card [OF d] distinct_card [OF distinct_filter [OF assms(2), of "\<lambda>c. c \<in> set ?ids"]]
    by (simp add: Int_def conj_commute)
  then have "set ?ids \<subseteq> set ?pub" by (metis List.finite_set card_subset_eq inf.cobounded1 inf.orderI)
  then show "cr_caseId c \<in> set ?pub" if "c \<in> set cs" for c using that by auto
qed

lemma distinct_public_ids: "db_inv env d \<Longrightarrow> distinct (public_case_ids d v)"
  by (simp add: db_inv_def catalog_inv_def public_case_ids_def distinct_map_filter)

lemma safe_case_clean: "clean_streams (safe_case env c)"
  using safeConsole_clean
  by (auto simp: clean_streams_def safe_case_def opt_all_def split: option.splits)

lemma safe_case_id: "cr_caseId (safe_case env c) = cr_caseId c"
  by (simp add: safe_case_def)

lemma finish_good:
  assumes inv: "db_inv env d" and op: "finish env ck l result d = Inr (res, d')"
  shows "good_step env d d'"
proof (cases "d' = d")
  case True
  with inv show ?thesis by (simp add: good_step_refl)
next
  case False
  with op obtain row where row: "locked d (le_executionId l) = Some row" "valid (ck_db ck) row l"
    by (auto simp: finish_def split: option.splits if_splits)
  note found = conjunct1 [OF locked_row [OF row(1)]]
  note ok = db_inv_row [OF inv found]
  from op have pre: "resultSchema env result" "\<not> MAX_OUTPUT_BYTES < json_bytes (result_json result)"
    by (auto simp: finish_def split: if_splits)
  show ?thesis
  proof (cases "ex_cancellationRequestedAt row = None")
    case False
    with op row pre have "terminal env ck row CANCELLED None d = Inr d'"
      by (auto simp: finish_def result_simps)
    from terminal_good [OF inv found _ this] show ?thesis by blast
  next
    case no_cancel: True
    from op row pre no_cancel
    have pub: "\<not> private_output d row cs" if "jr_publicCaseResults result = Some cs" for cs
      using that by (auto simp: finish_def split: if_splits)
    from op row pre no_cancel obtain seqn d1 d2 where
      ev: "event env ck row (FinalVerdict FINISHED (jr_verdict result) None) d = Inr (seqn, d1)"
      and nt: "notifyExecution env ck row (jr_verdict result) d1 = Inr d2"
      and upd: "update_execution ck (ex_id row) (finish_row env ck result seqn) d2 = Inr d'"
      by (auto simp: finish_def result_simps split: if_splits)
    have seqn: "seqn = ex_lastSequence row + 1" using ev by (simp add: event_Inr)
    have results: "opt_all (list_all (\<lambda>c. cr_caseId c \<in> set (public_case_ids d (ex_problemVersionId row)) \<and> clean_streams c))
        (ex_publicResults (finish_row env ck result seqn row))"
    proof (cases "jr_publicCaseResults result")
      case None
      with row_okD(5) [OF ok] show ?thesis by (simp add: finish_row_def)
    next
      case (Some cs)
      from public_output_in [OF pub [OF Some] distinct_public_ids [OF inv]] Some show ?thesis
        by (auto simp: finish_row_def list_all_iff safe_case_clean safe_case_id)
    qed
    have "good_step env d d' \<and> find_execution d' (ex_id row) = Some (finish_row env ck result seqn row) \<and>
        db_outbox d' = db_outbox d"
    proof (rule event_notify_update [OF inv found, where row = row and es = "db_events d"
          and f = "finish_row env ck result seqn"])
      show "d2 = d1\<lparr>db_notifications := db_notifications d2\<rparr>" by (rule notifyExecution_Inr [OF nt])
      assume "execution_checks (finish_row env ck result seqn row)"
      then show "row_ok env d (finish_row env ck result seqn row)"
        using row_okD [OF ok] results by (intro row_ok_of_update [OF ok]) (auto simp: finish_row_def)
    qed (use ev upd seqn no_cancel in \<open>auto simp: fields_ok_def finish_row_def\<close>)
    then show ?thesis by blast
  qed
qed

lemma fail_good:
  assumes inv: "db_inv env d" and op: "fail env ck l cleanup d = Inr (res, d')"
  shows "good_step env d d'"
proof (cases "d' = d")
  case True
  with inv show ?thesis by (simp add: good_step_refl)
next
  case False
  with op obtain row st fc where row: "locked d (le_executionId l) = Some row"
    and t: "st \<in> {CANCELLED, INTERNAL_ERROR}" "terminal env ck row st fc d = Inr d'"
    by (auto simp: fail_def result_simps Let_def split: option.splits if_splits)
  from terminal_good [OF inv conjunct1 [OF locked_row [OF row]] t] show ?thesis by blast
qed

lemma cancel_good:
  assumes inv: "db_inv env d" and op: "cancel env ck u i allowed d = Inr (res, d')"
  shows "good_step env d d'"
proof (cases "d' = d")
  case True
  with inv show ?thesis by (simp add: good_step_refl)
next
  case False
  with op obtain row where row: "locked d i = Some row" "ex_userId row = u" "\<not> isTerminal (ex_state row)"
    by (auto simp: cancel_def split: option.splits if_splits)
  have i: "ex_id row = i" using locked_row [OF row(1)] by simp
  note found = conjunct1 [OF locked_row [OF row(1)]]
  note ok = db_inv_row [OF inv found]
  show ?thesis
  proof (cases "ex_state row = QUEUED")
    case True
    with op row obtain d1 where t: "terminal env ck row CANCELLED None d = Inr d1"
      and ox: "create_outbox ck (i, EXECUTION_CANCELLED, 0) d1 = Inr d'"
      by (auto simp: cancel_def result_simps)
    from terminal_good [OF inv found _ t] i have g: "good_step env d d1"
      "\<exists>r. find_execution d1 i = Some r \<and> isTerminal (ex_state r)"
      by (auto simp: terminal_row_def)
    from g(1) have "db_inv env d1" by (simp add: good_step_def)
    from create_outbox_good [OF this ox] g(2) have "good_step env d1 d'" by simp
    with g(1) show ?thesis by (rule good_step_trans)
  next
    case active: False
    with op row False obtain seqn d1 where none: "ex_cancellationRequestedAt row = None"
      and ev: "event env ck row (ExecutionStatus (ex_state row) (Some True)) d = Inr (seqn, d1)"
      and upd: "update_execution ck i (\<lambda>r. r\<lparr>ex_cancellationRequestedAt := Some (ck_db ck), ex_lastSequence := seqn\<rparr>) d1 = Inr d'"
      by (auto simp: cancel_def result_simps Let_def split: if_splits)
    have seqn: "seqn = ex_lastSequence row + 1" using ev by (simp add: event_Inr)
    have act: "ex_state row \<in> {COMPILING, RUNNING}" using active row(3) by (cases "ex_state row") auto
    have "good_step env d d' \<and> find_execution d' (ex_id row) =
        Some (row\<lparr>ex_cancellationRequestedAt := Some (ck_db ck), ex_lastSequence := seqn\<rparr>) \<and>
        db_outbox d' = db_outbox d"
    proof (rule event_notify_update [OF inv found, where row = row and es = "db_events d"
          and f = "\<lambda>r. r\<lparr>ex_cancellationRequestedAt := Some (ck_db ck), ex_lastSequence := seqn\<rparr>"])
      assume "execution_checks (row\<lparr>ex_cancellationRequestedAt := Some (ck_db ck), ex_lastSequence := seqn\<rparr>)"
      then show "row_ok env d (row\<lparr>ex_cancellationRequestedAt := Some (ck_db ck), ex_lastSequence := seqn\<rparr>)"
        using row_okD [OF ok] act by (intro row_ok_of_update [OF ok]) (auto simp: leased_def deadline_def)
    qed (use ev upd seqn none i in \<open>auto simp: fields_ok_def\<close>)
    then show ?thesis by blast
  qed
qed

section \<open>Maintenance\<close>

lemma maintain_row_good:
  assumes inv: "db_inv env d" and row: "find_execution d (ex_id row) = Some row"
    and op: "maintain_row env ck row d = Inr d'"
  shows "good_step env d d' \<and> (\<forall>j. j \<noteq> ex_id row \<longrightarrow> find_execution d' j = find_execution d j)"
proof (cases "ex_cancellationRequestedAt row \<noteq> None \<or> MAX_ATTEMPTS \<le> ex_attempt row \<or> deadline row \<le> ck_db ck")
  case True
  then obtain fc where t: "terminal env ck row INTERNAL_ERROR fc d = Inr d'"
    using op unfolding maintain_row_def by (simp only: if_True)
  have "find_execution d' j = find_execution d j" if "j \<noteq> ex_id row" for j
    by (rule terminal_other [OF t that])
  with terminal_good [OF inv row _ t] show ?thesis by blast
next
  case False
  then have up: "upsert_outbox ck (ex_id row, EXECUTION_RECOVERY, ex_attempt row) (\<lambda>x. x) d = Inr d'"
    using op by (simp add: maintain_row_def)
  then have "db_executions d' = db_executions d"
    by (auto simp: upsert_outbox_def create_outbox_def put_outbox_def result_simps split: option.splits if_splits)
  with upsert_outbox_good [OF inv up] show ?thesis by (simp add: find_execution_def)
qed

text \<open>
  The batch of a maintenance pass: distinct rows, each still as selected when its turn comes, since
  the turns before it wrote other executions.
\<close>

lemma batch_good:
  assumes turn: "\<And>d row d'. db_inv env d \<Longrightarrow> find_execution d (ex_id row) = Some row \<Longrightarrow> P row \<Longrightarrow>
      f row d = Inr d' \<Longrightarrow> good_step env d d' \<and> (\<forall>j. j \<noteq> ex_id row \<longrightarrow> find_execution d' j = find_execution d j)"
    and "db_inv env d" and "distinct (map ex_id rows)"
    and "\<forall>r \<in> set rows. find_execution d (ex_id r) = Some r \<and> P r"
    and "fold_result f rows d = Inr d'"
  shows "good_step env d d'"
  using assms(2-)
proof (induction rows arbitrary: d)
  case Nil
  then show ?case by (simp add: good_step_refl)
next
  case (Cons r rows)
  then obtain d1 where d1: "f r d = Inr d1" "fold_result f rows d1 = Inr d'"
    by (auto simp: result_simps)
  have "find_execution d (ex_id r) = Some r" "P r" using Cons.prems(3) by simp_all
  from turn [OF Cons.prems(1) this d1(1)] have g: "good_step env d d1"
    and other: "\<And>j. j \<noteq> ex_id r \<Longrightarrow> find_execution d1 j = find_execution d j" by auto
  have "good_step env d1 d'"
  proof (rule Cons.IH [OF _ _ _ d1(2)])
    show "\<forall>x \<in> set rows. find_execution d1 (ex_id x) = Some x \<and> P x"
      using Cons.prems(2,3) other by (auto simp: image_iff)
  qed (use g Cons.prems(2) in \<open>simp_all add: good_step_def\<close>)
  with g show ?case by (rule good_step_trans)
qed

lemma maintain_rows_selected:
  assumes "db_inv env d"
  shows "distinct (map ex_id (maintain_rows sc ck d))"
    and "r \<in> set (maintain_rows sc ck d) \<Longrightarrow>
       find_execution d (ex_id r) = Some r \<and> maintain_due ck r \<and> \<not> sc_locked sc (ex_id r)"
proof -
  have d: "distinct (map ex_id (db_executions d))" using assms by (simp add: db_inv_def executions_inv_def)
  let ?F = "filter (\<lambda>r. maintain_due ck r \<and> \<not> sc_locked sc (ex_id r)) (db_executions d)"
  have "distinct (map ex_id (sort_key (nulls_last \<circ> ex_leaseExpiresAt) ?F))"
    unfolding distinct_map_sort_key by (rule distinct_map_filter [OF d])
  then show "distinct (map ex_id (maintain_rows sc ck d))"
    unfolding maintain_rows_def take_map [symmetric] by (rule distinct_take)
  assume "r \<in> set (maintain_rows sc ck d)"
  then have "r \<in> set ?F" by (auto simp: maintain_rows_def dest: in_set_takeD)
  then show "find_execution d (ex_id r) = Some r \<and> maintain_due ck r \<and> \<not> sc_locked sc (ex_id r)"
    using find_execution_in [OF d] by auto
qed

lemma reoffer_outbox_good: "db_inv env d \<Longrightarrow> good_step env d (reoffer_outbox sc ck d)"
  unfolding reoffer_outbox_def Let_def
  by (rule outbox_good) (auto simp: db_inv_def ox_key_def intro!: outbox_inv_map)

lemma purge_events_good: "db_inv env d \<Longrightarrow> good_step env d (purge_events sc ck d)"
  unfolding purge_events_def Let_def by (rule filter_events_good)

lemma maintain_good:
  assumes inv: "db_inv env d" and op: "maintain env sc ck d = Inr d'"
  shows "good_step env d d'"
proof -
  from op obtain d1 where d1: "fold_result (maintain_row env ck) (maintain_rows sc ck d) d = Inr d1"
    and d': "d' = purge_events sc ck (reoffer_outbox sc ck d1)"
    by (auto simp: maintain_def result_simps)
  have g1: "good_step env d d1"
    by (rule batch_good [OF maintain_row_good inv _ _ d1, where P = "\<lambda>_. True"])
      (use maintain_rows_selected [OF inv] in auto)
  then have g2: "good_step env d1 (reoffer_outbox sc ck d1)"
    by (intro reoffer_outbox_good) (simp add: good_step_def)
  then have "good_step env (reoffer_outbox sc ck d1) d'"
    unfolding d' by (intro purge_events_good) (simp add: good_step_def)
  with g1 g2 show ?thesis by (blast intro: good_step_trans)
qed

end
