(* ===== verification/JobProgress.thy ===== *)
theory JobProgress
  imports JobSafety
begin

text \<open>
  The operations of the job store never run into the database's trigger, checks or unique keys:
  from a database with the invariant each commits, or refuses with one of its own errors.
\<close>

section \<open>When a row can be updated\<close>

lemma update_succeeds:
  assumes "find_execution d i = Some old" and "protect_execution_lifecycle (ck_trigger ck) old (f old) = None"
    and "execution_checks (f old)"
  shows "update_execution ck i f d = Inr (put_execution i f d)"
  using assms by (simp add: update_execution_def)

text \<open>The next sequence number of a row is not taken and fits the column.\<close>

definition sequence_left :: "execution \<Rightarrow> bool" where
  "sequence_left r \<longleftrightarrow> int4 (ex_lastSequence r + 1)"

definition notification_fresh :: "env \<Rightarrow> db \<Rightarrow> uuid \<Rightarrow> bool" where
  "notification_fresh env d i \<longleftrightarrow> notification_id env i \<notin> nt_id ` set (db_notifications d)"

lemma next_event_fresh:
  assumes "db_inv env d" and "find_execution d (ex_id row) = Some row"
  shows "(ex_id row, ex_attempt row, ex_lastSequence row + 1) \<notin> ev_key ` set (db_events d)"
proof
  assume "(ex_id row, ex_attempt row, ex_lastSequence row + 1) \<in> ev_key ` set (db_events d)"
  then obtain e where e: "e \<in> set (db_events d)" "ev_executionId e = ex_id row"
    "ev_sequence e = ex_lastSequence row + 1" by (auto simp: ev_key_def)
  from assms(1) have "events_inv env d" by (simp add: db_inv_def)
  from events_inv_row [OF this assms(2) e(1,2)] e(3) show False by (simp add: event_ok_def)
qed

lemma row_event_succeeds:
  assumes inv: "db_inv env d" and env: "env_ok env" and row: "find_execution d (ex_id row) = Some row"
    and flds: "fields_ok env d row flds" and left: "sequence_left row"
  shows "event env ck row flds d =
     Inr (ex_lastSequence row + 1,
          d\<lparr>db_events := retained_events (ex_id row) (db_events d @ [new_event ck row flds])\<rparr>)"
proof (rule event_succeeds [OF env _ flds])
  note ok = row_okD [OF db_inv_row [OF inv row]]
  show "is_uuid env (ex_id row)" "0 \<le> ex_attempt row" by (rule ok)+
  show "int4 (ex_attempt row)" "0 \<le> ex_lastSequence row" using ok(3) by (simp_all add: execution_checks_def)
  show "int4 (ex_lastSequence row + 1)" using left by (simp add: sequence_left_def)
  show "ex_id row \<in> ex_id ` set (db_executions d)" using find_execution_Some [OF row] by auto
qed (rule next_event_fresh [OF inv row])

section \<open>Notifications\<close>

lemma length_verdict_words: "length (verdict_words v) \<le> 21"
  using name_lengths(2) [of v] by (simp add: verdict_words_def)

lemma insert_result_notification:
  assumes "env_ok env" and "is_uuid env (ex_id e)" and "length (vn_title v) \<le> 400"
    and slug: "length (pr_slug p) \<le> 400 \<and> list_all href_char (pr_slug p)"
    and fresh: "notification_fresh env d (ex_id e)" and user: "ex_userId e \<in> us_id ` set (db_users d)"
  shows "\<exists>d'. insert_notification (result_notification env ck e v p verdict) d = Inr d'"
proof -
  let ?n = "result_notification env ck e v p verdict"
  have "length (nt_body ?n) \<le> 500"
    using assms(3) length_verdict_words [of verdict] by (simp add: result_notification_def js_def)
  then have "\<not> 500 < length (code_points (nt_body ?n))"
    using length_code_points [of "nt_body ?n"] by linarith
  moreover have "\<not> 160 < length (code_points (nt_title ?n))"
    using length_code_points [of "nt_title ?n"] by (simp add: result_notification_def js_def)
  moreover have "opt_all (\<lambda>h. length h \<le> 500) (nt_href ?n)" "opt_all (\<lambda>h. length h \<le> 200) (nt_dedupeKey ?n)"
    using assms(1,2) slug by (auto simp: result_notification_def result_dedupeKey_def env_ok_def)
  moreover have "opt_all href_path (nt_href ?n)"
    using slug by (simp add: result_notification_def href_path_def list_all_append href_char_def
        alnum_char_def lower_char_def upper_char_def digit_char_def)
  moreover have "nt_userId ?n \<in> us_id ` set (db_users d)"
    using user by (simp add: result_notification_def)
  ultimately show ?thesis
    using fresh
    by (auto simp: insert_notification_def insert_by_def result_notification_def notification_fresh_def)
qed

lemma notifyExecution_succeeds:
  assumes inv: "db_inv env d" and env: "env_ok env" and row: "find_execution d (ex_id row) = Some row"
    and fresh: "notification_fresh env d (ex_id row)"
    and d1: "db_executions d1 = db_executions d" "keeps d d1" "db_notifications d1 = db_notifications d"
  shows "\<exists>d2. notifyExecution env ck row v d1 = Inr d2 \<and> db_executions d2 = db_executions d"
proof -
  have cat: "length (vn_title w) \<le> 400" if "find_version d1 i = Some w" for i w
    using that inv d1(2) find_by_Some [of vn_id i "db_versions d1" w]
    by (auto simp: find_version_def db_inv_def catalog_inv_def keeps_def)
  have slug: "length (pr_slug p) \<le> 400 \<and> list_all href_char (pr_slug p)" if "find_problem d1 i = Some p" for i p
    using that inv d1(2) find_by_Some [of pr_id i "db_problems d1" p]
    by (auto simp: find_problem_def db_inv_def catalog_inv_def keeps_def)
  have uuid: "is_uuid env (ex_id row)" by (rule row_okD [OF db_inv_row [OF inv row]])
  have found: "find_execution d1 (ex_id row) = Some row" using row d1(1) by (simp add: find_execution_def)
  have fresh': "notification_fresh env d1 (ex_id row)" using fresh d1(3) by (simp add: notification_fresh_def)
  have inserted: "\<exists>d2. insert_notification (result_notification env ck row w p verdict) d1 = Inr d2"
    if "find_user d1 (ex_userId row) = Some u" "find_version d1 i = Some w" "find_problem d1 j = Some p" for u i w j p verdict
    using that find_by_Some [of us_id "ex_userId row" "db_users d1" u]
    by (intro insert_result_notification [OF env uuid _ _ fresh']) (auto simp: find_user_def cat slug image_iff intro!: bexI [of _ u])
  have ex: "\<exists>d2. notifyExecution env ck row v d1 = Inr d2"
    using inserted
    by (auto simp: notifyExecution_def create_execution_result_notification_def found split: option.splits)
  then obtain d2 where d2: "notifyExecution env ck row v d1 = Inr d2" ..
  have "db_executions d2 = db_executions d1" by (subst notifyExecution_Inr [OF d2]) simp
  with d2 d1(1) show ?thesis by auto
qed

section \<open>Terminal transitions\<close>

definition failure_fits :: "execution \<Rightarrow> state \<Rightarrow> failure_code option \<Rightarrow> bool" where
  "failure_fits row st fc \<longleftrightarrow>
     (st = CANCELLED \<and> fc = None) \<or>
     (st = INTERNAL_ERROR \<and> (fc = Some QUEUE_TIMEOUT \<longrightarrow> ex_state row = QUEUED))"

lemma terminal_row_protect:
  assumes "\<not> isTerminal (ex_state row)" and "failure_fits row st fc"
  shows "protect_execution_lifecycle now row (terminal_row ck st fc (ex_lastSequence row + 1) row) = None"
  using assms
  by (cases "ex_state row")
    (auto simp: protect_None_iff terminal_row_def failure_fits_def trigger_transition_def canTransition_def request_of_def)

lemma terminal_row_checks:
  assumes "execution_checks row" and "sequence_left row" and "failure_fits row st fc"
  shows "execution_checks (terminal_row ck st fc (ex_lastSequence row + 1) row)"
proof -
  let ?r = "terminal_row ck st fc (ex_lastSequence row + 1) row"
  have "valid_execution_terminal_fields ?r"
    using assms(3) by (auto simp: valid_execution_terminal_fields_def terminal_row_def failure_fits_def)
  moreover have "valid_execution_lease_pair ?r"
    by (simp add: valid_execution_lease_pair_def terminal_row_def)
  ultimately show ?thesis
    using assms(1,2) by (simp add: execution_checks_def sequence_left_def) (simp add: terminal_row_def)
qed

lemma terminal_succeeds:
  assumes inv: "db_inv env d" and env: "env_ok env" and row: "find_execution d (ex_id row) = Some row"
    and live: "\<not> isTerminal (ex_state row)" and fc: "failure_fits row st fc"
    and left: "sequence_left row" and fresh: "notification_fresh env d (ex_id row)"
  shows "\<exists>d'. terminal env ck row st fc d = Inr d'"
proof -
  let ?d1 = "d\<lparr>db_events := retained_events (ex_id row) (db_events d @ [new_event ck row (FinalVerdict st (terminal_verdict st) fc)])\<rparr>"
  have ev: "event env ck row (FinalVerdict st (terminal_verdict st) fc) d = Inr (ex_lastSequence row + 1, ?d1)"
    by (rule row_event_succeeds [OF inv env row _ left]) (simp add: fields_ok_def)
  obtain d2 where nt: "notifyExecution env ck row (terminal_verdict st) ?d1 = Inr d2"
    and d2: "db_executions d2 = db_executions d"
    using notifyExecution_succeeds [OF inv env row fresh, of ?d1] by (auto simp: keeps_def)
  have found: "find_execution d2 (ex_id row) = Some row" using row d2 by (simp add: find_execution_def)
  have "execution_checks row" by (rule row_okD [OF db_inv_row [OF inv row]])
  from update_succeeds [of d2 "ex_id row" row ck "terminal_row ck st fc (ex_lastSequence row + 1)",
      OF found terminal_row_protect [OF live fc] terminal_row_checks [OF this left fc]]
  show ?thesis using ev nt by (simp add: terminal_def)
qed

section \<open>Each operation commits\<close>

text \<open>
  What the progress of an operation on execution \<open>i\<close> rests on: the invariant, the documented
  behaviour of the parameters, a database clock that does not run backwards within a transaction, a
  sequence number and a notification identifier that are still free.
\<close>

definition ready :: "env \<Rightarrow> clock \<Rightarrow> db \<Rightarrow> uuid \<Rightarrow> bool" where
  "ready env ck d i \<longleftrightarrow>
     db_inv env d \<and> env_ok env \<and> clock_ok ck \<and> notification_fresh env d i \<and>
     (case find_execution d i of None \<Rightarrow> True | Some row \<Rightarrow> sequence_left row)"

lemma readyD:
  assumes "ready env ck d i" and "find_execution d i = Some row"
  shows "db_inv env d" "env_ok env" "ck_db ck \<le> ck_trigger ck" "notification_fresh env d (ex_id row)"
    "sequence_left row" "find_execution d (ex_id row) = Some row" "ex_id row = i"
    "row_ok env d row" "execution_checks row"
proof -
  have i: "ex_id row = i" using find_execution_Some [OF assms(2)] by simp
  show inv: "db_inv env d" and "env_ok env" "ck_db ck \<le> ck_trigger ck" "notification_fresh env d (ex_id row)"
    "sequence_left row" "find_execution d (ex_id row) = Some row" "ex_id row = i"
    using assms i by (simp_all add: ready_def clock_ok_def)
  show "row_ok env d row" by (rule db_inv_row [OF inv assms(2)])
  then show "execution_checks row" by (rule row_okD)
qed

lemma terminal_commits:
  assumes "ready env ck d i" and "find_execution d i = Some row" and "\<not> isTerminal (ex_state row)"
    and "failure_fits row st fc"
  shows "\<exists>d'. terminal env ck row st fc d = Inr d'"
  by (rule terminal_succeeds [OF readyD(1,2,6) [OF assms(1,2)] assms(3,4) readyD(5,4) [OF assms(1,2)]])

text \<open>An update that keeps the state or moves along the graph, keeps attempt, lease and verdict fields.\<close>

lemma event_update_commits:
  assumes rdy: "ready env ck d i" and row: "find_execution d i = Some row"
    and flds: "fields_ok env d row flds"
    and prot: "protect_execution_lifecycle (ck_trigger ck) row (f (ex_lastSequence row + 1) row) = None"
    and checks: "execution_checks (f (ex_lastSequence row + 1) row)"
  shows "\<exists>seqn d1 d'. event env ck row flds d = Inr (seqn, d1) \<and> update_execution ck i (f seqn) d1 = Inr d'"
proof -
  note r = readyD [OF rdy row]
  let ?d1 = "d\<lparr>db_events := retained_events (ex_id row) (db_events d @ [new_event ck row flds])\<rparr>"
  have ev: "event env ck row flds d = Inr (ex_lastSequence row + 1, ?d1)"
    by (rule row_event_succeeds [OF r(1,2,6) flds r(5)])
  have "find_execution ?d1 i = Some row" using row by (simp add: find_execution_def)
  from update_succeeds [of ?d1 i row ck "f (ex_lastSequence row + 1)", OF this prot checks] ev
  show ?thesis by blast
qed

lemma active_fields:
  assumes "execution_checks row" and "ex_state row \<in> {COMPILING, RUNNING}"
  shows "ex_verdict row = None" "ex_finishedAt row = None" "ex_failureCode row = None"
  using assms by (auto simp: execution_checks_def valid_execution_terminal_fields_def)

lemma lease_update_commits:
  assumes rdy: "ready env ck d i" and row: "find_execution d i = Some row"
    and act: "ex_state row \<in> {COMPILING, RUNNING}"
  shows "\<exists>d'. update_execution ck i (\<lambda>r. r\<lparr>ex_leaseExpiresAt := Some t\<rparr>) d = Inr d'"
proof -
  note r = readyD [OF rdy row]
  have "ex_leaseToken row \<noteq> None" using row_okD(6) [OF r(8) act] by (simp add: leased_def)
  then have "valid_execution_lease_pair (row\<lparr>ex_leaseExpiresAt := Some t\<rparr>)"
    using act by (simp add: valid_execution_lease_pair_def)
  then have "execution_checks (row\<lparr>ex_leaseExpiresAt := Some t\<rparr>)"
    using r(9) by (simp add: execution_checks_def valid_execution_terminal_fields_def)
  moreover have "protect_execution_lifecycle (ck_trigger ck) row (row\<lparr>ex_leaseExpiresAt := Some t\<rparr>) = None"
    using act active_fields(3) [OF r(9) act] by (auto simp: protect_None_iff)
  ultimately show ?thesis using update_succeeds [OF row] by blast
qed

lemma renew_commits:
  assumes "ready env ck d (le_executionId l)"
  shows "\<exists>x d'. renew ck l d = Inr (x, d')"
proof (cases "locked d (le_executionId l)")
  case (Some row)
  then have row: "find_execution d (le_executionId l) = Some row" by (simp add: locked_def)
  show ?thesis
    using lease_update_commits [OF assms row, of "renewal_end ck row"] valid_active [of "ck_db ck" row l]
      readyD(7) [OF assms row] Some
    by (auto simp: renew_def)
qed (simp add: renew_def)

lemma markRunning_commits:
  assumes "ready env ck d (le_executionId l)"
  shows "\<exists>x d'. markRunning env ck l d = Inr (x, d')"
proof (cases "locked d (le_executionId l)")
  case (Some row)
  then have row: "find_execution d (le_executionId l) = Some row" by (simp add: locked_def)
  note r = readyD [OF assms row]
  show ?thesis
  proof (cases "valid (ck_db ck) row l \<and> ex_cancellationRequestedAt row = None \<and> ex_state row = COMPILING")
    case True
    let ?f = "\<lambda>n r. r\<lparr>ex_state := RUNNING, ex_lastSequence := n\<rparr>"
    have "execution_checks (?f (ex_lastSequence row + 1) row)"
      using r(9,5) True
      by (auto simp: execution_checks_def sequence_left_def valid_execution_terminal_fields_def valid_execution_lease_pair_def)
    moreover have "protect_execution_lifecycle (ck_trigger ck) row (?f (ex_lastSequence row + 1) row) = None"
      using True active_fields(3) [OF r(9)] by (auto simp: protect_None_iff trigger_transition_def canTransition_def)
    ultimately obtain n d1 d' where "event env ck row (ExecutionStatus RUNNING None) d = Inr (n, d1)"
      "update_execution ck (le_executionId l) (?f n) d1 = Inr d'"
      using event_update_commits [OF assms row, of "ExecutionStatus RUNNING None" ?f] by (auto simp: fields_ok_def)
    with True Some r(7) show ?thesis by (auto simp: markRunning_def)
  qed (use Some in \<open>auto simp: markRunning_def\<close>)
qed (auto simp: markRunning_def)

lemma sequence_update_ok:
  assumes "execution_checks row" and "sequence_left row" and "ex_state row \<in> {COMPILING, RUNNING}"
  shows "execution_checks (row\<lparr>ex_lastSequence := ex_lastSequence row + 1\<rparr>)"
    and "protect_execution_lifecycle now row (row\<lparr>ex_lastSequence := ex_lastSequence row + 1\<rparr>) = None"
    and "execution_checks (row\<lparr>ex_cancellationRequestedAt := t, ex_lastSequence := ex_lastSequence row + 1\<rparr>)"
    and "ex_cancellationRequestedAt row = None \<Longrightarrow> protect_execution_lifecycle now row
           (row\<lparr>ex_cancellationRequestedAt := t, ex_lastSequence := ex_lastSequence row + 1\<rparr>) = None"
proof -
  note act = active_fields [OF assms(1,3)]
  show "execution_checks (row\<lparr>ex_lastSequence := ex_lastSequence row + 1\<rparr>)"
    "execution_checks (row\<lparr>ex_cancellationRequestedAt := t, ex_lastSequence := ex_lastSequence row + 1\<rparr>)"
    using assms(1,2)
    by (simp_all add: execution_checks_def sequence_left_def valid_execution_terminal_fields_def valid_execution_lease_pair_def)
  show "protect_execution_lifecycle now row (row\<lparr>ex_lastSequence := ex_lastSequence row + 1\<rparr>) = None"
    "ex_cancellationRequestedAt row = None \<Longrightarrow> protect_execution_lifecycle now row
       (row\<lparr>ex_cancellationRequestedAt := t, ex_lastSequence := ex_lastSequence row + 1\<rparr>) = None"
    using assms(3) act(3) by (auto simp: protect_None_iff)
qed

lemma console_commits:
  assumes rdy: "ready env ck d (le_executionId l)"
    and "console env ck l c strm s d = Inl e"
  shows "e = PlainError ''INVALID_PUBLIC_OUTPUT'' \<or> e = PlainError ''PRIVATE_OUTPUT_REJECTED''"
proof (cases "locked d (le_executionId l)")
  case (Some row)
  then have row: "find_execution d (le_executionId l) = Some row" by (simp add: locked_def)
  note r = readyD [OF rdy row]
  show ?thesis
  proof (cases "is_uuid env c \<and> byteLength s \<le> 4096 \<and> valid (ck_db ck) row l \<and>
      ex_cancellationRequestedAt row = None \<and> ex_mode row = RUN \<and>
      c \<in> set (public_case_ids d (ex_problemVersionId row))")
    case True
    then have act: "ex_state row \<in> {COMPILING, RUNNING}" using valid_active by blast
    have "fields_ok env d row (ConsoleOutput c strm (safeConsole env s))"
      using True safeConsole_bytes [OF r(2), of s] safeConsole_clean [of env s]
      by (auto simp: fields_ok_def list_all_iff)
    from event_update_commits [where f = "\<lambda>n r. r\<lparr>ex_lastSequence := n\<rparr>", OF rdy row this
        sequence_update_ok(2,1) [OF r(9,5) act]]
    obtain n d1 d' where "event env ck row (ConsoleOutput c strm (safeConsole env s)) d = Inr (n, d1)"
      "update_execution ck (le_executionId l) (\<lambda>r. r\<lparr>ex_lastSequence := n\<rparr>) d1 = Inr d'" by blast
    with True Some r(7) assms(2) show ?thesis by (simp add: console_def not_less [symmetric])
  qed (use Some assms(2) in \<open>auto simp: console_def split: if_splits\<close>)
qed (use assms(2) in \<open>auto simp: console_def split: if_splits\<close>)

lemma finish_row_checks:
  assumes "execution_checks row" and "sequence_left row" and "worker_verdict (jr_verdict result)"
    and "opt_all (\<lambda>n. 0 \<le> n \<and> int4 n) (jr_runtimeMs result)"
    and "opt_all (\<lambda>n. 0 \<le> n \<and> int4 n) (jr_memoryKiB result)"
    and "jr_publicCaseResults result \<noteq> None \<Longrightarrow> ex_mode row = RUN" and "ex_failureCode row = None"
  shows "execution_checks (finish_row env ck result (ex_lastSequence row + 1) row)"
proof -
  let ?r = "finish_row env ck result (ex_lastSequence row + 1) row"
  have "valid_execution_terminal_fields ?r"
    using assms(3,7) by (simp add: valid_execution_terminal_fields_def finish_row_def worker_verdict_def)
  moreover have "valid_execution_lease_pair ?r"
    by (simp add: valid_execution_lease_pair_def finish_row_def)
  moreover have "ex_mode ?r = RUN \<or> ex_publicResults ?r = None"
    using assms(1,6) by (auto simp: finish_row_def execution_checks_def split: option.splits)
  moreover have "opt_all (\<lambda>n. 0 \<le> n \<and> int4 n) (ex_runtimeMs ?r)" "opt_all (\<lambda>n. 0 \<le> n \<and> int4 n) (ex_memoryKiB ?r)"
    using assms(1,4,5) by (auto simp: finish_row_def execution_checks_def split: option.splits)
  ultimately show ?thesis
    using assms(1,2) by (simp add: execution_checks_def sequence_left_def) (simp add: finish_row_def)
qed

lemma finish_row_protect:
  assumes "ex_state row \<in> {COMPILING, RUNNING}" and "ex_failureCode row = None"
  shows "protect_execution_lifecycle now row (finish_row env ck result (ex_lastSequence row + 1) row) = None"
  using assms
  by (auto simp: protect_None_iff finish_row_def trigger_transition_def canTransition_def request_of_def)

lemma finish_commits:
  assumes rdy: "ready env ck d (le_executionId l)"
    and int4: "opt_all int4 (jr_runtimeMs result)" "opt_all int4 (jr_memoryKiB result)"
    and err: "finish env ck l result d = Inl e"
  shows "e = ZodError \<or> e = PlainError ''PUBLIC_RESULT_TOO_LARGE'' \<or> e = PlainError ''PRIVATE_OUTPUT_REJECTED''"
proof (cases "locked d (le_executionId l)")
  case (Some row)
  then have row: "find_execution d (le_executionId l) = Some row" by (simp add: locked_def)
  note r = readyD [OF rdy row]
  show ?thesis
  proof (cases "resultSchema env result \<and> \<not> MAX_OUTPUT_BYTES < json_bytes (result_json result) \<and> valid (ck_db ck) row l")
    case ok: True
    then have act: "ex_state row \<in> {COMPILING, RUNNING}" using valid_active by blast
    then have live: "\<not> isTerminal (ex_state row)" by auto
    show ?thesis
    proof (cases "ex_cancellationRequestedAt row = None")
      case False
      with terminal_commits [OF rdy row live, of CANCELLED None] ok Some err show ?thesis
        by (auto simp: finish_def failure_fits_def)
    next
      case none: True
      show ?thesis
      proof (cases "case jr_publicCaseResults result of None \<Rightarrow> False | Some cs \<Rightarrow> private_output d row cs")
        case True
        with none ok Some err show ?thesis by (simp add: finish_def)
      next
        case public: False
        let ?flds = "FinalVerdict FINISHED (jr_verdict result) None"
        let ?d1 = "d\<lparr>db_events := retained_events (ex_id row) (db_events d @ [new_event ck row ?flds])\<rparr>"
        have ev: "event env ck row ?flds d = Inr (ex_lastSequence row + 1, ?d1)"
          by (rule row_event_succeeds [OF r(1,2,6) _ r(5)]) (simp add: fields_ok_def)
        obtain d2 where nt: "notifyExecution env ck row (jr_verdict result) ?d1 = Inr d2"
          and d2: "db_executions d2 = db_executions d"
          using notifyExecution_succeeds [OF r(1,2,6,4), of ?d1] by (auto simp: keeps_def)
        have found: "find_execution d2 (ex_id row) = Some row" using r(6) d2 by (simp add: find_execution_def)
        have fc: "ex_failureCode row = None" by (rule active_fields [OF r(9) act])
        have "execution_checks (finish_row env ck result (ex_lastSequence row + 1) row)"
        proof (rule finish_row_checks [OF r(9,5) _ _ _ _ fc])
          show "jr_publicCaseResults result \<noteq> None \<Longrightarrow> ex_mode row = RUN"
            using public by (auto simp: private_output_def Let_def)
        qed (use ok int4 in \<open>auto simp: resultSchema_def opt_all_def split: option.splits\<close>)
        from update_succeeds [of d2 "ex_id row" row ck "finish_row env ck result (ex_lastSequence row + 1)",
            OF found finish_row_protect [OF act fc] this]
        show ?thesis using ev nt ok none public Some err by (simp add: finish_def)
      qed
    qed
  qed (use Some err in \<open>auto simp: finish_def split: if_splits\<close>)
qed (use err in \<open>auto simp: finish_def split: if_splits\<close>)

lemma fail_commits:
  assumes rdy: "ready env ck d (le_executionId l)"
  shows "\<exists>x d'. fail env ck l cleanup d = Inr (x, d')"
proof (cases "locked d (le_executionId l)")
  case (Some row)
  then have row: "find_execution d (le_executionId l) = Some row" by (simp add: locked_def)
  show ?thesis
  proof (cases "valid (ck_db ck) row l")
    case True
    then have "\<not> isTerminal (ex_state row)" by (simp add: valid_def)
    note t = terminal_commits [OF rdy row this]
    from t [of CANCELLED None] t [of INTERNAL_ERROR "Some CANCELLATION_TIMEOUT"] t [of INTERNAL_ERROR "Some JOB_FAILURE"]
    show ?thesis using Some True by (auto simp: fail_def failure_fits_def Let_def)
  qed (use Some in \<open>auto simp: fail_def\<close>)
qed (auto simp: fail_def)

lemma upsert_outbox_succeeds:
  assumes "find_execution d i \<noteq> None"
  shows "\<exists>d'. upsert_outbox ck (i, kd, g) f d = Inr d'"
proof (cases "find_outbox d (i, kd, g)")
  case None
  then have "ox_key (new_outbox ck (i, kd, g)) \<notin> ox_key ` set (db_outbox d)"
    by (simp add: find_outbox_def find_by_None new_outbox_def ox_key_def)
  moreover have "i \<in> ex_id ` set (db_executions d)" using assms by (simp only: find_execution_ids)
  ultimately show ?thesis using None by (auto simp: upsert_outbox_def create_outbox_def insert_by_def)
qed (auto simp: upsert_outbox_def)

lemma recover_commits:
  assumes rdy: "ready env ck d (le_executionId l)"
  shows "\<exists>x d'. recover env ck l d = Inr (x, d')"
proof (cases "locked d (le_executionId l)")
  case (Some row)
  then have row: "find_execution d (le_executionId l) = Some row" by (simp add: locked_def)
  note r = readyD [OF rdy row]
  show ?thesis
  proof (cases "valid (ck_db ck) row l")
    case True
    note act = valid_active [OF True]
    from True have "\<not> isTerminal (ex_state row)" by (simp add: valid_def)
    note t = terminal_commits [OF rdy row this]
    from lease_update_commits [OF rdy row act] obtain d1 where
      d1: "update_execution ck (le_executionId l) (\<lambda>r. r\<lparr>ex_leaseExpiresAt := Some (ck_db ck)\<rparr>) d = Inr d1" by blast
    then have "find_execution d1 (le_executionId l) \<noteq> None"
      using executions.lookup_store [of "\<lambda>r. r\<lparr>ex_leaseExpiresAt := Some (ck_db ck)\<rparr>" "le_executionId l" d "le_executionId l"] row
      by (auto simp: update_execution_Inr)
    from upsert_outbox_succeeds [OF this] obtain d2 where
      "upsert_outbox ck (le_executionId l, EXECUTION_RECOVERY, ex_attempt row)
         (\<lambda>x. x\<lparr>ox_publishedAt := None, ox_dispatchToken := None, ox_dispatchExpiresAt := None,
                ox_nextDispatchAt := ck_db ck\<rparr>) d1 = Inr d2" by blast
    with d1 t [of CANCELLED None] t [of INTERNAL_ERROR "Some JOB_FAILURE"] Some True r(7)
    show ?thesis by (auto simp: recover_def failure_fits_def)
  qed (use Some in \<open>auto simp: recover_def\<close>)
qed (auto simp: recover_def)

lemma claim_row_protect:
  assumes "row_ok env d row" and "\<not> isTerminal (ex_state row)" and "ex_leaseToken row \<noteq> Some token"
    and "ex_state row \<noteq> QUEUED \<Longrightarrow> opt_all (\<lambda>t. t \<le> now) (ex_leaseExpiresAt row)"
    and "ex_cancellationRequestedAt row = None"
  shows "protect_execution_lifecycle now row (claim_row ck token row seqn row) = None"
proof (cases "ex_state row = QUEUED")
  case True
  then have "ex_leaseToken row = None" "ex_failureCode row = None"
    using row_okD(3) [OF assms(1)]
    by (auto simp: execution_checks_def valid_execution_lease_pair_def valid_execution_terminal_fields_def)
  with True show ?thesis
    by (simp add: protect_None_iff claim_row_def request_of_def trigger_transition_def canTransition_def)
next
  case False
  with assms(2) have act: "ex_state row \<in> {COMPILING, RUNNING}" by (cases "ex_state row") auto
  then have "ex_leaseExpiresAt row \<noteq> None" "ex_failureCode row = None"
    using row_okD(3,6) [OF assms(1)]
    by (auto simp: execution_checks_def valid_execution_lease_pair_def leased_def valid_execution_terminal_fields_def)
  with assms(4) [OF False] have "expired_lease now row" by (auto simp: expired_lease_def)
  then have "lease_replaced now row (claim_row ck token row seqn row)"
    using assms(3) by (auto simp: lease_replaced_def claim_row_def)
  with act \<open>ex_failureCode row = None\<close> show ?thesis
    by (auto simp: protect_None_iff trigger_transition_def claim_row_def request_of_def)
qed

lemma claim_row_checks:
  assumes "execution_checks row" and "\<not> isTerminal (ex_state row)" and "ex_attempt row < MAX_ATTEMPTS"
  shows "execution_checks (claim_row ck token row 1 row)"
proof -
  let ?r = "claim_row ck token row 1 row"
  have "valid_execution_terminal_fields ?r"
    using assms(1,2) by (auto simp: execution_checks_def valid_execution_terminal_fields_def claim_row_def)
  moreover have "valid_execution_lease_pair ?r" by (simp add: valid_execution_lease_pair_def claim_row_def)
  ultimately show ?thesis
    using assms(1,3) by (simp add: execution_checks_def) (simp add: claim_row_def MAX_ATTEMPTS_def int4_def)
qed

lemma claim_commits:
  assumes rdy: "ready env ck d i" and token: "\<And>r. find_execution d i = Some r \<Longrightarrow> ex_leaseToken r \<noteq> Some token"
  shows "\<exists>x d'. claim env ck token i d = Inr (x, d')"
proof (cases "find_execution d i")
  case (Some row)
  note r = readyD [OF rdy Some]
  show ?thesis
  proof (cases "isTerminal (ex_state row)")
    case live: False
    note t = terminal_commits [OF rdy Some live]
    let ?row = "row\<lparr>ex_attempt := ex_attempt row + 1, ex_lastSequence := 0, ex_state := COMPILING\<rparr>"
    let ?d1 = "d\<lparr>db_events := filter (\<lambda>e. ev_executionId e \<noteq> i) (db_events d)\<rparr>"
    let ?d2 = "?d1\<lparr>db_events := retained_events (ex_id ?row) (db_events ?d1 @ [new_event ck ?row (ExecutionStatus COMPILING None)])\<rparr>"
    have ev: "event env ck ?row (ExecutionStatus COMPILING None) ?d1 = Inr (1, ?d2)" if "ex_attempt row < MAX_ATTEMPTS"
    proof -
      have "event env ck ?row (ExecutionStatus COMPILING None) ?d1 = Inr (ex_lastSequence ?row + 1, ?d2)"
      proof (rule event_succeeds [OF r(2), where ?d0.0 = d])
        show "ex_id ?row \<in> ex_id ` set (db_executions ?d1)" using find_execution_Some [OF Some] by auto
        show "(ex_id ?row, ex_attempt ?row, ex_lastSequence ?row + 1) \<notin> ev_key ` set (db_events ?d1)"
          using r(7) by (auto simp: ev_key_def)
      qed (use row_okD [OF r(8)] that in \<open>simp_all add: fields_ok_def int4_def MAX_ATTEMPTS_def\<close>)
      then show ?thesis by simp
    qed
    have upd: "\<exists>d3. update_execution ck i (claim_row ck token row 1) ?d2 = Inr d3"
      if "ex_attempt row < MAX_ATTEMPTS" "ex_cancellationRequestedAt row = None"
        "ex_state row \<noteq> QUEUED \<Longrightarrow> opt_all (\<lambda>t. t \<le> ck_db ck) (ex_leaseExpiresAt row)"
    proof -
      have "ex_state row \<noteq> QUEUED \<Longrightarrow> opt_all (\<lambda>t. t \<le> ck_trigger ck) (ex_leaseExpiresAt row)"
        using that(3) r(3) by (auto simp: opt_all_def split: option.splits)
      from claim_row_protect [OF r(8) live token [OF Some] this that(2)] claim_row_checks [OF r(9) live that(1)]
      show ?thesis
        using update_succeeds [of ?d2 i row ck "claim_row ck token row 1"] Some by (auto simp: find_execution_def)
    qed
    show ?thesis
      using Some live ev upd t [of INTERNAL_ERROR "Some QUEUE_TIMEOUT"] t [of INTERNAL_ERROR "Some CANCELLATION_TIMEOUT"]
        t [of INTERNAL_ERROR "Some LEASE_EXPIRED"] t [of INTERNAL_ERROR "Some JOB_TIMEOUT"]
      by (cases "ex_leaseExpiresAt row")
        (auto simp: claim_def locked_def failure_fits_def Let_def not_le not_less split: if_splits)
  qed (use Some in \<open>auto simp: claim_def locked_def\<close>)
qed (auto simp: claim_def locked_def)

lemma cancel_commits:
  assumes rdy: "ready env ck d i" and err: "cancel env ck u i allowed d = Inl e"
  shows "e = NOT_FOUND \<or> e = ApiError 503 ''CANCELLATION_UNAVAILABLE'' None"
proof (cases "find_execution d i")
  case (Some row)
  note r = readyD [OF rdy Some]
  show ?thesis
  proof (cases "ex_userId row \<noteq> u \<or> isTerminal (ex_state row)")
    case own: False
    show ?thesis
    proof (cases "ex_state row = QUEUED")
      case q: True
      then have "\<not> isTerminal (ex_state row)" by simp
      from terminal_commits [OF rdy Some this, of CANCELLED None] obtain d1 where
        d1: "terminal env ck row CANCELLED None d = Inr d1" by (auto simp: failure_fits_def)
      from terminal_good [OF r(1,6) _ d1] have ox: "db_outbox d1 = db_outbox d"
        and found: "find_execution d1 i \<noteq> None" using r(7) by auto
      have "(i, EXECUTION_CANCELLED, 0) \<notin> ox_key ` set (db_outbox d)"
        using r(1) Some q by (fastforce simp: db_inv_def outbox_inv_def ox_key_def)
      then have "\<exists>d2. create_outbox ck (i, EXECUTION_CANCELLED, 0) d1 = Inr d2"
        using found unfolding find_execution_ids
        by (auto simp: create_outbox_def insert_by_def new_outbox_def ox_key_def ox)
      with d1 q own Some err show ?thesis by (auto simp: cancel_def locked_def)
    next
      case nq: False
      then have act: "ex_state row \<in> {COMPILING, RUNNING}" using own by (cases "ex_state row") auto
      have "\<exists>n d1 d'. event env ck row (ExecutionStatus (ex_state row) (Some True)) d = Inr (n, d1) \<and>
          update_execution ck i (\<lambda>r. r\<lparr>ex_cancellationRequestedAt := Some (ck_db ck), ex_lastSequence := n\<rparr>) d1 = Inr d'"
        if "ex_cancellationRequestedAt row = None"
        using event_update_commits [where f = "\<lambda>n r. r\<lparr>ex_cancellationRequestedAt := Some (ck_db ck), ex_lastSequence := n\<rparr>"
            and flds = "ExecutionStatus (ex_state row) (Some True)", OF rdy Some]
          sequence_update_ok(3) [OF r(9,5) act] sequence_update_ok(4) [OF r(9,5) act that]
        by (simp add: fields_ok_def)
      with nq own Some err show ?thesis by (auto simp: cancel_def locked_def Let_def split: if_splits)
    qed
  qed (use Some err in \<open>auto simp: cancel_def locked_def split: if_splits\<close>)
qed (use err in \<open>simp add: cancel_def locked_def\<close>)

section \<open>A maintenance pass commits and ends what is overdue\<close>

lemma notifyExecution_ids:
  assumes "notifyExecution env ck row v d = Inr d'" and "find_execution d (ex_id row) = Some row"
  shows "nt_id ` set (db_notifications d') \<subseteq> insert (notification_id env (ex_id row)) (nt_id ` set (db_notifications d))"
  using assms
  by (auto simp: notifyExecution_def create_execution_result_notification_def insert_notification_def
      result_simps result_notification_def split: option.splits if_splits)

lemma terminal_ids:
  assumes "terminal env ck row st fc d = Inr d'" and "find_execution d (ex_id row) = Some row"
  shows "nt_id ` set (db_notifications d') \<subseteq> insert (notification_id env (ex_id row)) (nt_id ` set (db_notifications d))"
proof -
  from assms(1) obtain n d1 d2
    where ev: "event env ck row (FinalVerdict st (terminal_verdict st) fc) d = Inr (n, d1)"
      and nt: "notifyExecution env ck row (terminal_verdict st) d1 = Inr d2"
      and upd: "update_execution ck (ex_id row) (terminal_row ck st fc n) d2 = Inr d'"
    by (auto simp: terminal_def result_simps)
  have "find_execution d1 (ex_id row) = Some row" "db_notifications d1 = db_notifications d"
    using ev assms(2) by (auto simp: event_Inr find_execution_def)
  moreover have "db_notifications d' = db_notifications d2"
    using upd by (auto simp: update_execution_Inr put_execution_def)
  ultimately show ?thesis using notifyExecution_ids [OF nt] by simp
qed

text \<open>What the maintenance of one row needs, and that it leaves the needs of the others in place.\<close>

definition row_ready :: "env \<Rightarrow> db \<Rightarrow> execution \<Rightarrow> bool" where
  "row_ready env d r \<longleftrightarrow>
     find_execution d (ex_id r) = Some r \<and> ex_state r \<in> {COMPILING, RUNNING} \<and> sequence_left r \<and>
     notification_fresh env d (ex_id r)"

definition maintain_ends :: "clock \<Rightarrow> execution \<Rightarrow> bool" where
  "maintain_ends ck r \<longleftrightarrow>
     ex_cancellationRequestedAt r \<noteq> None \<or> MAX_ATTEMPTS \<le> ex_attempt r \<or> deadline r \<le> ck_db ck"

lemma maintain_row_commits:
  assumes inv: "db_inv env d" and env: "env_ok env" and ck: "clock_ok ck" and r: "row_ready env d r"
  shows "\<exists>d'. maintain_row env ck r d = Inr d' \<and>
     (maintain_ends ck r \<longrightarrow> (\<exists>n. find_execution d' (ex_id r) = Some n \<and> ex_state n = INTERNAL_ERROR)) \<and>
     nt_id ` set (db_notifications d') \<subseteq> insert (notification_id env (ex_id r)) (nt_id ` set (db_notifications d))"
proof (cases "maintain_ends ck r")
  case True
  let ?fc = "Some (if ex_cancellationRequestedAt r \<noteq> None then CANCELLATION_TIMEOUT
    else if MAX_ATTEMPTS \<le> ex_attempt r then LEASE_EXPIRED else JOB_TIMEOUT)"
  have rr: "find_execution d (ex_id r) = Some r" "\<not> isTerminal (ex_state r)" "sequence_left r"
    "notification_fresh env d (ex_id r)" using r by (auto simp: row_ready_def)
  have "failure_fits r INTERNAL_ERROR ?fc" by (simp add: failure_fits_def)
  from terminal_succeeds [OF inv env rr(1,2) this rr(3,4)] obtain d' where
    d': "terminal env ck r INTERNAL_ERROR ?fc d = Inr d'" by blast
  then have "maintain_row env ck r d = Inr d'" using True by (simp add: maintain_row_def maintain_ends_def)
  moreover have "\<exists>n. find_execution d' (ex_id r) = Some n \<and> ex_state n = INTERNAL_ERROR"
    using terminal_good [OF inv rr(1) _ d'] by (simp add: terminal_row_def)
  ultimately show ?thesis using terminal_ids [OF d' rr(1)] by blast
next
  case False
  have "find_execution d (ex_id r) \<noteq> None" using r by (simp add: row_ready_def)
  from upsert_outbox_succeeds [OF this] obtain d' where
    d': "upsert_outbox ck (ex_id r, EXECUTION_RECOVERY, ex_attempt r) (\<lambda>x. x) d = Inr d'" by blast
  then have "db_notifications d' = db_notifications d"
    by (auto simp: upsert_outbox_def create_outbox_def put_outbox_def result_simps split: option.splits if_splits)
  with d' False show ?thesis by (auto simp: maintain_row_def maintain_ends_def)
qed

lemma maintain_fold_commits:
  assumes "db_inv env d" and env: "env_ok env" and ck: "clock_ok ck" and inj: "inj (notification_id env)"
    and "distinct (map ex_id rows)" and "\<forall>r \<in> set rows. row_ready env d r"
  shows "\<exists>d'. fold_result (maintain_row env ck) rows d = Inr d' \<and>
     (\<forall>r \<in> set rows. maintain_ends ck r \<longrightarrow>
        (\<exists>n. find_execution d' (ex_id r) = Some n \<and> ex_state n = INTERNAL_ERROR))"
  using assms(1,5,6)
proof (induction rows arbitrary: d)
  case (Cons r rows)
  have r: "row_ready env d r" using Cons.prems(3) by simp
  from maintain_row_commits [OF Cons.prems(1) env ck r] obtain d1 where
    d1: "maintain_row env ck r d = Inr d1"
    and fin: "maintain_ends ck r \<Longrightarrow> \<exists>n. find_execution d1 (ex_id r) = Some n \<and> ex_state n = INTERNAL_ERROR"
    and ids: "nt_id ` set (db_notifications d1) \<subseteq> insert (notification_id env (ex_id r)) (nt_id ` set (db_notifications d))"
    by blast
  have "find_execution d (ex_id r) = Some r" using r by (simp add: row_ready_def)
  from maintain_row_good [OF Cons.prems(1) this d1] have g: "good_step env d d1"
    and other: "\<And>j. j \<noteq> ex_id r \<Longrightarrow> find_execution d1 j = find_execution d j" by auto
  have inv1: "db_inv env d1" using g by (simp add: good_step_def)
  have next_ready: "\<forall>x \<in> set rows. row_ready env d1 x"
  proof
    fix x assume x: "x \<in> set rows"
    with Cons.prems(2) have ne: "ex_id x \<noteq> ex_id r" by (auto simp: image_iff)
    then have "notification_id env (ex_id x) \<noteq> notification_id env (ex_id r)" using inj by (auto dest: injD)
    moreover have "notification_id env (ex_id x) \<notin> nt_id ` set (db_notifications d)"
      using x Cons.prems(3) by (simp add: row_ready_def notification_fresh_def)
    ultimately have "notification_fresh env d1 (ex_id x)" using ids by (auto simp: notification_fresh_def)
    with x other [OF ne] Cons.prems(3) show "row_ready env d1 x" by (simp add: row_ready_def)
  qed
  from Cons.IH [OF inv1 _ next_ready] Cons.prems(2) obtain d' where
    d': "fold_result (maintain_row env ck) rows d1 = Inr d'"
    and rest: "\<forall>x \<in> set rows. maintain_ends ck x \<longrightarrow> (\<exists>n. find_execution d' (ex_id x) = Some n \<and> ex_state n = INTERNAL_ERROR)"
    by auto
  have "good_step env d1 d'"
    using Cons.prems(2) next_ready
    by (intro batch_good [OF maintain_row_good inv1 _ _ d', where P = "\<lambda>_. True"]) (auto simp: row_ready_def)
  then have "maintain_ends ck r \<Longrightarrow> \<exists>n. find_execution d' (ex_id r) = Some n \<and> ex_state n = INTERNAL_ERROR"
    using fin unfolding good_step_def db_le_def row_le_def by (metis isTerminal_simps(6))
  with d1 d' rest show ?case by (auto simp: result_simps)
qed simp

lemma maintain_commits:
  assumes inv: "db_inv env d" and env: "env_ok env" and ck: "clock_ok ck" and inj: "inj (notification_id env)"
    and rows: "\<And>r. r \<in> set (maintain_rows sc ck d) \<Longrightarrow> sequence_left r \<and> notification_fresh env d (ex_id r)"
  shows "\<exists>d'. maintain env sc ck d = Inr d' \<and>
     (\<forall>r \<in> set (maintain_rows sc ck d). maintain_ends ck r \<longrightarrow>
        (\<exists>n. find_execution d' (ex_id r) = Some n \<and> ex_state n = INTERNAL_ERROR))"
proof -
  have "\<forall>r \<in> set (maintain_rows sc ck d). row_ready env d r"
    using rows maintain_rows_selected(2) [OF inv] by (auto simp: row_ready_def maintain_due_def)
  from maintain_fold_commits [OF inv env ck inj maintain_rows_selected(1) [OF inv] this] obtain d1 where
    d1: "fold_result (maintain_row env ck) (maintain_rows sc ck d) d = Inr d1"
    "\<forall>r \<in> set (maintain_rows sc ck d). maintain_ends ck r \<longrightarrow>
       (\<exists>n. find_execution d1 (ex_id r) = Some n \<and> ex_state n = INTERNAL_ERROR)" by blast
  have "find_execution (purge_events sc ck (reoffer_outbox sc ck d1)) i = find_execution d1 i" for i
    by (simp add: purge_events_def reoffer_outbox_def Let_def find_execution_def)
  with d1 show ?thesis by (simp add: maintain_def)
qed

end
