(* ===== verification/Queue.thy ===== *)
theory Queue
  imports JobProgress
begin

text \<open>
  The queue pipeline (\<open>apps/api/src/executions/queue.ts\<close>): the dispatcher that publishes outbox
  intents to BullMQ, and the worker's handler of one job. BullMQ is outside the repository:
  \<open>queue.add\<close> is the parameter \<open>add\<close>, from the queue's state and a job to the new state, or
  \<open>None\<close> when it rejects.
\<close>

section \<open>The dispatcher\<close>

record job =
  jb_executionId :: uuid
  jb_jobId :: "uuid \<times> int"

text \<open>\<open>jobId: `exec-${executionId}-g${generation}`\<close> is the pair of its two parts.\<close>

definition intent_due :: "clock \<Rightarrow> outbox \<Rightarrow> bool" where
  "intent_due ck x \<longleftrightarrow>
     ox_publishedAt x = None \<and> ox_nextDispatchAt x \<le> ck_db ck \<and>
     opt_all (\<lambda>t. t \<le> ck_db ck) (ox_dispatchExpiresAt x)"

definition claim_intent :: "clock \<Rightarrow> uuid \<Rightarrow> outbox \<Rightarrow> outbox" where
  "claim_intent ck token x =
     x\<lparr>ox_dispatchToken := Some token, ox_dispatchExpiresAt := Some (ck_db ck + 10000),
       ox_dispatchAttempts := ox_dispatchAttempts x + 1\<rparr>"

definition due_intents :: "schedule \<Rightarrow> clock \<Rightarrow> db \<Rightarrow> outbox list" where
  "due_intents sc ck d =
     take 20 (sort_key ox_createdAt
       (filter (\<lambda>x. intent_due ck x \<and> \<not> sc_outbox_locked sc (ox_key x)) (db_outbox d)))"

text \<open>The first transaction: claim the due intents under a fresh token and return them as updated.\<close>

definition claim_intents :: "schedule \<Rightarrow> clock \<Rightarrow> uuid \<Rightarrow> db \<Rightarrow> outbox list \<times> db" where
  "claim_intents sc ck token d =
     (let rows = due_intents sc ck d; keys = map ox_key rows
      in (map (claim_intent ck token) rows,
          d\<lparr>db_outbox := map (\<lambda>x. if ox_key x \<in> set keys \<and> intent_due ck x then claim_intent ck token x else x)
                (db_outbox d)\<rparr>))"

definition deliverable :: "clock \<Rightarrow> db \<Rightarrow> outbox \<Rightarrow> bool" where
  "deliverable ck d x \<longleftrightarrow>
     ox_kind x \<in> {EXECUTION_CREATED, EXECUTION_RECOVERY} \<and>
     (case find_execution d (ox_executionId x) of
        None \<Rightarrow> False
      | Some e \<Rightarrow>
          (ex_state e = QUEUED \<and> ck_host ck < ex_queueExpiresAt e) \<or>
          (ex_state e \<in> {COMPILING, RUNNING} \<and> ox_kind x = EXECUTION_RECOVERY \<and> ox_generation x = ex_attempt e))"

definition job_of :: "outbox \<Rightarrow> job" where
  "job_of x = \<lparr>jb_executionId = ox_executionId x, jb_jobId = (ox_executionId x, ox_generation x)\<rparr>"

definition publish_intent :: "clock \<Rightarrow> uuid \<Rightarrow> outbox \<Rightarrow> db \<Rightarrow> db" where
  "publish_intent ck token x d =
     put_outbox (ox_key x) (\<lambda>o'. if ox_dispatchToken o' = Some token \<and>
          (case ox_dispatchExpiresAt o' of None \<Rightarrow> False | Some t \<Rightarrow> ck_db ck < t)
        then o'\<lparr>ox_publishedAt := Some (ck_db ck), ox_dispatchToken := None, ox_dispatchExpiresAt := None\<rparr>
        else o') d"

definition backoff :: "int \<Rightarrow> millis" where
  "backoff attempts = min 30000 (1000 * 2 ^ nat (min attempts 5))"

definition postpone_intent :: "clock \<Rightarrow> uuid \<Rightarrow> outbox \<Rightarrow> db \<Rightarrow> db" where
  "postpone_intent ck token x d =
     put_outbox (ox_key x) (\<lambda>o'. if ox_dispatchToken o' = Some token
        then o'\<lparr>ox_dispatchToken := None, ox_dispatchExpiresAt := None,
                ox_nextDispatchAt := ck_host ck + backoff (ox_dispatchAttempts x)\<rparr>
        else o') d"

definition dispatch_intent ::
    "('q \<Rightarrow> job \<Rightarrow> 'q option) \<Rightarrow> clock \<Rightarrow> uuid \<Rightarrow> outbox \<Rightarrow> 'q \<times> db \<Rightarrow> 'q \<times> db" where
  "dispatch_intent add ck token x qd =
     (case qd of (q, d) \<Rightarrow>
        if deliverable ck d x
        then (case add q (job_of x) of
                None \<Rightarrow> (q, postpone_intent ck token x d)
              | Some q' \<Rightarrow> (q', publish_intent ck token x d))
        else (q, publish_intent ck token x d))"

text \<open>\<open>OutboxDispatcher.tick\<close>: the clock of the claiming transaction and that of the deliveries.\<close>

definition dispatcher_tick ::
    "('q \<Rightarrow> job \<Rightarrow> 'q option) \<Rightarrow> schedule \<Rightarrow> clock \<Rightarrow> clock \<Rightarrow> uuid \<Rightarrow> 'q \<times> db \<Rightarrow> nat \<times> 'q \<times> db" where
  "dispatcher_tick add sc ck ck' token qd =
     (case qd of (q, d) \<Rightarrow>
        let (intents, d1) = claim_intents sc ck token d
        in (length intents, fold (dispatch_intent add ck' token) intents (q, d1)))"

section \<open>The worker\<close>

datatype runner_code = RUNNER_CAPACITY | DUPLICATE_ATTEMPT | EXECUTION_UNAVAILABLE | OTHER_CODE

text \<open>What a backend or the settlement can throw, as far as the handler tells the errors apart.\<close>

datatype failure =
    RunnerFailure bool runner_code
  | SandboxCleanupError
  | OtherFailure

definition recoverableRunnerFailure :: "failure \<Rightarrow> bool" where
  "recoverableRunnerFailure e =
     (case e of
        RunnerFailure recoverable code \<Rightarrow>
          recoverable \<and> code \<in> {RUNNER_CAPACITY, DUPLICATE_ATTEMPT, EXECUTION_UNAVAILABLE}
      | _ \<Rightarrow> False)"

text \<open>What happens between the claim and the settlement: the backend's calls and the heartbeat.\<close>

datatype callback =
    MarkRunning clock
  | Console clock uuid stream jsstr
  | Heartbeat clock

definition callback_db :: "env \<Rightarrow> lease \<Rightarrow> callback \<Rightarrow> db \<Rightarrow> db" where
  "callback_db env l cb d =
     (case cb of
        MarkRunning ck \<Rightarrow> (case markRunning env ck l d of Inl e \<Rightarrow> d | Inr (b, d') \<Rightarrow> d')
      | Console ck c strm s \<Rightarrow> (case console env ck l c strm s d of Inl e \<Rightarrow> d | Inr (b, d') \<Rightarrow> d')
      | Heartbeat ck \<Rightarrow> (case renew ck l d of Inl e \<Rightarrow> d | Inr (b, d') \<Rightarrow> d'))"

definition settle_failure :: "env \<Rightarrow> clock \<Rightarrow> lease \<Rightarrow> failure \<Rightarrow> db \<Rightarrow> bool tx" where
  "settle_failure env ck l e d =
     (if recoverableRunnerFailure e then recover env ck l d
      else fail env ck l (e \<noteq> SandboxCleanupError) d)"

text \<open>
  The end of the handler: a result is passed to \<open>finish\<close>, and an error of \<open>finish\<close> itself is
  caught like one of the backend (it is neither recoverable nor a cleanup error).
\<close>

definition settle :: "env \<Rightarrow> clock \<Rightarrow> clock \<Rightarrow> lease \<Rightarrow> failure + judged_result \<Rightarrow> db \<Rightarrow> bool tx" where
  "settle env ck ck' l outcome d =
     (case outcome of
        Inl e \<Rightarrow> settle_failure env ck l e d
      | Inr result \<Rightarrow>
          (case finish env ck l result d of
             Inl e \<Rightarrow> settle_failure env ck' l OtherFailure d
           | Inr x \<Rightarrow> Inr x))"

definition worker_job ::
    "env \<Rightarrow> clock \<Rightarrow> clock \<Rightarrow> clock \<Rightarrow> uuid \<Rightarrow> uuid \<Rightarrow> callback list \<Rightarrow> failure + judged_result \<Rightarrow> db \<Rightarrow> db" where
  "worker_job env ck0 ck1 ck2 token executionId callbacks outcome d =
     (if \<not> is_uuid env executionId then d
      else case claim env ck0 token executionId d of
        Inl e \<Rightarrow> d
      | Inr (None, d1) \<Rightarrow> d1
      | Inr (Some (l, execution), d1) \<Rightarrow>
          let d2 = fold (callback_db env l) callbacks d1
          in (case settle env ck1 ck2 l outcome d2 of Inl e \<Rightarrow> d2 | Inr (b, d3) \<Rightarrow> d3))"

section \<open>Safety of the dispatcher and of the worker\<close>

lemma ox_key_updates [simp]:
  "ox_key (claim_intent ck token x) = ox_key x"
  "ox_key (ox_publishedAt_update u1 x) = ox_key x" "ox_key (ox_dispatchToken_update u2 x) = ox_key x"
  "ox_key (ox_dispatchExpiresAt_update u3 x) = ox_key x" "ox_key (ox_nextDispatchAt_update u4 x) = ox_key x"
  by (simp_all add: ox_key_def claim_intent_def)

lemma map_outbox_good:
  assumes "db_inv env d" and "\<And>x. ox_key (g x) = ox_key x"
  shows "good_step env d (d\<lparr>db_outbox := map g (db_outbox d)\<rparr>)"
  using assms by (intro outbox_good outbox_inv_map) (simp_all add: db_inv_def)

lemma put_outbox_good:
  assumes "db_inv env d" and "\<And>x. ox_key (f x) = ox_key x"
  shows "good_step env d (put_outbox k f d)"
  unfolding put_outbox_def update_by_def using assms by (intro map_outbox_good) auto

lemma claim_intents_good: "db_inv env d \<Longrightarrow> good_step env d (snd (claim_intents sc ck token d))"
  by (simp add: claim_intents_def Let_def map_outbox_good)

lemma dispatch_intent_good:
  "db_inv env d \<Longrightarrow> good_step env d (snd (dispatch_intent add ck token x (q, d)))"
  by (auto simp: dispatch_intent_def postpone_intent_def publish_intent_def intro!: put_outbox_good split: option.splits)

lemma dispatcher_tick_good:
  assumes inv: "db_inv env d"
  shows "good_step env d (snd (snd (dispatcher_tick add sc ck ck' token (q, d))))"
proof -
  have fold: "db_inv env d \<Longrightarrow> good_step env d (snd (fold (dispatch_intent add ck' token) xs (q, d)))" for xs q d
  proof (induction xs arbitrary: q d)
    case (Cons x xs)
    obtain q1 d1 where qd: "dispatch_intent add ck' token x (q, d) = (q1, d1)" by fastforce
    with dispatch_intent_good [OF Cons.prems, of add ck' token x q] have g: "good_step env d d1" by simp
    then have "db_inv env d1" by (simp add: good_step_def)
    from good_step_trans [OF g Cons.IH [OF this]] qd show ?case by simp
  qed (simp add: good_step_refl)
  let ?d1 = "snd (claim_intents sc ck token d)"
  have g: "good_step env d ?d1" by (rule claim_intents_good [OF inv])
  then have "db_inv env ?d1" by (simp add: good_step_def)
  from good_step_trans [OF g fold [OF this]] show ?thesis
    by (simp add: dispatcher_tick_def split_beta)
qed

lemma callback_good: "db_inv env d \<Longrightarrow> env_ok env \<Longrightarrow> good_step env d (callback_db env l cb d)"
  by (auto simp: callback_db_def good_step_refl split: callback.splits sum.splits
      intro: markRunning_good console_good renew_good)

lemma callbacks_good:
  "db_inv env d \<Longrightarrow> env_ok env \<Longrightarrow> good_step env d (fold (callback_db env l) cbs d)"
proof (induction cbs arbitrary: d)
  case (Cons cb cbs)
  note g = callback_good [OF Cons.prems, of l cb]
  then have "db_inv env (callback_db env l cb d)" by (simp add: good_step_def)
  from good_step_trans [OF g Cons.IH [OF this Cons.prems(2)]] show ?case by simp
qed (simp add: good_step_refl)

lemma settle_good:
  assumes inv: "db_inv env d" and op: "settle env ck ck' l outcome d = Inr (b, d')"
  shows "good_step env d d'"
proof -
  have fl: "good_step env d d'" if "settle_failure env k l e d = Inr (b, d')" for k e
    using that inv by (auto simp: settle_failure_def intro: recover_good fail_good split: if_splits)
  show ?thesis
    using op by (auto simp: settle_def intro: fl finish_good [OF inv] split: sum.splits)
qed

lemma worker_job_good:
  assumes inv: "db_inv env d" and env: "env_ok env"
  shows "good_step env d (worker_job env ck0 ck1 ck2 token i cbs outcome d)"
proof (cases "claim env ck0 token i d")
  case (Inl e)
  with inv show ?thesis by (simp add: worker_job_def good_step_refl)
next
  case (Inr p)
  obtain res d1 where p: "p = (res, d1)" by (cases p)
  have g1: "good_step env d d1" by (rule claim_good [OF inv Inr [unfolded p]])
  then have inv1: "db_inv env d1" by (simp add: good_step_def)
  show ?thesis
  proof (cases res)
    case None
    with Inr p g1 inv show ?thesis by (simp add: worker_job_def good_step_refl)
  next
    case (Some lx)
    obtain l ex where lx: "lx = (l, ex)" by (cases lx)
    let ?d2 = "fold (callback_db env l) cbs d1"
    have g2: "good_step env d ?d2" by (rule good_step_trans [OF g1 callbacks_good [OF inv1 env]])
    then have "db_inv env ?d2" by (simp add: good_step_def)
    then have "good_step env ?d2 (case settle env ck1 ck2 l outcome ?d2 of Inl e \<Rightarrow> ?d2 | Inr (b, d3) \<Rightarrow> d3)"
      by (auto simp: good_step_refl intro: settle_good split: sum.splits)
    with g2 have "good_step env d (case settle env ck1 ck2 l outcome ?d2 of Inl e \<Rightarrow> ?d2 | Inr (b, d3) \<Rightarrow> d3)"
      by (rule good_step_trans)
    with Inr p Some lx inv show ?thesis by (simp add: worker_job_def good_step_refl Let_def)
  qed
qed

end
