(* ===== verification/Runner.thy ===== *)
theory Runner
  imports Observations Queue
begin

text \<open>
  From the worker to the sandbox: the judging backend (\<open>apps/runner/src/judging-backend.ts\<close>), the RPC
  client (\<open>client.ts\<close>) and the RPC server (\<open>server.ts\<close>) around the supervisor. The Unix socket is the
  parameter: a response arrives as the server sent it, or the connection is lost. JSON bodies are the
  values they encode.
\<close>

section \<open>The server\<close>

definition METRIC_ERROR_CODES :: "string list" where
  "METRIC_ERROR_CODES =
     [''INVALID_CGROUP_PID'', ''INVALID_CGROUP_COUNTER'', ''UNIFIED_CGROUP_REQUIRED'', ''SCOPED_CGROUP_REQUIRED'',
      ''INVALID_CGROUP_PATH'', ''INVALID_CGROUP_COUNTERS'', ''CGROUP_FILES_UNAVAILABLE'', ''CGROUP_METRICS_MISSING'',
      ''INVALID_CGROUP_MEMORY_PEAK'', ''CGROUP_IDENTITY_CHANGED'', ''CGROUP_COUNTER_REGRESSION'']"

fun docker_code_name :: "docker_code \<Rightarrow> string" where
  "docker_code_name DOCKER_UNAVAILABLE = ''DOCKER_UNAVAILABLE''"
| "docker_code_name COMMAND_FAILED = ''COMMAND_FAILED''"
| "docker_code_name COMMAND_TIMEOUT = ''COMMAND_TIMEOUT''"
| "docker_code_name OUTPUT_LIMIT = ''OUTPUT_LIMIT''"
| "docker_code_name ABORTED = ''ABORTED''"

text \<open>The code written to the log of the runner; it never carries text of the guest.\<close>

fun safeFailureCode :: "runner_error \<Rightarrow> string" where
  "safeFailureCode CleanupErr = ''SANDBOX_CLEANUP_UNCONFIRMED''"
| "safeFailureCode (DockerErr c) = docker_code_name c"
| "safeFailureCode (RunnerErr m) =
     (if m \<in> set METRIC_ERROR_CODES then m
      else if m \<in> {''RUNNER_NOT_READY'', ''RUNNER_CAPACITY'', ''DUPLICATE_ATTEMPT'', ''SANDBOX_POLICY_MISMATCH'',
                   ''INVALID_CONTAINER_STATE''} then m
      else ''UNCLASSIFIED_RUNNER_FAILURE'')"
| "safeFailureCode RunnerZod = ''INVALID_EXECUTION_REQUEST''"

datatype rpc_input =
    ExecuteInput sandbox_request
  | CancelInput uuid int
  | OtherInput

record http_request =
  hr_method :: string
  hr_url :: string
  hr_contentType :: "string option"
  hr_bytes :: nat
  hr_input :: "rpc_input option"

datatype reply_body =
    ReplyObservation observation
  | ReplyError string
  | ReplyRequested bool

record server =
  sv_closing :: bool
  sv_admitted :: nat
  sv_controllers :: "string list"
  sv_aborts :: "string list"
  sv_sup :: sup

definition cancelled_observation :: observation where
  "cancelled_observation = \<lparr>ob_cancellationConfirmed = True, ob_compilation = None, ob_cases = []\<rparr>"

text \<open>The reply to an execution that settled; \<open>aborted\<close> is the state of its signal at that time.\<close>

definition execution_reply :: "bool \<Rightarrow> runner_error + observation \<Rightarrow> nat \<times> reply_body" where
  "execution_reply aborted r =
     (case r of
        Inr ob \<Rightarrow> (200, ReplyObservation (if aborted then ob\<lparr>ob_cancellationConfirmed := True\<rparr> else ob))
      | Inl e \<Rightarrow>
          if e = DockerErr ABORTED \<and> aborted then (200, ReplyObservation cancelled_observation)
          else (503, ReplyError (if e = CleanupErr then ''SANDBOX_CLEANUP_UNCONFIRMED'' else ''EXECUTION_UNAVAILABLE'')))"

definition handle_execute ::
    "host \<Rightarrow> manifest \<Rightarrow> (string \<Rightarrow> bool) \<Rightarrow> sandbox_request \<Rightarrow> server \<Rightarrow> (nat \<times> reply_body) \<times> server" where
  "handle_execute h mf uuid_ok req sv =
     (if \<not> sandboxRequestSchema uuid_ok req then ((503, ReplyError ''EXECUTION_UNAVAILABLE''), sv)
      else if execution_key req \<in> set (sv_controllers sv) then ((503, ReplyError ''DUPLICATE_ATTEMPT''), sv)
      else let (r, t) = execute h mf uuid_ok req (sv_sup sv)
           in (execution_reply (h_aborted h (su_log t)) r, sv\<lparr>sv_sup := t\<rparr>))"

definition handle_cancel :: "uuid \<Rightarrow> int \<Rightarrow> server \<Rightarrow> (nat \<times> reply_body) \<times> server" where
  "handle_cancel executionId attempt sv =
     (let key = executionId @ '':'' @ int_text attempt
      in if key \<notin> set (sv_controllers sv) then ((409, ReplyRequested False), sv)
         else ((200, ReplyRequested True), sv\<lparr>sv_aborts := key # sv_aborts sv\<rparr>))"

text \<open>
  \<open>handle\<close>. A request that is still open when another one arrives is counted in \<open>sv_admitted\<close> and, for
  an execution, registered in \<open>sv_controllers\<close> by the caller; its own entry is gone when it settles.
\<close>

definition handle ::
    "host \<Rightarrow> manifest \<Rightarrow> (string \<Rightarrow> bool) \<Rightarrow> http_request \<Rightarrow> server \<Rightarrow> (nat \<times> reply_body) \<times> server" where
  "handle h mf uuid_ok hr sv =
     (if sv_closing sv \<or> sv_admitted sv \<ge> 8 then ((503, ReplyError ''RUNNER_CAPACITY''), sv)
      else if hr_method hr \<noteq> ''POST'' \<or> hr_url hr \<notin> {''/execute'', ''/cancel''} \<or>
              hr_contentType hr \<noteq> Some ''application/json''
      then ((400, ReplyError ''INVALID_REQUEST''), sv)
      else if hr_bytes hr > 2 * 1024 * 1024 then ((413, ReplyError ''REQUEST_TOO_LARGE''), sv)
      else if hr_url hr = ''/cancel''
      then (case hr_input hr of
              Some (CancelInput i a) \<Rightarrow>
                if uuid_ok i \<and> safe_int a \<and> 0 < a then handle_cancel i a sv
                else ((503, ReplyError ''EXECUTION_UNAVAILABLE''), sv)
            | _ \<Rightarrow> ((503, ReplyError ''EXECUTION_UNAVAILABLE''), sv))
      else (case hr_input hr of
              Some (ExecuteInput req) \<Rightarrow> handle_execute h mf uuid_ok req sv
            | _ \<Rightarrow> ((503, ReplyError ''EXECUTION_UNAVAILABLE''), sv)))"

section \<open>The client\<close>

text \<open>\<open>RunnerExecutionError\<close> is always recoverable.\<close>

definition runnerError :: "reply_body \<Rightarrow> failure option" where
  "runnerError b =
     (case b of
        ReplyError c \<Rightarrow>
          if c = ''RUNNER_CAPACITY'' then Some (RunnerFailure True RUNNER_CAPACITY)
          else if c = ''DUPLICATE_ATTEMPT'' then Some (RunnerFailure True DUPLICATE_ATTEMPT)
          else if c = ''EXECUTION_UNAVAILABLE'' then Some (RunnerFailure True EXECUTION_UNAVAILABLE)
          else None
      | _ \<Rightarrow> None)"

text \<open>What comes back: a response of at most two MiB, or nothing (lost, oversized, timed out).\<close>

datatype response = Response nat reply_body | Lost

definition client_outcome :: "(string \<Rightarrow> bool) \<Rightarrow> response \<Rightarrow> failure + observation" where
  "client_outcome uuid_ok resp =
     (case resp of
        Lost \<Rightarrow> Inl SandboxCleanupError
      | Response status body \<Rightarrow>
          if status \<noteq> 200
          then Inl (case runnerError body of None \<Rightarrow> SandboxCleanupError | Some e \<Rightarrow> e)
          else (case body of
                  ReplyObservation ob \<Rightarrow>
                    if observationSchema uuid_ok ob then Inr ob else Inl SandboxCleanupError
                | _ \<Rightarrow> Inl SandboxCleanupError))"

definition execute_request :: "sandbox_request \<Rightarrow> http_request" where
  "execute_request req = \<lparr>hr_method = ''POST'', hr_url = ''/execute'', hr_contentType = Some ''application/json'',
     hr_bytes = 0, hr_input = Some (ExecuteInput req)\<rparr>"

text \<open>
  \<open>SupervisorClient.execute\<close> over a connection: \<open>aborted\<close> is the caller's signal before the call,
  \<open>size\<close> the length of the encoded request, \<open>delivered\<close> says whether the response arrives.
\<close>

definition client_execute ::
    "host \<Rightarrow> manifest \<Rightarrow> (string \<Rightarrow> bool) \<Rightarrow> bool \<Rightarrow> nat \<Rightarrow> bool \<Rightarrow> sandbox_request \<Rightarrow> server
       \<Rightarrow> (failure + observation) \<times> server" where
  "client_execute h mf uuid_ok aborted sz delivered req sv =
     (if \<not> sandboxRequestSchema uuid_ok req then (Inl OtherFailure, sv)
      else if aborted then (Inr cancelled_observation, sv)
      else let ((status, body), sv') = handle h mf uuid_ok ((execute_request req)\<lparr>hr_bytes := sz\<rparr>) sv
           in (client_outcome uuid_ok (if delivered then Response status body else Lost), sv'))"

section \<open>The judging backend\<close>

definition sort_files :: "test_file list \<Rightarrow> test_file list" where
  "sort_files fs = sort_key tf_name fs"

definition judge_case_of :: "test_case \<Rightarrow> judge_case" where
  "judge_case_of c = \<lparr>jc_id = tc_id c, jc_ordinal = tc_ordinal c, jc_visibility = tc_visibility c,
     jc_input = tc_input c, jc_files = sort_files (tc_files c), jc_expectedOutput = tc_expectedOutput c\<rparr>"

definition plan_cases :: "db \<Rightarrow> uuid \<Rightarrow> mode \<Rightarrow> test_case list" where
  "plan_cases d versionId m =
     sort_key tc_ordinal (filter (\<lambda>c. tc_problemVersionId c = versionId \<and> (m = RUN \<longrightarrow> tc_visibility c = PUBLIC))
       (db_testCases d))"

definition loadJudgePlan :: "db \<Rightarrow> uuid \<Rightarrow> mode \<Rightarrow> judge_plan result" where
  "loadJudgePlan d versionId m =
     (case find (\<lambda>v. vn_id v = versionId \<and> vn_published v) (db_versions d) of
        None \<Rightarrow> Inl (PlainError ''JUDGE_PLAN_UNAVAILABLE'')
      | Some v \<Rightarrow>
          if vn_comparator v \<noteq> ''EXACT_NEWLINE'' then Inl (PlainError ''JUDGE_PLAN_UNAVAILABLE'')
          else Inr \<lparr>jp_versionId = vn_id v, jp_comparator = vn_comparator v, jp_timeMs = vn_timeMs v,
                    jp_memoryKiB = vn_memoryKiB v, jp_cases = map judge_case_of (plan_cases d versionId m)\<rparr>)"

text \<open>
  The request of an execution. \<open>memoryMiB\<close> is \<open>memoryKiB / 1024\<close>, which the schema rejects unless it is
  an integer.
\<close>

definition sandbox_case_of :: "judge_case \<Rightarrow> sandbox_case" where
  "sandbox_case_of c = \<lparr>sc_id = jc_id c, sc_input = jc_input c, sc_files = jc_files c\<rparr>"

definition sandbox_request_of :: "(string \<Rightarrow> bool) \<Rightarrow> execution \<Rightarrow> judge_plan \<Rightarrow> judge_case list \<Rightarrow> sandbox_request result" where
  "sandbox_request_of uuid_ok e plan selected =
     (let req = \<lparr>sr_executionId = ex_id e, sr_attempt = ex_attempt e, sr_language = ex_language e,
            sr_sourceCode = ex_sourceCode e, sr_cases = map sandbox_case_of selected,
            sr_timeMs = jp_timeMs plan, sr_memoryMiB = jp_memoryKiB plan div 1024\<rparr>
      in if jp_memoryKiB plan mod 1024 = 0 \<and> sandboxRequestSchema uuid_ok req then Inr req else Inl ZodError)"

text \<open>The calls the backend makes to its context, and whether the worker still had authority.\<close>

datatype backend_call = CallMarkRunning | CallConsole uuid stream jsstr

definition console_calls :: "case_result list \<Rightarrow> backend_call list" where
  "console_calls rs =
     concat (map (\<lambda>c.
       (case cr_stdout c of Some (u # s) \<Rightarrow> [CallConsole (cr_caseId c) Stdout (u # s)] | _ \<Rightarrow> []) @
       (case cr_stderr c of Some (u # s) \<Rightarrow> [CallConsole (cr_caseId c) Stderr (u # s)] | _ \<Rightarrow> [])) rs)"

fun make_calls :: "(backend_call list \<Rightarrow> backend_call \<Rightarrow> bool) \<Rightarrow> backend_call list \<Rightarrow> backend_call list \<Rightarrow> bool \<times> backend_call list" where
  "make_calls accept [] made = (True, made)"
| "make_calls accept (c # cs) made =
     (if accept made c then make_calls accept cs (made @ [c]) else (False, made @ [c]))"

definition backend_calls :: "mode \<Rightarrow> judged_result \<Rightarrow> backend_call list" where
  "backend_calls m result =
     (if jr_verdict result \<noteq> COMPILATION_ERROR then [CallMarkRunning] else []) @
     (if m = RUN then console_calls (case jr_publicCaseResults result of None \<Rightarrow> [] | Some rs \<Rightarrow> rs) else [])"

definition backend_execute ::
    "env \<Rightarrow> (uuid \<Rightarrow> mode \<Rightarrow> judge_plan result) \<Rightarrow> (sandbox_request \<Rightarrow> 's \<Rightarrow> (failure + observation) \<times> 's)
       \<Rightarrow> (backend_call list \<Rightarrow> backend_call \<Rightarrow> bool) \<Rightarrow> execution \<Rightarrow> 's \<Rightarrow> ((failure + judged_result) \<times> backend_call list) \<times> 's"
  where
  "backend_execute env load executor accept e s =
     (case load (ex_problemVersionId e) (ex_mode e) of
        Inl err \<Rightarrow> ((Inl OtherFailure, []), s)
      | Inr plan \<Rightarrow>
          if jp_versionId plan \<noteq> ex_problemVersionId e then ((Inl OtherFailure, []), s)
          else (case selectCases (is_uuid env) plan (ex_mode e) of
             Inl err \<Rightarrow> ((Inl OtherFailure, []), s)
           | Inr selected \<Rightarrow>
               (case sandbox_request_of (is_uuid env) e plan selected of
                  Inl err \<Rightarrow> ((Inl OtherFailure, []), s)
                | Inr req \<Rightarrow>
                    (case executor req s of
                       (Inl f, t) \<Rightarrow> ((Inl f, []), t)
                     | (Inr ob, t) \<Rightarrow>
                         (case judge (is_uuid env) (strip_vt env) plan (ex_mode e) (ex_language e) (Some ob) of
                            Inl err \<Rightarrow> ((Inl OtherFailure, []), t)
                          | Inr result \<Rightarrow>
                              (case make_calls accept (backend_calls (ex_mode e) result) [] of
                                 (ok, calls) \<Rightarrow> ((if ok then Inr result else Inl OtherFailure, calls), t)))))))"

section \<open>Composition\<close>

text \<open>A reply to an execution either reports the supervisor's result or did not start it.\<close>

lemma handle_execute_request:
  assumes "handle h mf uuid_ok ((execute_request req)\<lparr>hr_bytes := sz\<rparr>) sv = (rep, sv')"
  obtains (refused) c where "rep = (503, ReplyError c)" "sv' = sv"
    | (too_large) "rep = (413, ReplyError ''REQUEST_TOO_LARGE'')" "sv' = sv"
    | (settled) r t where "execute h mf uuid_ok req (sv_sup sv) = (r, t)" "sv' = sv\<lparr>sv_sup := t\<rparr>"
        "rep = execution_reply (h_aborted h (su_log t)) r"
proof (cases "sv_closing sv \<or> sv_admitted sv \<ge> 8 \<or> sz > 2 * 1024 * 1024")
  case True
  with assms show ?thesis
    by (cases "sv_closing sv \<or> sv_admitted sv \<ge> 8")
      (auto simp: handle_def execute_request_def intro: refused too_large)
next
  case False
  with assms have run: "handle_execute h mf uuid_ok req sv = (rep, sv')"
    by (simp add: handle_def execute_request_def)
  show ?thesis
  proof (cases "\<not> sandboxRequestSchema uuid_ok req \<or> execution_key req \<in> set (sv_controllers sv)")
    case True
    with run show ?thesis
      by (cases "sandboxRequestSchema uuid_ok req") (auto simp: handle_execute_def intro: refused)
  next
    case False
    obtain r t where "execute h mf uuid_ok req (sv_sup sv) = (r, t)"
      by (cases "execute h mf uuid_ok req (sv_sup sv)")
    with False run show ?thesis by (intro settled [of r t]) (simp_all add: handle_execute_def)
  qed
qed

text \<open>
  C23. An execution is offered for another attempt only after its sandboxes are gone: when the client
  reports a recoverable failure to the worker, every container the supervisor asked Docker to create
  for it was confirmed absent. A lost connection, an unreadable answer and an unconfirmed cleanup are
  never recoverable.
\<close>

theorem recoverable_failure_is_clean:
  assumes "client_execute h mf uuid_ok aborted sz delivered req sv = (Inl f, sv')"
    and "recoverableRunnerFailure f"
  shows "delivered \<and> (\<exists>events. su_log (sv_sup sv') = su_log (sv_sup sv) @ events \<and> unconfirmed events = [])"
proof -
  obtain rep where rep: "handle h mf uuid_ok ((execute_request req)\<lparr>hr_bytes := sz\<rparr>) sv = (rep, sv')"
    and f: "client_outcome uuid_ok (if delivered then Response (fst rep) (snd rep) else Lost) = Inl f"
    using assms by (auto simp: client_execute_def recoverableRunnerFailure_def Let_def
        split: if_splits prod.splits)
  from f assms(2) have delivered
    by (auto simp: client_outcome_def recoverableRunnerFailure_def split: if_splits)
  moreover from rep have "\<exists>events. su_log (sv_sup sv') = su_log (sv_sup sv) @ events \<and> unconfirmed events = []"
  proof (cases rule: handle_execute_request)
    case (settled r t)
    have "r \<noteq> Inl CleanupErr"
    proof
      assume "r = Inl CleanupErr"
      with settled(3) f assms(2) show False
        by (auto simp: execution_reply_def client_outcome_def runnerError_def recoverableRunnerFailure_def
            split: if_splits)
    qed
    moreover have "\<exists>err. tidily err (sv_sup sv) t \<and> (err = Some CleanupErr \<longrightarrow> r = Inl CleanupErr)"
      using tidy.obeysD [OF tidy_execute] settled(1) by (cases r) blast+
    ultimately show ?thesis using settled(2) by (auto simp: tidily_def split: if_splits)
  qed simp_all
  ultimately show ?thesis by blast
qed

lemma client_execute_Inr:
  assumes "client_execute h mf uuid_ok False sz delivered req sv = (Inr ob, sv')"
    and "\<not> ob_cancellationConfirmed ob"
  obtains t where "execute h mf uuid_ok req (sv_sup sv) = (Inr ob, t)"
proof -
  obtain rep where rep: "handle h mf uuid_ok ((execute_request req)\<lparr>hr_bytes := sz\<rparr>) sv = (rep, sv')"
    and f: "client_outcome uuid_ok (if delivered then Response (fst rep) (snd rep) else Lost) = Inr ob"
    using assms by (auto simp: client_execute_def Let_def split: if_splits prod.splits)
  from rep show ?thesis
  proof (cases rule: handle_execute_request)
    case (settled r t)
    with f assms(2) have "r = Inr ob"
      by (cases r) (auto simp: execution_reply_def client_outcome_def cancelled_observation_def
          split: if_splits)
    with settled that show ?thesis by blast
  qed (use f in \<open>auto simp: client_outcome_def split: if_splits\<close>)
qed


end
