(* ===== verification/Admission.thy ===== *)
theory Admission
  imports JobStore Text
begin

text \<open>
  Admission of new executions (\<open>apps/api/src/executions/admission.ts\<close>): the global capacity and
  the per-minute quotas. The HMAC of \<open>node:crypto\<close> is the parameter \<open>hmac\<close> (key, message).
\<close>

section \<open>Configuration values\<close>

text \<open>The values of \<open>Config\<close> the execution components read.\<close>

record config =
  cf_executionsEnabled :: bool
  cf_pipelineEnabled :: bool
  cf_MAX_ACTIVE_JOBS_PER_USER :: int
  cf_MAX_ACTIVE_JOBS_GLOBAL :: int
  cf_QUEUE_TTL_SECONDS :: int
  cf_EXECUTION_GLOBAL_CREATIONS_PER_MINUTE :: int
  cf_EXECUTION_IP_CREATIONS_PER_MINUTE :: int
  cf_EXECUTION_CREATIONS_PER_MINUTE :: int
  cf_EXECUTION_RATE_LIMIT_KEY :: string

section \<open>Quotas\<close>

definition executionRateKey :: "(string \<Rightarrow> string \<Rightarrow> string) \<Rightarrow> string \<Rightarrow> int \<Rightarrow> string \<Rightarrow> string" where
  "executionRateKey hmac secret window scope =
     hmac secret (''execution:create:v1:'' @ int_text window @ '':'' @ scope)"

text \<open>\<open>upsert({where: {key}, create: {key, expiresAt}, update: {count: {increment: 1}}})\<close>.\<close>

definition bump_limit :: "string \<Rightarrow> millis \<Rightarrow> rate_limit list \<Rightarrow> rate_limit list" where
  "bump_limit k expiresAt ls =
     (case find_by rl_key k ls of
        None \<Rightarrow> ls @ [\<lparr>rl_key = k, rl_count = 1, rl_expiresAt = expiresAt\<rparr>]
      | Some _ \<Rightarrow> update_by rl_key k (\<lambda>l. l\<lparr>rl_count := rl_count l + 1\<rparr>) ls)"

definition limit_count :: "string \<Rightarrow> rate_limit list \<Rightarrow> int" where
  "limit_count k ls = (case find_by rl_key k ls of None \<Rightarrow> 0 | Some l \<Rightarrow> rl_count l)"

definition ceil_div :: "int \<Rightarrow> int \<Rightarrow> int" where
  "ceil_div a b = - ((- a) div b)"

definition admission_scopes :: "config \<Rightarrow> uuid \<Rightarrow> string \<Rightarrow> (string \<times> int) list" where
  "admission_scopes cfg userId ip =
     [(''global'', cf_EXECUTION_GLOBAL_CREATIONS_PER_MINUTE cfg),
      (''ip:'' @ ip, cf_EXECUTION_IP_CREATIONS_PER_MINUTE cfg),
      (''user:'' @ userId, cf_EXECUTION_CREATIONS_PER_MINUTE cfg)]"

definition reserve_scope ::
    "(string \<Rightarrow> string \<Rightarrow> string) \<Rightarrow> config \<Rightarrow> clock \<Rightarrow> string \<times> int \<Rightarrow> db \<Rightarrow> db result" where
  "reserve_scope hmac cfg ck sl d =
     (let window = ck_host ck div 60000; expiresAt = (window + 1) * 60000;
          k = executionRateKey hmac (cf_EXECUTION_RATE_LIMIT_KEY cfg) window (fst sl);
          ls = bump_limit k expiresAt (db_executionLimits d)
      in if limit_count k ls > snd sl
         then Inl (ApiError 429 ''EXECUTION_RATE_LIMIT'' (Some (max 1 (ceil_div (expiresAt - ck_host ck) 1000))))
         else Inr (d\<lparr>db_executionLimits := ls\<rparr>))"

definition active_rows :: "db \<Rightarrow> execution list" where
  "active_rows d = filter (\<lambda>r. ex_state r \<in> set activeStates) (db_executions d)"

definition reserve ::
    "(string \<Rightarrow> string \<Rightarrow> string) \<Rightarrow> config \<Rightarrow> clock \<Rightarrow> uuid \<Rightarrow> string \<Rightarrow> db \<Rightarrow> db result" where
  "reserve hmac cfg ck userId ip d =
     (if cf_MAX_ACTIVE_JOBS_GLOBAL cfg \<le> int (length (active_rows d))
      then Inl (ApiError 503 ''EXECUTION_CAPACITY'' (Some 5))
      else fold_result (reserve_scope hmac cfg ck) (admission_scopes cfg userId ip) d)"

section \<open>Counters\<close>

text \<open>
  The interface of a store of counters: reading and counting up, and the two laws. A loop that
  counts up distinct keys and stops at the first counter above its limit then either leaves every
  counter one higher and within its limit, or fails.
\<close>

locale counter_store =
  fixes count :: "'l \<Rightarrow> 'k \<Rightarrow> int"
    and bump :: "'k \<Rightarrow> 'l \<Rightarrow> 'l"
  assumes count_bump_same: "count (bump k l) k = count l k + 1"
    and count_bump_other: "k \<noteq> k' \<Longrightarrow> count (bump k l) k' = count l k'"
begin

lemma bump_all:
  assumes "distinct (map fst kls)"
    and "fold_result (\<lambda>(k, lim) l. if count (bump k l) k > lim then Inl (e :: error) else Inr (bump k l)) kls l = Inr l'"
  shows "(\<forall>(k, lim) \<in> set kls. count l' k = count l k + 1 \<and> count l' k \<le> lim) \<and>
         (\<forall>k. k \<notin> fst ` set kls \<longrightarrow> count l' k = count l k)"
  using assms
proof (induction kls arbitrary: l)
  case (Cons kl kls)
  obtain k lim where kl: "kl = (k, lim)" by (cases kl)
  from Cons.prems kl have le: "count (bump k l) k \<le> lim"
    and rest: "fold_result (\<lambda>(k, lim) l. if count (bump k l) k > lim then Inl e else Inr (bump k l)) kls (bump k l) = Inr l'"
    by (auto simp: result_simps split: if_splits)
  have k: "k \<notin> fst ` set kls" and d: "distinct (map fst kls)" using Cons.prems(1) kl by auto
  note IH = Cons.IH [OF d rest]
  have same: "count l' k = count l k + 1" using IH k by (simp add: count_bump_same)
  have "count l' k' = count l k' + 1 \<and> count l' k' \<le> lim'" if "(k', lim') \<in> set kls" for k' lim'
  proof -
    have "k' \<noteq> k" using that k by force
    with IH that show ?thesis by (auto simp: count_bump_other)
  qed
  moreover have "count l' k' = count l k'" if "k' \<notin> fst ` set (kl # kls)" for k'
    using IH that kl count_bump_other [of k k' l] by auto
  ultimately show ?case using same le kl by (auto simp: count_bump_same)
qed simp

end

interpretation limits: counter_store "\<lambda>ls k. limit_count k ls" "\<lambda>k ls. bump_limit k e ls" for e
  by unfold_locales
    (auto simp: limit_count_def bump_limit_def find_by_append table_simps split: option.splits)

definition scope_keys ::
    "(string \<Rightarrow> string \<Rightarrow> string) \<Rightarrow> config \<Rightarrow> clock \<Rightarrow> uuid \<Rightarrow> string \<Rightarrow> (string \<times> int) list" where
  "scope_keys h cfg ck userId ip =
     map (\<lambda>(s, lim). (executionRateKey h (cf_EXECUTION_RATE_LIMIT_KEY cfg) (ck_host ck div 60000) s, lim))
       (admission_scopes cfg userId ip)"

lemma reserve_fold:
  assumes "fold_result (reserve_scope h cfg ck) sls d = Inr d'"
  shows "\<exists>e :: error. fold_result (\<lambda>(k, lim) ls.
           if limit_count k (bump_limit k ((ck_host ck div 60000 + 1) * 60000) ls) > lim then Inl e
           else Inr (bump_limit k ((ck_host ck div 60000 + 1) * 60000) ls))
         (map (\<lambda>(s, lim). (executionRateKey h (cf_EXECUTION_RATE_LIMIT_KEY cfg) (ck_host ck div 60000) s, lim)) sls)
         (db_executionLimits d) = Inr (db_executionLimits d')"
proof (rule exI)
  show "fold_result (\<lambda>(k, lim) ls.
           if limit_count k (bump_limit k ((ck_host ck div 60000 + 1) * 60000) ls) > lim then Inl ZodError
           else Inr (bump_limit k ((ck_host ck div 60000 + 1) * 60000) ls))
         (map (\<lambda>(s, lim). (executionRateKey h (cf_EXECUTION_RATE_LIMIT_KEY cfg) (ck_host ck div 60000) s, lim)) sls)
         (db_executionLimits d) = Inr (db_executionLimits d')"
    using assms
  proof (induction sls arbitrary: d)
    case (Cons sl sls)
    obtain s lim where sl: "sl = (s, lim)" by (cases sl)
    let ?k = "executionRateKey h (cf_EXECUTION_RATE_LIMIT_KEY cfg) (ck_host ck div 60000) s"
    let ?ls = "bump_limit ?k ((ck_host ck div 60000 + 1) * 60000) (db_executionLimits d)"
    from Cons.prems obtain d1 where d1: "reserve_scope h cfg ck sl d = Inr d1"
      "fold_result (reserve_scope h cfg ck) sls d1 = Inr d'"
      by (auto simp: bind_result_Inr)
    from d1(1) have "\<not> limit_count ?k ?ls > lim" "db_executionLimits d1 = ?ls"
      by (auto simp: reserve_scope_def sl Let_def split: if_splits)
    with Cons.IH [OF d1(2)] show ?case by (simp add: sl)
  qed simp
qed

lemma scope_keys_distinct:
  assumes "inj (h (cf_EXECUTION_RATE_LIMIT_KEY cfg))"
  shows "distinct (map fst (scope_keys h cfg ck userId ip))"
  by (simp add: scope_keys_def admission_scopes_def executionRateKey_def inj_eq [OF assms])

text \<open>
  A reservation that succeeds found the global capacity below its bound, raised the counters of
  the global, the address and the user scope of the current minute by exactly one, each still
  within its limit, and left every other counter alone.
\<close>

lemma reserve_quota:
  assumes "reserve h cfg ck userId ip d = Inr d'" and "inj (h (cf_EXECUTION_RATE_LIMIT_KEY cfg))"
  shows "int (length (active_rows d)) < cf_MAX_ACTIVE_JOBS_GLOBAL cfg \<and>
     list_all (\<lambda>(k, lim). limit_count k (db_executionLimits d') = limit_count k (db_executionLimits d) + 1 \<and>
        limit_count k (db_executionLimits d') \<le> lim) (scope_keys h cfg ck userId ip) \<and>
     (\<forall>k. k \<in> set (map fst (scope_keys h cfg ck userId ip)) \<or>
        limit_count k (db_executionLimits d') = limit_count k (db_executionLimits d))"
proof -
  from assms(1) have cap: "int (length (active_rows d)) < cf_MAX_ACTIVE_JOBS_GLOBAL cfg"
    and f: "fold_result (reserve_scope h cfg ck) (admission_scopes cfg userId ip) d = Inr d'"
    by (auto simp: reserve_def split: if_splits)
  from reserve_fold [OF f] obtain e :: error where "fold_result (\<lambda>(k, lim) ls.
           if limit_count k (bump_limit k ((ck_host ck div 60000 + 1) * 60000) ls) > lim then Inl e
           else Inr (bump_limit k ((ck_host ck div 60000 + 1) * 60000) ls))
         (scope_keys h cfg ck userId ip) (db_executionLimits d) = Inr (db_executionLimits d')"
    unfolding scope_keys_def by blast
  note b = limits.bump_all [OF scope_keys_distinct [where h = h and cfg = cfg, OF assms(2)] this]
  show ?thesis
    unfolding list_all_iff set_map using cap b by blast
qed

end
