(* ===== verification/Paging.thy ===== *)
theory Paging
  imports Prelude
begin

text \<open>
  Cursor pagination, newest first, as the listings of the API do it: \<open>findMany\<close> with the rows below
  the boundary in \<open>(createdAt, id)\<close> order, \<open>take: n + 1\<close>, the first \<open>n\<close> of them as items and the
  identifier of the last item as the next cursor when there were more.
\<close>

definition newest_rows :: "('r \<Rightarrow> 'k :: linorder) \<Rightarrow> 'k option \<Rightarrow> 'r list \<Rightarrow> 'r list" where
  "newest_rows key boundary rows =
     rev (sort_key key (filter (\<lambda>r. case boundary of None \<Rightarrow> True | Some b \<Rightarrow> key r < b) rows))"

definition page :: "nat \<Rightarrow> ('r \<Rightarrow> 'k :: linorder) \<Rightarrow> 'k option \<Rightarrow> 'r list \<Rightarrow> 'r list \<times> 'r option" where
  "page n key boundary rows =
     (let got = take (n + 1) (newest_rows key boundary rows); items = take n got
      in (items, if n < length got then Some (last items) else None))"

text \<open>A listing with the oldest rows first is the same over reversed keys.\<close>

datatype 'k reversed = Reversed (unreversed: 'k)

instantiation reversed :: (linorder) linorder
begin

definition less_eq_reversed :: "'a reversed \<Rightarrow> 'a reversed \<Rightarrow> bool" where
  "less_eq_reversed a b \<longleftrightarrow> unreversed b \<le> unreversed a"

definition less_reversed :: "'a reversed \<Rightarrow> 'a reversed \<Rightarrow> bool" where
  "less_reversed a b \<longleftrightarrow> unreversed b < unreversed a"

instance
  by standard (auto simp: less_eq_reversed_def less_reversed_def intro: reversed.expand)

end

lemma set_newest_rows:
  "set (newest_rows key b rows) = {r \<in> set rows. case b of None \<Rightarrow> True | Some k \<Rightarrow> key r < k}"
  by (simp add: newest_rows_def)

lemma sorted_newest_rows: "sorted_wrt (\<lambda>a b. key b \<le> key a) (newest_rows key b rows)"
  unfolding newest_rows_def sorted_wrt_rev using sorted_sort_key unfolding sorted_map .

lemma distinct_newest_rows:
  "distinct (map key rows) \<Longrightarrow> distinct (map key (newest_rows key b rows))"
  by (simp add: newest_rows_def rev_map [symmetric] distinct_map_filter)

lemma strict_newest_rows:
  assumes "distinct (map key rows)"
  shows "sorted_wrt (\<lambda>a b. key b < key a) (newest_rows key b rows)"
proof -
  have "sorted_wrt (\<lambda>a b. key b < key a) xs"
    if "distinct (map key xs)" "sorted_wrt (\<lambda>a b. key b \<le> key a) xs" for xs :: "'b list"
    using that by (induction xs) (auto simp: less_le, metis image_eqI)
  from this [OF distinct_newest_rows [OF assms] sorted_newest_rows] show ?thesis .
qed

text \<open>The rows below the last of the first \<open>n\<close> are the rows after them.\<close>

lemma newest_rows_after:
  assumes d: "distinct (map key rows)" and n: "0 < n" "n \<le> length (newest_rows key b rows)"
  shows "newest_rows key (Some (key (newest_rows key b rows ! (n - 1)))) rows =
     drop n (newest_rows key b rows)"
proof -
  let ?L = "newest_rows key b rows"
  let ?k = "key (?L ! (n - 1))"
  let ?R = "newest_rows key (Some ?k) rows"
  have sL: "sorted_wrt (\<lambda>a b. key b < key a) ?L" and sR: "sorted_wrt (\<lambda>a b. key b < key a) ?R"
    by (rule strict_newest_rows [OF d])+
  have pivot: "?L ! (n - 1) \<in> set ?L" using n by (intro nth_mem) linarith
  have "set ?R = set (drop n ?L)"
  proof (intro equalityI subsetI)
    fix r assume "r \<in> set ?R"
    then have r: "r \<in> set rows" "key r < ?k" by (simp_all add: set_newest_rows)
    with pivot have "r \<in> set ?L" by (auto simp: set_newest_rows split: option.splits)
    then obtain i where i: "i < length ?L" "?L ! i = r" by (auto simp: in_set_conv_nth)
    have "n \<le> i"
    proof (rule ccontr)
      assume "\<not> n \<le> i"
      then consider "i = n - 1" | "i < n - 1" by linarith
      then show False
      proof cases
        case 2
        with sL n have "?k < key r" using i by (auto simp: sorted_wrt_iff_nth_less)
        with r(2) show False by simp
      qed (use r i in auto)
    qed
    with i show "r \<in> set (drop n ?L)" by (auto simp: in_set_conv_nth intro!: exI [of _ "i - n"])
  next
    fix r assume "r \<in> set (drop n ?L)"
    then obtain i where "i < length (drop n ?L)" "drop n ?L ! i = r" unfolding in_set_conv_nth by blast
    then have i: "n + i < length ?L" "?L ! (n + i) = r" by simp_all
    with sL n have "key r < ?k" by (auto simp: sorted_wrt_iff_nth_less)
    moreover have "r \<in> set ?L" using i by auto
    ultimately show "r \<in> set ?R" by (simp add: set_newest_rows)
  qed
  moreover have "sorted_wrt (\<lambda>a b. key b < key a) (drop n ?L)" using sL by (rule sorted_wrt_drop)
  moreover have "xs = ys" if "set xs = set ys" "sorted_wrt (\<lambda>a b. key b < key a) xs"
    "sorted_wrt (\<lambda>a b. key b < key a) ys" for xs ys :: "'b list"
    using that
  proof (induction xs arbitrary: ys)
    case (Cons x xs)
    then obtain y zs where ys: "ys = y # zs" by (cases ys) auto
    have "x = y" using Cons.prems ys by (metis less_asym list.set_intros(1) set_ConsD sorted_wrt.simps(2))
    moreover have "set xs = set zs"
      using Cons.prems ys \<open>x = y\<close> by (auto simp: insert_eq_iff)
    ultimately show ?case using Cons ys by auto
  qed simp
  ultimately show ?thesis using sR by blast
qed

section \<open>Following the cursors\<close>

text \<open>
  A client that asks for the first page and follows the cursors until there is none; \<open>None\<close> when the
  fuel runs out or a request fails.
\<close>

primrec walk :: "('c option \<Rightarrow> ('i list \<times> 'c option) result) \<Rightarrow> nat \<Rightarrow> 'c option \<Rightarrow> 'i list option" where
  "walk fetch 0 c = None"
| "walk fetch (Suc fuel) c =
     (case fetch c of
        Inl e \<Rightarrow> None
      | Inr (items, nxt) \<Rightarrow>
          (case nxt of None \<Rightarrow> Some items | Some c' \<Rightarrow> map_option ((@) items) (walk fetch fuel (Some c'))))"

text \<open>
  What a paged listing promises: the first page and the page after any listed row are \<open>page\<close> of its
  rows, projected to items and identifiers, and keys identify rows. A client that follows the
  cursors then sees every row exactly once, newest first.
\<close>

locale paged_listing =
  fixes rows :: "'s \<Rightarrow> 'r list"
    and key :: "'r \<Rightarrow> 'k :: linorder"
    and ident :: "'r \<Rightarrow> 'c"
    and item :: "'s \<Rightarrow> 'r \<Rightarrow> 'i"
    and per_page :: nat
    and fetch :: "'s \<Rightarrow> 'c option \<Rightarrow> ('i list \<times> 'c option) result"
    and ok :: "'s \<Rightarrow> bool"
  assumes per_page: "0 < per_page"
    and first_page: "fetch s None =
      Inr (map_prod (map (item s)) (map_option ident) (page per_page key None (rows s)))"
    and next_page: "ok s \<Longrightarrow> r \<in> set (rows s) \<Longrightarrow> fetch s (Some (ident r)) =
      Inr (map_prod (map (item s)) (map_option ident) (page per_page key (Some (key r)) (rows s)))"
    and distinct_keys: "ok s \<Longrightarrow> distinct (map key (rows s))"
begin

lemma walk_complete:
  assumes "ok s" and "length (newest_rows key b (rows s)) < fuel"
    and "fetch s c = Inr (map_prod (map (item s)) (map_option ident) (page per_page key b (rows s)))"
  shows "walk (fetch s) fuel c = Some (map (item s) (newest_rows key b (rows s)))"
  using assms(2,3)
proof (induction fuel arbitrary: b c)
  case (Suc fuel)
  let ?L = "newest_rows key b (rows s)"
  show ?case
  proof (cases "per_page < length ?L")
    case False
    then have "page per_page key b (rows s) = (?L, None)" by (simp add: page_def)
    with Suc.prems(2) show ?thesis by simp
  next
    case True
    let ?r = "?L ! (per_page - 1)"
    have "last (take per_page ?L) = ?r"
      using True per_page by (subst last_conv_nth) (auto simp: min_def)
    then have page: "page per_page key b (rows s) = (take per_page ?L, Some ?r)"
      using True by (simp add: page_def min_def)
    have "?r \<in> set ?L" using True by (intro nth_mem) simp
    then have "?r \<in> set (rows s)" by (simp add: set_newest_rows)
    note nxt = next_page [OF assms(1) this]
    have after: "newest_rows key (Some (key ?r)) (rows s) = drop per_page ?L"
      using True per_page distinct_keys [OF assms(1)] by (intro newest_rows_after) simp_all
    from Suc.IH [OF _ nxt] Suc.prems(1) True per_page
    have "walk (fetch s) fuel (Some (ident ?r)) = Some (map (item s) (drop per_page ?L))"
      unfolding after by simp
    then show ?thesis using Suc.prems(2) page by (simp add: map_append [symmetric])
  qed
qed simp

lemma walk_everything:
  assumes "ok s" and "length (rows s) < fuel"
  shows "\<exists>seen. walk (fetch s) fuel None = Some (map (item s) seen) \<and> mset seen = mset (rows s) \<and>
           sorted_wrt (\<lambda>a b. key b < key a) seen"
proof (intro exI conjI)
  show "walk (fetch s) fuel None = Some (map (item s) (newest_rows key None (rows s)))"
    using assms by (intro walk_complete first_page) (simp_all add: newest_rows_def)
  show "mset (newest_rows key None (rows s)) = mset (rows s)" by (simp add: newest_rows_def)
  show "sorted_wrt (\<lambda>a b. key b < key a) (newest_rows key None (rows s))"
    by (rule strict_newest_rows [OF distinct_keys [OF assms(1)]])
qed

end

end
