(* ===== verification/Errors.thy ===== *)
theory Errors
  imports Prelude
begin

text \<open>
  The errors of the API (\<open>apps/api/src/common/errors.ts\<close>): \<open>validate\<close>, and the filter that turns
  everything a handler throws into a response. The identifier of the request and the log line are left
  out; the message is determined by the code.
\<close>

definition validate :: "'a option \<Rightarrow> 'a result" where
  "validate p = (case p of None \<Rightarrow> Inl (ApiError 400 ''INVALID_REQUEST'' None) | Some x \<Rightarrow> Inr x)"

lemma validate_Inr [result_simps]: "validate p = Inr x \<longleftrightarrow> p = Some x"
  by (simp add: validate_def split: option.splits)

text \<open>
  What reaches the filter: an error of the application, an \<open>HttpException\<close> of Nest that is not an
  \<open>ApiError\<close>, an object with a numeric \<open>status\<close> (the body parser), or anything else.
\<close>

datatype thrown =
    Thrown error
  | ThrownHttp nat
  | ThrownStatus nat
  | ThrownOther

record error_reply =
  er_status :: nat
  er_code :: string
  er_retryAfterSeconds :: "int option"

definition error_response :: "nat \<Rightarrow> string \<Rightarrow> int option \<Rightarrow> error_reply" where
  "error_response st c r = \<lparr>er_status = st, er_code = c, er_retryAfterSeconds = r\<rparr>"

definition internal_error :: error_reply where
  "internal_error = error_response 500 ''INTERNAL_ERROR'' None"

fun ErrorFilter_catch :: "thrown \<Rightarrow> error_reply" where
  "ErrorFilter_catch (Thrown (ApiError st c r)) =
     error_response st c (case r of Some s \<Rightarrow> if s = 0 then None else Some s | None \<Rightarrow> None)"
| "ErrorFilter_catch (Thrown _) = internal_error"
| "ErrorFilter_catch (ThrownHttp st) =
     error_response st (if st = 404 then ''NOT_FOUND'' else if st = 413 then ''PAYLOAD_TOO_LARGE''
       else ''INVALID_REQUEST'') None"
| "ErrorFilter_catch (ThrownStatus st) =
     (if st = 413 then error_response 413 ''PAYLOAD_TOO_LARGE'' None
      else if st = 400 then error_response 400 ''INVALID_JSON'' None
      else internal_error)"
| "ErrorFilter_catch ThrownOther = internal_error"

text \<open>Only application errors choose their code: a database or a schema error is never described.\<close>

lemma internal_errors_opaque:
  assumes "er_status (ErrorFilter_catch t) = 500"
    and "\<And>c r. t \<noteq> Thrown (ApiError 500 c r)" and "t \<noteq> ThrownHttp 500"
  shows "ErrorFilter_catch t = internal_error"
  using assms by (cases t rule: ErrorFilter_catch.cases)
    (auto simp: error_response_def internal_error_def split: if_splits)

end
