(* ===== verification/Executions.thy ===== *)
theory Executions
  imports Admission Paging JobSafety Errors
begin

text \<open>
  The executions API (\<open>apps/api/src/executions/executions.ts\<close>): creation with idempotency keys,
  snapshots, cancellation and the history of submissions. SHA-256 over the JSON text of the
  request is the parameter \<open>sha256\<close>; the identifier Prisma generates is an argument.
\<close>

record crypto =
  hmac :: "string \<Rightarrow> string \<Rightarrow> string"
  sha256 :: "json \<Rightarrow> string"

definition payload_json :: "create_execution \<Rightarrow> json" where
  "payload_json c =
     JArr [JStr (js (ce_problemId c)), JStr (js (language_name (ce_language c))),
           JStr (js (mode_name (ce_mode c))), JStr (ce_sourceCode c),
           (case ce_competitionSlug c of None \<Rightarrow> JNull | Some s \<Rightarrow> JStr (js s))]"

definition payloadHash :: "crypto \<Rightarrow> create_execution \<Rightarrow> string" where
  "payloadHash cr c = sha256 cr (payload_json c)"

section \<open>Creation\<close>

definition find_previous :: "uuid \<Rightarrow> string \<Rightarrow> db \<Rightarrow> execution option" where
  "find_previous userId key d =
     find (\<lambda>r. ex_userId r = userId \<and> ex_idempotencyKey r = key) (db_executions d)"

definition current_version :: "db \<Rightarrow> uuid \<Rightarrow> version option" where
  "current_version d p =
     (case find_problem d p of None \<Rightarrow> None
      | Some pr \<Rightarrow> (case pr_currentVersionId pr of None \<Rightarrow> None
          | Some v \<Rightarrow> (case find_version d v of None \<Rightarrow> None
              | Some vn \<Rightarrow> if vn_published vn then Some vn else None)))"

definition open_rounds :: "millis \<Rightarrow> uuid \<Rightarrow> uuid \<Rightarrow> db \<Rightarrow> competition_round list" where
  "open_rounds now competitionId problemId d =
     filter (\<lambda>r. rd_competitionId r = competitionId \<and> rd_startsAt r \<le> now \<and> now < rd_endsAt r \<and>
        (\<exists>c \<in> set (db_competitionProblems d). cb_roundId c = rd_id r \<and> cb_problemId c = problemId)) (db_rounds d)"

text \<open>The round a request for a competition runs in, or the refusal.\<close>

definition competition_round_of ::
    "millis \<Rightarrow> uuid \<Rightarrow> create_execution \<Rightarrow> db \<Rightarrow> uuid option result" where
  "competition_round_of now userId input d =
     (case ce_competitionSlug input of
        None \<Rightarrow> Inr None
      | Some slug \<Rightarrow>
          (case find (\<lambda>c. co_slug c = slug \<and> co_published c) (db_competitions d) of
             None \<Rightarrow> Inl NOT_FOUND
           | Some c \<Rightarrow>
               if now < co_startsAt c then Inl (ApiError 409 ''COMPETITION_NOT_STARTED'' None)
               else if co_endsAt c \<le> now then Inl (ApiError 409 ''COMPETITION_FINISHED'' None)
               else if \<not> (\<exists>g \<in> set (db_registrations d). rg_competitionId g = co_id c \<and> rg_userId g = userId)
               then Inl (ApiError 403 ''REGISTRATION_REQUIRED'' None)
               else (case open_rounds now (co_id c) (ce_problemId input) d of
                       [] \<Rightarrow> Inl (ApiError 409 ''ROUND_NOT_ACTIVE'' None)
                     | r # _ \<Rightarrow> Inr (Some (rd_id r)))))"

definition new_execution ::
    "config \<Rightarrow> crypto \<Rightarrow> clock \<Rightarrow> uuid \<Rightarrow> uuid \<Rightarrow> uuid \<Rightarrow> uuid option \<Rightarrow> create_execution \<Rightarrow> string \<Rightarrow> execution" where
  "new_execution cfg cr ck newId userId versionId roundId input key =
     \<lparr>ex_id = newId, ex_userId = userId, ex_problemVersionId = versionId, ex_competitionRoundId = roundId,
      ex_language = ce_language input, ex_mode = ce_mode input, ex_sourceCode = ce_sourceCode input,
      ex_payloadHash = payloadHash cr input, ex_idempotencyKey = key, ex_state = QUEUED,
      ex_verdict = None, ex_attempt = 0, ex_lastSequence = 0, ex_leaseToken = None,
      ex_leaseExpiresAt = None, ex_runtimeMs = None, ex_memoryKiB = None, ex_publicResults = None,
      ex_createdAt = ck_host ck, ex_finishedAt = None,
      ex_queueExpiresAt = ck_host ck + cf_QUEUE_TTL_SECONDS cfg * 1000, ex_failureCode = None,
      ex_cancellationRequestedAt = None\<rparr>"

text \<open>The writes of a creation, after every check has passed.\<close>

definition insert_execution :: "env \<Rightarrow> clock \<Rightarrow> execution \<Rightarrow> db \<Rightarrow> db result" where
  "insert_execution env ck row d =
     bind_result (create_execution_row row d) (\<lambda>d1.
     bind_result (event env ck row (ExecutionStatus QUEUED None) d1) (\<lambda>(seqn, d2).
     bind_result (update_execution ck (ex_id row) (\<lambda>r. r\<lparr>ex_lastSequence := seqn\<rparr>) d2) (\<lambda>d3.
       create_outbox ck (ex_id row, EXECUTION_CREATED, 0) d3)))"

definition user_active :: "uuid \<Rightarrow> db \<Rightarrow> execution list" where
  "user_active userId d = filter (\<lambda>r. ex_userId r = userId) (active_rows d)"

definition create ::
    "env \<Rightarrow> config \<Rightarrow> crypto \<Rightarrow> clock \<Rightarrow> uuid \<Rightarrow> uuid \<Rightarrow> create_execution \<Rightarrow> string \<Rightarrow> string \<Rightarrow> db \<Rightarrow> receipt tx"
  where
  "create env cfg cr ck newId userId input key ip d =
     (if \<not> cf_executionsEnabled cfg then Inl (ApiError 503 ''EXECUTIONS_DISABLED'' None)
      else case find_previous userId key d of
        Some previous \<Rightarrow>
          if ex_payloadHash previous \<noteq> payloadHash cr input
          then Inl (ApiError 409 ''IDEMPOTENCY_CONFLICT'' None)
          else Inr (\<lparr>rc_executionId = ex_id previous, rc_state = ex_state previous,
                     rc_cancellationRequested = None\<rparr>, d)
      | None \<Rightarrow>
          if cf_MAX_ACTIVE_JOBS_PER_USER cfg \<le> int (length (user_active userId d))
          then Inl (ApiError 429 ''ACTIVE_JOB_LIMIT'' (Some 5))
          else case current_version d (ce_problemId input) of
            None \<Rightarrow> Inl NOT_FOUND
          | Some v \<Rightarrow>
              bind_result (competition_round_of (ck_host ck) userId input d) (\<lambda>roundId.
              bind_result (reserve (hmac cr) cfg ck userId ip d) (\<lambda>d1.
                map_result (Pair \<lparr>rc_executionId = newId, rc_state = QUEUED, rc_cancellationRequested = None\<rparr>)
                  (insert_execution env ck
                     (new_execution cfg cr ck newId userId (vn_id v) roundId input key) d1))))"

text \<open>The route \<open>POST /executions\<close>: the byte cap is told apart from an invalid shape.\<close>

definition post_execution ::
    "env \<Rightarrow> config \<Rightarrow> crypto \<Rightarrow> clock \<Rightarrow> uuid \<Rightarrow> uuid \<Rightarrow> json \<Rightarrow> string option \<Rightarrow> string \<Rightarrow> db \<Rightarrow> receipt tx"
  where
  "post_execution env cfg cr ck newId userId body key ip d =
     (if (case member body ''sourceCode'' of Some (JStr s) \<Rightarrow> MAX_SOURCE_BYTES < byteLength s | _ \<Rightarrow> False)
      then Inl (ApiError 413 ''SOURCE_TOO_LARGE'' None)
      else bind_result (validate (createExecutionSchema (is_uuid env) body)) (\<lambda>input.
           bind_result (validate (idempotencyKeySchema key)) (\<lambda>k.
             create env cfg cr ck newId userId input k ip d)))"

section \<open>Snapshot, cancellation and history\<close>

definition snapshot_of :: "uuid \<Rightarrow> uuid \<Rightarrow> db \<Rightarrow> snapshot result" where
  "snapshot_of userId i d =
     (case find (\<lambda>r. ex_id r = i \<and> ex_userId r = userId) (db_executions d) of
        None \<Rightarrow> Inl NOT_FOUND
      | Some row \<Rightarrow>
          (case find_version d (ex_problemVersionId row) of
             None \<Rightarrow> Inl (DbError ''P2025'')
           | Some v \<Rightarrow> publicSnapshot row (vn_problemId v) (public_case_ids d (ex_problemVersionId row))))"

definition cancel_execution :: "env \<Rightarrow> config \<Rightarrow> clock \<Rightarrow> uuid \<Rightarrow> uuid \<Rightarrow> db \<Rightarrow> receipt tx" where
  "cancel_execution env cfg ck userId i d = cancel env ck userId i (cf_pipelineEnabled cfg) d"

record submission =
  sm_executionId :: uuid
  sm_problemId :: uuid
  sm_problemTitle :: jsstr
  sm_language :: language
  sm_state :: state
  sm_createdAt :: millis
  sm_verdict :: "verdict option"
  sm_runtimeMs :: "int option"
  sm_memoryKiB :: "int option"
  sm_failureCode :: "failure_code option"

definition version_problem :: "db \<Rightarrow> execution \<Rightarrow> uuid option" where
  "version_problem d r = map_option vn_problemId (find_version d (ex_problemVersionId r))"

definition history_scope :: "uuid \<Rightarrow> uuid option \<Rightarrow> db \<Rightarrow> execution \<Rightarrow> bool" where
  "history_scope userId problemId d r \<longleftrightarrow>
     ex_userId r = userId \<and> ex_mode r = SUBMIT \<and>
     (case problemId of None \<Rightarrow> True | Some p \<Rightarrow> version_problem d r = Some p)"

definition submission_of :: "db \<Rightarrow> execution \<Rightarrow> submission" where
  "submission_of d r =
     \<lparr>sm_executionId = ex_id r,
      sm_problemId = (case find_version d (ex_problemVersionId r) of None \<Rightarrow> [] | Some v \<Rightarrow> vn_problemId v),
      sm_problemTitle = (case find_version d (ex_problemVersionId r) of None \<Rightarrow> [] | Some v \<Rightarrow> vn_title v),
      sm_language = ex_language r, sm_state = ex_state r, sm_createdAt = ex_createdAt r,
      sm_verdict = ex_verdict r, sm_runtimeMs = ex_runtimeMs r, sm_memoryKiB = ex_memoryKiB r,
      sm_failureCode = ex_failureCode r\<rparr>"

definition history_rows :: "uuid \<Rightarrow> uuid option \<Rightarrow> db \<Rightarrow> execution list" where
  "history_rows userId problemId d = filter (history_scope userId problemId d) (db_executions d)"

definition history_key :: "execution \<Rightarrow> millis \<times> uuid" where
  "history_key r = (ex_createdAt r, ex_id r)"

definition history ::
    "uuid \<Rightarrow> uuid option \<Rightarrow> db \<Rightarrow> uuid option \<Rightarrow> (submission list \<times> uuid option) result" where
  "history userId problemId d cursor =
     (case cursor of
        None \<Rightarrow> Inr (map_prod (map (submission_of d)) (map_option ex_id)
                       (page 20 history_key None (history_rows userId problemId d)))
      | Some c \<Rightarrow>
          (case find (\<lambda>r. ex_id r = c \<and> history_scope userId problemId d r) (db_executions d) of
             None \<Rightarrow> Inl (ApiError 400 ''INVALID_CURSOR'' None)
           | Some b \<Rightarrow> Inr (map_prod (map (submission_of d)) (map_option ex_id)
                       (page 20 history_key (Some (history_key b)) (history_rows userId problemId d)))))"

section \<open>The history lists every submission once\<close>

lemma find_unique:
  assumes "distinct (map f xs)" and "r \<in> set xs" and "P r"
  shows "find (\<lambda>x. f x = f r \<and> P x) xs = Some r"
  using assms by (induction xs) (auto simp: image_iff)

interpretation submissions: paged_listing
  "\<lambda>(u, p, d). history_rows u p d" history_key ex_id "\<lambda>(u, p, d). submission_of d" 20
  "\<lambda>(u, p, d). history u p d" "\<lambda>(u, p, d). distinct (map ex_id (db_executions d))"
proof unfold_locales
  fix s :: "uuid \<times> uuid option \<times> db" and r
  obtain u p d where s: "s = (u, p, d)" by (cases s)
  assume ok: "case s of (u, p, d) \<Rightarrow> distinct (map ex_id (db_executions d))"
  then have ids: "distinct (map ex_id (history_rows u p d))"
    by (simp add: s history_rows_def distinct_map_filter)
  have "distinct (map snd (map history_key (history_rows u p d)))"
    using ids by (simp add: comp_def history_key_def)
  then show "distinct (map history_key (case s of (u, p, d) \<Rightarrow> history_rows u p d))"
    by (auto simp: s distinct_map dest: inj_on_imageI2)
  assume "r \<in> set (case s of (u, p, d) \<Rightarrow> history_rows u p d)"
  then have "find (\<lambda>x. ex_id x = ex_id r \<and> history_scope u p d x) (db_executions d) = Some r"
    using ok by (intro find_unique) (simp_all add: s history_rows_def)
  then show "(case s of (u, p, d) \<Rightarrow> history u p d) (Some (ex_id r)) =
      Inr (map_prod (map ((case s of (u, p, d) \<Rightarrow> submission_of d))) (map_option ex_id)
        (page 20 history_key (Some (history_key r)) (case s of (u, p, d) \<Rightarrow> history_rows u p d)))"
    by (simp add: s history_def)
qed (auto simp: history_def)

text \<open>
  C19. Following the cursors of the submission history lists every submission of the user (of the
  problem, if one is given) exactly once, in descending order of creation time and identifier, and
  the listing ends: as many requests as there are submissions, plus one, are enough.
\<close>

theorem history_complete:
  assumes "distinct (map ex_id (db_executions d))"
    and "length (history_rows userId problemId d) < fuel"
  shows "\<exists>seen. walk (history userId problemId d) fuel None = Some (map (submission_of d) seen) \<and>
     mset seen = mset (history_rows userId problemId d) \<and>
     sorted_wrt (\<lambda>a b. history_key b < history_key a) seen"
  using submissions.walk_everything [of "(userId, problemId, d)" fuel] assms by simp

section \<open>Creation keeps the invariant\<close>

lemma find_execution_append:
  "find_execution (d\<lparr>db_executions := db_executions d @ [r]\<rparr>) i =
     (case find_execution d i of Some x \<Rightarrow> Some x | None \<Rightarrow> if ex_id r = i then Some r else None)"
  by (simp add: find_execution_def find_by_append table_simps split: option.splits)

lemma create_row_good:
  assumes inv: "db_inv env d" and op: "create_execution_row r d = Inr d'"
    and ok: "execution_checks r \<Longrightarrow> row_ok env d r"
  shows "good_step env d d' \<and> find_execution d' (ex_id r) = Some r \<and>
     d' = d\<lparr>db_executions := db_executions d @ [r]\<rparr> \<and> find_execution d (ex_id r) = None"
proof -
  from op have d': "d' = d\<lparr>db_executions := db_executions d @ [r]\<rparr>"
    and fresh: "ex_id r \<notin> ex_id ` set (db_executions d)" and checks: "execution_checks r"
    and own: "owner_key r \<notin> owner_key ` set (db_executions d)"
    by (auto simp: create_execution_row_def result_simps owner_key_def split: if_splits)
  from fresh have none: "find_execution d (ex_id r) = None"
    unfolding find_execution_def by (simp add: find_by_None)
  have found: "find_execution d' i = Some x" if "find_execution d i = Some x" for i x
    using that by (simp add: d' find_execution_append)
  have keep: "keeps d d'" by (simp add: d' keeps_def)
  have "executions_inv env d'"
    using inv fresh own ok [OF checks]
    by (auto simp: d' db_inv_def executions_inv_def row_ok_def public_case_ids_def version_published_def)
  moreover have "events_inv env d'"
  proof -
    have "db_events d' = db_events d" "events_of d' = events_of d"
      by (auto simp: d' events_of_def)
    then show ?thesis
      using inv found unfolding db_inv_def events_inv_def by (auto simp: event_ok_keeps [OF keep])
  qed
  moreover have "outbox_inv d'"
    using inv found unfolding db_inv_def outbox_inv_def by (fastforce simp: d')
  moreover have "db_le d d'" unfolding db_le_def using found row_le_refl by blast
  ultimately show ?thesis
    using keep keeps_catalog [OF keep] inv none
    by (simp add: good_step_def db_inv_def d' find_execution_append)
qed

lemma insert_execution_good:
  assumes inv: "db_inv env d" and op: "insert_execution env ck row d = Inr d'"
    and q: "ex_state row = QUEUED" "ex_attempt row = 0" "ex_cancellationRequestedAt row = None"
      "ex_publicResults row = None" "is_uuid env (ex_id row)"
  shows "good_step env d d' \<and> find_execution d (ex_id row) = None \<and>
     find_execution d' (ex_id row) = Some (row\<lparr>ex_lastSequence := ex_lastSequence row + 1\<rparr>) \<and>
     find_outbox d' (ex_id row, EXECUTION_CREATED, 0) \<noteq> None"
proof -
  from op obtain d1 seqn d2 d3 where
    cr: "create_execution_row row d = Inr d1"
    and ev: "event env ck row (ExecutionStatus QUEUED None) d1 = Inr (seqn, d2)"
    and upd: "update_execution ck (ex_id row) (\<lambda>r. r\<lparr>ex_lastSequence := seqn\<rparr>) d2 = Inr d3"
    and ox: "create_outbox ck (ex_id row, EXECUTION_CREATED, 0) d3 = Inr d'"
    by (auto simp: insert_execution_def result_simps)
  have seqn: "seqn = ex_lastSequence row + 1" using ev by (simp add: event_Inr)
  have pub: "version_published d (ex_problemVersionId row)"
    using cr by (auto simp: create_execution_row_def split: if_splits)
  have "execution_checks row \<Longrightarrow> row_ok env d row" using q pub by (simp add: row_ok_def MAX_ATTEMPTS_def)
  from create_row_good [OF inv cr this] have g1: "good_step env d d1"
    and found: "find_execution d1 (ex_id row) = Some row" and none: "find_execution d (ex_id row) = None"
    by blast+
  then have inv1: "db_inv env d1" by (simp add: good_step_def)
  have "good_step env d1 d3 \<and> find_execution d3 (ex_id row) = Some (row\<lparr>ex_lastSequence := seqn\<rparr>) \<and>
      db_outbox d3 = db_outbox d1"
  proof (rule event_notify_update [OF inv1 found, where row = row and es = "db_events d1"
        and f = "\<lambda>r. r\<lparr>ex_lastSequence := seqn\<rparr>"])
    assume "execution_checks (row\<lparr>ex_lastSequence := seqn\<rparr>)"
    with q pub show "row_ok env d1 (row\<lparr>ex_lastSequence := seqn\<rparr>)"
      using g1 keeps_published [of d d1] by (simp add: row_ok_def MAX_ATTEMPTS_def good_step_def)
  qed (use ev upd seqn q in \<open>auto simp: fields_ok_def\<close>)
  then have g2: "good_step env d1 d3" and found3: "find_execution d3 (ex_id row) = Some (row\<lparr>ex_lastSequence := seqn\<rparr>)"
    by blast+
  then have g3: "good_step env d3 d'"
    by (intro create_outbox_good [OF _ ox]) (simp_all add: good_step_def)
  have "db_executions d' = db_executions d3" and "find_outbox d' (ex_id row, EXECUTION_CREATED, 0) \<noteq> None"
    using ox by (auto simp: create_outbox_def result_simps find_outbox_def find_by_append table_simps
        new_outbox_def ox_key_def split: if_splits option.splits)
  then show ?thesis
    using good_step_trans [OF good_step_trans [OF g1 g2] g3] found3 none seqn
    by (simp add: find_execution_def)
qed

lemma limits_good: "db_inv env d \<Longrightarrow> good_step env d (d\<lparr>db_executionLimits := ls\<rparr>)"
  by (simp add: good_step_def db_inv_def executions_inv_def row_ok_def public_case_ids_def version_published_def events_inv_def
      event_ok_def events_of_def outbox_inv_def catalog_inv_def db_le_def keeps_def find_execution_def)

lemma reserve_Inr:
  assumes "reserve h cfg ck userId ip d = Inr d'"
  shows "d' = d\<lparr>db_executionLimits := db_executionLimits d'\<rparr>"
    and "int (length (active_rows d)) < cf_MAX_ACTIVE_JOBS_GLOBAL cfg"
proof -
  from assms have f: "fold_result (reserve_scope h cfg ck) (admission_scopes cfg userId ip) d = Inr d'"
    and cap: "int (length (active_rows d)) < cf_MAX_ACTIVE_JOBS_GLOBAL cfg"
    by (auto simp: reserve_def split: if_splits)
  show "int (length (active_rows d)) < cf_MAX_ACTIVE_JOBS_GLOBAL cfg" by (rule cap)
  have "\<exists>ls. d = d\<lparr>db_executionLimits := ls\<rparr>" by (intro exI [of _ "db_executionLimits d"]) simp
  with f have "\<exists>ls. d' = d\<lparr>db_executionLimits := ls\<rparr>"
    by (rule fold_result_invariant) (auto simp: reserve_scope_def Let_def split: if_splits)
  then show "d' = d\<lparr>db_executionLimits := db_executionLimits d'\<rparr>" by auto
qed

text \<open>Inversion of a committed creation: a replay of an earlier one, or a new row.\<close>

lemma create_cases:
  assumes "create env cfg cr ck newId userId input key ip d = Inr (rcpt, d')"
  obtains (replayed) r where "find_previous userId key d = Some r" "d' = d"
      "ex_payloadHash r = payloadHash cr input"
      "rcpt = \<lparr>rc_executionId = ex_id r, rc_state = ex_state r, rc_cancellationRequested = None\<rparr>"
    | (created) v rd d1 where "find_previous userId key d = None"
      "int (length (user_active userId d)) < cf_MAX_ACTIVE_JOBS_PER_USER cfg"
      "current_version d (ce_problemId input) = Some v"
      "competition_round_of (ck_host ck) userId input d = Inr rd"
      "reserve (hmac cr) cfg ck userId ip d = Inr d1"
      "insert_execution env ck (new_execution cfg cr ck newId userId (vn_id v) rd input key) d1 = Inr d'"
      "rcpt = \<lparr>rc_executionId = newId, rc_state = QUEUED, rc_cancellationRequested = None\<rparr>"
  using assms
  by (auto simp: create_def result_simps not_le split: if_splits option.splits)

lemma create_good:
  assumes inv: "db_inv env d" and uuid: "is_uuid env newId"
    and op: "create env cfg cr ck newId userId input key ip d = Inr (rcpt, d')"
  shows "good_step env d d'"
  using op
proof (cases rule: create_cases)
  case (replayed r)
  with inv show ?thesis by (simp add: good_step_refl)
next
  case (created v rd d1)
  have g1: "good_step env d d1"
    using limits_good [OF inv, of "db_executionLimits d1"] reserve_Inr(1) [OF created(5)] by simp
  then have "db_inv env d1" by (simp add: good_step_def)
  from insert_execution_good [OF this created(6)] uuid have "good_step env d1 d'"
    by (simp add: new_execution_def)
  with g1 show ?thesis by (rule good_step_trans)
qed

section \<open>Capacity\<close>

lemma states_update_execution:
  assumes "update_execution ck i (\<lambda>r. r\<lparr>ex_lastSequence := n\<rparr>) d = Inr d'"
  shows "map (\<lambda>r. (ex_userId r, ex_state r)) (db_executions d') = map (\<lambda>r. (ex_userId r, ex_state r)) (db_executions d)"
  using assms by (auto simp: update_execution_Inr put_execution_def update_by_def)

lemma states_insert_execution:
  assumes "insert_execution env ck row d = Inr d'"
  shows "map (\<lambda>r. (ex_userId r, ex_state r)) (db_executions d') =
     map (\<lambda>r. (ex_userId r, ex_state r)) (db_executions d) @ [(ex_userId row, ex_state row)]"
proof -
  from assms obtain d1 seqn d2 d3 where
    cr: "create_execution_row row d = Inr d1"
    and ev: "event env ck row (ExecutionStatus QUEUED None) d1 = Inr (seqn, d2)"
    and upd: "update_execution ck (ex_id row) (\<lambda>r. r\<lparr>ex_lastSequence := seqn\<rparr>) d2 = Inr d3"
    and ox: "create_outbox ck (ex_id row, EXECUTION_CREATED, 0) d3 = Inr d'"
    by (auto simp: insert_execution_def result_simps)
  have "db_executions d1 = db_executions d @ [row]"
    using cr by (auto simp: create_execution_row_def result_simps split: if_splits)
  moreover have "db_executions d' = db_executions d3"
    using ox by (auto simp: create_outbox_def result_simps split: if_splits)
  ultimately show ?thesis
    using states_update_execution [OF upd] event_same_executions [OF ev] by simp
qed

lemma count_by_states:
  "length (filter (\<lambda>r. P (ex_userId r) (ex_state r)) rows) =
     length (filter (\<lambda>(u, s). P u s) (map (\<lambda>r. (ex_userId r, ex_state r)) rows))"
  by (simp add: filter_map comp_def)

text \<open>
  C18. A creation that commits a new execution leaves at most the configured number of active
  executions, of its user and over all users.
\<close>

theorem create_within_capacity:
  assumes "create env cfg cr ck newId userId input key ip d = Inr (rcpt, d')"
    and "find_previous userId key d = None"
  shows "int (length (active_rows d')) \<le> cf_MAX_ACTIVE_JOBS_GLOBAL cfg \<and>
     int (length (user_active userId d')) \<le> cf_MAX_ACTIVE_JOBS_PER_USER cfg \<and>
     length (active_rows d') = Suc (length (active_rows d))"
  using assms(1)
proof (cases rule: create_cases)
  case (created v rd d1)
  note st = states_insert_execution [OF created(6)]
  have d1: "db_executions d1 = db_executions d" by (subst reserve_Inr(1) [OF created(5)]) simp
  have "length (active_rows d') = Suc (length (active_rows d))"
    unfolding active_rows_def count_by_states [of "\<lambda>u s. s \<in> set activeStates"] st d1
    by (simp add: new_execution_def activeStates_def)
  moreover have "length (user_active userId d') = Suc (length (user_active userId d))"
    unfolding active_rows_def user_active_def filter_filter
      count_by_states [of "\<lambda>u s. s \<in> set activeStates \<and> u = userId"] st d1
    by (simp add: new_execution_def activeStates_def)
  ultimately show ?thesis using created(2) reserve_Inr(2) [OF created(5)] by simp
qed (use assms(2) in simp)

section \<open>Previous requests\<close>

lemma find_previous_unique:
  assumes "db_inv env d" and "r \<in> set (db_executions d)"
  shows "find_previous (ex_userId r) (ex_idempotencyKey r) d = Some r"
proof -
  have "distinct (map owner_key (db_executions d))" using assms(1) by (simp add: db_inv_def executions_inv_def)
  from find_unique [OF this assms(2), of "\<lambda>_. True"] show ?thesis
    by (simp add: find_previous_def owner_key_def)
qed

lemma find_previous_Some:
  "find_previous u k d = Some r \<Longrightarrow> r \<in> set (db_executions d) \<and> ex_userId r = u \<and> ex_idempotencyKey r = k"
  by (auto simp: find_previous_def find_Some_iff)

lemma create_row:
  assumes inv: "db_inv env d" and uuid: "is_uuid env newId"
    and op: "create env cfg cr ck newId userId input key ip d = Inr (rcpt, d')"
  shows "\<exists>r. find_execution d' (rc_executionId rcpt) = Some r \<and> ex_userId r = userId \<and>
     ex_idempotencyKey r = key \<and> ex_payloadHash r = payloadHash cr input"
  using op
proof (cases rule: create_cases)
  case (replayed r)
  have "find_execution d (ex_id r) = Some r"
    using find_previous_Some [OF replayed(1)] inv
    by (intro find_execution_in) (simp_all add: db_inv_def executions_inv_def)
  with replayed find_previous_Some [OF replayed(1)] show ?thesis by simp
next
  case (created v rd d1)
  have "good_step env d d1"
    using limits_good [OF inv, of "db_executionLimits d1"] reserve_Inr(1) [OF created(5)] by simp
  then have "db_inv env d1" by (simp add: good_step_def)
  from insert_execution_good [OF this created(6)] uuid created(7) show ?thesis
    by (simp add: new_execution_def)
qed

end
