(* ===== verification/QueuedMaintenance.thy ===== *)
theory QueuedMaintenance
  imports JobSafety
begin

text \<open>
  Expiry of queued executions and the maintenance tick of the API process
  (\<open>apps/api/src/executions/queued-maintenance.ts\<close>). A tick is three transactions in sequence; an
  error ends it, and what was committed before stays.
\<close>

definition EXPIRY_BATCH_SIZE :: nat where "EXPIRY_BATCH_SIZE = 100"

definition expired_queued :: "schedule \<Rightarrow> clock \<Rightarrow> db \<Rightarrow> execution list" where
  "expired_queued sc ck d =
     take EXPIRY_BATCH_SIZE (sort_key (\<lambda>r. (ex_queueExpiresAt r, ex_id r))
       (filter (\<lambda>r. ex_state r = QUEUED \<and> ex_queueExpiresAt r \<le> ck_host ck \<and> \<not> sc_locked sc (ex_id r))
          (db_executions d)))"

definition expire_update :: "clock \<Rightarrow> int \<Rightarrow> execution \<Rightarrow> execution" where
  "expire_update ck seqn r =
     r\<lparr>ex_state := INTERNAL_ERROR, ex_verdict := Some V_INTERNAL_ERROR, ex_failureCode := Some QUEUE_TIMEOUT,
       ex_finishedAt := Some (ck_host ck), ex_lastSequence := seqn\<rparr>"

definition expire_row :: "env \<Rightarrow> clock \<Rightarrow> execution \<Rightarrow> db \<Rightarrow> db result" where
  "expire_row env ck row d =
     bind_result (event env ck row (FinalVerdict INTERNAL_ERROR V_INTERNAL_ERROR (Some QUEUE_TIMEOUT)) d) (\<lambda>(seqn, d1).
       update_execution ck (ex_id row) (expire_update ck seqn) d1)"

definition expireQueuedJobs :: "env \<Rightarrow> schedule \<Rightarrow> clock \<Rightarrow> db \<Rightarrow> nat tx" where
  "expireQueuedJobs env sc ck d =
     (let expired = expired_queued sc ck d
      in if expired = [] then Inr (0, d)
         else bind_result (fold_result (expire_row env ck) expired d) (\<lambda>d1.
              map_result (Pair (length expired))
                (fold_result (\<lambda>r. create_outbox ck (ex_id r, EXECUTION_EXPIRED, 0)) expired d1)))"

definition purge_limits :: "clock \<Rightarrow> db \<Rightarrow> db" where
  "purge_limits ck d =
     d\<lparr>db_executionLimits := filter (\<lambda>l. ck_host ck < rl_expiresAt l) (db_executionLimits d)\<rparr>"

text \<open>The tick with the clocks of its three transactions; the flag tells whether it failed.\<close>

definition tick :: "env \<Rightarrow> schedule \<Rightarrow> clock \<Rightarrow> clock \<Rightarrow> clock \<Rightarrow> db \<Rightarrow> bool \<times> db" where
  "tick env sc ck1 ck2 ck3 d =
     (case expireQueuedJobs env sc ck1 d of
        Inl e \<Rightarrow> (True, d)
      | Inr (n, d1) \<Rightarrow>
          (case maintain env sc ck2 d1 of
             Inl e \<Rightarrow> (True, d1)
           | Inr d2 \<Rightarrow> (False, purge_limits ck3 d2)))"

section \<open>Expiry keeps the invariant\<close>

lemma request_of_expire [simp]: "request_of (expire_update ck n r) = request_of r"
  by (simp add: expire_update_def)

lemma expire_row_effect:
  assumes inv: "db_inv env d" and row: "find_execution d (ex_id row) = Some row"
    and q: "ex_state row = QUEUED" and op: "expire_row env ck row d = Inr d'"
  shows "good_step env d d' \<and> (\<forall>j. j \<noteq> ex_id row \<longrightarrow> find_execution d' j = find_execution d j) \<and>
     find_execution d' (ex_id row) = Some (expire_update ck (ex_lastSequence row + 1) row) \<and>
     db_outbox d' = db_outbox d"
proof -
  from op obtain n d1 where
    ev: "event env ck row (FinalVerdict INTERNAL_ERROR V_INTERNAL_ERROR (Some QUEUE_TIMEOUT)) d = Inr (n, d1)"
    and upd: "update_execution ck (ex_id row) (expire_update ck n) d1 = Inr d'"
    by (auto simp: expire_row_def result_simps)
  have n: "n = ex_lastSequence row + 1" using ev by (simp add: event_Inr)
  note ok = db_inv_row [OF inv row]
  have "good_step env d d' \<and> find_execution d' (ex_id row) = Some (expire_update ck n row) \<and>
      db_outbox d' = db_outbox d"
  proof (rule event_notify_update [OF inv row, where row = row and es = "db_events d" and f = "expire_update ck n"])
    assume "execution_checks (expire_update ck n row)"
    then show "row_ok env d (expire_update ck n row)"
      using row_okD [OF ok] by (intro row_ok_of_update [OF ok]) (auto simp: expire_update_def)
  qed (use ev upd n in \<open>auto simp: fields_ok_def expire_update_def\<close>)
  moreover have "find_execution d' j = find_execution d j" if "j \<noteq> ex_id row" for j
    using update_other [OF upd that] event_same_executions [OF ev]
    by (simp add: expire_update_def find_execution_def)
  ultimately show ?thesis using n by blast
qed

lemma expired_queued_selected:
  assumes "db_inv env d"
  shows "distinct (map ex_id (expired_queued sc ck d))"
    and "r \<in> set (expired_queued sc ck d) \<Longrightarrow> find_execution d (ex_id r) = Some r \<and> ex_state r = QUEUED"
proof -
  have d: "distinct (map ex_id (db_executions d))" using assms by (simp add: db_inv_def executions_inv_def)
  show "distinct (map ex_id (expired_queued sc ck d))"
    unfolding expired_queued_def take_map [symmetric]
    by (rule distinct_take) (simp only: distinct_map_sort_key distinct_map_filter [OF d])
  assume "r \<in> set (expired_queued sc ck d)"
  then show "find_execution d (ex_id r) = Some r \<and> ex_state r = QUEUED"
    using find_execution_in [OF d] by (auto simp: expired_queued_def dest: in_set_takeD)
qed

lemma db_le_terminal:
  "db_le d d' \<Longrightarrow> find_execution d i = Some r \<Longrightarrow> isTerminal (ex_state r) \<Longrightarrow> find_execution d' i = Some r"
  unfolding db_le_def row_le_def by fastforce

lemma expire_fold:
  assumes "db_inv env d" and "distinct (map ex_id rows)"
    and "\<forall>r \<in> set rows. find_execution d (ex_id r) = Some r \<and> ex_state r = QUEUED"
    and "fold_result (expire_row env ck) rows d = Inr d'"
  shows "good_step env d d' \<and>
     (\<forall>r \<in> set rows. find_execution d' (ex_id r) = Some (expire_update ck (ex_lastSequence r + 1) r))"
  using assms
proof (induction rows arbitrary: d)
  case Nil
  then show ?case by (simp add: good_step_refl)
next
  case (Cons r rows)
  then obtain d1 where d1: "expire_row env ck r d = Inr d1" "fold_result (expire_row env ck) rows d1 = Inr d'"
    by (auto simp: result_simps)
  have r: "find_execution d (ex_id r) = Some r" "ex_state r = QUEUED" using Cons.prems(3) by simp_all
  from expire_row_effect [OF Cons.prems(1) r d1(1)] have g: "good_step env d d1"
    and other: "\<And>j. j \<noteq> ex_id r \<Longrightarrow> find_execution d1 j = find_execution d j"
    and fin: "find_execution d1 (ex_id r) = Some (expire_update ck (ex_lastSequence r + 1) r)" by auto
  have "good_step env d1 d' \<and>
      (\<forall>x \<in> set rows. find_execution d' (ex_id x) = Some (expire_update ck (ex_lastSequence x + 1) x))"
  proof (rule Cons.IH [OF _ _ _ d1(2)])
    show "\<forall>x \<in> set rows. find_execution d1 (ex_id x) = Some x \<and> ex_state x = QUEUED"
      using Cons.prems(2,3) other by (auto simp: image_iff)
  qed (use g Cons.prems(2) in \<open>simp_all add: good_step_def\<close>)
  moreover from this have "find_execution d' (ex_id r) = Some (expire_update ck (ex_lastSequence r + 1) r)"
    by (intro db_le_terminal [OF _ fin]) (simp_all add: good_step_def expire_update_def)
  ultimately show ?case using good_step_trans [OF g] by simp
qed

lemma create_outbox_executions: "create_outbox ck k d = Inr d' \<Longrightarrow> db_executions d' = db_executions d"
  by (auto simp: create_outbox_def result_simps split: if_splits)

lemma expired_outbox_fold:
  assumes "db_inv env d"
    and "\<forall>r \<in> set rows. \<exists>x. find_execution d (ex_id r) = Some x \<and> isTerminal (ex_state x)"
    and "fold_result (\<lambda>r. create_outbox ck (ex_id r, EXECUTION_EXPIRED, 0)) rows d = Inr d'"
  shows "good_step env d d' \<and> db_executions d' = db_executions d"
  using assms
proof (induction rows arbitrary: d)
  case Nil
  then show ?case by (simp add: good_step_refl)
next
  case (Cons r rows)
  then obtain d1 where d1: "create_outbox ck (ex_id r, EXECUTION_EXPIRED, 0) d = Inr d1"
    "fold_result (\<lambda>r. create_outbox ck (ex_id r, EXECUTION_EXPIRED, 0)) rows d1 = Inr d'"
    by (auto simp: result_simps)
  have g: "good_step env d d1"
    using Cons.prems(2) by (intro create_outbox_good [OF Cons.prems(1) d1(1)]) auto
  have same: "find_execution d1 i = find_execution d i" for i
    using create_outbox_executions [OF d1(1)] by (simp add: find_execution_def)
  have "good_step env d1 d' \<and> db_executions d' = db_executions d1"
    using Cons.prems(2) g by (intro Cons.IH [OF _ _ d1(2)]) (simp_all add: same good_step_def)
  with g create_outbox_executions [OF d1(1)] show ?case by (auto intro: good_step_trans)
qed

lemma expireQueuedJobs_effect:
  assumes inv: "db_inv env d" and op: "expireQueuedJobs env sc ck d = Inr (n, d')"
  shows "good_step env d d' \<and> n = length (expired_queued sc ck d) \<and>
     (\<forall>r \<in> set (expired_queued sc ck d).
        find_execution d' (ex_id r) = Some (expire_update ck (ex_lastSequence r + 1) r))"
proof (cases "expired_queued sc ck d = []")
  case True
  with op inv show ?thesis by (simp add: expireQueuedJobs_def good_step_refl)
next
  case False
  let ?E = "expired_queued sc ck d"
  from op False obtain d1 where d1: "fold_result (expire_row env ck) ?E d = Inr d1"
    and d': "fold_result (\<lambda>r. create_outbox ck (ex_id r, EXECUTION_EXPIRED, 0)) ?E d1 = Inr d'"
    and n: "n = length ?E"
    by (auto simp: expireQueuedJobs_def result_simps Let_def)
  note sel = expired_queued_selected [OF inv, where sc = sc and ck = ck]
  from expire_fold [OF inv sel(1) _ d1] sel(2) have g: "good_step env d d1"
    and fin: "\<forall>r \<in> set ?E. find_execution d1 (ex_id r) = Some (expire_update ck (ex_lastSequence r + 1) r)"
    by auto
  have "good_step env d1 d' \<and> db_executions d' = db_executions d1"
    using g fin by (intro expired_outbox_fold [OF _ _ d']) (auto simp: good_step_def expire_update_def)
  with g fin n show ?thesis by (auto simp: find_execution_def intro: good_step_trans)
qed

text \<open>
  A committed expiry pass ends every selected queued execution with the internal error
  \<open>QUEUE_TIMEOUT\<close>, keeps its request, and reports their number; the selection takes the queued
  executions past their deadline that no other transaction holds, at most a hundred, oldest first.
\<close>

lemma expireQueuedJobs_expires:
  assumes "db_inv env d" and "expireQueuedJobs env sc ck d = Inr (n, d')"
    and "r \<in> set (expired_queued sc ck d)"
  shows "find_execution d' (ex_id r) = Some (expire_update ck (ex_lastSequence r + 1) r) \<and>
     ex_state r = QUEUED \<and> ex_queueExpiresAt r \<le> ck_host ck \<and> n \<le> 100"
  using expireQueuedJobs_effect [OF assms(1,2)] assms(3)
  by (auto simp: expired_queued_def EXPIRY_BATCH_SIZE_def dest: in_set_takeD)

end
