(* ===== verification/Pipeline.thy ===== *)
theory Pipeline
  imports Executions QueuedMaintenance Queue
begin

text \<open>
  The execution pipeline as a transition system: any interleaving of the transactions of the API
  (creation, cancellation), of the workers (the operations of the job store under any lease), of the
  maintenance passes and of the outbox dispatcher, with any clocks and any choice of the database.
\<close>

section \<open>The system\<close>

definition initial :: "db \<Rightarrow> bool" where
  "initial d \<longleftrightarrow> db_executions d = [] \<and> db_events d = [] \<and> db_outbox d = [] \<and> catalog_inv d"

inductive pipeline_step :: "env \<Rightarrow> config \<Rightarrow> db \<Rightarrow> db \<Rightarrow> bool" for env cfg where
  step_create: "create env cfg cr ck newId u input key ip d = Inr (rcpt, d') \<Longrightarrow> is_uuid env newId \<Longrightarrow>
     pipeline_step env cfg d d'"
| step_cancel: "cancel_execution env cfg ck u i d = Inr (rcpt, d') \<Longrightarrow> pipeline_step env cfg d d'"
| step_claim: "claim env ck token i d = Inr (res, d') \<Longrightarrow> pipeline_step env cfg d d'"
| step_renew: "renew ck l d = Inr (rn, d') \<Longrightarrow> pipeline_step env cfg d d'"
| step_markRunning: "markRunning env ck l d = Inr (b, d') \<Longrightarrow> pipeline_step env cfg d d'"
| step_console: "console env ck l c strm s d = Inr (b, d') \<Longrightarrow> pipeline_step env cfg d d'"
| step_finish: "finish env ck l result d = Inr (b, d') \<Longrightarrow> pipeline_step env cfg d d'"
| step_fail: "fail env ck l cleanup d = Inr (b, d') \<Longrightarrow> pipeline_step env cfg d d'"
| step_recover: "recover env ck l d = Inr (b, d') \<Longrightarrow> pipeline_step env cfg d d'"
| step_maintain: "maintain env sc ck d = Inr d' \<Longrightarrow> pipeline_step env cfg d d'"
| step_expire: "expireQueuedJobs env sc ck d = Inr (n, d') \<Longrightarrow> pipeline_step env cfg d d'"
| step_limits: "pipeline_step env cfg d (purge_limits ck d)"
| step_intents: "pipeline_step env cfg d (snd (claim_intents sc ck token d))"
| step_dispatch: "pipeline_step env cfg d (snd (dispatch_intent add ck token x ((), d)))"

lemma pipeline_step_good:
  assumes "pipeline_step env cfg d d'" and "db_inv env d" and "env_ok env"
  shows "good_step env d d'"
  using assms
proof (induction rule: pipeline_step.induct)
  case (step_cancel ck u i d rcpt d')
  then show ?case by (auto simp: cancel_execution_def intro: cancel_good)
next
  case (step_limits d ck)
  then show ?case by (simp add: purge_limits_def limits_good)
next
  case (step_expire sc ck d n d')
  then show ?case using expireQueuedJobs_effect by blast
qed (auto intro: create_good claim_good renew_good markRunning_good console_good finish_good fail_good
    recover_good maintain_good claim_intents_good dispatch_intent_good)

interpretation pipeline: invariant_system initial "pipeline_step env cfg" "\<lambda>d. env_ok env \<longrightarrow> db_inv env d"
  for env cfg
proof unfold_locales
  show "env_ok env \<longrightarrow> db_inv env d" if "initial d" for d
    using that
    by (auto simp: initial_def db_inv_def executions_inv_def events_inv_def events_of_def outbox_inv_def
        REPLAY_BYTES_def)
  show "env_ok env \<longrightarrow> db_inv env d'" if "env_ok env \<longrightarrow> db_inv env d" "pipeline_step env cfg d d'" for d d'
    using that pipeline_step_good by (auto simp: good_step_def)
qed

lemma steps_good:
  assumes "(pipeline_step env cfg)\<^sup>*\<^sup>* d d'" and "db_inv env d" and "env_ok env"
  shows "db_inv env d' \<and> db_le d d'"
proof
  show "db_inv env d'" using pipeline.steps_inv [OF assms(1)] assms(2,3) by blast
  show "db_le d d'"
    using assms(1)
  proof (rule pipeline.steps_relation [where R = db_le])
    show "db_le s t" if "env_ok env \<longrightarrow> db_inv env s" "pipeline_step env cfg s t" for s t
      using that assms(3) pipeline_step_good by (auto simp: good_step_def)
  qed (use assms in \<open>auto intro: db_le_trans\<close>)
qed

lemma reachable_inv:
  "reach initial (pipeline_step env cfg) d \<Longrightarrow> env_ok env \<Longrightarrow> db_inv env d"
  using pipeline.reach_inv by blast

lemma steps_row:
  assumes "(pipeline_step env cfg)\<^sup>*\<^sup>* d d'" and "reach initial (pipeline_step env cfg) d" and "env_ok env"
    and "find_execution d i = Some old"
  obtains new where "find_execution d' i = Some new" and "row_le old new"
  using steps_good [OF assms(1) reachable_inv [OF assms(2,3)] assms(3)] assms(4) unfolding db_le_def by blast

section \<open>Invariants of reachable databases\<close>

text \<open>
  C11. In every reachable database each execution satisfies the table's constraints, was attempted at
  most three times, is not yet attempted while queued, and holds a lease exactly while it is
  compiling or running, a lease that ends by the execution's deadline.
\<close>

theorem reachable_executions:
  assumes "reach initial (pipeline_step env cfg) d" and "env_ok env" and "find_execution d i = Some r"
  shows "execution_checks r \<and> 0 \<le> ex_attempt r \<and> ex_attempt r \<le> 3 \<and>
     (ex_state r = QUEUED \<longrightarrow> ex_attempt r = 0) \<and>
     (ex_leaseToken r \<noteq> None \<longleftrightarrow> ex_state r \<in> {COMPILING, RUNNING}) \<and>
     opt_all (\<lambda>t. t \<le> ex_queueExpiresAt r + 600000) (ex_leaseExpiresAt r)"
proof -
  have ok: "row_ok env d r" by (rule db_inv_row [OF reachable_inv [OF assms(1,2)] assms(3)])
  note r = row_okD [OF ok]
  have pair: "valid_execution_lease_pair r" using r(3) by (simp add: execution_checks_def)
  then have "ex_leaseToken r \<noteq> None \<longleftrightarrow> ex_state r \<in> {COMPILING, RUNNING}"
    using r(6) by (auto simp: valid_execution_lease_pair_def leased_def)
  moreover have "opt_all (\<lambda>t. t \<le> ex_queueExpiresAt r + 600000) (ex_leaseExpiresAt r)"
    using pair r(6) by (auto simp: valid_execution_lease_pair_def leased_def deadline_def opt_all_def)
  ultimately show ?thesis using r by (simp add: MAX_ATTEMPTS_def)
qed

text \<open>
  C12. In every reachable database the public events of an execution are of its current attempt, at
  most its last sequence number, at most 256 rows and 256 KiB together, and carry no console output
  of a submission nor of a case that is not a public case of the pinned version.
\<close>

theorem reachable_events:
  assumes "reach initial (pipeline_step env cfg) d" and "env_ok env" and "find_execution d i = Some r"
  shows "length (events_of d i) \<le> 256 \<and> sum_list (map ev_bytes (events_of d i)) \<le> 256 * 1024 \<and>
     list_all (\<lambda>e. ev_attempt e = ex_attempt r \<and> 0 < ev_sequence e \<and> ev_sequence e \<le> ex_lastSequence r \<and>
        (case pe_fields (ev_payload e) of
           ConsoleOutput c _ _ \<Rightarrow> ex_mode r = RUN \<and> c \<in> set (public_case_ids d (ex_problemVersionId r))
         | _ \<Rightarrow> True)) (events_of d i)"
proof -
  have inv: "events_inv env d" using reachable_inv [OF assms(1,2)] by (simp add: db_inv_def)
  have "event_ok env d r e" if "e \<in> set (events_of d i)" for e
    using that by (intro events_inv_row [OF inv assms(3)]) (simp_all add: events_of_def)
  with inv show ?thesis
    by (auto simp: events_inv_def REPLAY_ROWS_def REPLAY_BYTES_def list_all_iff event_ok_def safe_event_def)
qed

text \<open>
  C13. In every reachable database the stored results are of runs only, each of a public case of the
  pinned version and with streams free of control and bidirectional characters.
\<close>

theorem reachable_results_public:
  assumes "reach initial (pipeline_step env cfg) d" and "env_ok env" and "find_execution d i = Some r"
    and "ex_publicResults r = Some cs"
  shows "ex_mode r = RUN \<and>
     list_all (\<lambda>c. cr_caseId c \<in> set (public_case_ids d (ex_problemVersionId r)) \<and> clean_streams c) cs"
proof -
  have ok: "row_ok env d r" by (rule db_inv_row [OF reachable_inv [OF assms(1,2)] assms(3)])
  then show ?thesis using assms(4) by (simp add: row_ok_def execution_checks_def)
qed

section \<open>What no later transaction undoes\<close>

text \<open>
  C2. A terminal execution is final: after any further transactions, of any processes, its row is
  the same.
\<close>

theorem terminal_final:
  assumes "reach initial (pipeline_step env cfg) d" and "env_ok env"
    and "(pipeline_step env cfg)\<^sup>*\<^sup>* d d'" and "find_execution d i = Some r" and "isTerminal (ex_state r)"
  shows "find_execution d' i = Some r"
  using steps_row [OF assms(3,1,2,4)] assms(5) unfolding row_le_def by metis

text \<open>
  C14. Once the owner has asked for cancellation of a live execution it never finishes with a
  verdict: whatever happens afterwards, it is still active or ended cancelled or with an internal error, and
  the request is still recorded.
\<close>

theorem cancellation_sticks:
  assumes "reach initial (pipeline_step env cfg) d" and "env_ok env"
    and "(pipeline_step env cfg)\<^sup>*\<^sup>* d d'" and "find_execution d i = Some r"
    and "ex_cancellationRequestedAt r = Some t" and "ex_state r \<noteq> FINISHED"
  shows "\<exists>r'. find_execution d' i = Some r' \<and> ex_state r' \<noteq> FINISHED \<and>
     ex_cancellationRequestedAt r' = Some t"
proof -
  from steps_row [OF assms(3,1,2,4)] obtain r' where "find_execution d' i = Some r'" "row_le r r'" .
  with assms(5,6) show ?thesis by (auto simp: row_le_def)
qed


section \<open>Fencing\<close>

lemma stale_invalid: "find_execution d i = Some r \<Longrightarrow> le_attempt l < ex_attempt r \<Longrightarrow> \<not> valid now r l"
  by (simp add: valid_def)

text \<open>
  C3. A worker whose attempt has been superseded is fenced off for good: from then on, after any
  further transactions and whatever its clock says, its heartbeat is answered \<open>LOST\<close> and its other
  calls report \<open>false\<close>, all without a change of the database.
\<close>

theorem stale_lease_fenced:
  assumes "reach initial (pipeline_step env cfg) d" and "env_ok env"
    and "(pipeline_step env cfg)\<^sup>*\<^sup>* d d'" and "find_execution d (le_executionId l) = Some r"
    and "le_attempt l < ex_attempt r"
  shows "renew ck l d' = Inr (LOST, d') \<and> markRunning env ck l d' = Inr (False, d') \<and>
     fail env ck l cleanup d' = Inr (False, d') \<and> recover env ck l d' = Inr (False, d') \<and>
     console env ck l c strm s d' \<in> {Inr (False, d'), Inl (PlainError ''INVALID_PUBLIC_OUTPUT'')} \<and>
     finish env ck l result d' \<in> {Inr (False, d'), Inl ZodError, Inl (PlainError ''PUBLIC_RESULT_TOO_LARGE'')}"
proof -
  from steps_row [OF assms(3,1,2,4)] obtain r' where r': "find_execution d' (le_executionId l) = Some r'"
    and "row_le r r'" .
  with assms(5) have "le_attempt l < ex_attempt r'" by (simp add: row_le_def)
  then have "\<not> valid (ck_db ck) r' l" by (simp add: valid_def)
  with r' show ?thesis
    by (simp add: renew_def markRunning_def fail_def recover_def console_def finish_def locked_def)
qed

section \<open>Claims exclude each other\<close>

lemma claim_effect:
  assumes inv: "db_inv env d" and op: "claim env ck token i d = Inr (Some (l, ex), d')"
  shows "\<exists>row. find_execution d i = Some row \<and> ex = claim_row ck token row 1 row \<and>
     find_execution d' i = Some ex \<and>
     l = \<lparr>le_executionId = i, le_attempt = ex_attempt row + 1, le_token = token\<rparr> \<and>
     (ex_state row = QUEUED \<or> opt_all (\<lambda>t. t \<le> ck_db ck) (ex_leaseExpiresAt row)) \<and>
     ck_db ck < deadline row \<and> ex_cancellationRequestedAt row = None \<and> \<not> isTerminal (ex_state row)"
  using op
proof (cases rule: claim_cases)
  case (claimed row seqn d2)
  have seqn: "seqn = 1" using claimed(7) by (simp add: event_Inr)
  have "find_execution d2 i = Some row"
    using claimed(1,7) by (auto simp: event_Inr find_execution_def)
  moreover have "d' = put_execution i (claim_row ck token row seqn) d2"
    using claimed(8) by (auto simp: update_execution_Inr)
  ultimately have "find_execution d' i = Some (claim_row ck token row 1 row)"
    using executions.lookup_store [of "claim_row ck token row seqn" i d2 i] seqn by (simp add: claim_row_def)
  with claimed seqn show ?thesis by auto
qed simp_all

lemma claim_busy:
  "find_execution d i = Some r \<Longrightarrow> ex_state r \<in> {COMPILING, RUNNING} \<Longrightarrow> ex_leaseExpiresAt r = Some t \<Longrightarrow>
     ck_db ck < t \<Longrightarrow> claim env ck token i d = Inr (None, d)"
  by (auto simp: claim_def locked_def)

text \<open>
  C4. A claim succeeds only on an execution that is queued or whose lease has expired, and whose
  cancellation was not requested. It yields a lease for the next attempt that is valid at once, and
  until that lease ends no other claim succeeds or changes anything.
\<close>

theorem claim_exclusive:
  assumes "reach initial (pipeline_step env cfg) d" and "env_ok env"
    and "claim env ck token i d = Inr (Some (l, ex), d')"
  shows "\<exists>row ends. find_execution d i = Some row \<and>
     (ex_state row = QUEUED \<or> opt_all (\<lambda>t. t \<le> ck_db ck) (ex_leaseExpiresAt row)) \<and>
     ex_cancellationRequestedAt row = None \<and>
     l = \<lparr>le_executionId = i, le_attempt = ex_attempt row + 1, le_token = token\<rparr> \<and>
     find_execution d' i = Some ex \<and> valid (ck_db ck) ex l \<and>
     ex_leaseExpiresAt ex = Some ends \<and> ends = min (ck_db ck + 30000) (ex_queueExpiresAt row + 600000) \<and>
     (\<forall>ck' token'. ends \<le> ck_db ck' \<or> claim env ck' token' i d' = Inr (None, d'))"
proof -
  from claim_effect [OF reachable_inv [OF assms(1,2)] assms(3)] obtain row where
    row: "find_execution d i = Some row" "ex = claim_row ck token row 1 row" "find_execution d' i = Some ex"
    "l = \<lparr>le_executionId = i, le_attempt = ex_attempt row + 1, le_token = token\<rparr>"
    "ex_state row = QUEUED \<or> opt_all (\<lambda>t. t \<le> ck_db ck) (ex_leaseExpiresAt row)"
    "ck_db ck < deadline row" "ex_cancellationRequestedAt row = None" by blast
  let ?ends = "min (ck_db ck + 30000) (ex_queueExpiresAt row + 600000)"
  have fields: "ex_state ex = COMPILING" "ex_leaseExpiresAt ex = Some ?ends" "ex_leaseToken ex = Some token"
    "ex_attempt ex = ex_attempt row + 1" "ex_queueExpiresAt ex = ex_queueExpiresAt row"
    by (simp_all add: row(2) claim_row_def LEASE_MS_def deadline_def)
  have "valid (ck_db ck) ex l"
    using row(4,6) by (simp add: valid_def fields deadline_def)
  moreover have "claim env ck' token' i d' = Inr (None, d')" if "\<not> ?ends \<le> ck_db ck'" for ck' token'
    using that by (intro claim_busy [OF row(3) _ fields(2)]) (simp_all add: fields(1) not_le)
  ultimately show ?thesis using row(1,3,4,5,7) fields(2) by (intro exI [of _ row] exI [of _ ?ends]) blast
qed

section \<open>Progress\<close>

text \<open>
  C9. From a database with the invariant no operation of the job store is ever refused by the
  lifecycle trigger, a check or a unique key: claims (under a fresh token), heartbeats, state changes,
  failures and recoveries commit, and the operations that can fail do so only with their own errors.
\<close>

theorem job_store_commits:
  assumes "ready env ck d (le_executionId l)"
    and "\<forall>r. find_execution d (le_executionId l) = Some r \<longrightarrow> ex_leaseToken r \<noteq> Some token"
    and "opt_all int4 (jr_runtimeMs result)" and "opt_all int4 (jr_memoryKiB result)"
  shows "(\<exists>x d'. claim env ck token (le_executionId l) d = Inr (x, d')) \<and>
     (\<exists>x d'. renew ck l d = Inr (x, d')) \<and> (\<exists>x d'. markRunning env ck l d = Inr (x, d')) \<and>
     (\<exists>x d'. fail env ck l cleanup d = Inr (x, d')) \<and> (\<exists>x d'. recover env ck l d = Inr (x, d')) \<and>
     (case console env ck l c strm s d of
        Inl e \<Rightarrow> e \<in> {PlainError ''INVALID_PUBLIC_OUTPUT'', PlainError ''PRIVATE_OUTPUT_REJECTED''} | Inr x \<Rightarrow> True) \<and>
     (case finish env ck l result d of
        Inl e \<Rightarrow> e \<in> {ZodError, PlainError ''PUBLIC_RESULT_TOO_LARGE'', PlainError ''PRIVATE_OUTPUT_REJECTED''}
      | Inr x \<Rightarrow> True) \<and>
     (case cancel env ck u (le_executionId l) allowed d of
        Inl e \<Rightarrow> e \<in> {NOT_FOUND, ApiError 503 ''CANCELLATION_UNAVAILABLE'' None} | Inr x \<Rightarrow> True)"
  using claim_commits [OF assms(1)] assms(2) renew_commits [OF assms(1)] markRunning_commits [OF assms(1)]
    fail_commits [OF assms(1)] recover_commits [OF assms(1)] console_commits [OF assms(1)]
    finish_commits [OF assms(1,3,4)] cancel_commits [OF assms(1)]
  by (auto split: sum.splits)


section \<open>Idempotent creation\<close>

text \<open>After a creation under a key, the row of that key is found again in every later database.\<close>

lemma create_remembered:
  assumes "reach initial (pipeline_step env cfg) d" and "env_ok env" and "is_uuid env newId"
    and "create env cfg cr ck newId userId input key ip d = Inr (rcpt, d1)"
    and "(pipeline_step env cfg)\<^sup>*\<^sup>* d1 d2"
  obtains r where "find_previous userId key d2 = Some r" and "find_execution d2 (rc_executionId rcpt) = Some r"
    and "ex_id r = rc_executionId rcpt" and "ex_payloadHash r = payloadHash cr input"
proof -
  have inv: "db_inv env d" by (rule reachable_inv [OF assms(1,2)])
  from create_row [OF inv assms(3,4)] obtain r where r: "find_execution d1 (rc_executionId rcpt) = Some r"
    "ex_userId r = userId" "ex_idempotencyKey r = key" "ex_payloadHash r = payloadHash cr input" by blast
  have reach1: "reach initial (pipeline_step env cfg) d1"
    using assms(1) step_create [OF assms(4,3)] by (rule reach_step)
  from steps_row [OF assms(5) reach1 assms(2) r(1)] obtain r2 where
    r2: "find_execution d2 (rc_executionId rcpt) = Some r2" "row_le r r2" .
  have inv2: "db_inv env d2"
    using steps_good [OF assms(5) reachable_inv [OF reach1 assms(2)] assms(2)] by blast
  have same: "ex_userId r2 = userId" "ex_idempotencyKey r2 = key" "ex_payloadHash r2 = payloadHash cr input"
    using r2(2) r by (simp_all add: row_le_def request_of_def)
  have in2: "r2 \<in> set (db_executions d2)" and id2: "ex_id r2 = rc_executionId rcpt"
    using find_execution_Some [OF r2(1)] by auto
  from find_previous_unique [OF inv2 in2] same have "find_previous userId key d2 = Some r2" by simp
  from that [OF this r2(1) id2 same(3)] show thesis .
qed

text \<open>
  C7. Creation is idempotent for good: once a request has been accepted under a key, repeating it
  with the same content, after any further transactions, at any time, from any address and whatever
  the limits have become, returns the same execution with its current state and changes nothing.
\<close>

theorem create_idempotent:
  assumes "reach initial (pipeline_step env cfg) d" and "env_ok env" and "is_uuid env newId"
    and "create env cfg cr ck newId userId input key ip d = Inr (rcpt, d1)"
    and "(pipeline_step env cfg)\<^sup>*\<^sup>* d1 d2" and "cf_executionsEnabled cfg"
  shows "\<exists>r. find_execution d2 (rc_executionId rcpt) = Some r \<and>
     create env cfg cr ck' newId' userId input key ip' d2 =
       Inr (\<lparr>rc_executionId = rc_executionId rcpt, rc_state = ex_state r, rc_cancellationRequested = None\<rparr>, d2)"
proof -
  from create_remembered [OF assms(1-5)] obtain r where "find_previous userId key d2 = Some r"
    "find_execution d2 (rc_executionId rcpt) = Some r" "ex_id r = rc_executionId rcpt"
    "ex_payloadHash r = payloadHash cr input" .
  with assms(6) show ?thesis by (simp add: create_def)
qed

text \<open>
  C17. A key cannot be reused for other content: while the hash tells the two requests apart, a
  creation under a key that was already accepted with other content is refused as a conflict.
\<close>

theorem create_conflict:
  assumes "reach initial (pipeline_step env cfg) d" and "env_ok env" and "is_uuid env newId"
    and "create env cfg cr ck newId userId input key ip d = Inr (rcpt, d1)"
    and "(pipeline_step env cfg)\<^sup>*\<^sup>* d1 d2" and "cf_executionsEnabled cfg"
    and "payloadHash cr input' \<noteq> payloadHash cr input"
  shows "create env cfg cr ck' newId' userId input' key ip' d2 =
     Inl (ApiError 409 ''IDEMPOTENCY_CONFLICT'' None)"
proof -
  from create_remembered [OF assms(1-5)] obtain r where "find_previous userId key d2 = Some r"
    "ex_payloadHash r = payloadHash cr input" .
  with assms(6,7) show ?thesis by (simp add: create_def)
qed

end
