(* ===== verification/Realtime.thy ===== *)
theory Realtime
  imports Pipeline
begin

text \<open>
  Live delivery of execution events (\<open>apps/api/src/executions/realtime.ts\<close>): the admission of a
  socket, the subscription command and the polling of a client's cursors. Socket.IO and the session
  store are outside this component: whether the socket is connected and writable at each check and
  what \<open>sessions.resolve\<close> answers (a user, none, or an error) are arguments; the emissions are the
  result.
\<close>

section \<open>Clients\<close>

record cursor =
  cu_executionId :: uuid
  cu_attempt :: int
  cu_afterSequence :: int

record client =
  cl_userId :: uuid
  cl_subscriptions :: "(uuid \<times> cursor) list"
  cl_commandBusy :: bool
  cl_requests :: int
  cl_window :: millis

text \<open>The admitted sockets, each with its remote address.\<close>

type_synonym sockets = "(string \<times> client) list"

definition admit_socket :: "nat \<Rightarrow> sockets \<Rightarrow> uuid option result \<Rightarrow> string \<Rightarrow> uuid result" where
  "admit_socket authenticating clients princ ip =
     (if 20 \<le> authenticating then Inl (PlainError ''CAPACITY_REQUIRED'')
      else case princ of
        Inl e \<Rightarrow> Inl (PlainError ''AUTHENTICATION_REQUIRED'')
      | Inr None \<Rightarrow> Inl (PlainError ''AUTHENTICATION_OR_CAPACITY_REQUIRED'')
      | Inr (Some userId) \<Rightarrow>
          if 500 \<le> length clients \<or>
             5 \<le> length (filter (\<lambda>(a, c). cl_userId c = userId) clients) \<or>
             20 \<le> length (filter (\<lambda>(a, c). a = ip) clients)
          then Inl (PlainError ''AUTHENTICATION_OR_CAPACITY_REQUIRED'')
          else Inr userId)"

definition new_client :: "clock \<Rightarrow> uuid \<Rightarrow> client" where
  "new_client ck userId =
     \<lparr>cl_userId = userId, cl_subscriptions = [], cl_commandBusy = False, cl_requests = 0,
      cl_window = ck_host ck\<rparr>"

definition set_subscription :: "uuid \<Rightarrow> cursor \<Rightarrow> (uuid \<times> cursor) list \<Rightarrow> (uuid \<times> cursor) list" where
  "set_subscription k c subs =
     (if k \<in> fst ` set subs then map (\<lambda>(k', c'). if k' = k then (k, c) else (k', c')) subs
      else subs @ [(k, c)])"

section \<open>The subscription command\<close>

datatype reply =
    Refused string
  | Replayed replay_result
  | Disconnected
  | Silent

definition count_request :: "clock \<Rightarrow> client \<Rightarrow> client" where
  "count_request ck c =
     (let c1 = (if 60000 \<le> ck_host ck - cl_window c then c\<lparr>cl_window := ck_host ck, cl_requests := 0\<rparr> else c)
      in c1\<lparr>cl_requests := cl_requests c1 + 1\<rparr>)"

text \<open>The error a failed command is answered with.\<close>

definition command_error :: "error \<Rightarrow> string" where
  "command_error e = (case e of ApiError _ _ _ \<Rightarrow> ''NOT_FOUND'' | _ \<Rightarrow> ''SERVICE_UNAVAILABLE'')"

text \<open>\<open>connected\<close> and \<open>connected'\<close> are the two checks of the socket, before and after the replay.\<close>

definition subscribe_execution ::
    "env \<Rightarrow> clock \<Rightarrow> uuid option result \<Rightarrow> bool \<Rightarrow> bool \<Rightarrow> json \<Rightarrow> db \<Rightarrow> client \<Rightarrow> reply \<times> client" where
  "subscribe_execution env ck princ connected connected' input d c0 =
     (let c = count_request ck c0
      in if 60 < cl_requests c \<or> cl_commandBusy c then (Refused ''SOCKET_RATE_LIMIT'', c)
         else (case executionSubscriptionSchema (is_uuid env) input of
           None \<Rightarrow> (Refused ''INVALID_REQUEST'', c)
         | Some sub \<Rightarrow>
             if su_executionId sub \<notin> fst ` set (cl_subscriptions c) \<and> 5 \<le> length (cl_subscriptions c)
             then (Refused ''SUBSCRIPTION_LIMIT'', c)
             else if \<not> connected then (Silent, c)
             else (case princ of
               Inl e \<Rightarrow> (Refused (command_error e), c)
             | Inr user \<Rightarrow>
                 if user \<noteq> Some (cl_userId c) then (Disconnected, c)
                 else (case replay env ck (cl_userId c) (su_executionId sub) (su_attempt sub) (su_afterSequence sub) d of
                   Inl e \<Rightarrow> (Refused (command_error e), c)
                 | Inr r \<Rightarrow>
                     if \<not> connected' then (Silent, c)
                     else (Replayed r,
                           c\<lparr>cl_subscriptions := set_subscription (su_executionId sub)
                             \<lparr>cu_executionId = su_executionId sub, cu_attempt = sn_attempt (ry_snapshot r),
                              cu_afterSequence = sn_lastSequence (ry_snapshot r)\<rparr> (cl_subscriptions c)\<rparr>)))))"

definition unsubscribe_execution :: "uuid \<Rightarrow> client \<Rightarrow> client" where
  "unsubscribe_execution i c = c\<lparr>cl_subscriptions := filter (\<lambda>(k, _). k \<noteq> i) (cl_subscriptions c)\<rparr>"

section \<open>Polling\<close>

datatype emission =
    ExecutionSync snapshot
  | ExecutionEvent public_event

definition poll_cursor :: "env \<Rightarrow> clock \<Rightarrow> uuid \<Rightarrow> db \<Rightarrow> cursor \<Rightarrow> (emission list \<times> cursor) result" where
  "poll_cursor env ck userId d cu =
     map_result (\<lambda>r.
       (if ry_replayAvailable r then map ExecutionEvent (ry_events r) else [ExecutionSync (ry_snapshot r)],
        cu\<lparr>cu_attempt := sn_attempt (ry_snapshot r), cu_afterSequence := sn_lastSequence (ry_snapshot r)\<rparr>))
     (replay env ck userId (cu_executionId cu) (cu_attempt cu) (cu_afterSequence cu) d)"

text \<open>
  The loop over the subscriptions of one client. \<open>conn\<close> tells of each subscription whether the
  socket was connected and writable when its replay had been read; the flag of the result tells
  whether the socket was disconnected (a slow transport or an error).
\<close>

fun poll_subscriptions ::
    "env \<Rightarrow> clock \<Rightarrow> uuid \<Rightarrow> (uuid \<Rightarrow> bool \<times> bool) \<Rightarrow> db \<Rightarrow> (uuid \<times> cursor) list \<Rightarrow>
     emission list \<times> (uuid \<times> cursor) list \<times> bool"
  where
  "poll_subscriptions env ck userId conn d [] = ([], [], False)"
| "poll_subscriptions env ck userId conn d ((k, cu) # subs) =
     (case poll_cursor env ck userId d cu of
        Inl e \<Rightarrow> ([], (k, cu) # subs, True)
      | Inr (es, cu') \<Rightarrow>
          if \<not> fst (conn k) then ([], (k, cu) # subs, False)
          else if \<not> snd (conn k) then ([], (k, cu) # subs, True)
          else case poll_subscriptions env ck userId conn d subs of
            (es', subs', gone) \<Rightarrow> (es @ es', (k, cu') # subs', gone))"

definition poll_client ::
    "env \<Rightarrow> clock \<Rightarrow> uuid option result \<Rightarrow> (uuid \<Rightarrow> bool \<times> bool) \<Rightarrow> db \<Rightarrow> client \<Rightarrow> emission list \<times> client \<times> bool"
  where
  "poll_client env ck princ conn d c =
     (if cl_commandBusy c then ([], c, False)
      else if princ \<noteq> Inr (Some (cl_userId c)) then ([], c, True)
      else case poll_subscriptions env ck (cl_userId c) conn d (cl_subscriptions c) of
        (es, subs, gone) \<Rightarrow> (es, c\<lparr>cl_subscriptions := subs\<rparr>, gone))"

section \<open>Replay\<close>

lemma map_after_upto:
  "map (\<lambda>k. after + int k + 1) [0 ..< n] = [after + 1 .. after + int n]"
proof (induction n)
  case (Suc n)
  have "[after + 1 .. after + int (Suc n)] = [after + 1 .. after + int n] @ [after + int n + 1]"
    using upto_rec2 [of "after + 1" "after + int (Suc n)"] by (simp add: algebra_simps)
  with Suc show ?case by simp
qed simp

definition replayable :: "clock \<Rightarrow> execution \<Rightarrow> int \<Rightarrow> db \<Rightarrow> event_row list" where
  "replayable ck row after d =
     filter (\<lambda>e. ev_executionId e = ex_id row \<and> ev_attempt e = ex_attempt row \<and>
                 after < ev_sequence e \<and> ck_host ck < ev_expiresAt e) (db_events d)"

lemma replayable_facts:
  assumes inv: "db_inv env d" and row: "find_execution d i = Some row"
  shows "replay_rows ck row after d = sort_key ev_sequence (replayable ck row after d)"
    and "distinct (map ev_sequence (replayable ck row after d))"
    and "list_all (safe_event env row (public_case_ids d (ex_problemVersionId row))) (replay_rows ck row after d)"
    and "set (map ev_sequence (replayable ck row after d)) \<subseteq> {after <.. ex_lastSequence row}"
proof -
  let ?F = "replayable ck row after d"
  have einv: "events_inv env d" using inv by (simp add: db_inv_def)
  have i: "ex_id row = i" using find_execution_Some [OF row] by simp
  have ok: "event_ok env d row e" if "e \<in> set ?F" for e
    using that i by (intro events_inv_row [OF einv row]) (auto simp: replayable_def)
  have "?F = filter (\<lambda>e. ev_attempt e = ex_attempt row \<and> after < ev_sequence e \<and> ck_host ck < ev_expiresAt e) (events_of d i)"
    by (simp add: replayable_def events_of_def i)
  then have "length ?F \<le> length (events_of d i)" by (simp only: length_filter_le)
  moreover have "length (events_of d i) \<le> REPLAY_ROWS" using einv by (simp add: events_inv_def)
  ultimately have "length ?F \<le> REPLAY_ROWS" by linarith
  then show rows: "replay_rows ck row after d = sort_key ev_sequence ?F"
    by (simp add: replay_rows_def replayable_def)
  have "distinct (map ev_key ?F)"
    using einv by (simp add: events_inv_def replayable_def distinct_map_filter)
  moreover have "inj_on (\<lambda>e. (ev_executionId e, ev_attempt e, ev_sequence e)) (set ?F) \<Longrightarrow> inj_on ev_sequence (set ?F)"
    by (auto simp: inj_on_def replayable_def)
  ultimately show "distinct (map ev_sequence ?F)" by (auto simp: distinct_map ev_key_def [abs_def])
  show "list_all (safe_event env row (public_case_ids d (ex_problemVersionId row))) (replay_rows ck row after d)"
    using ok by (auto simp: rows list_all_iff event_ok_def)
  show "set (map ev_sequence ?F) \<subseteq> {after <.. ex_lastSequence row}"
    using ok by (auto simp: event_ok_def replayable_def)
qed

text \<open>A full set of distinct numbers of an interval, sorted, is the interval.\<close>

lemma sorted_interval:
  fixes xs :: "int list"
  assumes "distinct xs" and "set xs \<subseteq> {a <.. b}" and "a \<le> b"
  shows "int (length xs) = b - a \<longleftrightarrow> set xs = {a <.. b}" and "set xs = {a <.. b} \<Longrightarrow> sort xs = [a + 1 .. b]"
proof -
  have card: "int (card {a <.. b}) = b - a" using assms(3) by simp
  have "length xs = card (set xs)" using assms(1) by (simp add: distinct_card)
  with card show "int (length xs) = b - a \<longleftrightarrow> set xs = {a <.. b}"
    using card_subset_eq [OF finite_greaterThanAtMost_int assms(2)] by (metis of_nat_eq_iff)
  assume full: "set xs = {a <.. b}"
  have "{a <.. b} = {a + 1 .. b}" by (rule set_eqI) (simp add: add1_zle_eq)
  with full have "set (sort xs) = set [a + 1 .. b]" by simp
  moreover have "distinct (sort xs)" "sorted (sort xs)" "distinct [a + 1 .. b]" "sorted [a + 1 .. b]"
    using assms(1) by simp_all
  ultimately show "sort xs = [a + 1 .. b]" by (intro sorted_distinct_set_unique)
qed

lemma map_sort_key: "map f (sort_key f xs) = sort (map f xs)"
  by (rule properties_for_sort [symmetric]) simp_all

lemma replay_result_facts:
  assumes inv: "db_inv env d" and op: "replay env ck userId i attempt after d = Inr r"
  shows "\<exists>row. find_execution d i = Some row \<and> ex_userId row = userId \<and>
     sn_executionId (ry_snapshot r) = i \<and> sn_attempt (ry_snapshot r) = ex_attempt row \<and>
     sn_lastSequence (ry_snapshot r) = ex_lastSequence row \<and>
     (ry_replayAvailable r \<longleftrightarrow> attempt = ex_attempt row \<and> after \<le> ex_lastSequence row \<and>
        set (map ev_sequence (replayable ck row after d)) = {after <.. ex_lastSequence row}) \<and>
     (if ry_replayAvailable r
      then map pe_sequence (ry_events r) = [after + 1 .. ex_lastSequence row] \<and>
           list_all (\<lambda>p. pe_executionId p = i \<and> pe_attempt p = attempt) (ry_events r)
      else ry_events r = [])"
proof -
  from op obtain row where row: "find_execution d i = Some row" "ex_userId row = userId"
    by (auto simp: replay_def split: option.splits if_splits)
  have i: "ex_id row = i" using find_execution_Some [OF row(1)] by simp
  from op row obtain v where v: "find_version d (ex_problemVersionId row) = Some v"
    by (auto simp: replay_def split: option.splits)
  let ?ev = "replay_rows ck row after d" and ?F = "replayable ck row after d"
  let ?ids = "public_case_ids d (ex_problemVersionId row)"
  note f = replayable_facts [OF inv row(1), of ck after]
  define contiguous where "contiguous \<longleftrightarrow> attempt = ex_attempt row \<and> after \<le> ex_lastSequence row \<and>
    int (length ?ev) = ex_lastSequence row - after \<and>
    map ev_sequence ?ev = map (\<lambda>k. after + int k + 1) [0 ..< length ?ev]"
  have safe: "list_all (safe_event env row ?ids) ?ev" by (rule f(3))
  from op row v safe obtain s where s: "publicSnapshot row (vn_problemId v) ?ids = Inr s"
    and r: "r = \<lparr>ry_snapshot = s, ry_replayAvailable = contiguous,
                ry_events = (if contiguous then map ev_payload ?ev else [])\<rparr>"
    by (auto simp: replay_def Let_def result_simps contiguous_def)
  have seqs: "map ev_sequence ?ev = sort (map ev_sequence ?F)" by (simp add: f(1) map_sort_key)
  have len: "length ?ev = length (map ev_sequence ?F)" by (simp add: f(1))
  have iff: "contiguous \<longleftrightarrow> attempt = ex_attempt row \<and> after \<le> ex_lastSequence row \<and>
      set (map ev_sequence ?F) = {after <.. ex_lastSequence row}"
  proof (cases "after \<le> ex_lastSequence row")
    case True
    note si = sorted_interval [OF f(2) f(4) True]
    show ?thesis
      unfolding contiguous_def seqs map_after_upto using True si len by auto
  qed (simp add: contiguous_def)
  have e1: "map (pe_sequence \<circ> ev_payload) ?ev = map ev_sequence ?ev"
    and e2: "list_all (\<lambda>p. pe_executionId p = i \<and> pe_attempt p = ex_attempt row) (map ev_payload ?ev)"
    using safe i by (auto simp: list_all_iff safe_event_def)
  have e3: "map ev_sequence ?ev = [after + 1 .. ex_lastSequence row]" if contiguous
    using that iff sorted_interval(2) [OF f(2) f(4)] by (simp add: seqs)
  have evs: "if contiguous
      then map (pe_sequence \<circ> ev_payload) ?ev = [after + 1 .. ex_lastSequence row] \<and>
           list_all (\<lambda>p. pe_executionId p = i \<and> pe_attempt p = attempt) (map ev_payload ?ev)
      else True"
    unfolding e1 using e2 e3 iff by simp
  show ?thesis
  proof (intro exI [of _ row] conjI)
    show "ry_replayAvailable r = (attempt = ex_attempt row \<and> after \<le> ex_lastSequence row \<and>
        set (map ev_sequence ?F) = {after <.. ex_lastSequence row})" using iff by (simp add: r)
    show "if ry_replayAvailable r
      then map pe_sequence (ry_events r) = [after + 1 .. ex_lastSequence row] \<and>
           list_all (\<lambda>p. pe_executionId p = i \<and> pe_attempt p = attempt) (ry_events r)
      else ry_events r = []" using evs by (simp add: r)
  qed (use row i publicSnapshot_fields [OF s] in \<open>simp_all add: r\<close>)
qed

text \<open>
  C16. A replay is offered exactly when the client asks for the current attempt and every event after
  its cursor is stored and unexpired; it then consists of exactly these events, in order and without
  gaps, up to the snapshot's sequence number. Otherwise no event is sent.
\<close>

theorem replay_exact:
  assumes "reach initial (pipeline_step env cfg) d" and "env_ok env"
    and "replay env ck userId i attempt after d = Inr r" and "find_execution d i = Some row"
  shows "ex_userId row = userId \<and>
     (ry_replayAvailable r \<longleftrightarrow> attempt = ex_attempt row \<and> after \<le> ex_lastSequence row \<and>
        set (map ev_sequence (replayable ck row after d)) = {after <.. ex_lastSequence row}) \<and>
     (if ry_replayAvailable r
      then map pe_sequence (ry_events r) = [after + 1 .. sn_lastSequence (ry_snapshot r)] \<and>
           list_all (\<lambda>p. pe_executionId p = i \<and> pe_attempt p = attempt) (ry_events r)
      else ry_events r = [])"
  using replay_result_facts [OF reachable_inv [OF assms(1,2)] assms(3)] assms(4) by auto

section \<open>Delivery\<close>

text \<open>
  A run of polls of one cursor over successive databases: the emissions of each poll, in order.
\<close>

fun poll_run :: "env \<Rightarrow> uuid \<Rightarrow> (clock \<times> db) list \<Rightarrow> cursor \<Rightarrow> (emission list list \<times> cursor) result" where
  "poll_run env userId [] cu = Inr ([], cu)"
| "poll_run env userId ((ck, d) # polls) cu =
     bind_result (poll_cursor env ck userId d cu) (\<lambda>(es, cu').
       map_result (\<lambda>(ess, cu''). (es # ess, cu'')) (poll_run env userId polls cu'))"

definition event_sequences :: "emission list \<Rightarrow> int list" where
  "event_sequences es = concat (map (\<lambda>e. case e of ExecutionEvent p \<Rightarrow> [pe_sequence p] | _ \<Rightarrow> []) es)"

definition no_sync :: "emission list \<Rightarrow> bool" where
  "no_sync es = list_all (\<lambda>e. case e of ExecutionEvent _ \<Rightarrow> True | ExecutionSync _ \<Rightarrow> False) es"

lemma poll_cursor_facts:
  assumes inv: "db_inv env d" and op: "poll_cursor env ck userId d cu = Inr (es, cu')"
  shows "cu_executionId cu' = cu_executionId cu"
    and "no_sync es \<Longrightarrow> cu_attempt cu' = cu_attempt cu \<and> cu_afterSequence cu \<le> cu_afterSequence cu' \<and>
           event_sequences es = [cu_afterSequence cu + 1 .. cu_afterSequence cu']"
proof -
  from op obtain r where rep: "replay env ck userId (cu_executionId cu) (cu_attempt cu) (cu_afterSequence cu) d = Inr r"
    and es: "es = (if ry_replayAvailable r then map ExecutionEvent (ry_events r) else [ExecutionSync (ry_snapshot r)])"
    and cu': "cu' = cu\<lparr>cu_attempt := sn_attempt (ry_snapshot r), cu_afterSequence := sn_lastSequence (ry_snapshot r)\<rparr>"
    by (auto simp: poll_cursor_def result_simps)
  show "cu_executionId cu' = cu_executionId cu" by (simp add: cu')
  assume "no_sync es"
  then have avail: "ry_replayAvailable r" by (auto simp: es no_sync_def split: if_splits)
  have seqs: "event_sequences (map ExecutionEvent ps) = map pe_sequence ps" for ps
    by (induction ps) (simp_all add: event_sequences_def)
  from replay_result_facts [OF inv rep] avail show
    "cu_attempt cu' = cu_attempt cu \<and> cu_afterSequence cu \<le> cu_afterSequence cu' \<and>
     event_sequences es = [cu_afterSequence cu + 1 .. cu_afterSequence cu']"
    by (auto simp: es cu' seqs)
qed

text \<open>
  Events are delivered exactly once and in order: over any run of successful polls, each of a
  reachable database, in which no resynchronisation was sent, the events emitted are exactly those
  from the cursor's start to its end, consecutively, and all of the same attempt.
\<close>

lemma delivery_exactly_once:
  assumes "env_ok env" and "list_all (\<lambda>(ck, d). reach initial (pipeline_step env cfg) d) polls"
    and "poll_run env userId polls cu = Inr (ess, cu')" and "list_all no_sync ess"
  shows "cu_attempt cu' = cu_attempt cu \<and> cu_afterSequence cu \<le> cu_afterSequence cu' \<and>
     concat (map event_sequences ess) = [cu_afterSequence cu + 1 .. cu_afterSequence cu']"
  using assms(2-)
proof (induction polls arbitrary: cu ess)
  case (Cons p polls)
  obtain ck d where p: "p = (ck, d)" by (cases p)
  with Cons.prems obtain es cu1 ess1 where
    first: "poll_cursor env ck userId d cu = Inr (es, cu1)"
    and rest: "poll_run env userId polls cu1 = Inr (ess1, cu')" and ess: "ess = es # ess1"
    by (auto simp: result_simps)
  have "reach initial (pipeline_step env cfg) d" using Cons.prems(1) p by simp
  then have inv: "db_inv env d" using assms(1) by (rule reachable_inv)
  from poll_cursor_facts(2) [OF inv first] Cons.prems(3) ess
  have f: "cu_attempt cu1 = cu_attempt cu" "cu_afterSequence cu \<le> cu_afterSequence cu1"
    "event_sequences es = [cu_afterSequence cu + 1 .. cu_afterSequence cu1]" by auto
  from Cons.IH [OF _ rest] Cons.prems(1,3) ess
  have g: "cu_attempt cu' = cu_attempt cu1" "cu_afterSequence cu1 \<le> cu_afterSequence cu'"
    "concat (map event_sequences ess1) = [cu_afterSequence cu1 + 1 .. cu_afterSequence cu']" by auto
  have "[cu_afterSequence cu + 1 .. cu_afterSequence cu'] =
      [cu_afterSequence cu + 1 .. cu_afterSequence cu1] @ [cu_afterSequence cu1 + 1 .. cu_afterSequence cu']"
    using f(2) g(2) upto_split1 [of "cu_afterSequence cu + 1" "cu_afterSequence cu1 + 1" "cu_afterSequence cu'"]
    by (cases "cu_afterSequence cu1 = cu_afterSequence cu'") auto
  with f g ess show ?case by simp
qed simp

section \<open>Limits of a client\<close>

text \<open>
  A client never holds more than five subscriptions, and a command never gains it one beyond
  the five; a command past the sixtieth of its minute is refused and changes no subscription.
\<close>

lemma subscription_limit:
  assumes "length (cl_subscriptions c) \<le> 5"
    and "subscribe_execution env ck princ connected connected' input d c = (rep, c')"
  shows "length (cl_subscriptions c') \<le> 5 \<and>
     (case rep of
        Replayed r \<Rightarrow> cl_requests c' \<le> 60 \<and> princ = Inr (Some (cl_userId c)) \<and> connected'
      | _ \<Rightarrow> cl_subscriptions c' = cl_subscriptions c)"
proof -
  have same: "cl_subscriptions (count_request ck c) = cl_subscriptions c" "cl_userId (count_request ck c) = cl_userId c"
    by (simp_all add: count_request_def Let_def)
  have len: "length (set_subscription k x subs) \<le> 5"
    if "k \<in> fst ` set subs \<or> \<not> 5 \<le> length subs" "length subs \<le> 5" for k x and subs :: "(uuid \<times> cursor) list"
    using that by (auto simp: set_subscription_def)
  have key: "(k, b) \<in> set subs \<Longrightarrow> k \<in> fst ` set subs" for k b and subs :: "(uuid \<times> cursor) list"
    by force
  show ?thesis
    using assms
    by (auto simp: subscribe_execution_def Let_def same not_less intro!: len dest: key
        split: if_splits option.splits sum.splits error.splits)
qed

end
