(* ===== verification/RowMoves.thy ===== *)
theory RowMoves
  imports Pipeline
begin

text \<open>
  What the transactions of the pipeline do to the rows of single executions, stated once for any relation between an
  old and a new row: the locale \<open>row_protocol\<close> asks the relation to allow the few ways in which the job protocol rewrites
  a row, and gives for every operation that it relates each execution before and after.
\<close>

section \<open>Rows that move\<close>

text \<open>Every execution is related to itself after a call; \<open>state\<close> picks the database of an answer.\<close>

definition moves :: "(execution option \<Rightarrow> execution option \<Rightarrow> bool) \<Rightarrow> db \<Rightarrow> db \<Rightarrow> bool" where
  "moves rel d d' \<longleftrightarrow> (\<forall>i. rel (find_execution d i) (find_execution d' i))"

definition moving ::
    "(execution option \<Rightarrow> execution option \<Rightarrow> bool) \<Rightarrow> db \<Rightarrow> ('x \<Rightarrow> db) \<Rightarrow> 'x result \<Rightarrow> bool" where
  "moving rel d state r \<longleftrightarrow> (\<forall>x. r = Inr x \<longrightarrow> moves rel d (state x))"

named_theorems moving_intros \<open>how calls that move rows are put together\<close>

lemma movingD: "moving rel d state r \<Longrightarrow> r = Inr x \<Longrightarrow> moves rel d (state x)"
  by (simp add: moving_def)

lemma moving_Inl [moving_intros]: "moving rel d state (Inl e)"
  by (simp add: moving_def)

lemma moving_if [moving_intros]:
  "(b \<Longrightarrow> moving rel d state x) \<Longrightarrow> (\<not> b \<Longrightarrow> moving rel d state y) \<Longrightarrow> moving rel d state (if b then x else y)"
  by simp

lemma moving_locked [moving_intros]:
  assumes "moving rel d state x"
    and "\<And>row. find_execution d (ex_id row) = Some row \<Longrightarrow> ex_id row = i \<Longrightarrow> moving rel d state (f row)"
  shows "moving rel d state (case locked d i of None \<Rightarrow> x | Some row \<Rightarrow> f row)"
  using assms locked_row [of d i] by (auto split: option.splits)

lemma moving_map [moving_intros]: "moving rel d (\<lambda>x. state (g x)) r \<Longrightarrow> moving rel d state (map_result g r)"
  by (auto simp: moving_def map_result_Inr)

lemma moving_event [moving_intros]:
  assumes "\<And>n d1. db_executions d1 = db_executions d0 \<Longrightarrow> moving rel d state (f (n, d1))"
  shows "moving rel d state (bind_result (event env ck row flds d0) f)"
  using assms event_same_executions by (fastforce simp: moving_def bind_result_Inr)

lemma moving_notify [moving_intros]:
  assumes "\<And>d1. db_executions d1 = db_executions d0 \<Longrightarrow> moving rel d state (f d1)"
  shows "moving rel d state (bind_result (notifyExecution env ck row v d0) f)"
proof -
  have "notifyExecution env ck row v d0 = Inr d1 \<Longrightarrow> db_executions d1 = db_executions d0" for d1
    by (subst notifyExecution_Inr) simp_all
  with assms show ?thesis by (auto simp: moving_def bind_result_Inr)
qed

lemma moves_cong: "moves rel d d' \<Longrightarrow> db_executions e = db_executions d' \<Longrightarrow> moves rel d e"
  by (simp add: moves_def find_execution_def)

lemma moving_then:
  assumes "moving rel d id m" and "\<And>d1 x. f d1 = Inr x \<Longrightarrow> db_executions (state x) = db_executions d1"
  shows "moving rel d state (bind_result m f)"
  using assms by (auto simp: moving_def bind_result_Inr intro: moves_cong)

lemma moves_update:
  assumes "\<And>x. rel x x" and "find_execution d i = Some row" and "\<And>r. ex_id (f r) = ex_id r"
    and "db_executions d1 = db_executions d" and "update_execution ck i f d1 = Inr d'"
    and "rel (Some row) (Some (f row))"
  shows "moves rel d d'"
proof -
  have "db_executions d' = db_executions (put_execution i f d)"
    using assms(4,5) by (auto simp: update_execution_Inr put_execution_def)
  then have "find_execution d' j = (if j = i then Some (f row) else find_execution d j)" for j
    by (rule find_put [OF assms(2,3)])
  with assms(1,2,6) show ?thesis by (auto simp: moves_def)
qed

lemma outbox_executions:
  "create_outbox ck k d = Inr d' \<Longrightarrow> db_executions d' = db_executions d"
  "upsert_outbox ck k f d = Inr d' \<Longrightarrow> db_executions d' = db_executions d"
  by (auto simp: upsert_outbox_def create_outbox_def put_outbox_def result_simps split: option.splits if_splits)

lemma valid_working: "valid now row l \<Longrightarrow> \<not> isTerminal (ex_state row) \<and> ex_state row \<noteq> QUEUED"
  by (simp add: valid_def)

lemma terminal_executions:
  assumes "terminal env ck row st fc d = Inr d'"
  shows "\<exists>n d2. db_executions d2 = db_executions d \<and> update_execution ck (ex_id row) (terminal_row ck st fc n) d2 = Inr d'"
proof -
  from assms obtain n d1 d2
    where ev: "event env ck row (FinalVerdict st (terminal_verdict st) fc) d = Inr (n, d1)"
      and nt: "notifyExecution env ck row (terminal_verdict st) d1 = Inr d2"
      and upd: "update_execution ck (ex_id row) (terminal_row ck st fc n) d2 = Inr d'"
    by (auto simp: terminal_def result_simps)
  have "db_executions d2 = db_executions d"
    using event_same_executions [OF ev] by (subst notifyExecution_Inr [OF nt]) simp
  with upd show ?thesis by blast
qed

section \<open>Transactions that store no verdict\<close>

inductive routine_step :: "env \<Rightarrow> config \<Rightarrow> db \<Rightarrow> db \<Rightarrow> bool" for env cfg where
  routine_create: "create env cfg cr ck newId u input key ip d = Inr (rcpt, d') \<Longrightarrow> is_uuid env newId \<Longrightarrow>
     routine_step env cfg d d'"
| routine_cancel: "cancel_execution env cfg ck u i d = Inr (rcpt, d') \<Longrightarrow> routine_step env cfg d d'"
| routine_claim: "claim env ck token i d = Inr (res, d') \<Longrightarrow> routine_step env cfg d d'"
| routine_renew: "renew ck l d = Inr (rn, d') \<Longrightarrow> routine_step env cfg d d'"
| routine_markRunning: "markRunning env ck l d = Inr (b, d') \<Longrightarrow> routine_step env cfg d d'"
| routine_console: "console env ck l c strm s d = Inr (b, d') \<Longrightarrow> routine_step env cfg d d'"
| routine_fail: "fail env ck l cleanup d = Inr (b, d') \<Longrightarrow> routine_step env cfg d d'"
| routine_recover: "recover env ck l d = Inr (b, d') \<Longrightarrow> routine_step env cfg d d'"
| routine_maintain: "maintain env sc ck d = Inr d' \<Longrightarrow> routine_step env cfg d d'"
| routine_expire: "expireQueuedJobs env sc ck d = Inr (n, d') \<Longrightarrow> routine_step env cfg d d'"
| routine_limits: "routine_step env cfg d (purge_limits ck d)"
| routine_intents: "routine_step env cfg d (snd (claim_intents sc ck token d))"
| routine_dispatch: "routine_step env cfg d (snd (dispatch_intent add ck token x ((), d)))"

lemma pipeline_step_cases:
  "pipeline_step env cfg d d' \<longleftrightarrow> routine_step env cfg d d' \<or> (\<exists>ck l result b. finish env ck l result d = Inr (b, d'))"
proof
  assume "pipeline_step env cfg d d'"
  then show "routine_step env cfg d d' \<or> (\<exists>ck l result b. finish env ck l result d = Inr (b, d'))"
    by (cases rule: pipeline_step.cases) (blast intro: routine_step.intros)+
next
  have "routine_step env cfg d d' \<Longrightarrow> pipeline_step env cfg d d'"
    by (erule routine_step.cases) (blast intro: pipeline_step.intros)+
  moreover assume "routine_step env cfg d d' \<or> (\<exists>ck l result b. finish env ck l result d = Inr (b, d'))"
  ultimately show "pipeline_step env cfg d d'" by (blast intro: step_finish)
qed

section \<open>The contract of a row\<close>

locale row_protocol =
  fixes rel :: "execution option \<Rightarrow> execution option \<Rightarrow> bool"
  assumes rel_refl: "rel x x"
    and rel_create: "ex_state row = QUEUED \<Longrightarrow> rel None (Some row)"
    and rel_claim: "\<not> isTerminal (ex_state row) \<Longrightarrow> ex_cancellationRequestedAt row = None \<Longrightarrow> ex_attempt row < 3 \<Longrightarrow>
      (ex_state row = QUEUED \<Longrightarrow> ex_attempt row = 0) \<Longrightarrow> rel (Some row) (Some (claim_row ck token row n row))"
    and rel_running: "ex_state row = COMPILING \<Longrightarrow> ex_cancellationRequestedAt row = None \<Longrightarrow>
      rel (Some row) (Some (row\<lparr>ex_state := RUNNING, ex_lastSequence := n\<rparr>))"
    and rel_event: "\<not> isTerminal (ex_state row) \<Longrightarrow> rel (Some row) (Some (row\<lparr>ex_lastSequence := n\<rparr>))"
    and rel_lease: "\<not> isTerminal (ex_state row) \<Longrightarrow> rel (Some row) (Some (row\<lparr>ex_leaseExpiresAt := t\<rparr>))"
    and rel_request: "\<not> isTerminal (ex_state row) \<Longrightarrow> ex_state row \<noteq> QUEUED \<Longrightarrow> ex_cancellationRequestedAt row = None \<Longrightarrow>
      rel (Some row) (Some (row\<lparr>ex_cancellationRequestedAt := Some now, ex_lastSequence := n\<rparr>))"
    and rel_expire: "ex_state row = QUEUED \<Longrightarrow> rel (Some row) (Some (expire_update ck n row))"
    and rel_terminal: "\<not> isTerminal (ex_state row) \<Longrightarrow>
      st = INTERNAL_ERROR \<or> st = CANCELLED \<and> (ex_state row = QUEUED \<or> ex_cancellationRequestedAt row \<noteq> None) \<Longrightarrow>
      rel (Some row) (Some (terminal_row ck st fc n row))"
begin

lemma moves_same: "db_executions d' = db_executions d \<Longrightarrow> moves rel d d'"
  by (simp add: moves_def find_execution_def rel_refl)

lemma moving_Inr: "db_executions (state x) = db_executions d \<Longrightarrow> moving rel d state (Inr x)"
  by (simp add: moving_def moves_same)

lemma moving_update:
  assumes "find_execution d i = Some row" and "db_executions d1 = db_executions d" and "\<And>r. ex_id (f r) = ex_id r"
    and "rel (Some row) (Some (f row))" and "\<And>x. db_executions (state x) = db_executions x"
  shows "moving rel d state (update_execution ck i f d1)"
  using moves_update [OF rel_refl assms(1,3,2) _ assms(4)] assms(5) by (auto simp: moving_def intro: moves_cong)

lemma moves_terminal:
  assumes "find_execution d (ex_id row) = Some row" and "terminal env ck row st fc d = Inr d'"
    and "\<not> isTerminal (ex_state row)"
    and "st = INTERNAL_ERROR \<or> st = CANCELLED \<and> (ex_state row = QUEUED \<or> ex_cancellationRequestedAt row \<noteq> None)"
  shows "moves rel d d'"
proof -
  from terminal_executions [OF assms(2)] obtain n d2 where "db_executions d2 = db_executions d"
    "update_execution ck (ex_id row) (terminal_row ck st fc n) d2 = Inr d'" by blast
  with rel_terminal [OF assms(3,4)] show ?thesis
    by (intro moves_update [OF rel_refl assms(1), where f = "terminal_row ck st fc n"]) (auto simp: terminal_row_def)
qed

lemma moving_terminal:
  assumes "find_execution d (ex_id row) = Some row" and "\<not> isTerminal (ex_state row)"
    and "st = INTERNAL_ERROR \<or> st = CANCELLED \<and> (ex_state row = QUEUED \<or> ex_cancellationRequestedAt row \<noteq> None)"
    and "\<And>x. db_executions (state x) = db_executions x"
  shows "moving rel d state (terminal env ck row st fc d)"
  unfolding moving_def using moves_cong [OF moves_terminal [OF assms(1) _ assms(2,3)] assms(4)] by blast

lemma claim_moves:
  assumes inv: "db_inv env d" and op: "claim env ck token i d = Inr (res, d')"
  shows "moves rel d d'"
  using op
proof (cases rule: claim_cases)
  case (expired row fc)
  with find_execution_Some [OF expired(2)] show ?thesis by (intro moves_terminal [OF _ expired(4)]) auto
next
  case (claimed row n d2)
  have "ex_state row = QUEUED \<Longrightarrow> ex_attempt row = 0"
    using row_okD [OF db_inv_row [OF inv claimed(1)]] by blast
  with claimed(2,4,6) have "rel (Some row) (Some (claim_row ck token row n row))"
    by (intro rel_claim) (simp_all add: MAX_ATTEMPTS_def)
  then show ?thesis
    using event_same_executions [OF claimed(7)]
    by (intro moves_update [OF rel_refl claimed(1) _ _ claimed(8)]) (simp_all add: claim_row_def)
qed (simp add: moves_same)

lemma renew_moves: "moving rel d snd (renew ck l d)"
  unfolding renew_def
  by (intro moving_intros moving_Inr moving_update | auto dest: valid_working intro: rel_lease)+

lemma markRunning_moves: "moving rel d snd (markRunning env ck l d)"
  unfolding markRunning_def
  by (intro moving_intros moving_Inr moving_update | auto intro: rel_running)+

lemma console_moves: "moving rel d snd (console env ck l c strm s d)"
  unfolding console_def
  by (intro moving_intros moving_Inr moving_update | auto dest: valid_working intro: rel_event)+

lemma fail_moves: "moving rel d snd (fail env ck l cleanup d)"
  unfolding fail_def Let_def
  by (intro moving_intros moving_Inr moving_terminal) (auto dest: valid_working)

text \<open>A verdict is the one rewriting that a relation may restrict further.\<close>

lemma finish_moves:
  assumes "\<And>row n. locked d (le_executionId l) = Some row \<Longrightarrow> valid (ck_db ck) row l \<Longrightarrow>
      ex_cancellationRequestedAt row = None \<Longrightarrow> rel (Some row) (Some (finish_row env ck result n row))"
  shows "moving rel d snd (finish env ck l result d)"
proof -
  have id: "ex_id (finish_row env ck result n r) = ex_id r" for n r by (simp add: finish_row_def)
  show ?thesis
    unfolding finish_def
    by (intro moving_intros moving_Inr moving_terminal moving_update
        | auto dest: valid_working simp: id locked_def intro: assms)+
qed

lemma recover_moves: "moving rel d snd (recover env ck l d)"
  unfolding recover_def
  by (intro moving_intros moving_Inr moving_terminal moving_then moving_update
      | auto dest: valid_working outbox_executions(2) simp: map_result_Inr intro: rel_lease)+

lemma cancel_moves: "moving rel d snd (cancel env ck u i allowed d)"
  unfolding cancel_def Let_def
  by (intro moving_intros moving_Inr moving_terminal moving_then moving_update
      | auto dest: outbox_executions(1) simp: map_result_Inr intro: rel_request)+

lemma create_moves:
  assumes inv: "db_inv env d" and uuid: "is_uuid env newId"
    and op: "create env cfg cr ck newId u input key ip d = Inr (rcpt, d')"
  shows "moves rel d d'"
  using op
proof (cases rule: create_cases)
  case (created v rd d1)
  let ?row = "new_execution cfg cr ck newId u (vn_id v) rd input key"
  from created(6) obtain d2 n d3 d4 where
    cr: "create_execution_row ?row d1 = Inr d2" and ev: "event env ck ?row (ExecutionStatus QUEUED None) d2 = Inr (n, d3)"
    and upd: "update_execution ck (ex_id ?row) (\<lambda>r. r\<lparr>ex_lastSequence := n\<rparr>) d3 = Inr d4"
    and ox: "create_outbox ck (ex_id ?row, EXECUTION_CREATED, 0) d4 = Inr d'"
    by (auto simp: insert_execution_def result_simps)
  have d1: "db_executions d1 = db_executions d" by (subst reserve_Inr(1) [OF created(5)]) simp
  have fresh: "find_execution d (ex_id ?row) = None" and d2: "db_executions d2 = db_executions d @ [?row]"
    using cr d1 by (auto simp: create_execution_row_def result_simps find_execution_def find_by_None split: if_splits)
  have "db_executions d' = db_executions (put_execution (ex_id ?row) (\<lambda>r. r\<lparr>ex_lastSequence := n\<rparr>) d2)"
    using upd outbox_executions(1) [OF ox] event_same_executions [OF ev] by (auto simp: update_execution_Inr put_execution_def)
  moreover have found: "find_execution d2 j = (case find_execution d j of Some x \<Rightarrow> Some x | None \<Rightarrow> if ex_id ?row = j then Some ?row else None)" for j
    using find_execution_append [of d ?row j] by (simp add: find_execution_def d2)
  ultimately have "find_execution d' j = (if j = ex_id ?row then Some (?row\<lparr>ex_lastSequence := n\<rparr>) else find_execution d2 j)" for j
    using fresh by (intro find_put) simp_all
  then show ?thesis
    using fresh by (auto simp: moves_def found new_execution_def intro: rel_create rel_refl split: option.splits)
qed (simp add: moves_same)

text \<open>Distinct executions, each as selected when its turn comes, and each turn writes its own.\<close>

lemma batch_moves:
  assumes turn: "\<And>d row d'. find_execution d (ex_id row) = Some row \<Longrightarrow> P row \<Longrightarrow> f row d = Inr d' \<Longrightarrow>
      moves rel d d' \<and> (\<forall>j. j \<noteq> ex_id row \<longrightarrow> find_execution d' j = find_execution d j)"
    and "distinct (map ex_id rows)" and "\<forall>r \<in> set rows. find_execution d (ex_id r) = Some r \<and> P r"
    and "fold_result f rows d = Inr d'"
  shows "moves rel d d' \<and> (\<forall>j. j \<notin> ex_id ` set rows \<longrightarrow> find_execution d' j = find_execution d j)"
  using assms(2-)
proof (induction rows arbitrary: d)
  case Nil
  then show ?case by (simp add: moves_same)
next
  case (Cons r rows)
  then obtain d1 where d1: "f r d = Inr d1" "fold_result f rows d1 = Inr d'" by (auto simp: result_simps)
  have "find_execution d (ex_id r) = Some r" "P r" using Cons.prems(2) by simp_all
  from turn [OF this d1(1)] have m: "moves rel d d1"
    and other: "\<And>j. j \<noteq> ex_id r \<Longrightarrow> find_execution d1 j = find_execution d j" by auto
  have rest: "moves rel d1 d' \<and> (\<forall>j. j \<notin> ex_id ` set rows \<longrightarrow> find_execution d' j = find_execution d1 j)"
    using Cons.prems(1,2) other by (intro Cons.IH [OF _ _ d1(2)]) (auto simp: image_iff)
  have "rel (find_execution d j) (find_execution d' j)" for j
  proof (cases "j = ex_id r")
    case True
    then have "find_execution d' j = find_execution d1 j" using rest Cons.prems(1) by auto
    with m show ?thesis by (simp add: moves_def)
  next
    case False
    with other rest show ?thesis by (metis moves_def)
  qed
  with rest other show ?case by (auto simp: moves_def)
qed

lemma maintain_moves:
  assumes inv: "db_inv env d" and op: "maintain env sc ck d = Inr d'"
  shows "moves rel d d'"
proof -
  from op obtain d1 where d1: "fold_result (maintain_row env ck) (maintain_rows sc ck d) d = Inr d1"
    and d': "d' = purge_events sc ck (reoffer_outbox sc ck d1)"
    by (auto simp: maintain_def result_simps)
  have turn: "moves rel d d' \<and> (\<forall>j. j \<noteq> ex_id row \<longrightarrow> find_execution d' j = find_execution d j)"
    if row: "find_execution d (ex_id row) = Some row" "ex_state row \<in> {COMPILING, RUNNING}"
      and op: "maintain_row env ck row d = Inr d'" for d row d'
  proof (cases "ex_cancellationRequestedAt row \<noteq> None \<or> MAX_ATTEMPTS \<le> ex_attempt row \<or> deadline row \<le> ck_db ck")
    case True
    then obtain fc where t: "terminal env ck row INTERNAL_ERROR fc d = Inr d'"
      using op unfolding maintain_row_def by (simp only: if_True)
    with moves_terminal [OF row(1) t] row(2) terminal_other [OF t] show ?thesis by auto
  next
    case False
    then have "db_executions d' = db_executions d"
      using op by (auto simp: maintain_row_def dest: outbox_executions(2))
    then show ?thesis by (simp add: moves_same find_execution_def)
  qed
  have "moves rel d d1"
    using maintain_rows_selected [OF inv, where sc = sc and ck = ck]
    by (intro conjunct1 [OF batch_moves [OF turn _ _ d1]]) (auto simp: maintain_due_def)
  moreover have "db_executions d' = db_executions d1"
    by (simp add: d' purge_events_def reoffer_outbox_def Let_def)
  ultimately show ?thesis by (rule moves_cong)
qed

lemma expire_moves:
  assumes inv: "db_inv env d" and op: "expireQueuedJobs env sc ck d = Inr (n, d')"
  shows "moves rel d d'"
proof (cases "expired_queued sc ck d = []")
  case True
  with op show ?thesis by (simp add: expireQueuedJobs_def moves_same)
next
  case False
  let ?E = "expired_queued sc ck d"
  from op False obtain d1 where d1: "fold_result (expire_row env ck) ?E d = Inr d1"
    and d': "fold_result (\<lambda>r. create_outbox ck (ex_id r, EXECUTION_EXPIRED, 0)) ?E d1 = Inr d'"
    by (auto simp: expireQueuedJobs_def result_simps Let_def)
  have turn: "moves rel d d' \<and> (\<forall>j. j \<noteq> ex_id row \<longrightarrow> find_execution d' j = find_execution d j)"
    if row: "find_execution d (ex_id row) = Some row" "ex_state row = QUEUED"
      and op: "expire_row env ck row d = Inr d'" for d row d'
  proof -
    from op obtain n d1 where
      ev: "event env ck row (FinalVerdict INTERNAL_ERROR V_INTERNAL_ERROR (Some QUEUE_TIMEOUT)) d = Inr (n, d1)"
      and upd: "update_execution ck (ex_id row) (expire_update ck n) d1 = Inr d'"
      by (auto simp: expire_row_def result_simps)
    have "moves rel d d'"
      using event_same_executions [OF ev] rel_expire [OF row(2)]
      by (intro moves_update [OF rel_refl row(1) _ _ upd]) (simp_all add: expire_update_def)
    moreover have "find_execution d' j = find_execution d j" if "j \<noteq> ex_id row" for j
      using update_other [OF upd that] event_same_executions [OF ev] by (simp add: expire_update_def find_execution_def)
    ultimately show ?thesis by blast
  qed
  have "moves rel d d1"
    using expired_queued_selected [OF inv] by (intro conjunct1 [OF batch_moves [OF turn _ _ d1]]) auto
  moreover have "db_executions d' = db_executions d1"
    using d' by (rule fold_result_invariant) (auto dest: outbox_executions(1))
  ultimately show ?thesis by (rule moves_cong)
qed

text \<open>All transactions but the storing of a verdict.\<close>

lemma routine_moves:
  assumes "routine_step env cfg d d'" and "db_inv env d"
  shows "moves rel d d'"
  using assms
proof (induction rule: routine_step.induct)
  case (routine_cancel ck u i d rcpt d')
  then show ?case using movingD [OF cancel_moves] by (fastforce simp: cancel_execution_def)
next
  case (routine_limits d ck)
  then show ?case by (simp add: purge_limits_def moves_same)
next
  case (routine_intents d sc ck token)
  then show ?case by (intro moves_same) (simp add: claim_intents_def Let_def)
next
  case (routine_dispatch d add ck token x)
  then show ?case
    by (intro moves_same) (simp add: dispatch_intent_def publish_intent_def postpone_intent_def put_outbox_def split: option.splits)
qed (auto intro: create_moves claim_moves maintain_moves expire_moves dest: movingD [OF renew_moves]
    movingD [OF markRunning_moves] movingD [OF console_moves] movingD [OF fail_moves] movingD [OF recover_moves])

end

end
