(* ===== verification/Lifecycle.thy ===== *)
theory Lifecycle
  imports RowMoves
begin

text \<open>
  The abstract life of one execution, and that the pipeline implements it: seen from any single execution,
  every transaction of every process is one step of this life, or none.
\<close>

section \<open>The life of an execution\<close>

text \<open>
  An execution is not there yet, waits in the queue, is worked on (its phase, its attempt, the token of the
  lease and whether its cancellation was asked for), or has ended.
\<close>

datatype life =
    Absent
  | Waiting
  | Working state int "uuid option" bool
  | Ended state "verdict option"

inductive life_step :: "life \<Rightarrow> life \<Rightarrow> bool" where
  submitted: "life_step Absent Waiting"
| withdrawn: "life_step Waiting (Ended CANCELLED (Some V_CANCELLED))"
| lapsed: "life_step Waiting (Ended INTERNAL_ERROR (Some V_INTERNAL_ERROR))"
| claimed: "life_step Waiting (Working COMPILING 1 (Some t) False)"
| reclaimed: "n < 3 \<Longrightarrow> life_step (Working st n h False) (Working COMPILING (n + 1) (Some t) False)"
| started: "life_step (Working COMPILING n h False) (Working RUNNING n h False)"
| requested: "life_step (Working st n h False) (Working st n h True)"
| judged: "life_step (Working st n h False) (Ended FINISHED (Some v))"
| confirmed: "life_step (Working st n h True) (Ended CANCELLED (Some V_CANCELLED))"
| failed: "life_step (Working st n h c) (Ended INTERNAL_ERROR (Some V_INTERNAL_ERROR))"

inductive_cases endedE: "life_step (Ended st v) y"

text \<open>A life has at most eleven steps: every step uses up some of what is left.\<close>

fun life_left :: "life \<Rightarrow> nat" where
  "life_left Absent = 11"
| "life_left Waiting = 10"
| "life_left (Working st n h c) = 3 * nat (3 - n) + (if c then 1 else if st = COMPILING then 3 else 2)"
| "life_left (Ended st v) = 0"

lemma life_step_left: "life_step x y \<Longrightarrow> life_left y < life_left x"
  by (induction rule: life_step.induct) auto

lemma life_bounded: "(life_step ^^ n) x y \<Longrightarrow> n + life_left y \<le> life_left x"
proof (induction n arbitrary: y)
  case (Suc n)
  then obtain z where "(life_step ^^ n) x z" "life_step z y" by auto
  with Suc.IH [of z] life_step_left [of z y] show ?case by simp
qed auto

section \<open>Abstraction\<close>

definition life_row :: "execution \<Rightarrow> life" where
  "life_row r =
     (if isTerminal (ex_state r) then Ended (ex_state r) (ex_verdict r)
      else if ex_state r = QUEUED then Waiting
      else Working (ex_state r) (ex_attempt r) (ex_leaseToken r) (ex_cancellationRequestedAt r \<noteq> None))"

definition life :: "execution option \<Rightarrow> life" where
  "life x = (case x of None \<Rightarrow> Absent | Some r \<Rightarrow> life_row r)"

definition life_of :: "db \<Rightarrow> uuid \<Rightarrow> life" where
  "life_of d i = life (find_execution d i)"

text \<open>The ways the protocol rewrites a row are steps of its life.\<close>

interpretation living: row_protocol "\<lambda>x y. life_step\<^sup>=\<^sup>= (life x) (life y)"
proof unfold_locales
  show "life_step\<^sup>=\<^sup>= (life (Some row)) (life (Some (claim_row ck token row n row)))"
    if "\<not> isTerminal (ex_state row)" "ex_cancellationRequestedAt row = None" "ex_attempt row < 3"
      "ex_state row = QUEUED \<Longrightarrow> ex_attempt row = 0" for row ck token n
    using that by (auto simp: life_def life_row_def claim_row_def intro: life_step.intros)
  show "life_step\<^sup>=\<^sup>= (life (Some row)) (life (Some (terminal_row ck st fc n row)))"
    if "\<not> isTerminal (ex_state row)"
      "st = INTERNAL_ERROR \<or> st = CANCELLED \<and> (ex_state row = QUEUED \<or> ex_cancellationRequestedAt row \<noteq> None)"
    for row st ck fc n
    using that by (auto simp: life_def life_row_def terminal_row_def intro: life_step.intros)
qed (auto simp: life_def life_row_def expire_update_def intro: life_step.intros)

lemma finish_lives: "moving (\<lambda>x y. life_step\<^sup>=\<^sup>= (life x) (life y)) d snd (finish env ck l result d)"
  by (rule living.finish_moves)
    (auto dest: valid_working simp: life_def life_row_def finish_row_def intro: life_step.judged)

section \<open>Refinement\<close>

lemma step_lives:
  assumes "pipeline_step env cfg d d'" and "db_inv env d"
  shows "life_step\<^sup>=\<^sup>= (life_of d i) (life_of d' i)"
proof -
  have "moves (\<lambda>x y. life_step\<^sup>=\<^sup>= (life x) (life y)) d d'"
    using assms living.routine_moves movingD [OF finish_lives] by (fastforce simp: pipeline_step_cases)
  then show ?thesis by (simp add: moves_def life_of_def)
qed

lemma reachable_life:
  assumes "reach initial (pipeline_step env cfg) d" and "env_ok env"
  shows "life_step\<^sup>*\<^sup>* Absent (life_of d i)"
  using assms(1)
proof (induction rule: reach.induct)
  case (reach_init d)
  then show ?case by (simp add: initial_def life_of_def life_def find_execution_def table_simps)
next
  case (reach_step d d')
  from step_lives [OF reach_step(2) reachable_inv [OF reach_step(1) assms(2)], of i] reach_step(3) show ?case
    by (auto intro: rtranclp.rtrancl_into_rtrancl)
qed

text \<open>
  C5. The pipeline implements the abstract life cycle: in every reachable database each execution is in a state that its
  life, begun when it was not there, can reach in at most eleven steps, and every further transaction of any
  process takes each execution through one step of its life or leaves it where it is. The life says that only a waiting
  execution or an uncancelled one with attempts left is claimed, each time under a new attempt and token, that only an
  uncancelled execution starts or is judged, that only a requested or waiting one ends cancelled, and that nothing
  follows its end.
\<close>

theorem pipeline_refines_life:
  assumes "reach initial (pipeline_step env cfg) d" and "env_ok env" and "pipeline_step env cfg d d'"
  shows "life_step\<^sup>=\<^sup>= (life_of d i) (life_of d' i) \<and> (\<exists>n \<le> 11. (life_step ^^ n) Absent (life_of d i))"
proof -
  from reachable_life [OF assms(1,2)] obtain n where n: "(life_step ^^ n) Absent (life_of d i)"
    by (metis rtranclp_imp_relpowp)
  moreover from life_bounded [OF this] have "n \<le> 11" by simp
  ultimately show ?thesis
    using step_lives [OF assms(3) reachable_inv [OF assms(1,2)]] by blast
qed

end
