(* ===== verification/Scenario.thy ===== *)
theory Scenario
  imports Realtime Lifecycle
begin

text \<open>
  A worked run of the pipeline on a small catalog: one user, one published problem with a public and
  a hidden case. A submission is created, claimed, heartbeated and marked running, and then judged,
  cancelled, lost or left to expire. The databases of the run are the concrete inputs at which the
  properties of the pipeline are instantiated.
\<close>

section \<open>The catalog\<close>

definition s_user :: uuid where "s_user = ''11111111-1111-4111-8111-111111111111''"
definition s_problem :: uuid where "s_problem = ''22222222-2222-4222-8222-222222222222''"
definition s_version :: uuid where "s_version = ''33333333-3333-4333-8333-333333333333''"
definition s_case :: uuid where "s_case = ''44444444-4444-4444-8444-444444444444''"
definition s_hidden :: uuid where "s_hidden = ''55555555-5555-4555-8555-555555555555''"
definition s_id :: uuid where "s_id = ''66666666-6666-4666-8666-666666666666''"
definition s_token :: uuid where "s_token = ''77777777-7777-4777-8777-777777777777''"
definition s_token2 :: uuid where "s_token2 = ''88888888-8888-4888-8888-888888888888''"
definition s_key :: string where "s_key = ''first-submission''"

lemmas s_names = s_user_def s_problem_def s_version_def s_case_def s_hidden_def s_id_def s_token_def
  s_token2_def s_key_def

definition s_env :: env where
  "s_env = \<lparr>is_uuid = (\<lambda>s. length s = 36), strip_vt = (\<lambda>s. s), notification_id = (\<lambda>i. i)\<rparr>"

definition s_cfg :: config where
  "s_cfg = \<lparr>cf_executionsEnabled = True, cf_pipelineEnabled = True, cf_MAX_ACTIVE_JOBS_PER_USER = 3,
     cf_MAX_ACTIVE_JOBS_GLOBAL = 100, cf_QUEUE_TTL_SECONDS = 60,
     cf_EXECUTION_GLOBAL_CREATIONS_PER_MINUTE = 600, cf_EXECUTION_IP_CREATIONS_PER_MINUTE = 60,
     cf_EXECUTION_CREATIONS_PER_MINUTE = 30, cf_EXECUTION_RATE_LIMIT_KEY = ''secret''\<rparr>"

definition s_crypto :: crypto where
  "s_crypto = \<lparr>hmac = (\<lambda>k m. k @ m), sha256 = (\<lambda>j. case j of JArr [_, _, JStr m, JStr s, _] \<Rightarrow>
      (case ascii s of Some t \<Rightarrow> t | None \<Rightarrow> ''-'') | _ \<Rightarrow> [])\<rparr>"

definition s_clock :: "millis \<Rightarrow> clock" where
  "s_clock t = \<lparr>ck_start = t, ck_db = t, ck_trigger = t, ck_host = t\<rparr>"

definition s_input :: create_execution where
  "s_input = \<lparr>ce_problemId = s_problem, ce_language = Python, ce_mode = RUN, ce_sourceCode = js ''x'',
     ce_competitionSlug = None\<rparr>"

definition s_catalog :: db where
  "s_catalog = empty_db\<lparr>
     db_users := [\<lparr>us_id = s_user, us_issuer = ''test'', us_subject = ''ada'', us_displayName = js ''Ada'',
        us_username = ''ada'', us_bio = None, us_location = None, us_website = None, us_avatarUrl = None,
        us_profileVisibility = PV_PUBLIC, us_themePreference = SYSTEM, us_productNotifications = True,
        us_competitionNotifications = True, us_deactivatedAt = None, us_suspendedUntil = None,
        us_bannedAt = None, us_restrictionReason = None, us_role = USER, us_createdAt = 0\<rparr>],
     db_problems := [\<lparr>pr_id = s_problem, pr_slug = ''sum'', pr_currentVersionId = Some s_version, pr_createdAt = 0\<rparr>],
     db_versions := [\<lparr>vn_id = s_version, vn_problemId = s_problem, vn_number = 1, vn_published = True,
        vn_title = js ''Sum'', vn_difficulty = EASY, vn_tags = [], vn_statementMarkdown = js ''Add.'',
        vn_constraints = [], vn_timeMs = 1000, vn_memoryKiB = 65536, vn_templates = JObj [],
        vn_inputMode = STDIN, vn_comparator = ''EXACT_NEWLINE''\<rparr>],
     db_testCases := [\<lparr>tc_id = s_case, tc_problemVersionId = s_version, tc_ordinal = 1,
        tc_visibility = PUBLIC, tc_input = js ''1 2'', tc_expectedOutput = js ''3'', tc_files = []\<rparr>,
        \<lparr>tc_id = s_hidden, tc_problemVersionId = s_version, tc_ordinal = 2,
        tc_visibility = HIDDEN, tc_input = js ''3 4'', tc_expectedOutput = js ''7'', tc_files = []\<rparr>]\<rparr>"


section \<open>The databases of the run\<close>

definition s_payload :: "int \<Rightarrow> int \<Rightarrow> event_fields \<Rightarrow> public_event" where
  "s_payload a n f = \<lparr>pe_executionId = s_id, pe_attempt = a, pe_sequence = n, pe_fields = f\<rparr>"

definition s_event :: "millis \<Rightarrow> int \<Rightarrow> int \<Rightarrow> event_fields \<Rightarrow> event_row" where
  "s_event t a n f =
     \<lparr>ev_executionId = s_id, ev_attempt = a, ev_sequence = n, ev_payload = s_payload a n f,
      ev_bytes = event_bytes (s_payload a n f), ev_expiresAt = t + 600000\<rparr>"

definition s_queued :: execution where
  "s_queued = (new_execution s_cfg s_crypto (s_clock 1000) s_id s_user s_version None s_input s_key)\<lparr>ex_lastSequence := 1\<rparr>"

definition s_compiling :: execution where
  "s_compiling = claim_row (s_clock 2000) s_token s_queued 1 s_queued"

definition s_running :: execution where
  "s_running = s_compiling\<lparr>ex_state := RUNNING, ex_lastSequence := 2\<rparr>"

definition s_cancelling :: execution where
  "s_cancelling = s_running\<lparr>ex_cancellationRequestedAt := Some 4000, ex_lastSequence := 3\<rparr>"

definition s_retried :: execution where
  "s_retried = claim_row (s_clock 40000) s_token2 s_running 1 s_running"

definition s_lease :: lease where
  "s_lease = \<lparr>le_executionId = s_id, le_attempt = 1, le_token = s_token\<rparr>"

definition s_result :: judged_result where
  "s_result = \<lparr>jr_verdict = ACCEPTED, jr_runtimeMs = Some 12, jr_memoryKiB = None,
     jr_publicCaseResults = Some [\<lparr>cr_caseId = s_case, cr_verdict = ACCEPTED, cr_outputTruncated = Some False,
       cr_stdout = Some (js ''3''), cr_stderr = Some [], cr_exitCode = Some 0, cr_runtimeMs = Some 12,
       cr_memoryKiB = None\<rparr>]\<rparr>"

definition s_finished :: execution where
  "s_finished = finish_row s_env (s_clock 4000) s_result 3 s_running"

definition s_limit :: "string \<Rightarrow> rate_limit" where
  "s_limit scope = \<lparr>rl_key = executionRateKey (hmac s_crypto) ''secret'' 0 scope, rl_count = 1, rl_expiresAt = 60000\<rparr>"

definition s_db1 :: db where
  "s_db1 = s_catalog\<lparr>db_executions := [s_queued],
     db_outbox := [new_outbox (s_clock 1000) (s_id, EXECUTION_CREATED, 0)],
     db_events := [s_event 1000 0 1 (ExecutionStatus QUEUED None)],
     db_executionLimits := map s_limit [''global'', ''ip:::1'', ''user:'' @ s_user]\<rparr>"

definition s_db2 :: db where
  "s_db2 = s_db1\<lparr>db_executions := [s_compiling], db_events := [s_event 2000 1 1 (ExecutionStatus COMPILING None)]\<rparr>"

definition s_db3 :: db where
  "s_db3 = s_db2\<lparr>db_executions := [s_running],
     db_events := [s_event 2000 1 1 (ExecutionStatus COMPILING None), s_event 3000 1 2 (ExecutionStatus RUNNING None)]\<rparr>"

definition s_db_cancelling :: db where
  "s_db_cancelling = s_db3\<lparr>db_executions := [s_cancelling],
     db_events := [s_event 2000 1 1 (ExecutionStatus COMPILING None), s_event 3000 1 2 (ExecutionStatus RUNNING None),
       s_event 4000 1 3 (ExecutionStatus RUNNING (Some True))]\<rparr>"

definition s_db_finished :: db where
  "s_db_finished = s_db3\<lparr>db_executions := [s_finished],
     db_events := [s_event 2000 1 1 (ExecutionStatus COMPILING None), s_event 3000 1 2 (ExecutionStatus RUNNING None),
       s_event 4000 1 3 (FinalVerdict FINISHED ACCEPTED None)]\<rparr>"

definition s_db_retried :: db where
  "s_db_retried = s_db3\<lparr>db_executions := [s_retried],
     db_events := [s_event 40000 2 1 (ExecutionStatus COMPILING None)]\<rparr>"

section \<open>Evaluation\<close>

lemma s_id_length: "length s_id = 36" "length s_case = 36"
  by (simp_all add: s_names)

text \<open>Retention keeps a short history as it is.\<close>

lemma discard_none:
  "i + length es \<le> REPLAY_ROWS \<Longrightarrow> tot + sum_list (map ev_bytes es) \<le> REPLAY_BYTES \<Longrightarrow>
     list_all (\<lambda>e. 0 \<le> ev_bytes e) es \<Longrightarrow> discard i tot es = []"
proof (induction es arbitrary: i tot)
  case (Cons e es)
  have "0 \<le> sum_list (map ev_bytes es)" using Cons.prems(3) by (intro sum_list_nonneg) (auto simp: list_all_iff)
  then have "\<not> REPLAY_BYTES < tot + ev_bytes e" and "\<not> REPLAY_ROWS \<le> i" using Cons.prems(1,2) by simp_all
  moreover have "discard (Suc i) (tot + ev_bytes e) es = []" using Cons.prems by (intro Cons.IH) simp_all
  ultimately show ?case by simp
qed simp

lemma retained_short:
  assumes "length es \<le> 256" and "sum_list (map ev_bytes es) \<le> 262144" and "\<forall>e \<in> set es. 0 \<le> ev_bytes e"
  shows "retained_events i es = es"
proof -
  let ?F = "newest_first (filter (\<lambda>e. ev_executionId e = i) es)"
  have len: "length ?F \<le> 256" using assms(1) le_trans [OF length_filter_le] by simp
  have "sum_list (map ev_bytes ?F) = sum_mset (image_mset ev_bytes (mset ?F))"
    by (simp only: sum_mset_sum_list [symmetric] mset_map)
  also have "\<dots> = sum_list (map ev_bytes (filter (\<lambda>e. ev_executionId e = i) es))"
    by (simp only: mset_newest_first sum_mset_sum_list [symmetric] mset_map)
  finally have "sum_list (map ev_bytes ?F) = sum_list (map ev_bytes (filter (\<lambda>e. ev_executionId e = i) es))" .
  then have "sum_list (map ev_bytes ?F) \<le> 262144"
    using sum_list_filter_le_int [OF assms(3)] assms(2) by (metis order_trans)
  then have "discard 0 0 ?F = []"
    using len assms(3) by (intro discard_none) (simp_all add: REPLAY_ROWS_def REPLAY_BYTES_def list_all_iff)
  then show ?thesis by (simp add: retained_events_def)
qed

lemma s_env_ok: "env_ok s_env" "is_uuid s_env s_id" "is_uuid s_env s_case"
  by (simp_all add: env_ok_def s_env_def s_id_length)

text \<open>An event of the run is stored, and the ones before it stay.\<close>

lemma s_emit:
  assumes "ex_id row = s_id" and "ex_attempt row = a" and "ex_lastSequence row = n"
    and "\<And>c strm s. f \<noteq> ConsoleOutput c strm s"
    and "s_id \<in> ex_id ` set (db_executions d)" and "0 \<le> a" and "a < 10" and "0 \<le> n" and "n < 10"
    and "(s_id, a, n + 1) \<notin> ev_key ` set (db_events d)" and "t = ck_host ck" and "m = n + 1"
    and "length (db_events d) \<le> 4" and "\<forall>e \<in> set (db_events d). 0 \<le> ev_bytes e \<and> ev_bytes e \<le> 16384"
  shows "event s_env ck row f d = Inr (m, d\<lparr>db_events := db_events d @ [s_event t a m f]\<rparr>)"
    and "0 \<le> ev_bytes (s_event t a m f) \<and> ev_bytes (s_event t a m f) \<le> 16384"
proof -
  have p: "event_payload row f = s_payload a m f" using assms by (simp add: event_payload_def s_payload_def)
  have e: "new_event ck row f = s_event t a m f"
    using assms by (simp add: new_event_def s_event_def p REPLAY_TTL_MS_def)
  have "fields_ok s_env d row f" using assms(4) by (cases f) (auto simp: fields_ok_def)
  then have ev: "event s_env ck row f d =
      Inr (m, d\<lparr>db_events := retained_events s_id (db_events d @ [s_event t a m f])\<rparr>)"
    using assms s_env_ok
    by (subst event_succeeds [where d0 = d]) (simp_all add: int4_def e)
  then have "0 < event_bytes (s_payload a m f) \<and> event_bytes (s_payload a m f) \<le> 16384"
    unfolding event_Inr p by blast
  then show b: "0 \<le> ev_bytes (s_event t a m f) \<and> ev_bytes (s_event t a m f) \<le> 16384"
    by (simp add: s_event_def)
  let ?es = "db_events d @ [s_event t a m f]"
  have all: "\<forall>x \<in> set ?es. 0 \<le> ev_bytes x \<and> ev_bytes x \<le> 16384" using b assms by auto
  have "sum_list (map ev_bytes ?es) \<le> sum_list (map (\<lambda>_. 16384) ?es)"
    using all by (intro sum_list_mono) auto
  also have "\<dots> \<le> 262144" using assms by (simp add: sum_list_triv)
  finally have "retained_events s_id ?es = ?es" using all assms by (intro retained_short) auto
  with ev show "event s_env ck row f d = Inr (m, d\<lparr>db_events := ?es\<rparr>)" by simp
qed

lemma s_catalog_simps:
  "db_executions s_catalog = []" "db_events s_catalog = []" "db_outbox s_catalog = []"
  "db_executionLimits s_catalog = []" "db_notifications s_catalog = []" "us_id ` set (db_users s_catalog) = {s_user}"
  "\<exists>v \<in> set (db_versions s_catalog). vn_id v = s_version \<and> vn_published v"
  "map_option vn_problemId (find_by vn_id s_version (db_versions s_catalog)) = Some s_problem"
  by (simp_all add: s_catalog_def empty_db_def table_simps)

lemma s_clock_simps:
  "ck_start (s_clock t) = t" "ck_db (s_clock t) = t" "ck_trigger (s_clock t) = t" "ck_host (s_clock t) = t"
  by (simp_all add: s_clock_def)

lemma s_update:
  assumes "db_executions d = [old]" and "ex_id old = s_id"
    and "protect_execution_lifecycle (ck_trigger ck) old (f old) = None" and "execution_checks (f old)"
  shows "update_execution ck s_id f d = Inr (d\<lparr>db_executions := [f old]\<rparr>)"
  using assms by (simp add: update_execution_def find_execution_def table_simps put_execution_def update_by_def)

section \<open>Creation\<close>

lemma s_queued_fields:
  "ex_id s_queued = s_id" "ex_userId s_queued = s_user" "ex_state s_queued = QUEUED" "ex_attempt s_queued = 0"
  "ex_lastSequence s_queued = 1" "ex_problemVersionId s_queued = s_version" "ex_queueExpiresAt s_queued = 61000"
  "ex_cancellationRequestedAt s_queued = None" "ex_leaseToken s_queued = None" "ex_leaseExpiresAt s_queued = None"
  "ex_verdict s_queued = None" "ex_finishedAt s_queued = None" "ex_failureCode s_queued = None"
  "ex_mode s_queued = RUN" "ex_publicResults s_queued = None" "ex_createdAt s_queued = 1000"
  "ex_runtimeMs s_queued = None" "ex_memoryKiB s_queued = None" "byteLength (ex_sourceCode s_queued) = 1"
  "0 \<notin> set (ex_sourceCode s_queued)" "ex_idempotencyKey s_queued = s_key"
  by (simp_all add: s_queued_def new_execution_def s_clock_simps s_cfg_def s_input_def js_def unit_bytes_def of_char_def)

lemmas s_check_defs = execution_checks_def int4_def valid_execution_terminal_fields_def valid_execution_lease_pair_def
  s_queued_fields

lemma s_create:
  "create s_env s_cfg s_crypto (s_clock 1000) s_id s_user s_input s_key ''::1'' s_catalog =
     Inr (\<lparr>rc_executionId = s_id, rc_state = QUEUED, rc_cancellationRequested = None\<rparr>, s_db1)"
proof -
  let ?d = "s_catalog\<lparr>db_executionLimits := map s_limit [''global'', ''ip:::1'', ''user:'' @ s_user]\<rparr>"
  let ?row = "s_queued\<lparr>ex_lastSequence := 0\<rparr>"
  let ?e = "s_event 1000 0 1 (ExecutionStatus QUEUED None)"
  have row: "new_execution s_cfg s_crypto (s_clock 1000) s_id s_user s_version None s_input s_key = ?row"
    by (simp add: s_queued_def new_execution_def)
  have res: "reserve (hmac s_crypto) s_cfg (s_clock 1000) s_user ''::1'' s_catalog = Inr ?d"
    by (simp add: reserve_def admission_scopes_def reserve_scope_def Let_def bump_limit_def limit_count_def
        table_simps s_limit_def s_catalog_simps s_clock_simps s_cfg_def active_rows_def executionRateKey_def s_crypto_def)
  have "create_execution_row ?row ?d = Inr (?d\<lparr>db_executions := [?row]\<rparr>)"
    by (simp add: version_published_def create_execution_row_def s_check_defs s_catalog_simps insert_by_def)
  moreover have "event s_env (s_clock 1000) ?row (ExecutionStatus QUEUED None) (?d\<lparr>db_executions := [?row]\<rparr>) =
      Inr (1, ?d\<lparr>db_executions := [?row], db_events := [?e]\<rparr>)"
    by (subst s_emit(1) [where a = 0 and n = 0 and t = 1000 and m = 1])
      (simp_all add: s_queued_fields s_catalog_simps s_clock_simps)
  moreover have "update_execution (s_clock 1000) s_id (\<lambda>r. r\<lparr>ex_lastSequence := 1\<rparr>)
      (?d\<lparr>db_executions := [?row], db_events := [?e]\<rparr>) = Inr (?d\<lparr>db_executions := [s_queued], db_events := [?e]\<rparr>)"
    by (subst s_update [where old = ?row]) (simp_all add: s_check_defs protect_None_iff request_of_def)
  ultimately have "insert_execution s_env (s_clock 1000) ?row ?d = Inr s_db1"
    by (simp add: insert_execution_def create_outbox_def insert_by_def s_queued_fields s_catalog_simps s_db1_def)
  moreover obtain v where "current_version s_catalog s_problem = Some v" "vn_id v = s_version"
    by (simp add: s_catalog_def empty_db_def current_version_def find_problem_def find_version_def table_simps)
  moreover have "cf_executionsEnabled s_cfg" "cf_MAX_ACTIVE_JOBS_PER_USER s_cfg = 3"
    "ce_problemId s_input = s_problem" "ce_competitionSlug s_input = None"
    by (simp_all add: s_cfg_def s_input_def)
  ultimately show ?thesis
    by (simp add: create_def row res find_previous_def s_catalog_simps user_active_def active_rows_def
        competition_round_of_def)
qed

section \<open>Claim, running, cancellation, completion, retry\<close>

lemmas s_rows = s_compiling_def s_running_def s_cancelling_def s_retried_def s_finished_def claim_row_def
  deadline_def LEASE_MS_def s_clock_simps s_queued_fields

lemmas s_steps = s_update protect_None_iff request_of_def trigger_transition_def lease_replaced_def expired_lease_def
  canTransition_def

lemma s_events_small:
  "ev_bytes (s_event t 1 1 (ExecutionStatus COMPILING None)) \<le> 16384" 
  "0 \<le> ev_bytes (s_event t a n f)"
  "ev_bytes (s_event t 1 2 (ExecutionStatus RUNNING None)) \<le> 16384" 
   using fields_bytes [of "s_payload 1 1 (ExecutionStatus COMPILING None)"] fields_bytes [of "s_payload 1 2 (ExecutionStatus RUNNING None)"]
   by (simp_all add: s_event_def event_bytes_def s_payload_def safe_int_def s_id_length)

lemma s_claim:
  "claim s_env (s_clock 2000) s_token s_id s_db1 =
     Inr (Some (s_lease, s_compiling), s_db2)"
proof -
  let ?e = "s_event 2000 1 1 (ExecutionStatus COMPILING None)"
  let ?row = "s_queued\<lparr>ex_attempt := 1, ex_lastSequence := 0, ex_state := COMPILING\<rparr>"
  have ev: "event s_env (s_clock 2000) ?row (ExecutionStatus COMPILING None) (s_db1\<lparr>db_events := []\<rparr>) =
      Inr (1, s_db1\<lparr>db_events := [?e]\<rparr>)"
    by (subst s_emit(1) [where a = 1 and n = 0 and t = 2000 and m = 1])
      (simp_all add: s_queued_fields s_db1_def s_clock_simps)
  have upd: "update_execution (s_clock 2000) s_id (claim_row (s_clock 2000) s_token s_queued 1) (s_db1\<lparr>db_events := [?e]\<rparr>) =
      Inr s_db2"
    by (subst s_update [where old = s_queued])
     (simp_all add: s_db1_def s_db2_def s_rows s_check_defs s_steps)
  have "locked s_db1 s_id = Some s_queued"
    by (simp add: locked_def find_execution_def s_db1_def table_simps s_queued_fields)
  moreover have "filter (\<lambda>e. ev_executionId e \<noteq> s_id) (db_events s_db1) = []" by (simp add: s_db1_def s_event_def)
  ultimately show ?thesis
    using ev upd by (simp add: claim_def Let_def s_queued_fields s_clock_simps MAX_ATTEMPTS_def deadline_def s_compiling_def s_lease_def)
qed

lemma s_locked:
  "locked s_db2 s_id = Some s_compiling" "locked s_db3 s_id = Some s_running"
  by (simp_all add: locked_def find_execution_def s_db2_def s_db3_def table_simps s_rows)

lemma s_public_cases: "public_case_ids s_db3 s_version = [s_case]"
  by (simp add: public_case_ids_def s_db3_def s_db2_def s_db1_def s_catalog_def empty_db_def)

lemma s_markRunning: "markRunning s_env (s_clock 3000) s_lease s_db2 = Inr (True, s_db3)"
proof -
  let ?es = "[s_event 2000 1 1 (ExecutionStatus COMPILING None), s_event 3000 1 2 (ExecutionStatus RUNNING None)]"
  have "event s_env (s_clock 3000) s_compiling (ExecutionStatus RUNNING None) s_db2 = Inr (2, s_db2\<lparr>db_events := ?es\<rparr>)"
    by (subst s_emit(1) [where a = 1 and n = 1 and t = 3000 and m = 2])
      (simp_all add: s_rows s_db2_def s_clock_simps s_events_small, simp add: s_event_def ev_key_def)
  moreover have "update_execution (s_clock 3000) s_id (\<lambda>r. r\<lparr>ex_state := RUNNING, ex_lastSequence := 2\<rparr>)
      (s_db2\<lparr>db_events := ?es\<rparr>) = Inr s_db3"
    by (subst s_update [where old = s_compiling])
     (simp_all add: s_db2_def s_db3_def s_rows s_check_defs s_steps)
  moreover have "ex_id s_compiling = s_id" by (simp add: s_rows)
  ultimately show ?thesis
    using s_locked(1) by (simp add: markRunning_def s_lease_def valid_def s_clock_simps) (simp add: s_rows)
qed

lemma s_cancel:
  "cancel_execution s_env s_cfg (s_clock 4000) s_user s_id s_db3 =
     Inr (\<lparr>rc_executionId = s_id, rc_state = RUNNING, rc_cancellationRequested = Some True\<rparr>, s_db_cancelling)"
proof -
  let ?es = "db_events s_db_cancelling"
  have "event s_env (s_clock 4000) s_running (ExecutionStatus RUNNING (Some True)) s_db3 = Inr (3, s_db3\<lparr>db_events := ?es\<rparr>)"
    by (subst s_emit(1) [where a = 1 and n = 2 and t = 4000 and m = 3])
      (simp_all add: s_rows s_db3_def s_db_cancelling_def s_clock_simps s_events_small, simp add: s_event_def ev_key_def)
  moreover have "update_execution (s_clock 4000) s_id (\<lambda>r. r\<lparr>ex_cancellationRequestedAt := Some 4000, ex_lastSequence := 3\<rparr>)
      (s_db3\<lparr>db_events := ?es\<rparr>) = Inr s_db_cancelling"
    by (subst s_update [where old = s_running])
     (simp_all add: s_db_cancelling_def s_db3_def s_rows s_check_defs s_steps)
  moreover have "ex_state s_running = RUNNING" "ex_userId s_running = s_user" "ex_cancellationRequestedAt s_running = None"
    by (simp_all add: s_rows)
  ultimately show ?thesis
    using s_locked(2) by (simp add: cancel_execution_def cancel_def Let_def s_clock_simps s_cfg_def)
qed

text \<open>Any result of the one public case that passes the checks of \<open>finish\<close> is stored.\<close>

definition s_finished_by :: "judged_result \<Rightarrow> db" where
  "s_finished_by result = s_db3\<lparr>db_executions := [finish_row s_env (s_clock 4000) result 3 s_running],
     db_events := db_events s_db3 @ [s_event 4000 1 3 (FinalVerdict FINISHED (jr_verdict result) None)]\<rparr>"

lemma s_finish_by:
  assumes "resultSchema s_env result" and "json_bytes (result_json result) \<le> MAX_OUTPUT_BYTES"
    and "jr_publicCaseResults result = Some [x]" and "cr_caseId x = s_case"
    and "opt_all (\<lambda>n. 0 \<le> n \<and> int4 n) (jr_runtimeMs result)" and "opt_all (\<lambda>n. 0 \<le> n \<and> int4 n) (jr_memoryKiB result)"
    and "jr_verdict result \<noteq> V_INTERNAL_ERROR" and "jr_verdict result \<noteq> V_CANCELLED"
  shows "finish s_env (s_clock 4000) s_lease result s_db3 = Inr (True, s_finished_by result)"
proof -
  let ?v = "jr_verdict result"
  let ?es = "db_events s_db3 @ [s_event 4000 1 3 (FinalVerdict FINISHED ?v None)]"
  have "event s_env (s_clock 4000) s_running (FinalVerdict FINISHED ?v None) s_db3 = Inr (3, s_db3\<lparr>db_events := ?es\<rparr>)"
    by (subst s_emit(1) [where a = 1 and n = 2 and t = 4000 and m = 3])
      (simp_all add: s_rows s_db3_def s_clock_simps s_events_small, simp add: s_event_def ev_key_def)
  moreover have "update_execution (s_clock 4000) s_id (finish_row s_env (s_clock 4000) result 3)
      (s_db3\<lparr>db_events := ?es\<rparr>) = Inr (s_finished_by result)"
    by (subst s_update [where old = s_running])
     (use assms in \<open>simp_all add: s_finished_by_def s_db3_def s_rows s_check_defs s_steps finish_row_def opt_all_def split: option.splits\<close>)
  moreover have "notifyExecution s_env (s_clock 4000) s_running ?v d = Inr d" for d
    by (simp add: notifyExecution_def s_rows split: option.splits)
  moreover have "\<not> private_output s_db3 s_running [x]"
    using assms(4) by (simp add: private_output_def s_rows s_public_cases)
  ultimately show ?thesis
    using s_locked(2) assms by (simp add: finish_def s_lease_def valid_def s_clock_simps) (simp add: s_rows)
qed

lemma s_finish: "finish s_env (s_clock 4000) s_lease s_result s_db3 = Inr (True, s_db_finished)"
proof -
  have "resultSchema s_env s_result"
    by (simp add: resultSchema_def s_result_def s_env_ok worker_verdict_def safe_int_def)
  moreover have "json_bytes (result_json s_result) \<le> MAX_OUTPUT_BYTES"
    by (simp add: result_json_def case_json_def s_result_def MAX_OUTPUT_BYTES_def opt_member_def s_case_def
        json_string_bytes_def json_point_bytes_def js_def of_char_def unit_bytes_def high_surrogate_def low_surrogate_def
        decimal_length.simps)
  moreover have "s_finished_by s_result = s_db_finished"
    by (simp add: s_finished_by_def s_db_finished_def s_finished_def s_db3_def s_result_def)
  ultimately show ?thesis
    using s_finish_by [of s_result] by (simp add: s_result_def int4_def)
qed

lemma s_retry:
  "claim s_env (s_clock 40000) s_token2 s_id s_db3 =
     Inr (Some (\<lparr>le_executionId = s_id, le_attempt = 2, le_token = s_token2\<rparr>, s_retried), s_db_retried)"
proof -
  let ?e = "s_event 40000 2 1 (ExecutionStatus COMPILING None)"
  let ?row = "s_running\<lparr>ex_attempt := 2, ex_lastSequence := 0, ex_state := COMPILING\<rparr>"
  have "event s_env (s_clock 40000) ?row (ExecutionStatus COMPILING None) (s_db3\<lparr>db_events := []\<rparr>) =
      Inr (1, s_db3\<lparr>db_events := [?e]\<rparr>)"
    by (subst s_emit(1) [where a = 2 and n = 0 and t = 40000 and m = 1]) (simp_all add: s_rows s_db3_def)
  moreover have "update_execution (s_clock 40000) s_id (claim_row (s_clock 40000) s_token2 s_running 1)
      (s_db3\<lparr>db_events := [?e]\<rparr>) = Inr s_db_retried"
    by (subst s_update [where old = s_running])
      (simp_all add: s_db3_def s_db_retried_def s_rows s_check_defs s_steps s_token_def s_token2_def)
  moreover have "filter (\<lambda>e. ev_executionId e \<noteq> s_id) (db_events s_db3) = []" by (simp add: s_db3_def s_event_def)
  moreover have "ex_state s_running = RUNNING" "ex_attempt s_running = 1" "ex_cancellationRequestedAt s_running = None"
    "ex_leaseExpiresAt s_running = Some 32000" "ex_queueExpiresAt s_running = 61000"
    by (simp_all add: s_rows)
  ultimately show ?thesis
    using s_locked(2) by (simp add: claim_def Let_def MAX_ATTEMPTS_def deadline_def s_retried_def s_clock_simps)
qed

section \<open>The run is reachable\<close>

lemma s_initial: "initial s_catalog"
  by (simp add: initial_def s_catalog_simps catalog_inv_def)
    (simp add: s_catalog_def empty_db_def js_def s_case_def s_hidden_def href_char_def alnum_char_def
      lower_char_def)

lemma s_reach:
  "reach initial (pipeline_step s_env s_cfg) s_catalog"
  "reach initial (pipeline_step s_env s_cfg) s_db1"
  "reach initial (pipeline_step s_env s_cfg) s_db2"
  "reach initial (pipeline_step s_env s_cfg) s_db3"
  "reach initial (pipeline_step s_env s_cfg) s_db_cancelling"
  "reach initial (pipeline_step s_env s_cfg) s_db_finished"
  "reach initial (pipeline_step s_env s_cfg) s_db_retried"
proof -
  let ?R = "reach initial (pipeline_step s_env s_cfg)"
  show 0: "?R s_catalog" using s_initial by (rule reach_init)
  from this step_create [OF s_create s_env_ok(2)] show 1: "?R s_db1" by (rule reach_step)
  from this step_claim [OF s_claim] show 2: "?R s_db2" by (rule reach_step)
  from this step_markRunning [OF s_markRunning] show 3: "?R s_db3" by (rule reach_step)
  from this step_cancel [OF s_cancel] show "?R s_db_cancelling" by (rule reach_step)
  from 3 step_finish [OF s_finish] show "?R s_db_finished" by (rule reach_step)
  from 3 step_claim [OF s_retry] show "?R s_db_retried" by (rule reach_step)
qed

lemma s_found:
  "find_execution s_db1 s_id = Some s_queued" "find_execution s_db2 s_id = Some s_compiling"
  "find_execution s_db3 s_id = Some s_running" "find_execution s_db_cancelling s_id = Some s_cancelling"
  "find_execution s_db_finished s_id = Some s_finished" "find_execution s_db_retried s_id = Some s_retried"
  by (simp_all add: find_execution_def s_db1_def s_db2_def s_db3_def s_db_cancelling_def s_db_finished_def
      s_db_retried_def table_simps s_rows finish_row_def)

lemma s_path: "(pipeline_step s_env s_cfg)\<^sup>*\<^sup>* s_db1 s_db3"
  using step_claim [OF s_claim] step_markRunning [OF s_markRunning]
  by (meson converse_rtranclp_into_rtranclp r_into_rtranclp)

section \<open>The properties at the run\<close>

theorem reachable_executions_witness:
  "execution_checks s_running \<and> ex_attempt s_running = 1 \<and> ex_leaseToken s_running \<noteq> None"
  using reachable_executions [OF s_reach(4) s_env_ok(1) s_found(3)] by (simp add: s_rows)

theorem reachable_events_witness:
  "length (events_of s_db3 s_id) = 2 \<and> sum_list (map ev_bytes (events_of s_db3 s_id)) \<le> 256 * 1024"
  using reachable_events [OF s_reach(4) s_env_ok(1) s_found(3)]
  by (simp add: events_of_def s_db3_def) (simp add: s_event_def)

theorem reachable_results_public_witness:
  "ex_mode s_finished = RUN \<and>
   list_all (\<lambda>c. cr_caseId c \<in> set (public_case_ids s_db_finished s_version) \<and> clean_streams c)
     (the (ex_publicResults s_finished))"
  using reachable_results_public [OF s_reach(6) s_env_ok(1) s_found(5)]
  by (simp add: s_rows finish_row_def s_result_def)

theorem terminal_final_witness: "find_execution s_db_finished s_id = Some s_finished"
  using terminal_final [OF s_reach(6) s_env_ok(1) rtranclp.rtrancl_refl s_found(5)]
  by (simp add: s_finished_def finish_row_def)

theorem cancellation_sticks_witness:
  "\<exists>r. find_execution s_db_cancelling s_id = Some r \<and> ex_state r \<noteq> FINISHED \<and>
     ex_cancellationRequestedAt r = Some 4000"
  using cancellation_sticks [OF s_reach(5) s_env_ok(1) rtranclp.rtrancl_refl s_found(4), of 4000]
  by (simp add: s_cancelling_def s_running_def)


theorem stale_lease_fenced_witness:
  "renew (s_clock 41000) s_lease s_db_retried = Inr (LOST, s_db_retried) \<and>
   finish s_env (s_clock 41000) s_lease s_result s_db_retried \<in>
     {Inr (False, s_db_retried), Inl ZodError, Inl (PlainError ''PUBLIC_RESULT_TOO_LARGE'')}"
proof -
  have "find_execution s_db_retried (le_executionId s_lease) = Some s_retried" "le_attempt s_lease < ex_attempt s_retried"
    using s_found(6) by (simp_all add: s_lease_def s_rows)
  from stale_lease_fenced [OF s_reach(7) s_env_ok(1) rtranclp.rtrancl_refl this] show ?thesis by blast
qed

theorem claim_exclusive_witness:
  "claim s_env (s_clock 31999) s_token2 s_id s_db2 = Inr (None, s_db2)"
proof -
  from claim_exclusive [OF s_reach(2) s_env_ok(1) s_claim] obtain ends where
    "ex_leaseExpiresAt s_compiling = Some ends"
    "ends \<le> ck_db (s_clock 31999) \<or> claim s_env (s_clock 31999) s_token2 s_id s_db2 = Inr (None, s_db2)"
    by blast
  then show ?thesis by (simp add: s_rows)
qed

theorem pipeline_refines_life_witness:
  "life_step (life_of s_db1 s_id) (life_of s_db2 s_id) \<and> life_of s_db1 s_id = Waiting \<and>
     life_of s_db2 s_id = Working COMPILING 1 (Some s_token) False"
proof -
  have lives: "life_of s_db1 s_id = Waiting" "life_of s_db2 s_id = Working COMPILING 1 (Some s_token) False"
    by (simp_all add: life_of_def life_def s_found life_row_def s_rows s_queued_fields)
  from pipeline_refines_life [OF s_reach(2) s_env_ok(1) step_claim [OF s_claim], of s_id] lives show ?thesis by auto
qed

theorem create_idempotent_witness:
  "create s_env s_cfg s_crypto (s_clock 9000) s_token s_user s_input s_key ''::2'' s_db3 =
     Inr (\<lparr>rc_executionId = s_id, rc_state = RUNNING, rc_cancellationRequested = None\<rparr>, s_db3)"
proof -
  have "cf_executionsEnabled s_cfg" by (simp add: s_cfg_def)
  from create_idempotent [OF s_reach(1) s_env_ok(1,2) s_create s_path this, of "s_clock 9000" s_token "''::2''"]
  show ?thesis using s_found(3) by (simp add: s_running_def)
qed

theorem create_conflict_witness:
  "create s_env s_cfg s_crypto (s_clock 9000) s_token s_user (s_input\<lparr>ce_sourceCode := js ''y''\<rparr>) s_key ''::2'' s_db3 =
     Inl (ApiError 409 ''IDEMPOTENCY_CONFLICT'' None)"
proof (rule create_conflict [OF s_reach(1) s_env_ok(1,2) s_create s_path])
  show "cf_executionsEnabled s_cfg" by (simp add: s_cfg_def)
  show "payloadHash s_crypto (s_input\<lparr>ce_sourceCode := js ''y''\<rparr>) \<noteq> payloadHash s_crypto s_input"
    by (simp add: payloadHash_def payload_json_def s_crypto_def s_input_def ascii_def js_def of_char_def)
qed

theorem create_within_capacity_witness: "length (active_rows s_db1) = 1"
  using create_within_capacity [OF s_create] by (simp add: find_previous_def active_rows_def s_catalog_simps)

lemma publicSnapshot_private_example:
  "\<exists>snap rs. publicSnapshot s_finished s_problem [s_hidden] = Inr snap \<and> sn_publicCaseResults snap = Some rs \<and>
     list_all (\<lambda>x. cr_caseId x \<in> set [s_hidden]) rs"
proof -
  obtain snap rs where "publicSnapshot s_finished s_problem [s_hidden] = Inr snap" "sn_publicCaseResults snap = Some rs"
    by (simp add: publicSnapshot_def s_rows finish_row_def s_result_def publicResultsSchema_def safe_case_def
        safe_int_def)
  with publicSnapshot_private [OF this] show ?thesis by blast
qed

lemma reserve_quota_example:
  "limit_count (rl_key (s_limit ''global'')) (db_executionLimits s_db1) = 1"
proof -
  obtain d' where res: "reserve (hmac s_crypto) s_cfg (s_clock 1000) s_user ''::1'' s_catalog = Inr d'"
    and "db_executionLimits d' = db_executionLimits s_db1"
    by (simp add: reserve_def admission_scopes_def reserve_scope_def Let_def bump_limit_def limit_count_def
        table_simps s_limit_def s_catalog_simps s_clock_simps s_cfg_def active_rows_def executionRateKey_def
        s_crypto_def s_db1_def)
  moreover have "inj (hmac s_crypto (cf_EXECUTION_RATE_LIMIT_KEY s_cfg))"
    by (simp add: s_crypto_def inj_def)
  ultimately show ?thesis
    using reserve_quota [OF res]
    by (simp add: scope_keys_def admission_scopes_def s_limit_def s_cfg_def s_clock_simps limit_count_def
        s_catalog_simps table_simps)
qed

lemma s_invariant: "db_inv s_env s_db1" "db_inv s_env s_db3"
  using reachable_inv [OF s_reach(2) s_env_ok(1)] reachable_inv [OF s_reach(4) s_env_ok(1)] .

definition s_schedule :: schedule where
  "s_schedule = \<lparr>sc_locked = (\<lambda>_. False), sc_outbox_locked = (\<lambda>_. False), sc_outbox_rank = (\<lambda>_. 0),
     sc_event_rank = (\<lambda>_. 0)\<rparr>"

lemma s_notifications: "notification_fresh s_env s_db3 s_id" "sequence_left s_running"
  by (simp_all add: notification_fresh_def s_db3_def s_db2_def s_db1_def s_catalog_simps sequence_left_def s_rows int4_def)

theorem job_store_commits_witness:
  "\<exists>d'. recover s_env (s_clock 5000) s_lease s_db3 = Inr (True, d')"
proof -
  have "ready s_env (s_clock 5000) s_db3 (le_executionId s_lease)"
    using s_invariant(2) s_env_ok(1) s_notifications s_found(3)
    by (simp add: ready_def clock_ok_def s_clock_simps s_lease_def)
  moreover have "\<forall>r. find_execution s_db3 (le_executionId s_lease) = Some r \<longrightarrow> ex_leaseToken r \<noteq> Some s_token2"
    using s_found(3) by (simp add: s_lease_def s_rows s_token_def s_token2_def)
  ultimately have "\<exists>x d'. recover s_env (s_clock 5000) s_lease s_db3 = Inr (x, d')"
    by (rule job_store_commits [where result = s_result, THEN conjunct2, THEN conjunct2, THEN conjunct2, THEN conjunct2, THEN conjunct1])
      (simp_all add: s_result_def int4_def)
  moreover have "valid 5000 s_running s_lease" by (simp add: valid_def s_lease_def s_rows)
  ultimately show ?thesis
    using s_locked(2)
    by (auto simp: recover_def s_lease_def s_clock_simps result_simps split: if_splits)
qed


lemma expireQueuedJobs_expires_example:
  "\<exists>n d'. expireQueuedJobs s_env s_schedule (s_clock 61000) s_db1 = Inr (n, d') \<and>
     find_execution d' s_id = Some (expire_update (s_clock 61000) 2 s_queued)"
proof -
  have sel: "expired_queued s_schedule (s_clock 61000) s_db1 = [s_queued]"
    by (simp add: expired_queued_def s_db1_def s_schedule_def s_queued_fields s_clock_simps EXPIRY_BATCH_SIZE_def)
  let ?es = "db_events s_db1 @ [s_event 61000 0 2 (FinalVerdict INTERNAL_ERROR V_INTERNAL_ERROR (Some QUEUE_TIMEOUT))]"
  let ?row = "expire_update (s_clock 61000) 2 s_queued"
  have small: "ev_bytes (s_event 1000 0 1 (ExecutionStatus QUEUED None)) \<le> 16384"
    using fields_bytes [of "s_payload 0 1 (ExecutionStatus QUEUED None)"]
    by (simp add: s_event_def s_payload_def safe_int_def s_id_length)
  have "event s_env (s_clock 61000) s_queued (FinalVerdict INTERNAL_ERROR V_INTERNAL_ERROR (Some QUEUE_TIMEOUT)) s_db1 =
      Inr (2, s_db1\<lparr>db_events := ?es\<rparr>)"
    by (subst s_emit(1) [where a = 0 and n = 1 and t = 61000 and m = 2])
      (simp_all add: s_queued_fields s_db1_def s_clock_simps s_events_small small, simp add: s_event_def ev_key_def)
  moreover have "update_execution (s_clock 61000) s_id (expire_update (s_clock 61000) 2) (s_db1\<lparr>db_events := ?es\<rparr>) =
      Inr (s_db1\<lparr>db_events := ?es, db_executions := [?row]\<rparr>)"
    by (subst s_update [where old = s_queued])
      (simp_all add: s_db1_def expire_update_def s_check_defs s_steps s_clock_simps)
  ultimately have "expire_row s_env (s_clock 61000) s_queued s_db1 = Inr (s_db1\<lparr>db_events := ?es, db_executions := [?row]\<rparr>)"
    by (simp add: expire_row_def s_queued_fields)
  moreover obtain d' where "create_outbox (s_clock 61000) (s_id, EXECUTION_EXPIRED, 0)
      (s_db1\<lparr>db_events := ?es, db_executions := [?row]\<rparr>) = Inr d'"
    by (simp add: create_outbox_def insert_by_def s_queued_fields s_db1_def expire_update_def new_outbox_def ox_key_def)
  ultimately have op: "expireQueuedJobs s_env s_schedule (s_clock 61000) s_db1 = Inr (1, d')"
    by (simp add: expireQueuedJobs_def sel s_queued_fields)
  from expireQueuedJobs_expires [OF s_invariant(1) op, of s_queued] op show ?thesis
    by (simp add: sel s_queued_fields)
qed

theorem history_complete_witness:
  "walk (history s_user None (s_db1\<lparr>db_executions := [s_queued\<lparr>ex_mode := SUBMIT\<rparr>]\<rparr>)) 2 None =
     Some [submission_of s_db1 (s_queued\<lparr>ex_mode := SUBMIT\<rparr>)]"
proof -
  let ?r = "s_queued\<lparr>ex_mode := SUBMIT\<rparr>"
  let ?d = "s_db1\<lparr>db_executions := [?r]\<rparr>"
  have rows: "history_rows s_user None ?d = [?r]" by (simp add: history_rows_def history_scope_def s_queued_fields)
  from history_complete [of ?d s_user None 2] obtain seen where
    "walk (history s_user None ?d) 2 None = Some (map (submission_of ?d) seen)" "mset seen = mset [?r]"
    by (auto simp: rows)
  moreover from this(2) have "seen = [?r]" by simp
  ultimately show ?thesis by (simp add: submission_of_def find_version_def)
qed

section \<open>Live delivery at the run\<close>

lemma s_replay:
  assumes "find_execution d s_id = Some row" and "ex_userId row = s_user" and "ex_problemVersionId row = s_version"
    and "ex_publicResults row = None" and "map_option vn_problemId (find_version d s_version) = Some s_problem"
    and "list_all (safe_event s_env row (public_case_ids d s_version)) (replay_rows ck row after d)"
    and "ex_attempt row = a" and "ex_lastSequence row = n" and "after \<le> n"
    and seqs: "map ev_sequence (replay_rows ck row after d) = [after + 1 .. n]"
  shows "\<exists>r. replay s_env ck s_user s_id a after d = Inr r \<and> ry_replayAvailable r \<and>
     sn_attempt (ry_snapshot r) = a \<and> sn_lastSequence (ry_snapshot r) = n"
proof -
  have "length (replay_rows ck row after d) = nat (n - after)"
    using arg_cong [OF seqs, of length] by simp
  then show ?thesis
    using assms map_after_upto [of after "nat (n - after)"]
    by (auto simp: replay_def Let_def publicSnapshot_def)
qed

lemma s_replay_rows:
  "replay_rows (s_clock 5000) s_running 0 s_db3 = db_events s_db3"
  "replay_rows (s_clock 2500) s_compiling 0 s_db2 = db_events s_db2"
  "replay_rows (s_clock 5000) s_running 1 s_db3 = [s_event 3000 1 2 (ExecutionStatus RUNNING None)]"
  by (simp_all add: replay_rows_def s_db3_def s_db2_def s_event_def s_rows REPLAY_ROWS_def)

lemma s_event_safe:
  "ex_id row = s_id \<Longrightarrow> ex_attempt row = a \<Longrightarrow> 0 \<le> a \<Longrightarrow> 0 < n \<Longrightarrow> safe_int a \<Longrightarrow> safe_int n \<Longrightarrow>
   safe_event s_env row ids (s_event t a n (ExecutionStatus st c))"
  by (simp add: safe_event_def s_event_def s_payload_def publicExecutionEventSchema_def s_env_ok)

lemma s_versions:
  "map_option vn_problemId (find_version s_db2 s_version) = Some s_problem"
  "map_option vn_problemId (find_version s_db3 s_version) = Some s_problem"
  using s_catalog_simps(8) by (simp_all add: find_version_def s_db3_def s_db2_def s_db1_def)

lemma s_replays:
  "\<exists>r. replay s_env (s_clock 5000) s_user s_id 1 0 s_db3 = Inr r \<and> ry_replayAvailable r \<and>
     sn_attempt (ry_snapshot r) = 1 \<and> sn_lastSequence (ry_snapshot r) = 2"
  "\<exists>r. replay s_env (s_clock 2500) s_user s_id 1 0 s_db2 = Inr r \<and> ry_replayAvailable r \<and>
     sn_attempt (ry_snapshot r) = 1 \<and> sn_lastSequence (ry_snapshot r) = 1"
  "\<exists>r. replay s_env (s_clock 5000) s_user s_id 1 1 s_db3 = Inr r \<and> ry_replayAvailable r \<and>
     sn_attempt (ry_snapshot r) = 1 \<and> sn_lastSequence (ry_snapshot r) = 2"
proof -
  have seqs: "ev_sequence (s_event t a n f) = n" for t a n f by (simp add: s_event_def)
  have upto: "[1 .. 2 :: int] = [1, 2]" "[2 .. 2 :: int] = [2]" by (simp_all add: upto_rec1)
  have r: "ex_id s_running = s_id" "ex_userId s_running = s_user" "ex_problemVersionId s_running = s_version"
    "ex_publicResults s_running = None" "ex_attempt s_running = 1" "ex_lastSequence s_running = 2"
    and c: "ex_id s_compiling = s_id" "ex_userId s_compiling = s_user" "ex_problemVersionId s_compiling = s_version"
    "ex_publicResults s_compiling = None" "ex_attempt s_compiling = 1" "ex_lastSequence s_compiling = 1"
    by (simp_all add: s_rows)
  show "\<exists>r. replay s_env (s_clock 5000) s_user s_id 1 0 s_db3 = Inr r \<and> ry_replayAvailable r \<and>
     sn_attempt (ry_snapshot r) = 1 \<and> sn_lastSequence (ry_snapshot r) = 2"
    by (rule s_replay [OF s_found(3) r(2-4) s_versions(2) _ r(5,6)], unfold s_replay_rows)
      (simp_all add: s_db3_def s_event_safe r safe_int_def seqs upto)
  show "\<exists>r. replay s_env (s_clock 2500) s_user s_id 1 0 s_db2 = Inr r \<and> ry_replayAvailable r \<and>
     sn_attempt (ry_snapshot r) = 1 \<and> sn_lastSequence (ry_snapshot r) = 1"
    by (rule s_replay [OF s_found(2) c(2-4) s_versions(1) _ c(5,6)], unfold s_replay_rows)
      (simp_all add: s_db2_def s_event_safe c safe_int_def seqs upto)
  show "\<exists>r. replay s_env (s_clock 5000) s_user s_id 1 1 s_db3 = Inr r \<and> ry_replayAvailable r \<and>
     sn_attempt (ry_snapshot r) = 1 \<and> sn_lastSequence (ry_snapshot r) = 2"
    by (rule s_replay [OF s_found(3) r(2-4) s_versions(2) _ r(5,6)], unfold s_replay_rows)
      (simp_all add: s_event_safe r safe_int_def seqs upto)
qed

theorem replay_exact_witness:
  "\<exists>r. replay s_env (s_clock 5000) s_user s_id 1 0 s_db3 = Inr r \<and> map pe_sequence (ry_events r) = [1, 2]"
proof -
  from s_replays(1) obtain r where r: "replay s_env (s_clock 5000) s_user s_id 1 0 s_db3 = Inr r"
    "ry_replayAvailable r" "sn_lastSequence (ry_snapshot r) = 2" by blast
  from replay_exact [OF s_reach(4) s_env_ok(1) r(1) s_found(3)] r show ?thesis
    by (auto simp: upto_rec1)
qed

definition s_cursor :: cursor where
  "s_cursor = \<lparr>cu_executionId = s_id, cu_attempt = 1, cu_afterSequence = 0\<rparr>"

lemma delivery_exactly_once_example:
  "\<exists>ess cu. poll_run s_env s_user [(s_clock 2500, s_db2), (s_clock 5000, s_db3)] s_cursor = Inr (ess, cu) \<and>
     concat (map event_sequences ess) = [1, 2]"
proof -
  from s_replays(2) obtain r1 where r1: "replay s_env (s_clock 2500) s_user s_id 1 0 s_db2 = Inr r1"
    "ry_replayAvailable r1" "sn_attempt (ry_snapshot r1) = 1" "sn_lastSequence (ry_snapshot r1) = 1" by blast
  from s_replays(3) obtain r2 where r2: "replay s_env (s_clock 5000) s_user s_id 1 1 s_db3 = Inr r2"
    "ry_replayAvailable r2" "sn_attempt (ry_snapshot r2) = 1" "sn_lastSequence (ry_snapshot r2) = 2" by blast
  obtain ess cu where run: "poll_run s_env s_user [(s_clock 2500, s_db2), (s_clock 5000, s_db3)] s_cursor = Inr (ess, cu)"
    and cu: "cu_afterSequence cu = 2" and "list_all no_sync ess"
    using r1 r2 by (simp add: poll_cursor_def s_cursor_def no_sync_def list_all_iff)
  moreover have "list_all (\<lambda>(ck, d). reach initial (pipeline_step s_env s_cfg) d)
      [(s_clock 2500, s_db2), (s_clock 5000, s_db3)]"
    using s_reach(3,4) by simp
  ultimately have "concat (map event_sequences ess) = [cu_afterSequence s_cursor + 1 .. cu_afterSequence cu]"
    using delivery_exactly_once [OF s_env_ok(1)] by blast
  with run cu show ?thesis by (auto simp: s_cursor_def upto_rec1)
qed

definition s_client :: client where
  "s_client = new_client (s_clock 0) s_user"

lemma subscription_limit_example:
  "length (cl_subscriptions (snd (subscribe_execution s_env (s_clock 10) (Inr (Some s_user)) True True (JObj []) s_db3 s_client))) \<le> 5"
proof -
  let ?s = "subscribe_execution s_env (s_clock 10) (Inr (Some s_user)) True True (JObj []) s_db3 s_client"
  have "length (cl_subscriptions s_client) \<le> 5" by (simp add: s_client_def new_client_def)
  from subscription_limit [OF this, of s_env "s_clock 10" "Inr (Some s_user)" True True "JObj []" s_db3 "fst ?s" "snd ?s"]
  show ?thesis by simp
qed

end
