(* ===== verification/RunnerScenario.thy ===== *)
theory RunnerScenario
  imports Runner Scenario
begin

text \<open>
  A worked run of the sandbox: a steady host whose Docker creates, verifies and removes the container
  as the supervisor demands, but answers the inspection of the guest's process too late, and the
  Python execution of the catalog of the pipeline's worked run on it.
\<close>

section \<open>The host\<close>

definition t_uuid :: string where "t_uuid = ''0123456789abcdef0123456789abcdef0123''"

definition t_name :: string where "t_name = ''ac-'' @ t_uuid"

definition t_container :: json where
  "t_container = JObj [(''Config'', JObj [(''User'', JStr (js ''10001:10001''))]), (''Mounts'', JArr []),
     (''HostConfig'', JObj [(''Runtime'', JStr (js ''runsc'')), (''NetworkMode'', JStr (js ''none'')),
       (''ReadonlyRootfs'', JBool True), (''Privileged'', JBool False), (''Memory'', JNum 67108864),
       (''MemorySwap'', JNum 67108864), (''NanoCpus'', JNum 1000000000), (''PidsLimit'', JNum 64),
       (''CapDrop'', JArr [JStr (js ''ALL'')]), (''SecurityOpt'', JArr [JStr (js ''no-new-privileges:true'')]),
       (''Binds'', JNull),
       (''Ulimits'', JArr [JObj [(''Name'', JStr (js ''nproc'')), (''Hard'', JNum 64), (''Soft'', JNum 64)]])])]"

definition t_exit :: "bytes \<Rightarrow> child" where
  "t_exit out = \<lparr>ch_events = (if out = [] then [] else [OutChunk out]), ch_exitCode = Some 0\<rparr>"

text \<open>Every command succeeds, except that the inspection of the guest's process times out.\<close>

definition t_spawn :: "string list \<Rightarrow> child" where
  "t_spawn args =
     (if hd args = ''inspect'' \<and> last args = ''{{.State.Pid}}'' then \<lparr>ch_events = [TimerFired], ch_exitCode = Some 137\<rparr> else t_exit [])"

definition t_host :: host where
  "t_host = \<lparr>h_spawn = (\<lambda>log args opts. t_spawn args), h_now = (\<lambda>log. 0), h_aborted = (\<lambda>log. False),
     h_uuid = (\<lambda>log. t_uuid), h_read = (\<lambda>log path. None), h_json = (\<lambda>s. Some t_container),
     h_resolve = (\<lambda>root rel. root), h_pack = (\<lambda>files. []), h_extract = (\<lambda>b. None)\<rparr>"

definition t_manifest :: manifest where
  "t_manifest = (let img = (\<lambda>n. n @ ''@sha256:'' @ replicate 64 (CHR ''a''))
     in \<lparr>mf_java = img ''java'', mf_python = img ''python'', mf_javascript = img ''node''\<rparr>)"

definition t_sup :: sup where
  "t_sup = \<lparr>su_ready = True, su_shuttingDown = False, su_active = [], su_log = [], su_budget = 0, su_archive = [],
     su_compilation = None, su_cases = []\<rparr>"

definition t_server :: server where
  "t_server = \<lparr>sv_closing = False, sv_admitted = 0, sv_controllers = [], sv_aborts = [], sv_sup = t_sup\<rparr>"

definition t_execution :: execution where
  "t_execution = s_compiling"

definition t_request :: sandbox_request where
  "t_request = \<lparr>sr_executionId = s_id, sr_attempt = 1, sr_language = Python, sr_sourceCode = js ''x'',
     sr_cases = [\<lparr>sc_id = s_case, sc_input = js ''1 2'', sc_files = []\<rparr>], sr_timeMs = 1000, sr_memoryMiB = 64\<rparr>"

lemma steady_t_host: "steady_host t_host"
  by (auto simp: steady_host_def t_host_def t_spawn_def t_exit_def)

section \<open>Running it\<close>

text \<open>An action ends with a result in a state, up to the log.\<close>

definition ends :: "'a runner_act \<Rightarrow> sup \<Rightarrow> runner_error + 'a \<Rightarrow> sup \<Rightarrow> bool" where
  "ends m s r t \<longleftrightarrow> (\<exists>l. m s = (r, t\<lparr>su_log := l\<rparr>))"

lemma ends_bind:
  assumes "ends m s (Inr x) u" and "\<And>l. ends (f x) (u\<lparr>su_log := l\<rparr>) r t" shows "ends (bind_act m f) s r t"
proof -
  from assms(1) obtain l where "m s = (Inr x, u\<lparr>su_log := l\<rparr>)" by (auto simp: ends_def)
  with assms(2) [of l] show ?thesis by (auto simp: ends_def bind_act_def)
qed

lemma ends_bind_throw: "ends m s (Inl e) t \<Longrightarrow> ends (bind_act m f) s (Inl e) t"
  by (auto simp: ends_def bind_act_def)

lemma ends_log: "ends m s r (t\<lparr>su_log := l\<rparr>) \<longleftrightarrow> ends m s r t"
  by (simp add: ends_def)

lemma ends_simps:
  "ends (return_act x) s (Inr x) s" "ends (throw_act e) s (Inl e) s" "ends (get_act g) s (Inr (g s)) s"
  "ends (modify_act f) s (Inr ()) (f s)" "ends (date_now t_host) s (Inr 0) s"
  "ends (abort_check t_host) s (Inr ()) s" "ends (lift_result (Inr y)) s (Inr y) s"
  by (auto simp: ends_def return_act_def throw_act_def get_act_def modify_act_def date_now_def abort_check_def
      signal_aborted_def bind_act_def t_host_def Let_def log_event_def lift_result_def
      intro: exI [of _ "su_log s"] exI [of _ "su_log (f s)"])

lemma ends_return: "ends (return_act x) (s\<lparr>su_log := l\<rparr>) (Inr x) s"
  by (auto simp: ends_def return_act_def)

lemma ends_command:
  "command_outcome opts (t_spawn args) = r \<Longrightarrow>
     ends (command t_host args opts) s (case r of Inl c \<Rightarrow> Inl (DockerErr c) | Inr x \<Rightarrow> Inr x) s"
  by (auto simp: ends_def command_def spawn_command_def signal_aborted_def bind_act_def t_host_def Let_def
      log_event_def split: sum.splits)

lemma t_outcome:
  "int (length out) \<le> max_bytes opts \<Longrightarrow>
     command_outcome opts (t_exit out) = Inr \<lparr>rs_stdout = out, rs_stderr = [], rs_exitCode = 0\<rparr>"
  by (simp add: command_outcome_def t_exit_def collect_out_def Let_def)

lemma ends_ok:
  "t_spawn args = t_exit out \<Longrightarrow> int (length out) \<le> max_bytes opts \<Longrightarrow>
     ends (command t_host args opts) s (Inr \<lparr>rs_stdout = out, rs_stderr = [], rs_exitCode = 0\<rparr>) s"
  using ends_command [of opts args "Inr \<lparr>rs_stdout = out, rs_stderr = [], rs_exitCode = 0\<rparr>" s]
  by (simp add: t_outcome)

lemmas t_options = no_options_def with_signal_def max_bytes_def t_spawn_def

lemma ends_parse_json: "ends (parse_json t_host r) s (Inr t_container) s"
  by (simp add: parse_json_def t_host_def ends_simps)

lemma ends_verify: "ends (verifyContainer t_host name 64) s (Inr ()) s"
proof -
  have ok: "hostConfigSchema 64 (the (json_object t_container ''HostConfig''))"
    "host_config_secure (the (json_object t_container ''HostConfig''))"
    by (simp_all add: t_container_def json_object_def json_has_def hostConfigSchema_def json_texts_def
        ulimitSchema_def CAPS_def host_config_secure_def nproc_limit_def js_def)
  have parts: "json_object t_container ''Config'' = Some (JObj [(''User'', JStr (js ''10001:10001''))])"
    "member t_container ''Mounts'' = Some (JArr [])" "json_object t_container ''HostConfig'' \<noteq> None"
    by (simp_all add: t_container_def json_object_def)
  show ?thesis
    unfolding verifyContainer_def
    by (rule ends_bind [OF ends_ok [where out = "[]"]], simp add: t_options, simp add: t_options,
        rule ends_bind [OF ends_parse_json])
      (use ok parts in \<open>auto simp: json_has_def ends_return\<close>)
qed

lemma ends_destroy: "ends (destroy t_host name) s (Inr ()) s"
  unfolding destroy_def
  by (rule ends_bind [OF ends_ok [where out = "[]"]], simp add: t_options, simp add: t_options,
      rule ends_bind [OF ends_ok [where out = "[]"]], simp add: t_options ps_args_def, simp add: t_options)
    (simp add: blank_def utf8_decode_def js_trim_def ends_return)

lemma ends_destroy': "ends (destroy t_host name) (s\<lparr>su_log := l\<rparr>) (Inr ()) s"
  using ends_destroy [of name "s\<lparr>su_log := l\<rparr>"] by (simp add: ends_log)

lemma t_containerArgs:
  obtains args where "containerArgs t_name (mf_python t_manifest) 64 own = Inr args" "hd args = ''create''"
proof -
  have "list_all hex_char (replicate 64 (CHR ''a''))"
    by (simp add: list_all_iff hex_char_def less_eq_char_def digit_char_def)
  then show ?thesis
    by (intro that [of "projr (containerArgs t_name (mf_python t_manifest) 64 own)"])
      (simp_all add: containerArgs_def container_name_def t_name_def t_uuid_def hex_char_def digit_char_def less_eq_char_def
        imageSchema_def t_manifest_def Let_def image_char_def lower_char_def CAPS_def)
qed

lemma ends_finally:
  assumes "ends m s r u" and "\<And>l. ends f (u\<lparr>su_log := l\<rparr>) (Inr ()) t" shows "ends (finally_act m f) s r t"
proof -
  from assms(1) obtain l where "m s = (r, u\<lparr>su_log := l\<rparr>)" by (auto simp: ends_def)
  with assms(2) [of l] show ?thesis by (auto simp: ends_def finally_act_def)
qed

lemma ends_catch: "ends m s (Inr x) t \<Longrightarrow> ends (catch_act m h) s (Inr x) t"
  by (auto simp: ends_def catch_act_def)

lemma ends_catch_throw:
  assumes "ends m s (Inl e) u" and "\<And>l. ends (h e) (u\<lparr>su_log := l\<rparr>) r t" shows "ends (catch_act m h) s r t"
proof -
  from assms(1) obtain l where "m s = (Inl e, u\<lparr>su_log := l\<rparr>)" by (auto simp: ends_def)
  with assms(2) [of l] show ?thesis by (auto simp: ends_def catch_act_def)
qed

lemma ends_inside:
  assumes "\<And>l. ends (body t_name) (s\<lparr>su_log := l\<rparr>) r t"
  shows "ends (sandbox_inside t_host t_manifest t_request 64 archive dl t_name body) s r t"
proof -
  obtain args where args: "containerArgs t_name (manifest_image t_manifest (sr_language t_request)) 64
      \<lparr>ow_executionId = sr_executionId t_request, ow_attempt = sr_attempt t_request, ow_deadline = dl\<rparr> = Inr args"
    "hd args = ''create''"
    using t_containerArgs [of "\<lparr>ow_executionId = sr_executionId t_request, ow_attempt = sr_attempt t_request,
        ow_deadline = dl\<rparr>"] by (auto simp: t_request_def)
  have body: "ends (body t_name) (s\<lparr>su_log := l\<rparr>) r t" for l by (rule assms)
  show ?thesis
    unfolding sandbox_inside_def args(1)
    by (rule ends_bind [OF ends_simps(6)], rule ends_bind [OF ends_simps(7)],
        rule ends_bind [OF ends_ok [where out = "[]"]], simp add: t_options args(2), simp add: t_options,
        rule ends_bind [OF ends_simps(6)], rule ends_bind [OF ends_verify],
        rule ends_bind [OF ends_ok [where out = "[]"]], simp add: t_options, simp add: t_options,
        rule ends_bind [OF ends_ok [where out = "[]"]], simp add: t_options untar_args_def, simp add: t_options)
      (simp add: body [simplified])
qed

lemma ends_sandbox:
  assumes "\<And>l. ends (body t_name) (s\<lparr>su_log := l\<rparr>) r t"
  shows "ends (sandbox t_host t_manifest t_request False archive dl body) s r t"
proof -
  have uuid: "ends (random_uuid t_host) s (Inr t_uuid) s"
    by (auto simp: ends_def random_uuid_def t_host_def Let_def log_event_def)
  have mem: "(if False then cap_compileMemoryMiB CAPS else sr_memoryMiB t_request) = 64"
    by (simp add: t_request_def)
  show ?thesis
    unfolding sandbox_def Let_def mem
    by (rule ends_bind [OF uuid], unfold t_name_def [symmetric], rule ends_finally [where u = t, OF ends_inside]) (auto simp: assms [simplified] intro!: ends_catch ends_destroy')
qed

section \<open>The observation\<close>

definition t_observed :: observed_case where
  "t_observed = unobserved s_case TIME_LIMIT_EXCEEDED 0"

definition t_observation :: observation where
  "t_observation = \<lparr>ob_cancellationConfirmed = False, ob_compilation = None, ob_cases = [t_observed]\<rparr>"

lemma ends_run_case:
  "ends (run_case t_host t_request dl test t_name 0) s (Inl (DockerErr COMMAND_TIMEOUT)) s"
proof -
  have "container_name t_name"
    by (simp add: container_name_def t_name_def t_uuid_def hex_char_def digit_char_def less_eq_char_def)
  moreover have "ends (command t_host [''inspect'', t_name, ''--format'', ''{{.State.Pid}}''] no_options) s
      (Inl (DockerErr COMMAND_TIMEOUT)) s"
    using ends_command [of no_options "[''inspect'', t_name, ''--format'', ''{{.State.Pid}}'']" "Inl COMMAND_TIMEOUT" s]
    by (simp add: t_spawn_def command_outcome_def Let_def stop_def)
  ultimately show ?thesis
    unfolding run_case_def snapshot_def by (auto intro!: ends_bind_throw)
qed

lemma ends_case_body:
  "ends (case_body t_host t_request dl \<lparr>sc_id = s_case, sc_input = js ''1 2'', sc_files = []\<rparr> t_name)
     (s\<lparr>su_log := l\<rparr>) (Inr ()) (s\<lparr>su_cases := su_cases s @ [t_observed]\<rparr>)"
proof -
  have failed: "ends (case_failed t_host s_case 0 (DockerErr COMMAND_TIMEOUT)) (s\<lparr>su_log := l\<rparr>) (Inr ())
      (s\<lparr>su_cases := su_cases s @ [t_observed]\<rparr>)" for l
    by (cases s) (auto simp: ends_def case_failed_def elapsed_def date_now_def bind_act_def return_act_def push_case_def
        modify_act_def Let_def t_host_def log_event_def t_observed_def)
  show ?thesis
    unfolding case_body_def
    by (simp, rule ends_bind [OF ends_simps(1)], rule ends_bind [OF ends_simps(5)],
        rule ends_catch_throw [OF ends_run_case]) (simp add: failed)
qed

lemma t_request_ok: "sandboxRequestSchema (is_uuid s_env) t_request"
  by (simp add: sandboxRequestSchema_def t_request_def s_env_def s_names safe_int_def js_def sandboxCaseSchema_def
      CAPS_def case_bytes_def unit_bytes_def high_surrogate_def MAX_SOURCE_BYTES_def)

definition t_started :: sup where
  "t_started = fresh_variables (t_sup\<lparr>su_active := [execution_key t_request]\<rparr>)"

lemma t_started_fields:
  "su_budget t_started = 262144" "su_compilation t_started = None" "su_cases t_started = []"
  "t_started\<lparr>su_archive := []\<rparr> = t_started"
  by (simp_all add: t_started_def fresh_variables_def CAPS_def)

lemma ends_get: "ends (bind_act (get_act g) f) s r t = ends (f (g s)) s r t"
  and ends_modify: "ends (bind_act (modify_act k) f') s r' t = ends (f' ()) (k s) r' t"
  by (simp_all add: ends_def)

lemma ends_loop:
  "ends (case_loop t_host t_manifest t_request dl (sr_cases t_request)) (t_started\<lparr>su_log := l\<rparr>) (Inr ())
     (t_started\<lparr>su_cases := [t_observed]\<rparr>)"
proof -
  let ?test = "\<lparr>sc_id = s_case, sc_input = js ''1 2'', sc_files = []\<rparr>"
  have cases: "sr_cases t_request = [?test]" by (simp add: t_request_def)
  have sandbox: "ends (sandbox t_host t_manifest t_request False archive dl (case_body t_host t_request dl ?test))
      (t_started\<lparr>su_log := l\<rparr>) (Inr ()) (t_started\<lparr>su_cases := [t_observed]\<rparr>)" for archive l
    by (rule ends_sandbox) (use ends_case_body [where dl = dl and s = t_started] t_started_fields in simp)
  have failed: "oc_failure t_observed \<noteq> None" by (simp add: t_observed_def unobserved_def)
  have rest: "ends (bind_act (sandbox t_host t_manifest t_request False archive dl (case_body t_host t_request dl ?test))
      (\<lambda>_. bind_act (get_act su_cases) (\<lambda>cases.
         if cases \<noteq> [] \<and> oc_failure (last cases) \<noteq> None then return_act ()
         else case_loop t_host t_manifest t_request dl []))) (t_started\<lparr>su_log := l\<rparr>) (Inr ())
      (t_started\<lparr>su_cases := [t_observed]\<rparr>)" for archive l
    by (rule ends_bind [OF sandbox]) (use failed in \<open>simp add: ends_get ends_return\<close>)
  show ?thesis
    unfolding cases case_loop.simps(2)
    by (rule ends_bind [OF ends_simps(6)])
      (use rest in \<open>simp add: ends_get t_started_fields del: case_loop.simps\<close>)
qed

lemma ends_execute: "ends (execute t_host t_manifest (is_uuid s_env) t_request) t_sup (Inr t_observation)
    (t_sup\<lparr>su_budget := 262144, su_cases := [t_observed]\<rparr>)"
proof -
  let ?fin = "t_started\<lparr>su_cases := [t_observed]\<rparr>"
  have start: "ends (start_execution (is_uuid s_env) t_request) t_sup (Inr ())
      (t_sup\<lparr>su_active := [execution_key t_request]\<rparr>)"
    using t_request_ok by (auto simp: ends_def start_execution_def t_sup_def)
  have pack: "packFiles t_host fs = Inr []" for fs by (simp add: packFiles_def t_host_def)
  have lang: "sr_language t_request = Python" by (simp add: t_request_def)
  have obs: "ends observation_act (?fin\<lparr>su_log := l\<rparr>) (Inr t_observation) ?fin" for l
    by (auto simp: ends_def observation_act_def get_act_def t_observation_def t_started_fields)
  have body: "ends (execute_body t_host t_manifest t_request dl) (t_started\<lparr>su_log := l\<rparr>) (Inr t_observation) ?fin" for dl l
  proof -
    have "(t_started\<lparr>su_log := l\<rparr>)\<lparr>su_archive := []\<rparr> = t_started\<lparr>su_log := l\<rparr>" for l
      by (simp add: t_started_def fresh_variables_def t_sup_def)
    moreover have "ends (bind_act (case_loop t_host t_manifest t_request dl (sr_cases t_request)) (\<lambda>_. observation_act))
        (t_started\<lparr>su_log := l\<rparr>) (Inr t_observation) ?fin" for l
      by (rule ends_bind [OF ends_loop]) (rule obs)
    ultimately show ?thesis
      unfolding execute_body_def pack compile_if_java_def lang
      by (intro ends_bind [OF ends_simps(7)])
        (simp add: ends_get ends_modify, intro ends_bind [OF ends_simps(1)], simp add: ends_get)
  qed
  have fin: "ends (finally_act (execute_body t_host t_manifest t_request dl)
      (modify_act (end_execution (execution_key t_request)))) (t_started\<lparr>su_log := l\<rparr>) (Inr t_observation)
      (t_sup\<lparr>su_budget := 262144, su_cases := [t_observed]\<rparr>)" for dl l
    by (rule ends_finally [OF body])
      (auto simp: ends_def modify_act_def end_execution_def t_started_def fresh_variables_def t_sup_def CAPS_def)
  have fresh: "fresh_variables (t_sup\<lparr>su_active := [execution_key t_request], su_log := l\<rparr>) = t_started\<lparr>su_log := l\<rparr>" for l
    by (simp add: t_started_def fresh_variables_def t_sup_def)
  show ?thesis
    unfolding execute_def
    by (rule ends_bind [OF start]) (simp add: ends_modify fresh, rule ends_bind [OF ends_simps(5)], simp add: fin)
qed

section \<open>The properties at the worked run\<close>

definition t_plan :: judge_plan where
  "t_plan = \<lparr>jp_versionId = s_version, jp_comparator = ''EXACT_NEWLINE'', jp_timeMs = 1000, jp_memoryKiB = 65536,
     jp_cases = [\<lparr>jc_id = s_case, jc_ordinal = 1, jc_visibility = PUBLIC, jc_input = js ''1 2'', jc_files = [],
       jc_expectedOutput = js ''3''\<rparr>]\<rparr>"

lemma t_load: "loadJudgePlan s_catalog s_version RUN = Inr t_plan"
  by (simp add: loadJudgePlan_def s_catalog_def empty_db_def t_plan_def plan_cases_def judge_case_of_def sort_files_def)

lemma t_select: "selectCases (is_uuid s_env) t_plan RUN = Inr (jp_cases t_plan)"
  by (simp add: selectCases_def t_plan_def s_env_def s_id_length)

lemma t_compiling:
  "ex_problemVersionId s_compiling = s_version" "ex_mode s_compiling = RUN" "ex_language s_compiling = Python"
  "ex_id s_compiling = s_id" "ex_attempt s_compiling = 1" "ex_sourceCode s_compiling = js ''x''"
  by (simp_all add: s_compiling_def claim_row_def s_queued_def new_execution_def s_input_def)

lemma t_request_of: "sandbox_request_of (is_uuid s_env) s_compiling t_plan (jp_cases t_plan) = Inr t_request"
proof -
  have "t_request = \<lparr>sr_executionId = s_id, sr_attempt = 1, sr_language = Python, sr_sourceCode = js ''x'',
      sr_cases = map sandbox_case_of (jp_cases t_plan), sr_timeMs = jp_timeMs t_plan,
      sr_memoryMiB = jp_memoryKiB t_plan div 1024\<rparr>"
    by (simp add: t_request_def t_plan_def sandbox_case_of_def)
  with t_request_ok show ?thesis
    unfolding sandbox_request_of_def Let_def t_compiling by (simp add: t_plan_def)
qed

lemma t_client:
  "\<exists>sv'. client_execute t_host t_manifest (is_uuid s_env) False 10 True t_request t_server = (Inr t_observation, sv')"
proof -
  from ends_execute obtain t where "execute t_host t_manifest (is_uuid s_env) t_request t_sup = (Inr t_observation, t)"
    by (auto simp: ends_def)
  moreover have "observationSchema (is_uuid s_env) t_observation"
    by (simp add: observationSchema_def t_observation_def t_observed_def unobserved_def observedCaseSchema_def
        s_env_def s_id_length)
  ultimately show ?thesis
    using t_request_ok
    by (simp add: client_execute_def handle_def execute_request_def t_server_def handle_execute_def
        execution_reply_def client_outcome_def t_host_def)
qed


text \<open>A closing server turns the request away; nothing was created.\<close>

theorem recoverable_failure_is_clean_witness:
  "\<exists>sv'. client_execute t_host t_manifest (is_uuid s_env) False 10 True t_request (t_server\<lparr>sv_closing := True\<rparr>) =
       (Inl (RunnerFailure True RUNNER_CAPACITY), sv') \<and>
     True \<and> (\<exists>events. su_log (sv_sup sv') = su_log (sv_sup (t_server\<lparr>sv_closing := True\<rparr>)) @ events \<and>
       unconfirmed events = [])"
proof -
  have run: "client_execute t_host t_manifest (is_uuid s_env) False 10 True t_request (t_server\<lparr>sv_closing := True\<rparr>) =
      (Inl (RunnerFailure True RUNNER_CAPACITY), t_server\<lparr>sv_closing := True\<rparr>)"
    using t_request_ok by (simp add: client_execute_def handle_def client_outcome_def runnerError_def)
  show ?thesis
    using run recoverable_failure_is_clean [OF run] by (simp add: recoverableRunnerFailure_def)
qed

lemma supervisor_capacity_example:
  "length (su_active (t_sup\<lparr>su_active := [execution_key t_request]\<rparr>)) \<le> 2 \<and>
   distinct (su_active (t_sup\<lparr>su_active := [execution_key t_request]\<rparr>))"
proof -
  have "reach idle (admission_step (is_uuid s_env)) t_sup"
    by (rule reach_init) (simp add: idle_def t_sup_def)
  moreover have "admission_step (is_uuid s_env) t_sup (t_sup\<lparr>su_active := [execution_key t_request]\<rparr>)"
    by (rule admit [of _ t_request]) (use t_request_ok in \<open>simp add: start_execution_def t_sup_def\<close>)
  ultimately have "reach idle (admission_step (is_uuid s_env)) (t_sup\<lparr>su_active := [execution_key t_request]\<rparr>)"
    by (rule reach_step)
  from supervisor_capacity [OF this] show ?thesis by blast
qed

definition t_archive :: host where
  "t_archive = t_host\<lparr>h_extract := (\<lambda>b. Some [
     \<lparr>te_name = ''./'', te_type = ''directory'', te_size = Some 0, te_data = []\<rparr>,
     \<lparr>te_name = ''./Solution.class'', te_type = ''file'', te_size = Some 1, te_data = [1]\<rparr>])\<rparr>"

theorem java_artifacts_safe_witness:
  "java_artifacts t_archive [] = Inr [(''Solution.class'', [1])] \<and> list_all class_file [''Solution.class'']"
proof -
  have "class_file ''Solution.class''"
    by (simp add: class_file_def java_identifier_def alnum_char_def digit_char_def lower_char_def upper_char_def
        less_eq_char_def Let_def suffix_def)
  then have run: "java_artifacts t_archive [] = Inr [(''Solution.class'', [1])]"
    by (simp add: java_artifacts_def t_archive_def CAPS_def entry_name_def Let_def)
  from java_artifacts_safe [OF run] run show ?thesis by simp
qed

text \<open>
  Docker's own delay is charged to the program: on the worked host every container command succeeds
  and the program is never started, because the inspection that precedes it is slow, and yet the case
  is observed, and judged, as a program that exceeded its time limit.
\<close>

lemma slow_inspection_is_a_time_limit:
  "\<exists>t. execute t_host t_manifest (is_uuid s_env) t_request t_sup = (Inr t_observation, t)"
  "map oc_failure (ob_cases t_observation) = [Some TIME_LIMIT_EXCEEDED]"
  using ends_execute by (auto simp: ends_def t_observation_def t_observed_def unobserved_def)

end
