(* ===== verification/UserTables.thy ===== *)
theory UserTables
  imports Database Text
begin

text \<open>
  The writes to the tables of users, credentials, sessions and audit events, with the unique keys and
  checks of the migrations. A violated unique key is \<open>P2002\<close>; the one on the username is told apart,
  as \<open>error.meta.target\<close> does.
\<close>

section \<open>Users\<close>

text \<open>\<open>/^[a-z0-9][a-z0-9_]{1,38}[a-z0-9]$/\<close>, in the schema and in \<open>User_username_format\<close>.\<close>

definition username_format :: "string \<Rightarrow> bool" where
  "username_format s \<longleftrightarrow>
     3 \<le> length s \<and> length s \<le> 40 \<and>
     list_all (\<lambda>c. digit_char c \<or> lower_char c \<or> c = CHR ''_'') s \<and> hd s \<noteq> CHR ''_'' \<and> last s \<noteq> CHR ''_''"

definition char_length :: "jsstr \<Rightarrow> nat" where
  "char_length s = length (code_points s)"

definition avatar_shape :: "jsstr \<Rightarrow> bool" where
  "avatar_shape s \<longleftrightarrow>
     char_length s \<le> 2048 \<and> take 8 s = js ''https://'' \<and> list_all (\<lambda>u. 32 \<le> u \<and> u \<noteq> 127) s"

definition user_checks :: "user \<Rightarrow> bool" where
  "user_checks u \<longleftrightarrow>
     username_format (us_username u) \<and> opt_all (\<lambda>s. char_length s \<le> 280) (us_bio u) \<and>
     opt_all (\<lambda>s. char_length s \<le> 100) (us_location u) \<and> opt_all (\<lambda>s. char_length s \<le> 2048) (us_website u) \<and>
     opt_all avatar_shape (us_avatarUrl u) \<and>
     opt_all (\<lambda>s. 3 \<le> char_length s \<and> char_length s \<le> 500) (us_restrictionReason u)"

definition us_identity :: "user \<Rightarrow> string \<times> string" where
  "us_identity u = (us_issuer u, us_subject u)"

definition put_user :: "uuid \<Rightarrow> (user \<Rightarrow> user) \<Rightarrow> db \<Rightarrow> db" where
  "put_user i f d = d\<lparr>db_users := update_by us_id i f (db_users d)\<rparr>"

text \<open>\<open>tx.user.update({where: {id}, data})\<close>.\<close>

definition update_user :: "uuid \<Rightarrow> (user \<Rightarrow> user) \<Rightarrow> db \<Rightarrow> db result" where
  "update_user i f d =
     (case find_user d i of
        None \<Rightarrow> Inl (DbError ''P2025'')
      | Some old \<Rightarrow>
          let others = filter (\<lambda>u. us_id u \<noteq> i) (db_users d) in
          if \<not> user_checks (f old) then Inl (DbError ''user check constraint'')
          else if us_identity (f old) \<in> us_identity ` set others then Inl (DbError ''P2002'')
          else if us_username (f old) \<in> us_username ` set others then Inl (DbError ''P2002:username'')
          else Inr (put_user i f d))"

definition create_user :: "user \<Rightarrow> db \<Rightarrow> db result" where
  "create_user u d =
     (if \<not> user_checks u then Inl (DbError ''user check constraint'')
      else if us_identity u \<in> us_identity ` set (db_users d) then Inl (DbError ''P2002'')
      else if us_username u \<in> us_username ` set (db_users d) then Inl (DbError ''P2002:username'')
      else map_result (\<lambda>rows. d\<lparr>db_users := rows\<rparr>) (insert_by us_id u (db_users d)))"

text \<open>A new row with the defaults of the schema.\<close>

definition new_user :: "clock \<Rightarrow> uuid \<Rightarrow> string \<Rightarrow> string \<Rightarrow> string \<Rightarrow> jsstr \<Rightarrow> user" where
  "new_user ck i issuer subject username displayName =
     \<lparr>us_id = i, us_issuer = issuer, us_subject = subject, us_displayName = displayName, us_username = username,
      us_bio = None, us_location = None, us_website = None, us_avatarUrl = None, us_profileVisibility = PV_PUBLIC,
      us_themePreference = SYSTEM, us_productNotifications = True, us_competitionNotifications = True,
      us_deactivatedAt = None, us_suspendedUntil = None, us_bannedAt = None, us_restrictionReason = None,
      us_role = USER, us_createdAt = ck_host ck\<rparr>"

section \<open>Credentials\<close>

definition credential_checks :: "credential \<Rightarrow> bool" where
  "credential_checks c \<longleftrightarrow>
     cd_email c = ascii_lower (ascii_trim (cd_email c)) \<and>
     80 \<le> length (cd_passwordHash c) \<and> length (cd_passwordHash c) \<le> 255"

definition create_credential :: "credential \<Rightarrow> db \<Rightarrow> db result" where
  "create_credential c d =
     (if \<not> credential_checks c then Inl (DbError ''credential check constraint'')
      else if cd_userId c \<in> cd_userId ` set (db_credentials d) \<or> cd_email c \<in> cd_email ` set (db_credentials d)
      then Inl (DbError ''P2002'')
      else map_result (\<lambda>rows. d\<lparr>db_credentials := rows\<rparr>) (insert_by cd_id c (db_credentials d)))"

definition update_credential :: "uuid \<Rightarrow> (credential \<Rightarrow> credential) \<Rightarrow> db \<Rightarrow> db result" where
  "update_credential i f d =
     (case find_by cd_id i (db_credentials d) of
        None \<Rightarrow> Inl (DbError ''P2025'')
      | Some old \<Rightarrow>
          if \<not> credential_checks (f old) then Inl (DbError ''credential check constraint'')
          else if cd_email (f old) \<in> cd_email ` set (filter (\<lambda>c. cd_id c \<noteq> i) (db_credentials d))
          then Inl (DbError ''P2002'')
          else Inr (d\<lparr>db_credentials := update_by cd_id i f (db_credentials d)\<rparr>))"

section \<open>Sessions\<close>

definition create_session :: "session \<Rightarrow> db \<Rightarrow> db result" where
  "create_session s d =
     (if se_userId s \<notin> us_id ` set (db_users d) then Inl (DbError ''P2003'')
      else if se_tokenHash s \<in> se_tokenHash ` set (db_sessions d) then Inl (DbError ''P2002'')
      else map_result (\<lambda>rows. d\<lparr>db_sessions := rows\<rparr>) (insert_by se_id s (db_sessions d)))"

text \<open>\<open>tx.session.updateMany({where, data: {revokedAt: now}})\<close>.\<close>

definition revoke_sessions :: "millis \<Rightarrow> (session \<Rightarrow> bool) \<Rightarrow> db \<Rightarrow> db" where
  "revoke_sessions now P d =
     d\<lparr>db_sessions := map (\<lambda>s. if P s then s\<lparr>se_revokedAt := Some now\<rparr> else s) (db_sessions d)\<rparr>"

section \<open>Audit events and unique keys\<close>

definition audit :: "uuid \<Rightarrow> string \<Rightarrow> uuid \<Rightarrow> db \<Rightarrow> db" where
  "audit actor action target d =
     d\<lparr>db_auditEvents := db_auditEvents d @ [\<lparr>ae_actorId = Some actor, ae_action = action, ae_targetId = Some target\<rparr>]\<rparr>"

definition is_P2002 :: "error \<Rightarrow> bool" where
  "is_P2002 e = (case e of DbError s \<Rightarrow> take 5 s = ''P2002'' | _ \<Rightarrow> False)"

text \<open>\<open>catch (error) { if (P2002) throw e; throw error; }\<close>.\<close>

definition on_P2002 :: "error \<Rightarrow> 'a result \<Rightarrow> 'a result" where
  "on_P2002 e r = (case r of Inl x \<Rightarrow> if is_P2002 x then Inl e else Inl x | Inr y \<Rightarrow> Inr y)"

lemma on_P2002_Inr [result_simps]: "on_P2002 e r = Inr y \<longleftrightarrow> r = Inr y"
  by (auto simp: on_P2002_def split: sum.splits)

lemma update_user_Inr [result_simps]:
  "update_user i f d = Inr d' \<longleftrightarrow>
     (\<exists>old. find_user d i = Some old \<and> user_checks (f old) \<and>
        us_identity (f old) \<notin> us_identity ` set (filter (\<lambda>u. us_id u \<noteq> i) (db_users d)) \<and>
        us_username (f old) \<notin> us_username ` set (filter (\<lambda>u. us_id u \<noteq> i) (db_users d)) \<and> d' = put_user i f d)"
  by (auto simp: update_user_def Let_def split: option.splits if_splits)

lemma create_user_Inr [result_simps]:
  "create_user u d = Inr d' \<longleftrightarrow>
     user_checks u \<and> us_identity u \<notin> us_identity ` set (db_users d) \<and> us_username u \<notin> us_username ` set (db_users d) \<and>
     us_id u \<notin> us_id ` set (db_users d) \<and> d' = d\<lparr>db_users := db_users d @ [u]\<rparr>"
  by (auto simp: create_user_def result_simps)

lemma create_session_Inr [result_simps]:
  "create_session s d = Inr d' \<longleftrightarrow>
     se_userId s \<in> us_id ` set (db_users d) \<and> se_tokenHash s \<notin> se_tokenHash ` set (db_sessions d) \<and>
     se_id s \<notin> se_id ` set (db_sessions d) \<and> d' = d\<lparr>db_sessions := db_sessions d @ [s]\<rparr>"
  by (auto simp: create_session_def result_simps)

interpretation users: row_store find_user put_user "\<lambda>f. \<forall>u. us_id (f u) = us_id u"
  by unfold_locales (simp_all add: find_user_def put_user_def table_simps)

end
