(* ===== verification/CatalogTables.thy ===== *)
theory CatalogTables
  imports UserTables RuntimePolicy
begin

text \<open>
  The writes to problems, versions and test cases, with the triggers of the migrations: a published
  version and its tests are immutable, publication validates the input mode, and the current version of
  a problem is a published version of it. The files of a test case are part of its row.
\<close>

section \<open>Versions and tests\<close>

definition cases_of :: "db \<Rightarrow> uuid \<Rightarrow> test_case list" where
  "cases_of d v = filter (\<lambda>t. tc_problemVersionId t = v) (db_testCases d)"

definition create_problem_row :: "problem \<Rightarrow> db \<Rightarrow> db result" where
  "create_problem_row p d =
     (if pr_slug p \<in> pr_slug ` set (db_problems d) then Inl (DbError ''P2002'')
      else map_result (\<lambda>rows. d\<lparr>db_problems := rows\<rparr>) (insert_by pr_id p (db_problems d)))"

definition version_checks :: "version \<Rightarrow> bool" where
  "version_checks v \<longleftrightarrow>
     0 < vn_timeMs v \<and> int4 (vn_timeMs v) \<and> 0 < vn_memoryKiB v \<and> int4 (vn_memoryKiB v) \<and> 0 < vn_number v \<and> int4 (vn_number v)"

definition create_version_row :: "version \<Rightarrow> db \<Rightarrow> db result" where
  "create_version_row v d =
     (if \<not> version_checks v then Inl (DbError ''version check constraint'')
      else if vn_problemId v \<notin> pr_id ` set (db_problems d) then Inl (DbError ''P2003'')
      else if \<exists>x \<in> set (db_versions d). vn_problemId x = vn_problemId v \<and> vn_number x = vn_number v
      then Inl (DbError ''P2002'')
      else map_result (\<lambda>rows. d\<lparr>db_versions := rows\<rparr>) (insert_by vn_id v (db_versions d)))"

text \<open>\<open>protect_published_tests\<close>, the unique ordinal, and the checks of the files.\<close>

definition create_test_row :: "test_case \<Rightarrow> db \<Rightarrow> db result" where
  "create_test_row t d =
     (if version_published d (tc_problemVersionId t) then Inl (DbError ''published test suites are immutable'')
      else if tc_problemVersionId t \<notin> vn_id ` set (db_versions d) then Inl (DbError ''P2003'')
      else if tc_ordinal t < 0 \<or> \<not> int4 (tc_ordinal t) \<or>
              \<not> list_all (\<lambda>f. inputFileNameSchema (tf_name f) \<and> byteLength (tf_content f) \<le> 262144) (tc_files t)
      then Inl (DbError ''test check constraint'')
      else if \<not> distinct (map tf_name (tc_files t)) \<or>
              (\<exists>x \<in> set (db_testCases d). tc_problemVersionId x = tc_problemVersionId t \<and> tc_ordinal x = tc_ordinal t)
      then Inl (DbError ''P2002'')
      else map_result (\<lambda>rows. d\<lparr>db_testCases := rows\<rparr>) (insert_by tc_id t (db_testCases d)))"

text \<open>\<open>validate_problem_input_contract\<close>.\<close>

definition input_contract :: "db \<Rightarrow> version \<Rightarrow> bool" where
  "input_contract d v \<longleftrightarrow>
     (case vn_inputMode v of
        STDIN \<Rightarrow> list_all (\<lambda>t. tc_files t = []) (cases_of d (vn_id v))
      | FILES \<Rightarrow> list_all (\<lambda>t. tc_input t = [] \<and> tc_files t \<noteq> []) (cases_of d (vn_id v)))"

text \<open>\<open>tx.problemVersion.update({where: {id}, data: {published: true}})\<close>.\<close>

definition publish_version :: "uuid \<Rightarrow> db \<Rightarrow> db result" where
  "publish_version i d =
     (case find_version d i of
        None \<Rightarrow> Inl (DbError ''P2025'')
      | Some v \<Rightarrow>
          if vn_published v then Inl (DbError ''published problem versions are immutable'')
          else if \<not> input_contract d v then Inl (DbError ''invalid problem inputs'')
          else Inr (d\<lparr>db_versions := update_by vn_id i (\<lambda>v. v\<lparr>vn_published := True\<rparr>) (db_versions d)\<rparr>))"

text \<open>\<open>validate_current_version\<close> and the unique key on the current version.\<close>

definition set_current_version :: "uuid \<Rightarrow> uuid option \<Rightarrow> db \<Rightarrow> db result" where
  "set_current_version p v d =
     (if p \<notin> pr_id ` set (db_problems d) then Inl (DbError ''P2025'')
      else if \<not> opt_all (\<lambda>i. \<exists>x \<in> set (db_versions d). vn_id x = i \<and> vn_problemId x = p \<and> vn_published x) v
      then Inl (DbError ''current version must be published and belong to this problem'')
      else if v \<noteq> None \<and> (\<exists>q \<in> set (db_problems d). pr_id q \<noteq> p \<and> pr_currentVersionId q = v) then Inl (DbError ''P2002'')
      else Inr (d\<lparr>db_problems := update_by pr_id p (\<lambda>q. q\<lparr>pr_currentVersionId := v\<rparr>) (db_problems d)\<rparr>))"

section \<open>Deletion\<close>

definition versions_of :: "db \<Rightarrow> uuid \<Rightarrow> version list" where
  "versions_of d p = filter (\<lambda>v. vn_problemId v = p) (db_versions d)"

definition delete_tests_of :: "uuid \<Rightarrow> db \<Rightarrow> db result" where
  "delete_tests_of p d =
     (let vs = map vn_id (versions_of d p) in
      if \<exists>t \<in> set (db_testCases d). tc_problemVersionId t \<in> set vs \<and> version_published d (tc_problemVersionId t)
      then Inl (DbError ''published test suites are immutable'')
      else Inr (d\<lparr>db_testCases := filter (\<lambda>t. tc_problemVersionId t \<notin> set vs) (db_testCases d)\<rparr>))"

definition delete_versions_of :: "uuid \<Rightarrow> db \<Rightarrow> db result" where
  "delete_versions_of p d =
     (let vs = map vn_id (versions_of d p) in
      if list_ex vn_published (versions_of d p) then Inl (DbError ''published problem versions are immutable'')
      else if (\<exists>e \<in> set (db_executions d). ex_problemVersionId e \<in> set vs) \<or>
              (\<exists>t \<in> set (db_testCases d). tc_problemVersionId t \<in> set vs) then Inl (DbError ''P2003'')
      else Inr (d\<lparr>db_versions := filter (\<lambda>v. vn_problemId v \<noteq> p) (db_versions d)\<rparr>))"

text \<open>The posts of a problem go with it, and with a post its replies, likes and reports.\<close>

definition delete_posts :: "(discussion_post \<Rightarrow> bool) \<Rightarrow> db \<Rightarrow> db" where
  "delete_posts P d =
     (let gone = map dp_id (filter P (db_discussionPosts d));
          goes = (\<lambda>i. i \<in> set gone \<or> (\<exists>p \<in> set (db_discussionPosts d). dp_id p = i \<and> (case dp_parentId p of None \<Rightarrow> False | Some q \<Rightarrow> q \<in> set gone)))
      in d\<lparr>db_discussionPosts := filter (\<lambda>p. \<not> goes (dp_id p)) (db_discussionPosts d),
           db_discussionLikes := filter (\<lambda>l. \<not> goes (dl_postId l)) (db_discussionLikes d),
           db_contentReports := filter (\<lambda>r. \<not> goes (rp_postId r)) (db_contentReports d)\<rparr>)"

definition delete_problem_row :: "uuid \<Rightarrow> db \<Rightarrow> db result" where
  "delete_problem_row p d =
     (if p \<notin> pr_id ` set (db_problems d) then Inl (DbError ''P2025'')
      else if (\<exists>c \<in> set (db_competitionProblems d). cb_problemId c = p) \<or> versions_of d p \<noteq> [] then Inl (DbError ''P2003'')
      else Inr (delete_posts (\<lambda>q. dp_problemId q = p)
             (d\<lparr>db_problems := filter (\<lambda>q. pr_id q \<noteq> p) (db_problems d)\<rparr>)))"

end
