(* ===== verification/ProblemAdmin.thy ===== *)
theory ProblemAdmin
  imports CatalogTables JobStore
begin

text \<open>
  Problems: the public listing and detail (\<open>apps/api/src/problems/problems.ts\<close>) and their administration
  (\<open>createProblem\<close>, \<open>editProblem\<close>, \<open>setProblemPublication\<close>, \<open>deleteProblem\<close> and the two listings of
  \<open>apps/api/src/admin/admin.ts\<close>). Inputs are the values the schemas produced; new identifiers are
  arguments.
\<close>

section \<open>Input of a problem\<close>

record test_input =
  ti_visibility :: visibility
  ti_input :: jsstr
  ti_files :: "test_file list"
  ti_expectedOutput :: jsstr

record templates =
  tp_java :: jsstr
  tp_python :: jsstr
  tp_javascript :: jsstr

record problem_input =
  pi_slug :: string
  pi_title :: jsstr
  pi_difficulty :: difficulty
  pi_tags :: "string list"
  pi_statementMarkdown :: jsstr
  pi_constraints :: "jsstr list"
  pi_timeMs :: int
  pi_memoryKiB :: int
  pi_inputMode :: inputMode
  pi_templates :: templates
  pi_tests :: "test_input list"
  pi_publish :: bool

definition slug_ok :: "string \<Rightarrow> bool" where
  "slug_ok s \<longleftrightarrow> is_slug s \<and> length s \<le> 100"

text \<open>\<open>/^[a-z0-9][a-z0-9-]{0,29}$/\<close>.\<close>

definition tag_ok :: "string \<Rightarrow> bool" where
  "tag_ok s \<longleftrightarrow>
     1 \<le> length s \<and> length s \<le> 30 \<and> list_all (\<lambda>c. digit_char c \<or> lower_char c \<or> c = CHR ''-'') s \<and> hd s \<noteq> CHR ''-''"

text \<open>A trimmed text within bounds.\<close>

definition trimmed_text :: "nat \<Rightarrow> nat \<Rightarrow> jsstr \<Rightarrow> bool" where
  "trimmed_text lo hi s \<longleftrightarrow> js_trim s = s \<and> lo \<le> length s \<and> length s \<le> hi"

definition testSchema :: "test_input \<Rightarrow> bool" where
  "testSchema t \<longleftrightarrow>
     length (ti_input t) \<le> 64000 \<and> length (ti_expectedOutput t) \<le> 64000 \<and> length (ti_files t) \<le> 16 \<and>
     list_all (\<lambda>f. inputFileNameSchema (tf_name f) \<and> length (tf_content f) \<le> 64000) (ti_files t) \<and>
     distinct (map tf_name (ti_files t))"

definition test_fits_mode :: "inputMode \<Rightarrow> test_input \<Rightarrow> bool" where
  "test_fits_mode m t = (case m of STDIN \<Rightarrow> ti_files t = [] | FILES \<Rightarrow> ti_files t \<noteq> [] \<and> ti_input t = [])"

definition createProblemInput :: "problem_input \<Rightarrow> bool" where
  "createProblemInput i \<longleftrightarrow>
     slug_ok (pi_slug i) \<and> trimmed_text 3 160 (pi_title i) \<and>
     list_all tag_ok (pi_tags i) \<and> length (pi_tags i) \<le> 12 \<and> trimmed_text 20 50000 (pi_statementMarkdown i) \<and>
     list_all (trimmed_text 1 500) (pi_constraints i) \<and> length (pi_constraints i) \<le> 30 \<and>
     100 \<le> pi_timeMs i \<and> pi_timeMs i \<le> 30000 \<and> 16384 \<le> pi_memoryKiB i \<and> pi_memoryKiB i \<le> 1048576 \<and>
     length (tp_java (pi_templates i)) \<le> 64000 \<and> length (tp_python (pi_templates i)) \<le> 64000 \<and>
     length (tp_javascript (pi_templates i)) \<le> 64000 \<and>
     list_all testSchema (pi_tests i) \<and> 2 \<le> length (pi_tests i) \<and> length (pi_tests i) \<le> 100 \<and>
     list_ex (\<lambda>t. ti_visibility t = PUBLIC) (pi_tests i) \<and> list_ex (\<lambda>t. ti_visibility t = HIDDEN) (pi_tests i) \<and>
     list_all (test_fits_mode (pi_inputMode i)) (pi_tests i)"

section \<open>Administration\<close>

definition templates_json :: "templates \<Rightarrow> json" where
  "templates_json t =
     JObj [(''java'', JStr (tp_java t)), (''python'', JStr (tp_python t)), (''javascript'', JStr (tp_javascript t))]"

text \<open>\<open>[...new Set(xs)]\<close>: the first occurrence of each element, in order.\<close>

fun unique :: "'a list \<Rightarrow> 'a list" where
  "unique [] = []"
| "unique (x # xs) = x # filter (\<lambda>y. y \<noteq> x) (unique xs)"

definition version_row :: "uuid \<Rightarrow> uuid \<Rightarrow> int \<Rightarrow> problem_input \<Rightarrow> version" where
  "version_row i p n input =
     \<lparr>vn_id = i, vn_problemId = p, vn_number = n, vn_published = False, vn_title = pi_title input,
      vn_difficulty = pi_difficulty input, vn_tags = unique (pi_tags input),
      vn_statementMarkdown = pi_statementMarkdown input, vn_constraints = pi_constraints input,
      vn_timeMs = pi_timeMs input, vn_memoryKiB = pi_memoryKiB input, vn_templates = templates_json (pi_templates input),
      vn_inputMode = pi_inputMode input, vn_comparator = ''EXACT_NEWLINE''\<rparr>"

definition test_row :: "uuid \<Rightarrow> uuid \<Rightarrow> nat \<Rightarrow> test_input \<Rightarrow> test_case" where
  "test_row i v k t =
     \<lparr>tc_id = i, tc_problemVersionId = v, tc_ordinal = int k + 1, tc_visibility = ti_visibility t, tc_input = ti_input t,
      tc_expectedOutput = ti_expectedOutput t, tc_files = ti_files t\<rparr>"

text \<open>The loop over the tests of the input; \<open>ids\<close> are the identifiers of the new rows.\<close>

definition create_tests :: "(nat \<Rightarrow> uuid) \<Rightarrow> uuid \<Rightarrow> test_input list \<Rightarrow> db \<Rightarrow> db result" where
  "create_tests ids v ts d = fold_result (\<lambda>(k, t). create_test_row (test_row (ids k) v k t)) (enumerate 0 ts) d"

text \<open>The rows of a new version, published and made current if asked.\<close>

definition add_version :: "(nat \<Rightarrow> uuid) \<Rightarrow> uuid \<Rightarrow> uuid \<Rightarrow> int \<Rightarrow> problem_input \<Rightarrow> db \<Rightarrow> db result" where
  "add_version ids v p n input d =
     bind_result (create_version_row (version_row v p n input) d) (\<lambda>d1.
     bind_result (create_tests ids v (pi_tests input) d1) (\<lambda>d2.
       if pi_publish input then bind_result (publish_version v d2) (set_current_version p (Some v)) else Inr d2))"

record created_problem =
  cp_id :: uuid
  cp_slug :: string
  cp_versionId :: uuid
  cp_published :: bool

definition createProblem ::
    "clock \<Rightarrow> (nat \<Rightarrow> uuid) \<Rightarrow> uuid \<Rightarrow> uuid \<Rightarrow> uuid \<Rightarrow> problem_input \<Rightarrow> db \<Rightarrow> created_problem tx" where
  "createProblem ck ids p v actorId input d =
     on_P2002 (ApiError 409 ''SLUG_TAKEN'' None)
       (bind_result (create_problem_row
            \<lparr>pr_id = p, pr_slug = pi_slug input, pr_currentVersionId = None, pr_createdAt = ck_host ck\<rparr> d) (\<lambda>d1.
        map_result (\<lambda>d2. (\<lparr>cp_id = p, cp_slug = pi_slug input, cp_versionId = v, cp_published = pi_publish input\<rparr>,
            audit actorId (if pi_publish input then ''PROBLEM_PUBLISH'' else ''PROBLEM_DRAFT_CREATE'') p d2))
          (add_version ids v p 1 input d1)))"

definition latest_version :: "db \<Rightarrow> uuid \<Rightarrow> version option" where
  "latest_version d p =
     (case rev (sort_key vn_number (versions_of d p)) of [] \<Rightarrow> None | v # _ \<Rightarrow> Some v)"

definition editProblem ::
    "(nat \<Rightarrow> uuid) \<Rightarrow> uuid \<Rightarrow> uuid \<Rightarrow> uuid \<Rightarrow> problem_input \<Rightarrow> db \<Rightarrow> created_problem tx" where
  "editProblem ids v actorId p input d =
     (case find_problem d p of
        None \<Rightarrow> Inl NOT_FOUND
      | Some pr \<Rightarrow>
          if pr_slug pr \<noteq> pi_slug input then Inl (ApiError 409 ''SLUG_IMMUTABLE'' None)
          else map_result (\<lambda>d1. (\<lparr>cp_id = p, cp_slug = pr_slug pr, cp_versionId = v, cp_published = pi_publish input\<rparr>,
                  audit actorId (if pi_publish input then ''PROBLEM_VERSION_PUBLISH'' else ''PROBLEM_VERSION_DRAFT_CREATE'') p d1))
                (add_version ids v p ((case latest_version d p of None \<Rightarrow> 0 | Some l \<Rightarrow> vn_number l) + 1) input d))"

definition setProblemPublication :: "uuid \<Rightarrow> uuid \<Rightarrow> bool \<Rightarrow> db \<Rightarrow> uuid option tx" where
  "setProblemPublication actorId p published d =
     (case find_problem d p of
        None \<Rightarrow> Inl NOT_FOUND
      | Some _ \<Rightarrow>
          if published
          then (case latest_version d p of
             None \<Rightarrow> Inl (ApiError 409 ''NO_VERSION'' None)
           | Some l \<Rightarrow>
               bind_result (if vn_published l then Inr d else publish_version (vn_id l) d) (\<lambda>d1.
                 map_result (\<lambda>d2. (Some (vn_id l), audit actorId ''PROBLEM_PUBLISH'' p d2))
                   (set_current_version p (Some (vn_id l)) d1)))
          else map_result (\<lambda>d1. (None, audit actorId ''PROBLEM_UNPUBLISH'' p d1)) (set_current_version p None d))"

definition problem_in_use :: "db \<Rightarrow> uuid \<Rightarrow> bool" where
  "problem_in_use d p \<longleftrightarrow>
     (\<exists>c \<in> set (db_competitionProblems d). cb_problemId c = p) \<or>
     (\<exists>v \<in> set (versions_of d p). vn_published v \<or> (\<exists>e \<in> set (db_executions d). ex_problemVersionId e = vn_id v))"

definition deleteProblem :: "uuid \<Rightarrow> uuid \<Rightarrow> db \<Rightarrow> db result" where
  "deleteProblem actorId p d =
     (case find_problem d p of
        None \<Rightarrow> Inl NOT_FOUND
      | Some _ \<Rightarrow>
          if problem_in_use d p then Inl (ApiError 409 ''PROBLEM_IN_USE'' None)
          else bind_result (set_current_version p None d) (\<lambda>d1.
               bind_result (delete_tests_of p d1) (\<lambda>d2.
               bind_result (delete_versions_of p d2) (\<lambda>d3.
                 map_result (audit actorId ''PROBLEM_DELETE'' p) (delete_problem_row p d3)))))"

section \<open>What the administrator sees\<close>

record overview_item =
  po_id :: uuid
  po_slug :: string
  po_createdAt :: millis
  po_version :: "(version \<times> bool \<times> nat) option"

text \<open>\<open>problems()\<close>: the latest version, whether it is the current one, and its executions.\<close>

definition problem_overview :: "db \<Rightarrow> problem \<Rightarrow> overview_item" where
  "problem_overview d p =
     \<lparr>po_id = pr_id p, po_slug = pr_slug p, po_createdAt = pr_createdAt p,
      po_version = map_option (\<lambda>v. (v, pr_currentVersionId p = Some (vn_id v),
        length (filter (\<lambda>e. ex_problemVersionId e = vn_id v) (db_executions d)))) (latest_version d (pr_id p))\<rparr>"

definition admin_problems :: "db \<Rightarrow> overview_item list" where
  "admin_problems d = map (problem_overview d) (rev (sort_key pr_createdAt (db_problems d)))"

definition admin_problem :: "uuid \<Rightarrow> db \<Rightarrow> (problem \<times> version \<times> test_case list) result" where
  "admin_problem p d =
     (case find_problem d p of
        None \<Rightarrow> Inl NOT_FOUND
      | Some pr \<Rightarrow>
          (case latest_version d p of
             None \<Rightarrow> Inl NOT_FOUND
           | Some v \<Rightarrow> Inr (pr, v, map (\<lambda>t. t\<lparr>tc_files := sort_key tf_name (tc_files t)\<rparr>)
                                     (sort_key tc_ordinal (cases_of d (vn_id v))))))"

section \<open>Public problems\<close>

definition published_version :: "db \<Rightarrow> problem \<Rightarrow> version option" where
  "published_version d p =
     (case pr_currentVersionId p of None \<Rightarrow> None
      | Some i \<Rightarrow> (case find_version d i of None \<Rightarrow> None | Some v \<Rightarrow> if vn_published v then Some v else None))"

record example =
  eg_id :: uuid
  eg_input :: jsstr
  eg_files :: "test_file list"
  eg_expectedOutput :: jsstr

record problem_page =
  pd_id :: uuid
  pd_slug :: string
  pd_title :: jsstr
  pd_difficulty :: difficulty
  pd_tags :: "string list"
  pd_statementMarkdown :: jsstr
  pd_constraints :: "jsstr list"
  pd_timeMs :: int
  pd_memoryKiB :: int
  pd_inputMode :: inputMode
  pd_examples :: "example list"
  pd_templates :: templates

definition example_of :: "test_case \<Rightarrow> example" where
  "example_of t =
     \<lparr>eg_id = tc_id t, eg_input = tc_input t, eg_files = sort_key tf_name (tc_files t), eg_expectedOutput = tc_expectedOutput t\<rparr>"

text \<open>\<open>z.record(languageSchema, z.string())\<close>: every language has a template and nothing else is there.\<close>

definition templatesSchema :: "json \<Rightarrow> templates option" where
  "templatesSchema j =
     (if \<not> strict_object [''java'', ''python'', ''javascript''] j then None
      else case (member j ''java'', member j ''python'', member j ''javascript'') of
        (Some (JStr a), Some (JStr b), Some (JStr c)) \<Rightarrow> Some \<lparr>tp_java = a, tp_python = b, tp_javascript = c\<rparr>
      | _ \<Rightarrow> None)"

definition problem_detail :: "string \<Rightarrow> db \<Rightarrow> problem_page result" where
  "problem_detail slug d =
     (case find_by pr_slug slug (db_problems d) of
        None \<Rightarrow> Inl NOT_FOUND
      | Some p \<Rightarrow>
          (case published_version d p of
             None \<Rightarrow> Inl NOT_FOUND
           | Some v \<Rightarrow>
               (case templatesSchema (vn_templates v) of
                  None \<Rightarrow> Inl ZodError
                | Some t \<Rightarrow>
                    Inr \<lparr>pd_id = pr_id p, pd_slug = pr_slug p, pd_title = vn_title v, pd_difficulty = vn_difficulty v,
                         pd_tags = vn_tags v, pd_statementMarkdown = vn_statementMarkdown v,
                         pd_constraints = vn_constraints v, pd_timeMs = vn_timeMs v, pd_memoryKiB = vn_memoryKiB v,
                         pd_inputMode = vn_inputMode v,
                         pd_examples = map example_of (sort_key tc_ordinal
                           (filter (\<lambda>t. tc_visibility t = PUBLIC) (cases_of d (vn_id v)))),
                         pd_templates = t\<rparr>)))"

record problem_query =
  pq_cursor :: "uuid option"
  pq_difficulty :: "difficulty option"
  pq_search :: "jsstr option"

text \<open>
  \<open>contains\<close> with \<open>mode: 'insensitive'\<close> is PostgreSQL's \<open>ILIKE\<close>, the parameter \<open>ilike\<close>; \<open>lower\<close> is
  \<open>toLowerCase\<close>. An empty search is no search.
\<close>

definition version_matches ::
    "(jsstr \<Rightarrow> jsstr \<Rightarrow> bool) \<Rightarrow> (jsstr \<Rightarrow> jsstr) \<Rightarrow> problem_query \<Rightarrow> version \<Rightarrow> bool" where
  "version_matches ilike lower q v \<longleftrightarrow>
     opt_all (\<lambda>x. vn_difficulty v = x) (pq_difficulty q) \<and>
     opt_all (\<lambda>s. s = [] \<or> ilike s (vn_title v) \<or> lower s \<in> js ` set (vn_tags v)) (pq_search q)"

record summary_item =
  ps_id :: uuid
  ps_slug :: string
  ps_title :: jsstr
  ps_difficulty :: difficulty
  ps_tags :: "string list"

definition problem_summary :: "problem \<times> version \<Rightarrow> summary_item" where
  "problem_summary pv =
     \<lparr>ps_id = pr_id (fst pv), ps_slug = pr_slug (fst pv), ps_title = vn_title (snd pv),
      ps_difficulty = vn_difficulty (snd pv), ps_tags = vn_tags (snd pv)\<rparr>"

definition listed_problems ::
    "(jsstr \<Rightarrow> jsstr \<Rightarrow> bool) \<Rightarrow> (jsstr \<Rightarrow> jsstr) \<Rightarrow> problem_query \<Rightarrow> db \<Rightarrow> (problem \<times> version) list" where
  "listed_problems ilike lower q d =
     List.map_filter (\<lambda>p. case published_version d p of None \<Rightarrow> None
        | Some v \<Rightarrow> if version_matches ilike lower q v then Some (p, v) else None) (db_problems d)"

definition list_problems ::
    "(jsstr \<Rightarrow> jsstr \<Rightarrow> bool) \<Rightarrow> (jsstr \<Rightarrow> jsstr) \<Rightarrow> problem_query \<Rightarrow> db \<Rightarrow> summary_item list \<times> uuid option" where
  "list_problems ilike lower q d =
     (let rows = take 21 (sort_key (pr_id \<circ> fst) (filter (\<lambda>pv. opt_all (\<lambda>c. c < pr_id (fst pv)) (pq_cursor q))
                   (listed_problems ilike lower q d)));
          items = map problem_summary (take 20 rows)
      in (items, if 20 < length rows then Some (ps_id (last items)) else None))"

end
