(* ===== verification/CatalogSafety.thy ===== *)
theory CatalogSafety
  imports ProblemAdmin Pipeline Runner
begin

text \<open>
  Administration of the catalogue beside the running pipeline: the operations on problems keep every
  published version with its tests as they are, so executions are judged by the plan they were
  submitted against, and the invariant of the execution tables survives them.
\<close>

section \<open>What every write of the catalogue keeps\<close>

definition find_published :: "db \<Rightarrow> uuid \<Rightarrow> version option" where
  "find_published d i = find (\<lambda>v. vn_id v = i \<and> vn_published v) (db_versions d)"

definition published_kept :: "db \<Rightarrow> db \<Rightarrow> bool" where
  "published_kept d d' \<longleftrightarrow>
     (\<forall>i. version_published d i \<longrightarrow> find_published d' i = find_published d i \<and> cases_of d' i = cases_of d i)"

definition jobs_kept :: "db \<Rightarrow> db \<Rightarrow> bool" where
  "jobs_kept d d' \<longleftrightarrow>
     db_executions d' = db_executions d \<and> db_events d' = db_events d \<and> db_outbox d' = db_outbox d"

definition catalog_ok :: "db \<Rightarrow> bool" where
  "catalog_ok d \<longleftrightarrow> distinct (map vn_id (db_versions d)) \<and> catalog_inv d"

definition catalog_le :: "db \<Rightarrow> db \<Rightarrow> bool" where
  "catalog_le d d' \<longleftrightarrow> (catalog_ok d \<longrightarrow> catalog_ok d' \<and> published_kept d d') \<and> jobs_kept d d'"

lemma version_published_find: "version_published d i \<longleftrightarrow> find_published d i \<noteq> None"
  by (auto simp: version_published_def find_published_def find_None_iff)

lemma catalog_le_refl: "catalog_le d d"
  by (simp add: catalog_le_def published_kept_def jobs_kept_def)

lemma catalog_le_trans: "catalog_le a b \<Longrightarrow> catalog_le b c \<Longrightarrow> catalog_le a c"
  by (auto simp: catalog_le_def published_kept_def jobs_kept_def version_published_find)

text \<open>A write that touches neither versions nor tests nor slugs.\<close>

definition slug_fits :: "string \<Rightarrow> bool" where
  "slug_fits s \<longleftrightarrow> length s \<le> 400 \<and> list_all href_char s"

lemma catalog_le_same:
  assumes "db_versions d' = db_versions d" and "db_testCases d' = db_testCases d" and "jobs_kept d d'"
    and "pr_slug ` set (db_problems d') \<subseteq> pr_slug ` set (db_problems d) \<union> Collect slug_fits"
  shows "catalog_le d d'"
proof -
  have inv: "catalog_inv x \<longleftrightarrow> distinct (map tc_id (db_testCases x)) \<and> (\<forall>v \<in> set (db_versions x). length (vn_title v) \<le> 400) \<and>
      pr_slug ` set (db_problems x) \<subseteq> Collect slug_fits" for x
    by (auto simp: catalog_inv_def slug_fits_def)
  show ?thesis
    using assms
    by (auto simp: catalog_le_def catalog_ok_def inv published_kept_def find_published_def cases_of_def)
qed

lemma catalog_le_audit: "catalog_le d (audit a c t d)"
  by (rule catalog_le_same) (auto simp: audit_def jobs_kept_def)

lemma slug_href: "is_slug s \<Longrightarrow> list_all href_char s"
proof -
  have "slug_tail b s \<Longrightarrow> list_all href_char s" for b
    by (induction b s rule: slug_tail.induct) (auto simp: href_char_def alnum_char_def split: if_splits)
  then show "is_slug s \<Longrightarrow> list_all href_char s" by (simp add: is_slug_def)
qed

lemma create_problem_row_le:
  "create_problem_row p d = Inr d' \<Longrightarrow> slug_ok (pr_slug p) \<Longrightarrow> catalog_le d d'"
  by (rule catalog_le_same)
    (auto simp: create_problem_row_def result_simps jobs_kept_def slug_fits_def slug_ok_def slug_href split: if_splits)

lemma find_append_Some: "find P xs \<noteq> None \<Longrightarrow> find P (xs @ ys) = find P xs"
  by (induction xs) auto

lemma create_version_row_le:
  assumes "create_version_row v d = Inr d'" and "\<not> vn_published v" and "length (vn_title v) \<le> 400"
  shows "catalog_le d d'"
proof -
  from assms(1) have "d' = d\<lparr>db_versions := db_versions d @ [v]\<rparr>" "vn_id v \<notin> vn_id ` set (db_versions d)"
    by (auto simp: create_version_row_def result_simps split: if_splits)
  with assms(2,3) show ?thesis
    by (auto simp: catalog_le_def catalog_ok_def catalog_inv_def published_kept_def jobs_kept_def
        version_published_find find_published_def cases_of_def find_append_Some)
qed

lemma create_test_row_le:
  assumes "create_test_row t d = Inr d'"
  shows "catalog_le d d'"
proof -
  from assms have "d' = d\<lparr>db_testCases := db_testCases d @ [t]\<rparr>" "tc_id t \<notin> tc_id ` set (db_testCases d)"
    "\<not> version_published d (tc_problemVersionId t)"
    by (auto simp: create_test_row_def result_simps split: if_splits)
  then show ?thesis
    by (auto simp: catalog_le_def catalog_ok_def catalog_inv_def published_kept_def jobs_kept_def
        find_published_def cases_of_def)
qed

lemma find_update_by:
  assumes "\<And>v. vn_id (f v) = vn_id v" and "\<And>v. v \<in> set vs \<Longrightarrow> vn_id v = i \<Longrightarrow> \<not> vn_published v" and "j \<noteq> i"
  shows "find (\<lambda>v. vn_id v = j \<and> vn_published v) (update_by vn_id i f vs) = find (\<lambda>v. vn_id v = j \<and> vn_published v) vs"
  using assms by (induction vs) (auto simp: update_by_def)

lemma publish_version_le:
  assumes "publish_version i d = Inr d'"
  shows "catalog_le d d'"
proof -
  let ?f = "\<lambda>v. v\<lparr>vn_published := True\<rparr>"
  from assms obtain v where v: "find_version d i = Some v" "\<not> vn_published v"
    and d': "d' = d\<lparr>db_versions := update_by vn_id i ?f (db_versions d)\<rparr>"
    by (auto simp: publish_version_def split: option.splits if_splits)
  have only: "\<not> vn_published x" if "x \<in> set (db_versions d)" "vn_id x = i" "distinct (map vn_id (db_versions d))" for x
    using v find_by_distinct [of vn_id "db_versions d" x] that by (auto simp: find_version_def)
  have "find_published d' j = find_published d j" if "version_published d j" "catalog_ok d" for j
  proof -
    have "j \<noteq> i" using that only by (auto simp: version_published_def catalog_ok_def)
    then show ?thesis
      using that only by (auto simp: d' find_published_def catalog_ok_def intro!: find_update_by)
  qed
  moreover have "catalog_ok d \<Longrightarrow> catalog_ok d'"
    by (auto simp: d' catalog_ok_def catalog_inv_def table_simps set_update_by)
  ultimately show ?thesis
    by (simp add: catalog_le_def published_kept_def jobs_kept_def cases_of_def d')
qed

lemma slugs_update_by: "(\<And>q. pr_slug (f q) = pr_slug q) \<Longrightarrow> pr_slug ` set (update_by pr_id p f ps) = pr_slug ` set ps"
  by (induction ps) (auto simp: update_by_def)

lemma set_current_version_le:
  assumes "set_current_version p v d = Inr d'"
  shows "catalog_le d d'"
proof -
  from assms have "d' = d\<lparr>db_problems := update_by pr_id p (\<lambda>q. q\<lparr>pr_currentVersionId := v\<rparr>) (db_problems d)\<rparr>"
    by (auto simp: set_current_version_def split: if_splits)
  then show ?thesis by (intro catalog_le_same) (simp_all add: slugs_update_by jobs_kept_def)
qed

lemma delete_tests_of_le:
  assumes "delete_tests_of p d = Inr d'"
  shows "catalog_le d d'"
proof -
  let ?gone = "\<lambda>t. tc_problemVersionId t \<in> vn_id ` set (versions_of d p)"
  from assms have d': "d' = d\<lparr>db_testCases := filter (\<lambda>t. \<not> ?gone t) (db_testCases d)\<rparr>"
    and pub: "\<And>t. t \<in> set (db_testCases d) \<Longrightarrow> ?gone t \<Longrightarrow> \<not> version_published d (tc_problemVersionId t)"
    by (auto simp: delete_tests_of_def Let_def split: if_splits)
  have "cases_of d' i = cases_of d i" if "version_published d i" for i
    unfolding cases_of_def d' using pub that by (auto intro: filter_cong)
  then show ?thesis
    by (auto simp: catalog_le_def catalog_ok_def catalog_inv_def published_kept_def jobs_kept_def find_published_def
        d' distinct_map_filter)
qed

lemma find_filter_keep: "(\<And>x. x \<in> set xs \<Longrightarrow> P x \<Longrightarrow> Q x) \<Longrightarrow> find P (filter Q xs) = find P xs"
  by (induction xs) auto

lemma delete_versions_of_le: "delete_versions_of p d = Inr d' \<Longrightarrow> catalog_le d d'"
  by (auto simp: delete_versions_of_def versions_of_def Let_def catalog_le_def catalog_ok_def catalog_inv_def
      published_kept_def jobs_kept_def find_published_def cases_of_def list_ex_iff distinct_map_filter
      intro!: find_filter_keep split: if_splits)

lemma delete_problem_row_le: "delete_problem_row p d = Inr d' \<Longrightarrow> catalog_le d d'"
  by (rule catalog_le_same)
    (auto simp: delete_problem_row_def delete_posts_def Let_def jobs_kept_def split: if_splits)

lemmas catalog_writes = create_problem_row_le create_version_row_le create_test_row_le publish_version_le
  set_current_version_le delete_tests_of_le delete_versions_of_le delete_problem_row_le

section \<open>The operations\<close>

lemma create_tests_le: "create_tests ids v ts d = Inr d' \<Longrightarrow> catalog_le d d'"
  unfolding create_tests_def
  by (erule fold_result_invariant [where P = "catalog_le d"])
    (auto intro: catalog_le_refl catalog_le_trans create_test_row_le)

lemma add_version_le:
  assumes "add_version ids v p n input d = Inr d'" and "createProblemInput input"
  shows "catalog_le d d'"
proof -
  from assms(1) obtain d1 d2 where 1: "create_version_row (version_row v p n input) d = Inr d1"
    and 2: "create_tests ids v (pi_tests input) d1 = Inr d2"
    and 3: "(if pi_publish input then bind_result (publish_version v d2) (set_current_version p (Some v)) else Inr d2) = Inr d'"
    by (auto simp: add_version_def result_simps)
  have "catalog_le d d1"
    using create_version_row_le [OF 1] assms(2) by (simp add: version_row_def createProblemInput_def trimmed_text_def)
  moreover have "catalog_le d1 d2" using 2 by (rule create_tests_le)
  moreover have "catalog_le d2 d'"
    using 3 by (auto simp: result_simps split: if_splits
        intro: catalog_le_refl catalog_le_trans publish_version_le set_current_version_le)
  ultimately show ?thesis by (blast intro: catalog_le_trans)
qed

inductive catalog_step :: "db \<Rightarrow> db \<Rightarrow> bool" where
  step_createProblem: "createProblem ck ids p v a input d = Inr (r, d') \<Longrightarrow> createProblemInput input \<Longrightarrow> catalog_step d d'"
| step_editProblem: "editProblem ids v a p input d = Inr (r, d') \<Longrightarrow> createProblemInput input \<Longrightarrow> catalog_step d d'"
| step_setProblemPublication: "setProblemPublication a p b d = Inr (r, d') \<Longrightarrow> catalog_step d d'"
| step_deleteProblem: "deleteProblem a p d = Inr d' \<Longrightarrow> catalog_step d d'"

lemma catalog_step_le: "catalog_step d d' \<Longrightarrow> catalog_le d d'"
proof (induction rule: catalog_step.induct)
  case (step_createProblem ck ids p v a input d r d')
  then obtain d1 d2 where "create_problem_row \<lparr>pr_id = p, pr_slug = pi_slug input, pr_currentVersionId = None, pr_createdAt = ck_host ck\<rparr> d = Inr d1"
    "add_version ids v p 1 input d1 = Inr d2" "\<exists>c. d' = audit a c p d2"
    by (auto simp: createProblem_def result_simps)
  moreover have "slug_ok (pi_slug input)" using step_createProblem.hyps(2) by (simp add: createProblemInput_def)
  ultimately have "catalog_le d d1" "catalog_le d1 d2" "catalog_le d2 d'"
    using step_createProblem.hyps(2) create_problem_row_le [of _ d d1] add_version_le [of ids v p 1 input d1 d2]
    by (auto simp: catalog_le_audit)
  then show ?case by (blast intro: catalog_le_trans)
next
  case (step_editProblem ids v a p input d r d')
  then show ?case
    by (auto simp: editProblem_def result_simps split: option.splits if_splits
        intro: catalog_le_trans add_version_le catalog_le_audit)
next
  case (step_setProblemPublication a p b d r d')
  then show ?case
    by (auto simp: setProblemPublication_def result_simps split: option.splits if_splits)
      (meson catalog_le_trans publish_version_le set_current_version_le catalog_le_audit)+
next
  case (step_deleteProblem a p d d')
  then show ?case
    by (auto simp: deleteProblem_def result_simps split: option.splits if_splits)
      (meson catalog_le_trans catalog_writes catalog_le_audit)
qed

section \<open>Beside the pipeline\<close>

lemma published_public_case_ids:
  assumes "cases_of d' v = cases_of d v"
  shows "public_case_ids d' v = public_case_ids d v"
proof -
  have "public_case_ids x v = map tc_id (filter (\<lambda>t. tc_visibility t = PUBLIC) (cases_of x v))" for x
    by (simp add: public_case_ids_def cases_of_def conj_commute)
  with assms show ?thesis by simp
qed

lemma catalog_le_inv:
  assumes inv: "db_inv env d" and ok: "catalog_ok d" and le: "catalog_le d d'"
  shows "db_inv env d' \<and> catalog_ok d' \<and> db_le d d'"
proof -
  from ok le have ok': "catalog_ok d'" and kept: "published_kept d d'"
    and jobs: "db_executions d' = db_executions d" "db_events d' = db_events d" "db_outbox d' = db_outbox d"
    by (auto simp: catalog_le_def jobs_kept_def)
  have find: "find_execution d' i = find_execution d i" for i by (simp add: find_execution_def jobs)
  have rows: "version_published d (ex_problemVersionId r)" if "r \<in> set (db_executions d)" for r
    using inv that by (auto simp: db_inv_def executions_inv_def row_ok_def)
  have pub: "public_case_ids d' (ex_problemVersionId r) = public_case_ids d (ex_problemVersionId r)"
    "version_published d' (ex_problemVersionId r)" if "r \<in> set (db_executions d)" for r
    using kept rows [OF that] by (auto simp: published_kept_def version_published_find intro: published_public_case_ids)
  have "executions_inv env d'"
    using inv pub by (auto simp: db_inv_def executions_inv_def row_ok_def jobs)
  moreover have "events_inv env d'"
    using inv pub find_execution_Some by (fastforce simp: db_inv_def events_inv_def event_ok_def events_of_def jobs find)
  ultimately show ?thesis
    using inv ok' by (auto simp: db_inv_def outbox_inv_def catalog_ok_def db_le_def jobs find)
qed

definition judge_inv :: "env \<Rightarrow> db \<Rightarrow> bool" where
  "judge_inv env d \<longleftrightarrow> db_inv env d \<and> catalog_ok d"

definition judge_step :: "env \<Rightarrow> config \<Rightarrow> db \<Rightarrow> db \<Rightarrow> bool" where
  "judge_step env cfg d d' \<longleftrightarrow> pipeline_step env cfg d d' \<or> catalog_step d d'"

definition catalog_initial :: "db \<Rightarrow> bool" where
  "catalog_initial d \<longleftrightarrow> initial d \<and> distinct (map vn_id (db_versions d))"

lemma keeps_published_kept: "keeps d d' \<Longrightarrow> published_kept d d'"
  by (simp add: keeps_def published_kept_def find_published_def cases_of_def)

lemma judge_step_kept:
  assumes "judge_step env cfg d d'" and "judge_inv env d" and "env_ok env"
  shows "judge_inv env d' \<and> published_kept d d'"
proof (cases "catalog_step d d'")
  case True
  with assms(2) show ?thesis
    using catalog_le_inv catalog_step_le by (auto simp: judge_inv_def catalog_le_def)
next
  case False
  with assms have good: "good_step env d d'"
    by (auto simp: judge_step_def judge_inv_def intro: pipeline_step_good)
  then have "keeps d d'" "db_inv env d'" by (simp_all add: good_step_def)
  with assms(2) show ?thesis
    by (auto simp: judge_inv_def catalog_ok_def keeps_published_kept db_inv_def) (simp add: keeps_def)
qed

interpretation judging: invariant_system catalog_initial "judge_step env cfg" "\<lambda>d. env_ok env \<longrightarrow> judge_inv env d"
  for env cfg
proof unfold_locales
  show "env_ok env \<longrightarrow> judge_inv env d" if "catalog_initial d" for d
    using that pipeline.inv_init [of d env]
    by (auto simp: catalog_initial_def judge_inv_def catalog_ok_def initial_def)
  show "env_ok env \<longrightarrow> judge_inv env d'" if "env_ok env \<longrightarrow> judge_inv env d" "judge_step env cfg d d'" for d d'
    using that judge_step_kept by blast
qed

lemma plan_kept:
  assumes "published_kept d d'" and "loadJudgePlan d v m = Inr plan"
  shows "loadJudgePlan d' v m = Inr plan"
proof -
  have "version_published d v"
    using assms(2)
    by (auto simp: loadJudgePlan_def version_published_find find_published_def split: option.splits)
  with assms(1) have "find_published d' v = find_published d v" and cases: "cases_of d' v = cases_of d v"
    by (auto simp: published_kept_def)
  moreover have "plan_cases x v m = sort_key tc_ordinal (filter (\<lambda>c. m = RUN \<longrightarrow> tc_visibility c = PUBLIC) (cases_of x v))" for x
    by (simp add: plan_cases_def cases_of_def conj_commute)
  then have "plan_cases d' v m = plan_cases d v m" using cases by simp
  ultimately show ?thesis
    using assms(2) by (auto simp: loadJudgePlan_def find_published_def split: option.splits if_splits)
qed

text \<open>
  C28. A submission is judged by the tests it was submitted against: whatever the pipeline and the
  administrators do meanwhile (further versions, publication, withdrawal, attempts to delete), the plan
  of a published version stays exactly the same, for runs and for submissions.
\<close>

theorem judge_plan_stable:
  assumes "env_ok env" and "reach catalog_initial (judge_step env cfg) d"
    and "(judge_step env cfg)\<^sup>*\<^sup>* d d'" and "loadJudgePlan d v m = Inr plan"
  shows "loadJudgePlan d' v m = Inr plan"
proof -
  have inv: "env_ok env \<longrightarrow> judge_inv env d" using assms(2) by (rule judging.reach_inv)
  have "published_kept d d'"
    using assms(3) inv
  proof (rule judging.steps_relation)
    show "published_kept a a" for a by (simp add: published_kept_def)
    show "published_kept a c" if "published_kept a b" "published_kept b c" for a b c
      using that by (auto simp: published_kept_def version_published_find)
    show "published_kept a b" if "env_ok env \<longrightarrow> judge_inv env a" "judge_step env cfg a b" for a b
      using that assms(1) judge_step_kept by blast
  qed
  then show ?thesis using assms(4) by (rule plan_kept)
qed

text \<open>Every execution has a plan, whatever becomes of its problem.\<close>

lemma execution_has_plan:
  assumes "env_ok env" and "reach catalog_initial (judge_step env cfg) d" and "find_execution d i = Some e"
    and "\<And>w. w \<in> set (db_versions d) \<Longrightarrow> vn_comparator w = ''EXACT_NEWLINE''"
  shows "\<exists>plan. loadJudgePlan d (ex_problemVersionId e) m = Inr plan"
proof -
  have "db_inv env d" using judging.reach_inv [OF assms(2)] assms(1) by (simp add: judge_inv_def)
  then have "version_published d (ex_problemVersionId e)"
    using find_execution_Some [OF assms(3)] by (auto simp: db_inv_def executions_inv_def row_ok_def)
  then obtain w where w: "find (\<lambda>v. vn_id v = ex_problemVersionId e \<and> vn_published v) (db_versions d) = Some w"
    by (auto simp: version_published_find find_published_def)
  then have "w \<in> set (db_versions d)" by (auto simp: find_Some_iff)
  with w assms(4) show ?thesis by (auto simp: loadJudgePlan_def)
qed

text \<open>
  The administration accepts problems that no submission can pass: a time limit above the ten seconds
  of the sandbox, or a memory limit that is not a whole number of MiB or below 32 MiB, is rejected when
  the request of the execution is built.
\<close>

lemma unjudgeable_limits:
  assumes "10000 < jp_timeMs plan \<or> jp_memoryKiB plan mod 1024 \<noteq> 0 \<or> jp_memoryKiB plan < 32768"
  shows "sandbox_request_of uuid_ok e plan selected = Inl ZodError"
proof -
  have "jp_memoryKiB plan < 32768 \<Longrightarrow> jp_memoryKiB plan mod 1024 = 0 \<Longrightarrow> jp_memoryKiB plan div 1024 < 32" by linarith
  with assms show ?thesis
    by (auto simp: sandbox_request_of_def Let_def sandboxRequestSchema_def CAPS_def)
qed

end
