(* ===== verification/Service.thy ===== *)
theory Service
  imports RowMoves CatalogSafety
begin

text \<open>
  The whole service as one transition system: the transactions of the API, of maintenance and of the dispatcher, the
  administration of problems, and workers that claim an execution, load its plan, have the runner execute it and store
  what the judge says of the observation. Every verdict stored in a reachable state is the judge's, on an
  observation the runner delivered for that execution, and on the plan of the version it was submitted against.
\<close>

section \<open>Workers\<close>

text \<open>
  A worker between its claim and its settlement: the lease, the row it claimed, and the plan once it is loaded. A worker
  that crashes stays in the list and takes no further step.
\<close>

record held =
  hl_lease :: lease
  hl_execution :: execution
  hl_plan :: "judge_plan option"

inductive service_step :: "env \<Rightarrow> config \<Rightarrow> manifest \<Rightarrow> db \<times> held list \<Rightarrow> db \<times> held list \<Rightarrow> bool" for env cfg mf where
  background: "routine_step env cfg d d' \<Longrightarrow> service_step env cfg mf (d, ws) (d', ws)"
| administered: "catalog_step d d' \<Longrightarrow> service_step env cfg mf (d, ws) (d', ws)"
| taken: "claim env ck token i d = Inr (Some (l, e), d') \<Longrightarrow>
    service_step env cfg mf (d, ws) (d', \<lparr>hl_lease = l, hl_execution = e, hl_plan = None\<rparr> # ws)"
| planned: "x \<in> set ws \<Longrightarrow> loadJudgePlan d (ex_problemVersionId (hl_execution x)) (ex_mode (hl_execution x)) = Inr plan \<Longrightarrow>
    service_step env cfg mf (d, ws) (d, x\<lparr>hl_plan := Some plan\<rparr> # ws)"
| settled: "x \<in> set ws \<Longrightarrow> hl_plan x = Some plan \<Longrightarrow>
    backend_execute env (\<lambda>_ _. Inr plan) (client_execute h mf (is_uuid env) aborted sz delivered) accept
      (hl_execution x) sv = ((Inr result, calls), sv') \<Longrightarrow>
    finish env ck (hl_lease x) result d = Inr (b, d') \<Longrightarrow> service_step env cfg mf (d, ws) (d', ws)"

definition service_initial :: "db \<times> held list \<Rightarrow> bool" where
  "service_initial s \<longleftrightarrow> catalog_initial (fst s) \<and> snd s = []"

lemma service_judge_step:
  assumes "service_step env cfg mf s t"
  shows "(judge_step env cfg)\<^sup>=\<^sup>= (fst s) (fst t)"
  using assms
  by (cases rule: service_step.cases)
    (auto simp: judge_step_def pipeline_step_cases intro: routine_claim)

section \<open>Justified verdicts\<close>

text \<open>An observation of the runner for this row, on the plan of its version, that the judge gives the stored verdict.\<close>

definition observed_under :: "manifest \<Rightarrow> (string \<Rightarrow> bool) \<Rightarrow> sandbox_request \<Rightarrow> observation \<Rightarrow> bool" where
  "observed_under mf uuid_ok req ob \<longleftrightarrow>
     (\<exists>h aborted sz delivered sv sv'. client_execute h mf uuid_ok aborted sz delivered req sv = (Inr ob, sv'))"

definition justified :: "env \<Rightarrow> manifest \<Rightarrow> db \<Rightarrow> execution \<Rightarrow> bool" where
  "justified env mf d r \<longleftrightarrow>
     (\<exists>plan selected req ob result.
        loadJudgePlan d (ex_problemVersionId r) (ex_mode r) = Inr plan \<and>
        selectCases (is_uuid env) plan (ex_mode r) = Inr selected \<and>
        sandbox_request_of (is_uuid env) r plan selected = Inr req \<and> observed_under mf (is_uuid env) req ob \<and>
        judge (is_uuid env) (strip_vt env) plan (ex_mode r) (ex_language r) (Some ob) = Inr result \<and>
        ex_verdict r = Some (jr_verdict result))"

lemma justified_kept: "published_kept d d' \<Longrightarrow> justified env mf d r \<Longrightarrow> justified env mf d' r"
  unfolding justified_def using plan_kept by blast

lemma backend_execute_Inr:
  assumes "backend_execute env (\<lambda>_ _. Inr plan) executor accept e s = ((Inr result, calls), t)"
  shows "jp_versionId plan = ex_problemVersionId e \<and>
    (\<exists>selected req ob. selectCases (is_uuid env) plan (ex_mode e) = Inr selected \<and>
       sandbox_request_of (is_uuid env) e plan selected = Inr req \<and> executor req s = (Inr ob, t) \<and>
       judge (is_uuid env) (strip_vt env) plan (ex_mode e) (ex_language e) (Some ob) = Inr result)"
  using assms by (auto simp: backend_execute_def split: if_splits sum.splits prod.splits)

lemma sandbox_request_cong:
  assumes "request_of r = request_of e" and "ex_attempt r = ex_attempt e"
  shows "sandbox_request_of uuid_ok r plan selected = sandbox_request_of uuid_ok e plan selected"
  using assms by (simp add: sandbox_request_of_def request_of_def)

section \<open>The invariant\<close>

definition held_ok :: "db \<Rightarrow> held \<Rightarrow> bool" where
  "held_ok d x \<longleftrightarrow>
     (\<exists>r. find_execution d (le_executionId (hl_lease x)) = Some r \<and> request_of r = request_of (hl_execution x)) \<and>
     ex_attempt (hl_execution x) = le_attempt (hl_lease x) \<and>
     opt_all (\<lambda>plan. loadJudgePlan d (ex_problemVersionId (hl_execution x)) (ex_mode (hl_execution x)) = Inr plan)
       (hl_plan x)"

definition service_inv :: "env \<Rightarrow> manifest \<Rightarrow> db \<times> held list \<Rightarrow> bool" where
  "service_inv env mf s \<longleftrightarrow>
     judge_inv env (fst s) \<and> list_all (held_ok (fst s)) (snd s) \<and>
     (\<forall>i r. find_execution (fst s) i = Some r \<longrightarrow> ex_state r = FINISHED \<longrightarrow> justified env mf (fst s) r)"

lemma held_kept:
  assumes "db_le d d'" and "published_kept d d'" and "held_ok d x"
  shows "held_ok d' x"
proof -
  from assms(3) obtain r where "find_execution d (le_executionId (hl_lease x)) = Some r" "request_of r = request_of (hl_execution x)"
    by (auto simp: held_ok_def)
  with assms(1) have "\<exists>r. find_execution d' (le_executionId (hl_lease x)) = Some r \<and> request_of r = request_of (hl_execution x)"
    unfolding db_le_def row_le_def by metis
  with assms(2,3) show ?thesis by (auto simp: held_ok_def opt_all_def intro: plan_kept split: option.splits)
qed

text \<open>A row that is finished was so before, or satisfies \<open>J\<close>.\<close>

definition finished_by :: "(execution \<Rightarrow> bool) \<Rightarrow> execution option \<Rightarrow> execution option \<Rightarrow> bool" where
  "finished_by J x y \<longleftrightarrow> (case y of None \<Rightarrow> True | Some r \<Rightarrow> ex_state r = FINISHED \<longrightarrow> x = Some r \<or> J r)"

interpretation finishing: row_protocol "finished_by J" for J
  by unfold_locales (auto simp: finished_by_def claim_row_def expire_update_def terminal_row_def split: option.splits)

lemma settled_finishes:
  assumes x: "held_ok d x" "hl_plan x = Some plan"
    and run: "backend_execute env (\<lambda>_ _. Inr plan) (client_execute h mf (is_uuid env) aborted sz delivered) accept
      (hl_execution x) sv = ((Inr result, calls), sv')"
  shows "moving (finished_by (justified env mf d)) d snd (finish env ck (hl_lease x) result d)"
proof (rule finishing.finish_moves)
  fix row n
  assume row: "locked d (le_executionId (hl_lease x)) = Some row" and "valid (ck_db ck) row (hl_lease x)"
  let ?r = "finish_row env ck result n row" and ?e = "hl_execution x"
  have same: "request_of ?r = request_of ?e" "ex_attempt ?r = ex_attempt ?e"
    using row x(1) \<open>valid _ _ _\<close> by (auto simp: held_ok_def locked_def valid_def finish_row_def)
  then have fields: "ex_problemVersionId ?r = ex_problemVersionId ?e" "ex_mode ?r = ex_mode ?e" "ex_language ?r = ex_language ?e"
    by (simp_all add: request_of_def)
  from backend_execute_Inr [OF run] obtain selected req ob where
    "selectCases (is_uuid env) plan (ex_mode ?e) = Inr selected" "sandbox_request_of (is_uuid env) ?e plan selected = Inr req"
    "observed_under mf (is_uuid env) req ob"
    "judge (is_uuid env) (strip_vt env) plan (ex_mode ?e) (ex_language ?e) (Some ob) = Inr result"
    unfolding observed_under_def by blast
  moreover have "loadJudgePlan d (ex_problemVersionId ?e) (ex_mode ?e) = Inr plan" "ex_verdict ?r = Some (jr_verdict result)"
    using x by (simp_all add: held_ok_def finish_row_def)
  ultimately have "justified env mf d ?r"
    unfolding justified_def fields sandbox_request_cong [OF same] by blast
  then show "finished_by (justified env mf d) (Some row) (Some ?r)" by (simp add: finished_by_def)
qed

lemma judge_step_le:
  assumes "judge_step env cfg d d'" and "judge_inv env d" and "env_ok env"
  shows "judge_inv env d' \<and> published_kept d d' \<and> db_le d d'"
proof -
  have "db_le d d'"
  proof (cases "catalog_step d d'")
    case True
    then have "catalog_le d d'" by (rule catalog_step_le)
    with assms(2) catalog_le_inv [of env d d'] show ?thesis by (simp add: judge_inv_def)
  next
    case False
    with assms show ?thesis using pipeline_step_good by (auto simp: judge_step_def judge_inv_def good_step_def)
  qed
  with judge_step_kept [OF assms] show ?thesis by blast
qed

text \<open>New finished rows are justified by the database they were stored in.\<close>

lemma step_finishes:
  assumes "service_step env cfg mf s t" and "service_inv env mf s"
  shows "moves (finished_by (justified env mf (fst s))) (fst s) (fst t)"
  using assms
proof (induction rule: service_step.induct)
  case (background d d' ws)
  then show ?case by (auto simp: service_inv_def judge_inv_def intro: finishing.routine_moves)
next
  case (administered d d' ws)
  then have "jobs_kept d d'" using catalog_step_le [of d d'] by (simp add: service_inv_def judge_inv_def catalog_le_def)
  then show ?case by (simp add: jobs_kept_def finishing.moves_same)
next
  case (taken ck token i d l e d' ws)
  then show ?case by (auto simp: service_inv_def judge_inv_def intro: finishing.claim_moves)
next
  case (planned x ws d plan)
  show ?case by (simp add: finishing.moves_same)
next
  case (settled x ws plan h aborted sz delivered accept sv result calls sv' ck d b d')
  from settled(1,5) have "held_ok d x" by (simp add: service_inv_def list_all_iff)
  from movingD [OF settled_finishes [OF this settled(2,3)] settled(4)] show ?case by simp
qed

lemma service_inv_step:
  assumes "service_step env cfg mf s t" and "service_inv env mf s" and "env_ok env"
  shows "service_inv env mf t"
proof -
  have inv: "judge_inv env (fst s)" "list_all (held_ok (fst s)) (snd s)" using assms(2) by (simp_all add: service_inv_def)
  from service_judge_step [OF assms(1)] judge_step_le [OF _ inv(1) assms(3)]
  have le: "judge_inv env (fst t)" "published_kept (fst s) (fst t)" "db_le (fst s) (fst t)"
    using inv(1) by (auto simp: published_kept_def)
  have kept: "held_ok (fst t) x" if "x \<in> set (snd s)" for x
    using held_kept [OF le(3,2)] inv(2) that by (simp add: list_all_iff)
  have "list_all (held_ok (fst t)) (snd t)"
    using assms(1)
  proof (cases rule: service_step.cases)
    case (taken ck token i d l e d' ws)
    with inv(1) have "db_inv env d" by (simp add: judge_inv_def)
    from claim_effect [OF this taken(3)] kept taken show ?thesis
      by (auto simp: list_all_iff held_ok_def claim_row_def)
  next
    case (planned x ws d plan)
    with kept show ?thesis by (auto simp: list_all_iff held_ok_def)
  qed (use kept in \<open>auto simp: list_all_iff\<close>)
  moreover have "justified env mf (fst t) r" if "find_execution (fst t) i = Some r" "ex_state r = FINISHED" for i r
  proof -
    from step_finishes [OF assms(1,2)] that have "find_execution (fst s) i = Some r \<or> justified env mf (fst s) r"
      by (auto simp: moves_def finished_by_def split: option.splits dest!: spec [of _ i])
    with assms(2) that(2) have "justified env mf (fst s) r" by (auto simp: service_inv_def)
    with le(2) show ?thesis by (rule justified_kept)
  qed
  ultimately show ?thesis using le(1) by (simp add: service_inv_def)
qed

interpretation service: invariant_system service_initial "service_step env cfg mf" "\<lambda>s. env_ok env \<longrightarrow> service_inv env mf s"
  for env cfg mf
proof unfold_locales
  show "env_ok env \<longrightarrow> service_inv env mf s" if "service_initial s" for s
    using that judging.inv_init [of "fst s" env]
    by (auto simp: service_initial_def service_inv_def catalog_initial_def initial_def find_execution_def table_simps)
  show "env_ok env \<longrightarrow> service_inv env mf t" if "env_ok env \<longrightarrow> service_inv env mf s" "service_step env cfg mf s t" for s t
    using that service_inv_step by blast
qed

section \<open>End to end\<close>


end
