(* ===== verification/Delivery.thy ===== *)
theory Delivery
  imports Realtime
begin

text \<open>
  Live delivery as it interleaves (\<open>apps/api/src/executions/realtime.ts\<close>). One socket of the server is a state machine whose
  steps are the stretches of code between two \<open>await\<close>s: the subscription command waits for the poll that runs, resolves
  the session, reads its replay and answers; a poll resolves the session and then, subscription by subscription, reads a replay and sends
  it; an unsubscription or the loss of the connection comes at any time, and the database moves on in between. The flag
  \<open>commandBusy\<close> and the promise \<open>client.polling\<close> are what keeps the two apart. The theory shows that they are enough: whatever the
  interleaving, the client is sent every event once and in order.
\<close>

section \<open>The state of a socket\<close>

text \<open>The command between its \<open>await\<close>s; \<open>Rejected\<close> is a command that awaited a poll that failed.\<close>

datatype socket_command =
    Waiting subscription
  | Rejected error
  | Resolving subscription
  | Answering subscription replay_result

text \<open>The poll of the client between its \<open>await\<close>s, with the keys of the cursors it has visited.\<close>

datatype poll =
    Opening
  | Visiting "uuid list"
  | Sending "uuid list" uuid cursor replay_result

text \<open>What the socket carries, in order; \<open>Unsubscribed\<close> is the message of the client.\<close>

datatype delivery =
    AckReplay subscription replay_result
  | AckError string
  | Emitted uuid emission
  | Unsubscribed uuid

record channel =
  ch_client :: client
  ch_connected :: bool
  ch_command :: "socket_command option"
  ch_poll :: "poll option"
  ch_log :: "delivery list"

definition new_channel :: "clock \<Rightarrow> uuid \<Rightarrow> channel" where
  "new_channel ck userId =
     \<lparr>ch_client = new_client ck userId, ch_connected = True, ch_command = None, ch_poll = None, ch_log = []\<rparr>"

definition log_delivery :: "delivery list \<Rightarrow> channel \<Rightarrow> channel" where
  "log_delivery xs ch = ch\<lparr>ch_log := ch_log ch @ xs\<rparr>"

definition set_subscriptions :: "(uuid \<times> cursor) list \<Rightarrow> channel \<Rightarrow> channel" where
  "set_subscriptions subs ch = ch\<lparr>ch_client := (ch_client ch)\<lparr>cl_subscriptions := subs\<rparr>\<rparr>"

abbreviation subscriptions :: "channel \<Rightarrow> (uuid \<times> cursor) list" where
  "subscriptions ch \<equiv> cl_subscriptions (ch_client ch)"

definition disconnect :: "channel \<Rightarrow> channel" where
  "disconnect ch = ch\<lparr>ch_connected := False\<rparr>"

text \<open>The handshake: the origin of the application only, and at most five hundred connections.\<close>

definition allow_request :: "string \<Rightarrow> string option \<Rightarrow> nat \<Rightarrow> bool" where
  "allow_request publicOrigin origin clientsCount \<longleftrightarrow> origin = Some publicOrigin \<and> clientsCount < 500"

text \<open>The interval starts a poll of all clients unless one is running.\<close>

definition poll_timer :: "bool \<Rightarrow> bool" where
  "poll_timer polling \<longleftrightarrow> \<not> polling"

section \<open>The command\<close>

text \<open>The \<open>finally\<close> of the command.\<close>

definition command_end :: "channel \<Rightarrow> channel" where
  "command_end ch = ch\<lparr>ch_command := None, ch_client := (ch_client ch)\<lparr>cl_commandBusy := False\<rparr>\<rparr>"

definition command_begin :: "env \<Rightarrow> clock \<Rightarrow> bool \<Rightarrow> json \<Rightarrow> channel \<Rightarrow> channel" where
  "command_begin env ck ack input ch0 =
     (if \<not> ch_connected ch0 then ch0
      else if \<not> ack then disconnect ch0
      else let ch = ch0\<lparr>ch_client := count_request ck (ch_client ch0)\<rparr>
           in if 60 < cl_requests (ch_client ch) \<or> cl_commandBusy (ch_client ch)
              then log_delivery [AckError ''SOCKET_RATE_LIMIT''] ch
              else case executionSubscriptionSchema (is_uuid env) input of
                None \<Rightarrow> log_delivery [AckError ''INVALID_REQUEST''] ch
              | Some sub \<Rightarrow>
                  if su_executionId sub \<notin> fst ` set (subscriptions ch) \<and> 5 \<le> length (subscriptions ch)
                  then log_delivery [AckError ''SUBSCRIPTION_LIMIT''] ch
                  else ch\<lparr>ch_command := Some (Waiting sub), ch_client := (ch_client ch)\<lparr>cl_commandBusy := True\<rparr>\<rparr>)"

definition command_resume :: "channel \<Rightarrow> channel" where
  "command_resume ch =
     (case ch_command ch of
        Some (Waiting sub) \<Rightarrow>
          if ch_poll ch \<noteq> None then ch
          else if \<not> ch_connected ch then command_end ch
          else ch\<lparr>ch_command := Some (Resolving sub)\<rparr>
      | Some (Rejected e) \<Rightarrow> command_end (log_delivery [AckError (command_error e)] ch)
      | _ \<Rightarrow> ch)"

definition command_resolved :: "env \<Rightarrow> clock \<Rightarrow> uuid option result \<Rightarrow> db \<Rightarrow> channel \<Rightarrow> channel" where
  "command_resolved env ck princ d ch =
     (case ch_command ch of
        Some (Resolving sub) \<Rightarrow>
          (case princ of
             Inl e \<Rightarrow> command_end (log_delivery [AckError (command_error e)] ch)
           | Inr user \<Rightarrow>
               if user \<noteq> Some (cl_userId (ch_client ch)) then command_end (disconnect ch)
               else (case replay env ck (cl_userId (ch_client ch)) (su_executionId sub) (su_attempt sub) (su_afterSequence sub) d of
                       Inl e \<Rightarrow> command_end (log_delivery [AckError (command_error e)] ch)
                     | Inr r \<Rightarrow> ch\<lparr>ch_command := Some (Answering sub r)\<rparr>))
      | _ \<Rightarrow> ch)"

definition acked_cursor :: "subscription \<Rightarrow> replay_result \<Rightarrow> cursor" where
  "acked_cursor sub r =
     \<lparr>cu_executionId = su_executionId sub, cu_attempt = sn_attempt (ry_snapshot r), cu_afterSequence = sn_lastSequence (ry_snapshot r)\<rparr>"

definition command_answer :: "channel \<Rightarrow> channel" where
  "command_answer ch =
     (case ch_command ch of
        Some (Answering sub r) \<Rightarrow>
          if \<not> ch_connected ch then command_end ch
          else command_end (log_delivery [AckReplay sub r]
                 (set_subscriptions (set_subscription (su_executionId sub) (acked_cursor sub r) (subscriptions ch)) ch))
      | _ \<Rightarrow> ch)"

definition unsubscribe :: "uuid \<Rightarrow> channel \<Rightarrow> channel" where
  "unsubscribe i ch =
     (if \<not> ch_connected ch then ch
      else log_delivery [Unsubscribed i] (ch\<lparr>ch_client := unsubscribe_execution i (ch_client ch)\<rparr>))"

section \<open>The poll\<close>

text \<open>A client is polled while it is registered, that is until its socket has disconnected.\<close>

definition poll_start :: "channel \<Rightarrow> channel" where
  "poll_start ch =
     (if \<not> ch_connected ch \<or> cl_commandBusy (ch_client ch) \<or> ch_poll ch \<noteq> None then ch else ch\<lparr>ch_poll := Some Opening\<rparr>)"

text \<open>The poll throws: the socket is disconnected, and a command that waits for this promise throws too.\<close>

definition poll_failed :: "error \<Rightarrow> channel \<Rightarrow> channel" where
  "poll_failed e ch =
     disconnect (ch\<lparr>ch_poll := None,
       ch_command := (case ch_command ch of Some (Waiting sub) \<Rightarrow> Some (Rejected e) | c \<Rightarrow> c)\<rparr>)"

definition poll_opened :: "uuid option result \<Rightarrow> channel \<Rightarrow> channel" where
  "poll_opened princ ch =
     (case ch_poll ch of
        Some Opening \<Rightarrow>
          (case princ of
             Inl e \<Rightarrow> poll_failed e ch
           | Inr user \<Rightarrow>
               if user \<noteq> Some (cl_userId (ch_client ch)) then disconnect (ch\<lparr>ch_poll := None\<rparr>)
               else ch\<lparr>ch_poll := Some (Visiting [])\<rparr>)
      | _ \<Rightarrow> ch)"

text \<open>The iterator of the map is live: it yields the first entry of the current map that it has not yielded.\<close>

definition poll_visit :: "env \<Rightarrow> clock \<Rightarrow> db \<Rightarrow> channel \<Rightarrow> channel" where
  "poll_visit env ck d ch =
     (case ch_poll ch of
        Some (Visiting seen) \<Rightarrow>
          (case find (\<lambda>(k, cu). k \<notin> set seen) (subscriptions ch) of
             None \<Rightarrow> ch\<lparr>ch_poll := None\<rparr>
           | Some (k, cu) \<Rightarrow>
               (case replay env ck (cl_userId (ch_client ch)) (cu_executionId cu) (cu_attempt cu) (cu_afterSequence cu) d of
                  Inl e \<Rightarrow> poll_failed e ch
                | Inr r \<Rightarrow> ch\<lparr>ch_poll := Some (Sending seen k cu r)\<rparr>))
      | _ \<Rightarrow> ch)"

definition emissions :: "replay_result \<Rightarrow> emission list" where
  "emissions r = (if ry_replayAvailable r then map ExecutionEvent (ry_events r) else [ExecutionSync (ry_snapshot r)])"

definition moved_cursor :: "replay_result \<Rightarrow> cursor \<Rightarrow> cursor" where
  "moved_cursor r cu = cu\<lparr>cu_attempt := sn_attempt (ry_snapshot r), cu_afterSequence := sn_lastSequence (ry_snapshot r)\<rparr>"

text \<open>The cursor is updated in place, also when it has left the map in the meantime.\<close>

definition poll_send :: "bool \<Rightarrow> channel \<Rightarrow> channel" where
  "poll_send writable ch =
     (case ch_poll ch of
        Some (Sending seen k cu r) \<Rightarrow>
          if \<not> ch_connected ch then ch\<lparr>ch_poll := None\<rparr>
          else if \<not> writable then disconnect (ch\<lparr>ch_poll := None\<rparr>)
          else log_delivery (map (Emitted k) (emissions r))
                 (set_subscriptions (map (\<lambda>(k', c). (k', if k' = k then moved_cursor r c else c)) (subscriptions ch))
                    (ch\<lparr>ch_poll := Some (Visiting (k # seen))\<rparr>))
      | _ \<Rightarrow> ch)"

section \<open>Interleavings\<close>

datatype channel_event =
    Begin clock bool json
  | Resume
  | Resolved clock "uuid option result"
  | Answer
  | Unsubscribe uuid
  | PollStart
  | PollOpened "uuid option result"
  | PollVisit clock
  | PollSend bool
  | Disconnect

fun channel_step :: "env \<Rightarrow> db \<Rightarrow> channel_event \<Rightarrow> channel \<Rightarrow> channel" where
  "channel_step env d (Begin ck ack input) = command_begin env ck ack input"
| "channel_step env d Resume = command_resume"
| "channel_step env d (Resolved ck princ) = command_resolved env ck princ d"
| "channel_step env d Answer = command_answer"
| "channel_step env d (Unsubscribe i) = unsubscribe i"
| "channel_step env d PollStart = poll_start"
| "channel_step env d (PollOpened princ) = poll_opened princ"
| "channel_step env d (PollVisit ck) = poll_visit env ck d"
| "channel_step env d (PollSend writable) = poll_send writable"
| "channel_step env d Disconnect = disconnect"

inductive live_step :: "env \<Rightarrow> config \<Rightarrow> db \<times> channel \<Rightarrow> db \<times> channel \<Rightarrow> bool" for env cfg where
  moves_on: "pipeline_step env cfg d d' \<Longrightarrow> live_step env cfg (d, ch) (d', ch)"
| happens: "live_step env cfg (d, ch) (d, channel_step env d ev ch)"

definition live_initial :: "db \<times> channel \<Rightarrow> bool" where
  "live_initial s \<longleftrightarrow> initial (fst s) \<and> (\<exists>ck userId. snd s = new_channel ck userId)"

section \<open>Agreement with the atomic operations\<close>

text \<open>
  A command during which nothing else happens does what \<open>subscribe_execution\<close> does, and a poll during which nothing else
  happens what \<open>poll_client\<close> does.
\<close>

definition reply_log :: "json \<Rightarrow> env \<Rightarrow> reply \<Rightarrow> delivery list" where
  "reply_log input env rep =
     (case rep of
        Refused c \<Rightarrow> [AckError c]
      | Replayed r \<Rightarrow> (case executionSubscriptionSchema (is_uuid env) input of None \<Rightarrow> [] | Some sub \<Rightarrow> [AckReplay sub r])
      | _ \<Rightarrow> [])"

definition at_rest :: "client \<Rightarrow> delivery list \<Rightarrow> bool \<Rightarrow> channel" where
  "at_rest c log connected = \<lparr>ch_client = c, ch_connected = connected, ch_command = None, ch_poll = None, ch_log = log\<rparr>"

lemmas command_defs = command_resume_def command_resolved_def command_answer_def command_end_def
  log_delivery_def disconnect_def set_subscriptions_def acked_cursor_def

lemma at_rest_stays:
  "command_resume (at_rest c log b) = at_rest c log b" "command_resolved env ck princ d (at_rest c log b) = at_rest c log b"
  "command_answer (at_rest c log b) = at_rest c log b"
  by (simp_all add: command_resume_def command_resolved_def command_answer_def at_rest_def)

lemma uninterrupted_command:
  assumes "\<not> cl_commandBusy c" and "subscribe_execution env ck princ True True input d c = (rep, c')"
  shows "command_answer (command_resolved env ck princ d (command_resume (command_begin env ck True input (at_rest c log True)))) =
     at_rest c' (log @ reply_log input env rep) (rep \<noteq> Disconnected)"
proof -
  obtain c1 where c1: "count_request ck c = c1" by blast
  have idle: "\<not> cl_commandBusy c1" using assms(1) by (simp add: c1 [symmetric] count_request_def Let_def)
  then have same: "c1\<lparr>cl_commandBusy := False\<rparr> = c1" by (cases c1) simp
  note run = assms(2) [unfolded subscribe_execution_def Let_def, unfolded c1]
  have begun: "command_begin env ck True input (at_rest c log True) =
      (if 60 < cl_requests c1 then at_rest c1 (log @ [AckError ''SOCKET_RATE_LIMIT'']) True
       else case executionSubscriptionSchema (is_uuid env) input of
         None \<Rightarrow> at_rest c1 (log @ [AckError ''INVALID_REQUEST'']) True
       | Some sub \<Rightarrow>
           if su_executionId sub \<notin> fst ` set (cl_subscriptions c1) \<and> 5 \<le> length (cl_subscriptions c1)
           then at_rest c1 (log @ [AckError ''SUBSCRIPTION_LIMIT'']) True
           else (at_rest (c1\<lparr>cl_commandBusy := True\<rparr>) log True)\<lparr>ch_command := Some (Waiting sub)\<rparr>)"
    unfolding command_begin_def Let_def using idle c1
    by (simp add: at_rest_def log_delivery_def split: option.splits)
  show ?thesis
  proof (cases "60 < cl_requests c1 \<or> executionSubscriptionSchema (is_uuid env) input = None")
    case True
    with run idle show ?thesis unfolding begun by (auto simp: at_rest_stays reply_log_def)
  next
    case False
    then obtain sub where sub: "executionSubscriptionSchema (is_uuid env) input = Some sub" "\<not> 60 < cl_requests c1" by blast
    show ?thesis
    proof (cases "su_executionId sub \<notin> fst ` set (cl_subscriptions c1) \<and> 5 \<le> length (cl_subscriptions c1)")
      case True
      with run sub idle show ?thesis unfolding begun by (simp add: at_rest_stays reply_log_def) auto
    next
      case room: False
      let ?ch = "(at_rest (c1\<lparr>cl_commandBusy := True\<rparr>) log True)\<lparr>ch_command := Some (Waiting sub)\<rparr>"
      have "command_begin env ck True input (at_rest c log True) = ?ch" unfolding begun using sub room by (simp only: option.case if_False)
      moreover have "command_resume ?ch = ?ch\<lparr>ch_command := Some (Resolving sub)\<rparr>"
        by (simp add: command_resume_def at_rest_def)
      ultimately show ?thesis
        using run sub idle room same
        by (auto simp: command_resolved_def command_answer_def command_end_def log_delivery_def disconnect_def
            set_subscriptions_def acked_cursor_def at_rest_def reply_log_def split: if_splits sum.splits)
    qed
  qed
qed

section \<open>What the client sees\<close>

text \<open>
  The client's own account of one execution: the attempt and the sequence number it is at, from the messages alone. It is
  nowhere before a subscription is acknowledged and after it has unsubscribed.
\<close>

type_synonym position = "(int \<times> int) option"

fun advance :: "uuid \<Rightarrow> delivery \<Rightarrow> position \<Rightarrow> position" where
  "advance k (AckReplay sub r) pos =
     (if su_executionId sub = k then Some (sn_attempt (ry_snapshot r), sn_lastSequence (ry_snapshot r)) else pos)"
| "advance k (AckError c) pos = pos"
| "advance k (Emitted i (ExecutionSync s)) pos =
     (if i = k \<and> pos \<noteq> None then Some (sn_attempt s, sn_lastSequence s) else pos)"
| "advance k (Emitted i (ExecutionEvent p)) pos =
     (if i = k \<and> pos \<noteq> None then Some (pe_attempt p, pe_sequence p) else pos)"
| "advance k (Unsubscribed i) pos = (if i = k then None else pos)"

definition exact_replay :: "uuid \<Rightarrow> int \<Rightarrow> int \<Rightarrow> replay_result \<Rightarrow> bool" where
  "exact_replay i a n r \<longleftrightarrow>
     sn_executionId (ry_snapshot r) = i \<and>
     (if ry_replayAvailable r
      then sn_attempt (ry_snapshot r) = a \<and> n \<le> sn_lastSequence (ry_snapshot r) \<and>
           map pe_sequence (ry_events r) = [n + 1 .. sn_lastSequence (ry_snapshot r)] \<and>
           list_all (\<lambda>p. pe_executionId p = i \<and> pe_attempt p = a) (ry_events r)
      else ry_events r = [])"

text \<open>A message is the one that has to come next: a live event is the successor of the client's position.\<close>

fun expected :: "uuid \<Rightarrow> delivery \<Rightarrow> position \<Rightarrow> bool" where
  "expected k (AckReplay sub r) pos \<longleftrightarrow>
     (su_executionId sub = k \<longrightarrow> exact_replay k (su_attempt sub) (su_afterSequence sub) r)"
| "expected k (Emitted i (ExecutionEvent p)) pos \<longleftrightarrow>
     (i = k \<longrightarrow> pe_executionId p = k \<and>
        (case pos of None \<Rightarrow> True | Some (a, n) \<Rightarrow> pe_attempt p = a \<and> pe_sequence p = n + 1))"
| "expected k (Emitted i (ExecutionSync s)) pos \<longleftrightarrow> (i = k \<longrightarrow> sn_executionId s = k)"
| "expected k x pos \<longleftrightarrow> True"

fun in_order :: "uuid \<Rightarrow> position \<Rightarrow> delivery list \<Rightarrow> bool" where
  "in_order k pos [] \<longleftrightarrow> True"
| "in_order k pos (x # xs) \<longleftrightarrow> expected k x pos \<and> in_order k (advance k x pos) xs"

definition position_of :: "uuid \<Rightarrow> delivery list \<Rightarrow> position" where
  "position_of k xs = fold (advance k) xs None"

lemma in_order_append: "in_order k pos (xs @ ys) \<longleftrightarrow> in_order k pos xs \<and> in_order k (fold (advance k) xs pos) ys"
  by (induction xs arbitrary: pos) auto

lemma order_log:
  "in_order k None (xs @ ys) \<longleftrightarrow> in_order k None xs \<and> in_order k (position_of k xs) ys"
  "position_of k (xs @ ys) = fold (advance k) ys (position_of k xs)"
  by (simp_all add: in_order_append position_of_def)

lemma replay_exactness:
  assumes "db_inv env d" and "replay env ck userId i attempt after d = Inr r"
  shows "exact_replay i attempt after r"
  using replay_result_facts [OF assms] by (auto simp: exact_replay_def)

text \<open>A run of live events takes a client that is at its start to its end.\<close>

lemma live_events:
  assumes "map pe_sequence ps = [n + 1 .. m]" and "n \<le> m" and "list_all (\<lambda>p. pe_executionId p = k \<and> pe_attempt p = a) ps"
    and "pos = None \<or> pos = Some (a, n)"
  shows "in_order k pos (map (Emitted k) (map ExecutionEvent ps)) \<and>
     fold (advance k) (map (Emitted k) (map ExecutionEvent ps)) pos = (if pos = None then None else Some (a, m))"
  using assms
proof (induction ps arbitrary: n pos)
  case (Cons p ps)
  then have lt: "n < m" by (cases "n < m") auto
  then have "[n + 1 .. m] = (n + 1) # [n + 1 + 1 .. m]" by (simp add: upto_rec1)
  with Cons.prems(1) have p: "pe_sequence p = n + 1" "map pe_sequence ps = [n + 1 + 1 .. m]" by simp_all
  have "advance k (Emitted k (ExecutionEvent p)) pos = None \<or> advance k (Emitted k (ExecutionEvent p)) pos = Some (a, n + 1)"
    using Cons.prems(3,4) p(1) by auto
  from Cons.IH [OF p(2) _ _ this] lt Cons.prems(3,4) p(1) show ?case by auto
qed (auto simp: le_less)

lemma emissions_order:
  assumes "exact_replay k a n r" and "pos = None \<or> pos = Some (a, n)"
  shows "in_order k pos (map (Emitted k) (emissions r))"
    and "fold (advance k) (map (Emitted k) (emissions r)) pos =
      (if pos = None then None else Some (sn_attempt (ry_snapshot r), sn_lastSequence (ry_snapshot r)))"
  using assms live_events [of "ry_events r" n "sn_lastSequence (ry_snapshot r)" k a pos]
  by (auto simp: emissions_def exact_replay_def split: if_splits)

lemma other_emissions:
  "k \<noteq> i \<Longrightarrow> in_order k pos (map (Emitted i) es) \<and> fold (advance k) (map (Emitted i) es) pos = pos"
proof (induction es)
  case (Cons e es)
  then show ?case by (cases e) auto
qed simp

section \<open>The server follows the client\<close>

text \<open>The cursors are exactly the positions of the client, and the messages so far came in order.\<close>

definition cursor_position :: "cursor \<Rightarrow> int \<times> int" where
  "cursor_position cu = (cu_attempt cu, cu_afterSequence cu)"

definition tracked :: "(uuid \<times> cursor) list \<Rightarrow> delivery list \<Rightarrow> bool" where
  "tracked subs log \<longleftrightarrow>
     distinct (map fst subs) \<and> list_all (\<lambda>(k, cu). cu_executionId cu = k) subs \<and>
     (\<forall>k. in_order k None log \<and> position_of k log = map_option cursor_position (map_of subs k))"

lemma map_of_replaced:
  "map_of (map (\<lambda>(k', c'). if k' = k then (k, c) else (k', c')) subs) x =
     (if x = k \<and> k \<in> fst ` set subs then Some c else map_of subs x)"
proof (cases "x = k")
  case True
  show ?thesis unfolding True by (induction subs) auto
next
  case False
  then show ?thesis by (induction subs) auto
qed

lemma keys_replaced: "map fst (map (\<lambda>(k', c'). if k' = k then (k, c) else (k', c')) subs) = map fst subs"
  by (induction subs) auto

lemma set_subscription_facts:
  "map_of (set_subscription k c subs) = (map_of subs)(k \<mapsto> c)"
  "distinct (map fst subs) \<Longrightarrow> distinct (map fst (set_subscription k c subs))"
  "list_all P subs \<Longrightarrow> P (k, c) \<Longrightarrow> list_all P (set_subscription k c subs)"
proof -
  have "map_of subs k = None" if "k \<notin> fst ` set subs" using that by (simp add: map_of_eq_None_iff)
  then show "map_of (set_subscription k c subs) = (map_of subs)(k \<mapsto> c)"
    unfolding set_subscription_def
    by (intro ext) (auto simp only: map_of_replaced map_of_append map_add_def map_of.simps fst_conv snd_conv fun_upd_apply if_True if_False
        option.case split: if_splits option.splits)
  show "distinct (map fst (set_subscription k c subs))" if "distinct (map fst subs)"
    using that by (simp add: set_subscription_def keys_replaced del: map_map)
  show "list_all P (set_subscription k c subs)" if "list_all P subs" "P (k, c)"
    using that by (auto simp: set_subscription_def list_all_iff)
qed

lemma map_of_unsubscribed: "map_of (filter (\<lambda>(k, _). k \<noteq> i) subs) = (map_of subs)(i := None)"
  by (induction subs) auto

lemma map_of_moved: "map_of (map (\<lambda>(k', c). (k', if k' = k then f c else c)) subs) k2 =
    (if k2 = k then map_option f (map_of subs k) else map_of subs k2)"
  by (induction subs) auto

lemma tracked_error: "tracked subs (log @ [AckError c]) \<longleftrightarrow> tracked subs log"
  by (simp add: tracked_def order_log)

lemma tracked_ack:
  assumes "tracked subs log" and "exact_replay (su_executionId sub) (su_attempt sub) (su_afterSequence sub) r"
  shows "tracked (set_subscription (su_executionId sub) (acked_cursor sub r) subs) (log @ [AckReplay sub r])"
  using assms
  by (auto simp: tracked_def order_log set_subscription_facts cursor_position_def acked_cursor_def)

lemma tracked_unsubscribed:
  assumes "tracked subs log"
  shows "tracked (filter (\<lambda>(k, _). k \<noteq> i) subs) (log @ [Unsubscribed i])"
  using assms by (auto simp: tracked_def order_log map_of_unsubscribed distinct_map_filter list_all_iff)

lemma tracked_sent:
  assumes "tracked subs log" and exact: "exact_replay k (cu_attempt cu) (cu_afterSequence cu) r"
    and cu: "map_of subs k = None \<or> map_of subs k = Some cu"
  shows "tracked (map (\<lambda>(k', c). (k', if k' = k then moved_cursor r c else c)) subs) (log @ map (Emitted k) (emissions r))"
proof -
  let ?subs = "map (\<lambda>(k', c). (k', if k' = k then moved_cursor r c else c)) subs"
  have keys: "map fst ?subs = map fst subs" by (induction subs) auto
  have "distinct (map fst ?subs)" unfolding keys using assms(1) by (simp add: tracked_def)
  moreover have "list_all (\<lambda>(k, cu). cu_executionId cu = k) ?subs"
    using assms(1) by (auto simp: tracked_def list_all_iff moved_cursor_def)
  moreover have "in_order k2 None (log @ map (Emitted k) (emissions r)) \<and>
      position_of k2 (log @ map (Emitted k) (emissions r)) = map_option cursor_position (map_of ?subs k2)" for k2
  proof (cases "k2 = k")
    case True
    have "position_of k log = None \<or> position_of k log = Some (cu_attempt cu, cu_afterSequence cu)"
      using assms(1) cu by (auto simp: tracked_def cursor_position_def)
    from emissions_order [OF exact this] assms(1) cu True show ?thesis
      by (auto simp: tracked_def order_log map_of_moved cursor_position_def moved_cursor_def)
  next
    case False
    with assms(1) other_emissions [OF False] show ?thesis by (simp add: tracked_def order_log map_of_moved)
  qed
  ultimately show ?thesis by (simp add: tracked_def)
qed

section \<open>The invariant\<close>

definition room :: "(uuid \<times> cursor) list \<Rightarrow> subscription \<Rightarrow> bool" where
  "room subs sub \<longleftrightarrow> su_executionId sub \<in> fst ` set subs \<or> length subs < 5"

fun command_ok :: "(uuid \<times> cursor) list \<Rightarrow> bool \<Rightarrow> socket_command option \<Rightarrow> bool" where
  "command_ok subs polling (Some (Waiting sub)) \<longleftrightarrow> room subs sub"
| "command_ok subs polling (Some (Resolving sub)) \<longleftrightarrow> room subs sub \<and> \<not> polling"
| "command_ok subs polling (Some (Answering sub r)) \<longleftrightarrow>
     room subs sub \<and> \<not> polling \<and> exact_replay (su_executionId sub) (su_attempt sub) (su_afterSequence sub) r"
| "command_ok subs polling c \<longleftrightarrow> True"

fun poll_ok :: "(uuid \<times> cursor) list \<Rightarrow> poll option \<Rightarrow> bool" where
  "poll_ok subs (Some (Sending seen k cu r)) \<longleftrightarrow>
     exact_replay k (cu_attempt cu) (cu_afterSequence cu) r \<and> (map_of subs k = None \<or> map_of subs k = Some cu)"
| "poll_ok subs p \<longleftrightarrow> True"

definition channel_inv :: "channel \<Rightarrow> bool" where
  "channel_inv ch \<longleftrightarrow>
     tracked (subscriptions ch) (ch_log ch) \<and> length (subscriptions ch) \<le> 5 \<and>
     (cl_commandBusy (ch_client ch) \<longleftrightarrow> ch_command ch \<noteq> None) \<and>
     command_ok (subscriptions ch) (ch_poll ch \<noteq> None) (ch_command ch) \<and> poll_ok (subscriptions ch) (ch_poll ch)"

lemma room_unsubscribed: "room subs sub \<Longrightarrow> length subs \<le> 5 \<Longrightarrow> room (filter (\<lambda>(k, _). k \<noteq> i) subs) sub"
proof -
  have "length (filter (\<lambda>(k, _). k \<noteq> i) subs) < length subs" if "i \<in> fst ` set subs"
    using that by (auto intro: length_filter_less)
  moreover have "length (filter (\<lambda>(k, _). k \<noteq> i) subs) \<le> length subs" by (rule length_filter_le)
  ultimately show "room subs sub \<Longrightarrow> length subs \<le> 5 \<Longrightarrow> room (filter (\<lambda>(k, _). k \<noteq> i) subs) sub"
    unfolding room_def by (cases "su_executionId sub = i") (force simp: image_iff)+
qed

lemma set_subscription_length: "room subs sub \<Longrightarrow> length subs \<le> 5 \<Longrightarrow> length (set_subscription (su_executionId sub) c subs) \<le> 5"
  by (auto simp: room_def set_subscription_def)

lemma command_ok_idle: "command_ok subs p c \<Longrightarrow> command_ok subs False c"
  by (induction subs p c rule: command_ok.induct) simp_all

lemma command_ok_moved:
  "command_ok subs p c \<Longrightarrow> command_ok (map (\<lambda>(k', c). (k', if k' = k then f c else c)) subs) p c"
proof -
  have "fst ` set (map (\<lambda>(k', c). (k', if k' = k then f c else c)) subs) = fst ` set subs" by force
  then show "command_ok subs p c \<Longrightarrow> ?thesis"
    by (induction subs p c rule: command_ok.induct) (simp_all add: room_def)
qed

lemma command_inv:
  assumes "channel_inv ch"
  shows "channel_inv (command_begin env ck ack input ch)" and "channel_inv (command_resume ch)"
    and "db_inv env d \<Longrightarrow> channel_inv (command_resolved env ck princ d ch)" and "channel_inv (command_answer ch)"
proof -
  have same: "cl_subscriptions (count_request ck c) = cl_subscriptions c" "cl_commandBusy (count_request ck c) = cl_commandBusy c" for c
    by (simp_all add: count_request_def Let_def)
  show "channel_inv (command_begin env ck ack input ch)"
    using assms
    by (auto simp: channel_inv_def command_begin_def Let_def same disconnect_def log_delivery_def tracked_error room_def
        split: option.splits)
  show "channel_inv (command_resume ch)"
    using assms by (auto simp: channel_inv_def command_resume_def command_end_def log_delivery_def tracked_error
        split: option.splits socket_command.splits)
  show "channel_inv (command_resolved env ck princ d ch)" if "db_inv env d"
    using assms replay_exactness [OF that]
    by (auto simp: channel_inv_def command_resolved_def command_end_def log_delivery_def disconnect_def tracked_error
        split: option.splits socket_command.splits sum.splits)
  show "channel_inv (command_answer ch)"
    using assms
    by (auto simp: channel_inv_def command_answer_def command_end_def log_delivery_def set_subscriptions_def tracked_ack
        set_subscription_length split: option.splits socket_command.splits)
qed

lemma unsubscribe_inv:
  assumes "channel_inv ch"
  shows "channel_inv (unsubscribe i ch)"
proof -
  let ?subs = "filter (\<lambda>(k, _). k \<noteq> i) (subscriptions ch)"
  have "length ?subs \<le> 5" using assms by (auto simp: channel_inv_def intro: le_trans [OF length_filter_le])
  moreover have "command_ok ?subs p (ch_command ch)" if "command_ok (subscriptions ch) p (ch_command ch)" for p
    using that assms room_unsubscribed by (cases "(subscriptions ch, p, ch_command ch)" rule: command_ok.cases) (auto simp: channel_inv_def)
  moreover have "poll_ok ?subs (ch_poll ch)"
    using assms by (cases "(subscriptions ch, ch_poll ch)" rule: poll_ok.cases) (auto simp: channel_inv_def map_of_unsubscribed)
  ultimately show ?thesis
    using assms tracked_unsubscribed
    by (auto simp: channel_inv_def unsubscribe_def unsubscribe_execution_def log_delivery_def)
qed

lemma poll_inv:
  assumes "channel_inv ch"
  shows "channel_inv (poll_start ch)" and "channel_inv (poll_opened princ ch)"
    and "db_inv env d \<Longrightarrow> channel_inv (poll_visit env ck d ch)" and "channel_inv (poll_send writable ch)"
proof -
  have failed: "channel_inv (poll_failed e ch)" for e
    using assms by (auto simp: channel_inv_def poll_failed_def disconnect_def split: option.splits socket_command.splits)
  have ended: "channel_inv (ch\<lparr>ch_poll := None\<rparr>)" "channel_inv (disconnect (ch\<lparr>ch_poll := None\<rparr>))"
    using assms by (auto simp: channel_inv_def disconnect_def command_ok_idle)
  show "channel_inv (poll_start ch)" using assms by (simp add: channel_inv_def poll_start_def)
  show "channel_inv (poll_opened princ ch)"
    using assms failed ended by (auto simp: channel_inv_def poll_opened_def split: option.splits poll.splits sum.splits)
  show "channel_inv (poll_visit env ck d ch)" if "db_inv env d"
  proof -
    have "find (\<lambda>(k, cu). k \<notin> set seen) (subscriptions ch) = Some (k, cu) \<Longrightarrow>
        map_of (subscriptions ch) k = Some cu \<and> cu_executionId cu = k" for seen k cu
    proof -
      assume "find (\<lambda>(k, cu). k \<notin> set seen) (subscriptions ch) = Some (k, cu)"
      then have "(k, cu) \<in> set (subscriptions ch)" by (auto simp: find_Some_iff in_set_conv_nth)
      moreover have "distinct (map fst (subscriptions ch))" "list_all (\<lambda>(k, cu). cu_executionId cu = k) (subscriptions ch)"
        using assms by (simp_all add: channel_inv_def tracked_def)
      ultimately show ?thesis by (auto simp: list_all_iff)
    qed
    then show ?thesis
      using assms failed ended replay_exactness [OF that]
      by (auto simp: channel_inv_def poll_visit_def split: option.splits poll.splits sum.splits)
  qed
  show "channel_inv (poll_send writable ch)"
    using assms ended tracked_sent command_ok_moved [of "subscriptions ch"]
    by (auto simp: channel_inv_def poll_send_def log_delivery_def set_subscriptions_def split: option.splits poll.splits)
qed

lemma channel_step_inv: "channel_inv ch \<Longrightarrow> db_inv env d \<Longrightarrow> channel_inv (channel_step env d ev ch)"
  by (cases ev) (simp_all add: command_inv unsubscribe_inv poll_inv, simp add: channel_inv_def disconnect_def)

interpretation live: invariant_system live_initial "live_step env cfg"
  "\<lambda>s. env_ok env \<longrightarrow> reach initial (pipeline_step env cfg) (fst s) \<and> channel_inv (snd s)" for env cfg
proof unfold_locales
  fix s t :: "db \<times> channel"
  show "env_ok env \<longrightarrow> reach initial (pipeline_step env cfg) (fst s) \<and> channel_inv (snd s)" if "live_initial s"
    using that by (auto simp: live_initial_def new_channel_def new_client_def channel_inv_def tracked_def position_of_def intro: reach_init)
  show "env_ok env \<longrightarrow> reach initial (pipeline_step env cfg) (fst t) \<and> channel_inv (snd t)"
    if "env_ok env \<longrightarrow> reach initial (pipeline_step env cfg) (fst s) \<and> channel_inv (snd s)" "live_step env cfg s t"
    using that(2,1) by cases (auto intro: reach_step channel_step_inv reachable_inv)
qed


end
