(* ===== verification/RunnerServer.thy ===== *)
theory RunnerServer
  imports Runner
begin

text \<open>
  The runner's server as its requests interleave (\<open>apps/runner/src/server.ts\<close>). The theory \<open>Runner\<close> follows one request through
  \<open>handle\<close>; here many are open at once, and a step is what one of them does between two \<open>await\<close>s: a request arrives,
  a chunk of its body arrives, its body ends, its execution settles, its connection is lost, or the server is told to close. What the
  supervisor answers to an admitted execution is arbitrary; that it admits one is \<open>start_execution\<close>.
\<close>

section \<open>Open requests\<close>

text \<open>
  A request that is being read, with the bytes so far, or whose execution was handed to the supervisor. A
  supervisor that refuses an execution does so by an exception, which the request still has to catch.
\<close>

datatype phase =
    Reading string nat
  | Executing sandbox_request "runner_error option"

record request =
  rq_id :: nat
  rq_phase :: phase
  rq_aborted :: bool
  rq_lost :: bool

record runner_server =
  rs_closing :: bool
  rs_admitted :: nat
  rs_controllers :: "(string \<times> nat) list"
  rs_requests :: "request list"
  rs_replies :: "(nat \<times> nat \<times> reply_body) list"
  rs_next :: nat
  rs_sup :: sup

fun phase_key :: "phase \<Rightarrow> string option" where
  "phase_key (Reading url n) = None"
| "phase_key (Executing req e) = Some (execution_key req)"

text \<open>\<open>reply\<close> does nothing once the response is destroyed.\<close>

definition send_reply :: "nat \<Rightarrow> bool \<Rightarrow> nat \<times> reply_body \<Rightarrow> runner_server \<Rightarrow> runner_server" where
  "send_reply i lost r s = (if lost then s else s\<lparr>rs_replies := rs_replies s @ [(i, r)]\<rparr>)"

definition set_request :: "request \<Rightarrow> runner_server \<Rightarrow> runner_server" where
  "set_request q s = s\<lparr>rs_requests := map (\<lambda>q'. if rq_id q' = rq_id q then q else q') (rs_requests s)\<rparr>"

text \<open>The \<open>finally\<close> of \<open>handle\<close>.\<close>

definition end_request :: "request \<Rightarrow> runner_server \<Rightarrow> runner_server" where
  "end_request q s =
     s\<lparr>rs_controllers := (case phase_key (rq_phase q) of
          None \<Rightarrow> rs_controllers s | Some key \<Rightarrow> filter (\<lambda>(k, _). k \<noteq> key) (rs_controllers s)),
       rs_admitted := rs_admitted s - 1, rs_requests := filter (\<lambda>q'. rq_id q' \<noteq> rq_id q) (rs_requests s)\<rparr>"

definition answer :: "request \<Rightarrow> nat \<times> reply_body \<Rightarrow> runner_server \<Rightarrow> runner_server" where
  "answer q r s = end_request q (send_reply (rq_id q) (rq_lost q) r s)"

definition unavailable :: "nat \<times> reply_body" where
  "unavailable = (503, ReplyError ''EXECUTION_UNAVAILABLE'')"

section \<open>Steps\<close>

text \<open>A request arrives: it is refused at once, or admitted and read.\<close>

definition arrive :: "string \<Rightarrow> string \<Rightarrow> string option \<Rightarrow> runner_server \<Rightarrow> runner_server" where
  "arrive meth url contentType s0 =
     (let i = rs_next s0; s = s0\<lparr>rs_next := Suc i\<rparr>
      in if rs_closing s \<or> 8 \<le> rs_admitted s then send_reply i False (503, ReplyError ''RUNNER_CAPACITY'') s
         else if meth \<noteq> ''POST'' \<or> url \<notin> {''/execute'', ''/cancel''} \<or> contentType \<noteq> Some ''application/json''
         then send_reply i False (400, ReplyError ''INVALID_REQUEST'') s
         else s\<lparr>rs_admitted := rs_admitted s + 1,
                rs_requests := \<lparr>rq_id = i, rq_phase = Reading url 0, rq_aborted = False, rq_lost = False\<rparr> # rs_requests s\<rparr>)"

definition request_at :: "nat \<Rightarrow> runner_server \<Rightarrow> request option" where
  "request_at i s = find (\<lambda>q. rq_id q = i) (rs_requests s)"

definition read_chunk :: "nat \<Rightarrow> nat \<Rightarrow> runner_server \<Rightarrow> runner_server" where
  "read_chunk i n s =
     (case request_at i s of
        Some q \<Rightarrow>
          (case rq_phase q of
             Reading url sz \<Rightarrow>
               if sz + n > 2 * 1024 * 1024 then answer q (413, ReplyError ''REQUEST_TOO_LARGE'') s
               else set_request (q\<lparr>rq_phase := Reading url (sz + n)\<rparr>) s
           | _ \<Rightarrow> s)
      | None \<Rightarrow> s)"

text \<open>\<open>controller.abort()\<close> aborts the signal of the request that registered the controller.\<close>

definition abort_request :: "nat \<Rightarrow> runner_server \<Rightarrow> runner_server" where
  "abort_request i s =
     s\<lparr>rs_requests := map (\<lambda>q. if rq_id q = i then q\<lparr>rq_aborted := True\<rparr> else q) (rs_requests s)\<rparr>"

definition cancel_body :: "request \<Rightarrow> uuid \<Rightarrow> int \<Rightarrow> runner_server \<Rightarrow> runner_server" where
  "cancel_body q executionId attempt s =
     (case map_of (rs_controllers s) (executionId @ '':'' @ int_text attempt) of
        None \<Rightarrow> answer q (409, ReplyRequested False) s
      | Some i \<Rightarrow> answer q (200, ReplyRequested True) (abort_request i s))"

definition execute_body_of :: "(string \<Rightarrow> bool) \<Rightarrow> request \<Rightarrow> sandbox_request \<Rightarrow> runner_server \<Rightarrow> runner_server" where
  "execute_body_of uuid_ok q req s =
     (if \<not> sandboxRequestSchema uuid_ok req then answer q unavailable s
      else if execution_key req \<in> fst ` set (rs_controllers s) then answer q (503, ReplyError ''DUPLICATE_ATTEMPT'') s
      else case start_execution uuid_ok req (rs_sup s) of
        (r, t) \<Rightarrow>
          set_request (q\<lparr>rq_phase := Executing req (case r of Inl e \<Rightarrow> Some e | Inr _ \<Rightarrow> None)\<rparr>)
            (s\<lparr>rs_controllers := rs_controllers s @ [(execution_key req, rq_id q)], rs_sup := t\<rparr>))"

text \<open>The body has ended; \<open>input\<close> is its JSON value, if it has one.\<close>

definition body_ends :: "(string \<Rightarrow> bool) \<Rightarrow> nat \<Rightarrow> rpc_input option \<Rightarrow> runner_server \<Rightarrow> runner_server" where
  "body_ends uuid_ok i input s =
     (case request_at i s of
        Some q \<Rightarrow>
          (case rq_phase q of
             Reading url sz \<Rightarrow>
               if url = ''/cancel''
               then (case input of
                       Some (CancelInput e a) \<Rightarrow>
                         if uuid_ok e \<and> safe_int a \<and> 0 < a then cancel_body q e a s else answer q unavailable s
                     | _ \<Rightarrow> answer q unavailable s)
               else (case input of
                       Some (ExecuteInput req) \<Rightarrow> execute_body_of uuid_ok q req s
                     | _ \<Rightarrow> answer q unavailable s)
           | _ \<Rightarrow> s)
      | None \<Rightarrow> s)"

text \<open>
  \<open>supervisor.execute\<close> settles: an admitted execution with any outcome, leaving the supervisor free of it; a refused one
  with the exception that refused it.
\<close>

definition settles :: "nat \<Rightarrow> runner_error + observation \<Rightarrow> runner_server \<Rightarrow> runner_server" where
  "settles i outcome s =
     (case request_at i s of
        Some q \<Rightarrow>
          (case rq_phase q of
             Executing req None \<Rightarrow>
               answer q (execution_reply (rq_aborted q) outcome) (s\<lparr>rs_sup := end_execution (execution_key req) (rs_sup s)\<rparr>)
           | Executing req (Some e) \<Rightarrow> answer q (execution_reply (rq_aborted q) (Inl e)) s
           | _ \<Rightarrow> s)
      | None \<Rightarrow> s)"

text \<open>The connection is lost: a body that is being read throws, an execution is aborted and its reply goes nowhere.\<close>

definition connection_lost :: "nat \<Rightarrow> runner_server \<Rightarrow> runner_server" where
  "connection_lost i s =
     (case request_at i s of
        Some q \<Rightarrow>
          (case rq_phase q of
             Reading url sz \<Rightarrow> end_request q s
           | Executing req e \<Rightarrow> set_request (q\<lparr>rq_aborted := True, rq_lost := True\<rparr>) s)
      | None \<Rightarrow> s)"

definition close_server :: "runner_server \<Rightarrow> runner_server" where
  "close_server s = s\<lparr>rs_closing := True, rs_sup := stopAccepting (rs_sup s)\<rparr>"

datatype server_event =
    Arrive string string "string option"
  | Chunk nat nat
  | BodyEnds nat "rpc_input option"
  | Settles nat "runner_error + observation"
  | ConnectionLost nat
  | CloseServer
  | HostReady bool

fun server_step :: "(string \<Rightarrow> bool) \<Rightarrow> server_event \<Rightarrow> runner_server \<Rightarrow> runner_server" where
  "server_step uuid_ok (Arrive meth url ct) = arrive meth url ct"
| "server_step uuid_ok (Chunk i n) = read_chunk i n"
| "server_step uuid_ok (BodyEnds i input) = body_ends uuid_ok i input"
| "server_step uuid_ok (Settles i outcome) = settles i outcome"
| "server_step uuid_ok (ConnectionLost i) = connection_lost i"
| "server_step uuid_ok CloseServer = close_server"
| "server_step uuid_ok (HostReady b) = (\<lambda>s. s\<lparr>rs_sup := (rs_sup s)\<lparr>su_ready := b\<rparr>\<rparr>)"

definition new_server :: "sup \<Rightarrow> runner_server" where
  "new_server t = \<lparr>rs_closing = False, rs_admitted = 0, rs_controllers = [], rs_requests = [], rs_replies = [], rs_next = 0, rs_sup = t\<rparr>"

text \<open>
  \<open>listenSupervisor\<close> before it listens: the socket needs an absolute path in a directory that others can neither list, enter nor write.
  \<open>mode\<close> is the \<open>st_mode\<close> of the directory.
\<close>

definition listenSupervisor :: "string \<Rightarrow> bool \<Rightarrow> nat \<Rightarrow> sup \<Rightarrow> runner_server result" where
  "listenSupervisor socketPath isDirectory mode t =
     (if take 1 socketPath \<noteq> ''/'' \<or> CHR 0x00 \<in> set socketPath then Inl (PlainError ''INVALID_SUPERVISOR_SOCKET'')
      else if \<not> isDirectory \<or> mode mod 8 \<noteq> 0 then Inl (PlainError ''PRIVATE_SOCKET_DIRECTORY_REQUIRED'')
      else Inr (new_server t))"

definition serves :: "(string \<Rightarrow> bool) \<Rightarrow> runner_server \<Rightarrow> runner_server \<Rightarrow> bool" where
  "serves uuid_ok s t \<longleftrightarrow> (\<exists>ev. t = server_step uuid_ok ev s)"

definition server_initial :: "runner_server \<Rightarrow> bool" where
  "server_initial s \<longleftrightarrow> (\<exists>t. idle t \<and> s = new_server t)"

section \<open>The bookkeeping of the server\<close>

definition registered :: "runner_server \<Rightarrow> (string \<times> nat) set" where
  "registered s = {(key, rq_id q) | key q. q \<in> set (rs_requests s) \<and> phase_key (rq_phase q) = Some key}"

definition running :: "runner_server \<Rightarrow> string set" where
  "running s = {execution_key req | req q. q \<in> set (rs_requests s) \<and> rq_phase q = Executing req None}"

text \<open>The counter counts the open requests, the controllers are theirs, and no request is answered twice.\<close>

definition requests_inv :: "runner_server \<Rightarrow> bool" where
  "requests_inv s \<longleftrightarrow>
     distinct (map rq_id (rs_requests s)) \<and> (\<forall>q \<in> set (rs_requests s). rq_id q < rs_next s) \<and>
     rs_admitted s = length (rs_requests s) \<and> rs_admitted s \<le> 8 \<and>
     distinct (map fst (rs_controllers s)) \<and> set (rs_controllers s) = registered s \<and>
     distinct (map fst (rs_replies s)) \<and> (\<forall>i \<in> fst ` set (rs_replies s). i < rs_next s \<and> i \<notin> rq_id ` set (rs_requests s))"

definition server_inv :: "runner_server \<Rightarrow> bool" where
  "server_inv s \<longleftrightarrow> requests_inv s \<and> admission_inv (rs_sup s) \<and> set (su_active (rs_sup s)) = running s"

lemma registered_iff: "(key, i) \<in> registered s \<longleftrightarrow> (\<exists>q \<in> set (rs_requests s). rq_id q = i \<and> phase_key (rq_phase q) = Some key)"
  and running_iff: "key \<in> running s \<longleftrightarrow>
    (\<exists>q \<in> set (rs_requests s). \<exists>req. rq_phase q = Executing req None \<and> key = execution_key req)"
  by (auto simp: registered_def running_def)

lemma request_at_Some: "request_at i s = Some q \<Longrightarrow> q \<in> set (rs_requests s) \<and> rq_id q = i"
  by (auto simp: request_at_def find_Some_iff)

lemma same_request: "requests_inv s \<Longrightarrow> q \<in> set (rs_requests s) \<Longrightarrow> q' \<in> set (rs_requests s) \<Longrightarrow> rq_id q' = rq_id q \<Longrightarrow> q' = q"
  by (auto simp: requests_inv_def distinct_map inj_on_def)

lemma same_key:
  assumes inv: "requests_inv s" and q: "q \<in> set (rs_requests s)" "phase_key (rq_phase q) = Some key"
    and q': "q' \<in> set (rs_requests s)" "phase_key (rq_phase q') = Some key"
  shows "q' = q"
proof -
  have "(key, rq_id q) \<in> set (rs_controllers s)" "(key, rq_id q') \<in> set (rs_controllers s)" "distinct (map fst (rs_controllers s))"
    using assms by (auto simp: requests_inv_def registered_def)
  then have "rq_id q' = rq_id q" by (metis map_of_is_SomeI option.inject)
  with same_request [OF inv] q q' show ?thesis by blast
qed

lemma length_remove1_id:
  "distinct (map f xs) \<Longrightarrow> x \<in> set xs \<Longrightarrow> length (filter (\<lambda>y. f y \<noteq> f x) xs) = length xs - 1"
proof (induction xs)
  case (Cons y ys)
  show ?case
  proof (cases "x = y")
    case True
    with Cons.prems have "filter (\<lambda>z. f z \<noteq> f x) ys = ys" by (auto intro!: filter_True simp: image_iff)
    with True show ?thesis by simp
  next
    case False
    with Cons.prems have "x \<in> set ys" "f y \<noteq> f x" by auto
    with Cons show ?thesis by (cases ys) auto
  qed
qed simp

lemma end_request_rest:
  "requests_inv s \<Longrightarrow> q \<in> set (rs_requests s) \<Longrightarrow> set (rs_requests (end_request q s)) = set (rs_requests s) - {q}"
  using same_request by (auto simp: end_request_def)

lemma end_request_inv:
  assumes inv: "requests_inv s" and q: "q \<in> set (rs_requests s)"
  shows "requests_inv (end_request q s)"
proof -
  let ?t = "end_request q s"
  have reqs: "rs_requests ?t = filter (\<lambda>q'. rq_id q' \<noteq> rq_id q) (rs_requests s)" by (simp add: end_request_def)
  have rest: "set (rs_requests ?t) = set (rs_requests s) - {q}" using inv q by (rule end_request_rest)
  have dist: "distinct (map rq_id (rs_requests s))" using inv by (simp add: requests_inv_def)
  have "rs_admitted ?t = length (rs_requests ?t)" "rs_admitted ?t \<le> 8"
    using inv length_remove1_id [OF dist q] by (auto simp: requests_inv_def end_request_def)
  moreover have "distinct (map rq_id (rs_requests ?t))" using dist by (simp add: reqs distinct_map_filter)
  moreover have "distinct (map fst (rs_controllers ?t))"
    using inv by (auto simp: requests_inv_def end_request_def distinct_map_filter split: option.splits)
  moreover have "set (rs_controllers ?t) = registered ?t"
  proof -
    have eq: "set (rs_controllers s) = registered s" using inv by (simp add: requests_inv_def)
    have "set (rs_controllers ?t) = {x \<in> set (rs_controllers s). phase_key (rq_phase q) \<noteq> Some (fst x)}"
      by (auto simp: end_request_def split: option.splits)
    also have "\<dots> = registered ?t"
      unfolding eq using same_key [OF inv q] by (auto simp: registered_def rest)
    finally show ?thesis .
  qed
  ultimately show ?thesis using inv by (auto simp: requests_inv_def end_request_def)
qed

lemma end_request_running:
  assumes inv: "requests_inv s" and q: "q \<in> set (rs_requests s)"
  shows "running (end_request q s) = running s - {key. \<exists>req. rq_phase q = Executing req None \<and> key = execution_key req}"
proof -
  have "set (rs_requests (end_request q s)) = set (rs_requests s) - {q}" using inv q by (rule end_request_rest)
  moreover have "q' = q" if "q' \<in> set (rs_requests s)" "rq_phase q' = Executing req None" "rq_phase q = Executing req' None"
    "execution_key req = execution_key req'" for q' req req'
    using same_key [OF inv q, of "execution_key req" q'] that by simp
  ultimately show ?thesis by (auto simp: running_def) blast+
qed

lemma send_reply_inv:
  assumes "requests_inv s" and "i < rs_next s" and "i \<notin> rq_id ` set (rs_requests s)" and "i \<notin> fst ` set (rs_replies s)"
  shows "requests_inv (send_reply i lost r s)"
  using assms by (auto simp: send_reply_def requests_inv_def registered_def)

lemma answer_inv:
  assumes inv: "requests_inv s" and q: "q \<in> set (rs_requests s)"
  shows "requests_inv (answer q r s)"
proof -
  have "answer q r s = send_reply (rq_id q) (rq_lost q) r (end_request q s)"
    by (simp add: answer_def send_reply_def end_request_def split: option.splits)
  moreover have "requests_inv (send_reply (rq_id q) (rq_lost q) r (end_request q s))"
    using inv q by (intro send_reply_inv end_request_inv) (force simp: requests_inv_def end_request_def)+
  ultimately show ?thesis by simp
qed

lemma answer_fields:
  "rs_sup (answer q r s) = rs_sup s" "running (answer q r s) = running (end_request q s)"
  by (simp_all add: answer_def send_reply_def end_request_def running_def)

lemma answer_reading:
  assumes "server_inv s" and "q \<in> set (rs_requests s)" and "rq_phase q = Reading url n"
  shows "server_inv (answer q r s)"
  using assms answer_inv end_request_running by (simp add: server_inv_def answer_fields)

lemma map_request:
  assumes "\<And>q. rq_id (f q) = rq_id q"
  shows "map rq_id (map f xs) = map rq_id xs" "rq_id ` set (map f xs) = rq_id ` set xs"
  using assms by (simp_all add: image_image comp_def)

text \<open>A change of requests that keeps their identities and phases.\<close>

lemma kept_requests_inv:
  assumes inv: "server_inv s" and f: "\<And>q. rq_id (f q) = rq_id q"
    and key: "\<And>q. q \<in> set (rs_requests s) \<Longrightarrow> phase_key (rq_phase (f q)) = phase_key (rq_phase q)"
    and run: "\<And>q req. q \<in> set (rs_requests s) \<Longrightarrow> rq_phase (f q) = Executing req None \<longleftrightarrow> rq_phase q = Executing req None"
  shows "server_inv (s\<lparr>rs_requests := map f (rs_requests s)\<rparr>)"
proof -
  let ?t = "s\<lparr>rs_requests := map f (rs_requests s)\<rparr>"
  have "x \<in> registered ?t \<longleftrightarrow> x \<in> registered s" for x
    using f key by (cases x) (simp add: registered_iff cong: bex_cong)
  then have "registered ?t = registered s" by blast
  moreover have "x \<in> running ?t \<longleftrightarrow> x \<in> running s" for x
    using run by (simp add: running_iff cong: bex_cong)
  then have "running ?t = running s" by blast
  ultimately show ?thesis
    using inv f map_request [of f, OF f] by (simp add: server_inv_def requests_inv_def del: map_map)
qed

lemma set_request_inv:
  assumes "server_inv s" and "q \<in> set (rs_requests s)" and "rq_id q' = rq_id q"
    and "phase_key (rq_phase q') = phase_key (rq_phase q)"
    and "\<And>req. rq_phase q' = Executing req None \<longleftrightarrow> rq_phase q = Executing req None"
  shows "server_inv (set_request q' s)"
proof -
  have "requests_inv s" using assms(1) by (simp add: server_inv_def)
  then have "qa = q" if "qa \<in> set (rs_requests s)" "rq_id qa = rq_id q" for qa
    using same_request [OF _ assms(2) that] by blast
  with assms(3-) show ?thesis
    unfolding set_request_def by (intro kept_requests_inv [OF assms(1)]) auto
qed

lemma abort_request_inv: "server_inv s \<Longrightarrow> server_inv (abort_request i s)"
  unfolding abort_request_def by (rule kept_requests_inv) auto

lemma cancel_body_inv:
  assumes "server_inv s" and "q \<in> set (rs_requests s)" and "rq_phase q = Reading url n"
  shows "server_inv (cancel_body q e a s)"
proof (cases "map_of (rs_controllers s) (e @ '':'' @ int_text a)")
  case None
  with answer_reading [OF assms] show ?thesis by (simp add: cancel_body_def)
next
  case (Some i)
  let ?q = "if rq_id q = i then q\<lparr>rq_aborted := True\<rparr> else q"
  have inv: "requests_inv s" using assms(1) by (simp add: server_inv_def)
  have "rq_id q \<noteq> i"
  proof
    assume "rq_id q = i"
    from map_of_SomeD [OF Some] inv have "(e @ '':'' @ int_text a, i) \<in> registered s" by (simp add: requests_inv_def)
    then obtain q' where "q' \<in> set (rs_requests s)" "rq_id q' = i" "phase_key (rq_phase q') \<noteq> None"
      by (auto simp: registered_def)
    with same_request [OF inv assms(2)] \<open>rq_id q = i\<close> assms(3) show False by force
  qed
  then have "q \<in> set (rs_requests (abort_request i s))"
    using assms(2) by (force simp: abort_request_def)
  from answer_reading [OF abort_request_inv [OF assms(1)] this assms(3)] Some show ?thesis by (simp add: cancel_body_def)
qed

lemma execute_body_inv:
  assumes inv: "server_inv s" and q: "q \<in> set (rs_requests s)" "rq_phase q = Reading url n"
  shows "server_inv (execute_body_of uuid_ok q req s)"
proof (cases "sandboxRequestSchema uuid_ok req \<and> execution_key req \<notin> fst ` set (rs_controllers s)")
  case False
  with answer_reading [OF assms] show ?thesis by (auto simp: execute_body_of_def)
next
  case True
  obtain r t where start: "start_execution uuid_ok req (rs_sup s) = (r, t)" by (cases "start_execution uuid_ok req (rs_sup s)")
  let ?e = "case r of Inl e \<Rightarrow> Some e | Inr _ \<Rightarrow> None"
  let ?q = "q\<lparr>rq_phase := Executing req ?e\<rparr>"
  let ?s = "execute_body_of uuid_ok q req s"
  have s: "?s = set_request ?q (s\<lparr>rs_controllers := rs_controllers s @ [(execution_key req, rq_id q)], rs_sup := t\<rparr>)"
    using True start by (simp add: execute_body_of_def)
  have rinv: "requests_inv s" using inv by (simp add: server_inv_def)
  have reqs: "set (rs_requests ?s) = insert ?q (set (rs_requests s) - {q})"
    unfolding s set_request_def using same_request [OF rinv q(1)] q(1) by auto
  have key: "phase_key (rq_phase ?q) = Some (execution_key req)" by simp
  have reg: "registered ?s = insert (execution_key req, rq_id q) (registered s)"
  proof -
    have "(k, i) \<in> registered ?s \<longleftrightarrow> (k, i) = (execution_key req, rq_id q) \<or> (k, i) \<in> registered s" for k i
      unfolding registered_iff reqs bex_simps using q by auto
    then show ?thesis by auto
  qed
  have fields: "rs_controllers ?s = rs_controllers s @ [(execution_key req, rq_id q)]" "rs_sup ?s = t" "rs_next ?s = rs_next s"
    "rs_admitted ?s = rs_admitted s" "rs_replies ?s = rs_replies s" "length (rs_requests ?s) = length (rs_requests s)"
    "map rq_id (rs_requests ?s) = map rq_id (rs_requests s)"
    by (simp_all add: s set_request_def)
  have "rq_id ` set (rs_requests ?s) = rq_id ` set (rs_requests s)"
    by (simp only: set_map [symmetric] fields(7))
  moreover have "\<forall>q \<in> set (rs_requests ?s). rq_id q < rs_next s"
    unfolding reqs using rinv q(1) by (auto simp: requests_inv_def)
  ultimately have "requests_inv ?s"
    using rinv True reg fields by (simp add: requests_inv_def)
  moreover have run: "k \<in> running ?s \<longleftrightarrow> (?e = None \<and> k = execution_key req) \<or> k \<in> running s" for k
    unfolding running_iff reqs bex_simps using q by auto
  have "admission_inv t" "set (su_active t) = running ?s"
    using start inv run by (auto simp: start_execution_def server_inv_def admission_inv_def split: if_splits)
  ultimately show ?thesis by (simp add: server_inv_def fields)
qed

lemma body_ends_inv: "server_inv s \<Longrightarrow> server_inv (body_ends uuid_ok i input s)"
  using request_at_Some
  by (auto simp: body_ends_def cancel_body_inv execute_body_inv answer_reading split: option.splits phase.splits rpc_input.splits)

lemma settles_inv:
  assumes "server_inv s"
  shows "server_inv (settles i outcome s)"
proof (cases "request_at i s")
  case (Some q)
  then have q: "q \<in> set (rs_requests s)" using request_at_Some by blast
  have inv: "requests_inv s" using assms by (simp add: server_inv_def)
  show ?thesis
  proof (cases "rq_phase q")
    case (Executing req e)
    let ?s = "if e = None then s\<lparr>rs_sup := end_execution (execution_key req) (rs_sup s)\<rparr> else s"
    have same: "requests_inv ?s" "q \<in> set (rs_requests ?s)" "running (end_request q ?s) = running (end_request q s)"
      using inv q by (simp_all add: requests_inv_def registered_def running_def end_request_def)
    have "admission_inv (rs_sup ?s)"
      using assms by (auto simp: server_inv_def admission_inv_def end_execution_def intro: le_trans [OF length_filter_le])
    moreover have "set (su_active (rs_sup ?s)) = running (end_request q s)"
      using assms Executing end_request_running [OF inv q] by (auto simp: server_inv_def end_execution_def)
    ultimately have "server_inv (answer q r ?s)" for r
      using answer_inv [OF same(1,2)] same(3) by (simp add: server_inv_def answer_fields)
    then show ?thesis using Some Executing by (cases e) (simp_all add: settles_def)
  qed (use Some assms in \<open>simp add: settles_def\<close>)
qed (use assms in \<open>simp add: settles_def\<close>)

lemma read_chunk_inv: "server_inv s \<Longrightarrow> server_inv (read_chunk i n s)"
  using request_at_Some [of i s]
  by (auto simp: read_chunk_def answer_reading intro: set_request_inv split: option.splits phase.splits)

lemma connection_lost_inv:
  assumes "server_inv s"
  shows "server_inv (connection_lost i s)"
proof (cases "request_at i s")
  case (Some q)
  then have q: "q \<in> set (rs_requests s)" using request_at_Some by blast
  have inv: "requests_inv s" using assms by (simp add: server_inv_def)
  show ?thesis
  proof (cases "rq_phase q")
    case (Reading url n)
    have "rs_sup (end_request q s) = rs_sup s" by (simp add: end_request_def)
    with assms end_request_inv [OF inv q] end_request_running [OF inv q] Reading Some show ?thesis
      by (simp add: connection_lost_def server_inv_def)
  next
    case (Executing req e)
    with Some q assms show ?thesis by (simp add: connection_lost_def set_request_inv)
  qed
qed (use assms in \<open>simp add: connection_lost_def\<close>)

lemma arrive_inv:
  assumes "server_inv s"
  shows "server_inv (arrive meth url ct s)"
proof -
  let ?s = "s\<lparr>rs_next := Suc (rs_next s)\<rparr>" and ?q = "\<lparr>rq_id = rs_next s, rq_phase = Reading url 0, rq_aborted = False, rq_lost = False\<rparr>"
  have next_free: "rs_next s \<notin> rq_id ` set (rs_requests s)" "rs_next s \<notin> fst ` set (rs_replies s)"
    using assms by (auto simp: server_inv_def requests_inv_def)
  have inv: "requests_inv ?s" using assms by (auto simp: server_inv_def requests_inv_def registered_def less_Suc_eq)
  have sup: "rs_sup (send_reply i l r ?s) = rs_sup s" "running (send_reply i l r ?s) = running s" for i l r
    by (simp_all add: send_reply_def running_def)
  have refused: "server_inv (send_reply (rs_next s) False r ?s)" for r
    using assms send_reply_inv [OF inv] next_free sup by (simp add: server_inv_def)
  have "server_inv (?s\<lparr>rs_admitted := rs_admitted s + 1, rs_requests := ?q # rs_requests s\<rparr>)" if "\<not> 8 \<le> rs_admitted s"
    using assms that next_free by (auto simp: server_inv_def requests_inv_def registered_def running_def less_Suc_eq)
  with refused show ?thesis by (simp add: arrive_def Let_def)
qed

lemma server_step_inv: "server_inv s \<Longrightarrow> server_inv (server_step uuid_ok ev s)"
proof (cases ev)
  case CloseServer
  then show "server_inv s \<Longrightarrow> ?thesis"
    by (simp add: close_server_def server_inv_def requests_inv_def registered_def running_def admission_inv_def stopAccepting_def)
next
  case (HostReady b)
  then show "server_inv s \<Longrightarrow> ?thesis"
    by (simp add: server_inv_def requests_inv_def registered_def running_def admission_inv_def)
qed (simp_all add: arrive_inv read_chunk_inv body_ends_inv settles_inv connection_lost_inv)

interpretation serving: invariant_system server_initial "serves uuid_ok" server_inv for uuid_ok
proof unfold_locales
  show "server_inv s" if "server_initial s" for s
    using that by (auto simp: server_initial_def new_server_def server_inv_def requests_inv_def registered_def running_def idle_def
        admission_inv_def)
  show "server_inv t" if "server_inv s" "serves uuid_ok s t" for s t
    using that server_step_inv by (auto simp: serves_def)
qed

section \<open>Properties of the server\<close>

lemma listen_initial: "listenSupervisor path isDirectory mode t = Inr s \<Longrightarrow> idle t \<Longrightarrow> server_initial s"
  by (auto simp: listenSupervisor_def server_initial_def split: if_splits)

lemma image_filter_kept: "(\<And>y. g (f y) = g y) \<Longrightarrow> {y \<in> f ` A. g y \<noteq> i} = f ` {y \<in> A. g y \<noteq> i}"
  by auto

text \<open>
  C25. However requests interleave, the runner's server keeps its books: at most eight requests are open and \<open>admitted\<close> is their
  number; each abort controller belongs to the one open request that executes its attempt, so no attempt is executed by two
  requests; the supervisor works at most on two of these; no request is answered twice; and when the last request has ended, as
  \<open>close\<close> awaits, nothing of them is left in the server or the supervisor.
\<close>

theorem server_tasks:
  assumes "reach server_initial (serves uuid_ok) s"
  shows "rs_admitted s = length (rs_requests s) \<and> rs_admitted s \<le> 8 \<and>
     distinct (map fst (rs_controllers s)) \<and>
     (\<forall>key i. (key, i) \<in> set (rs_controllers s) \<longleftrightarrow>
        (\<exists>q \<in> set (rs_requests s). rq_id q = i \<and> phase_key (rq_phase q) = Some key)) \<and>
     set (su_active (rs_sup s)) \<subseteq> fst ` set (rs_controllers s) \<and> length (su_active (rs_sup s)) \<le> 2 \<and>
     distinct (map fst (rs_replies s)) \<and> fst ` set (rs_replies s) \<inter> rq_id ` set (rs_requests s) = {} \<and>
     (rs_requests s = [] \<longrightarrow> rs_controllers s = [] \<and> su_active (rs_sup s) = [])"
proof -
  have inv: "server_inv s" using assms by (rule serving.reach_inv)
  then have sub: "running s \<subseteq> fst ` set (rs_controllers s)"
    by (force simp: server_inv_def requests_inv_def registered_def running_def image_iff)
  have "rs_controllers s = []" "su_active (rs_sup s) = []" if "rs_requests s = []"
    using inv that by (simp_all add: server_inv_def requests_inv_def registered_def running_def)
  moreover have "(key, i) \<in> set (rs_controllers s) \<longleftrightarrow>
      (\<exists>q \<in> set (rs_requests s). rq_id q = i \<and> phase_key (rq_phase q) = Some key)" for key i
    using inv by (simp add: server_inv_def requests_inv_def registered_iff)
  moreover have "fst ` set (rs_replies s) \<inter> rq_id ` set (rs_requests s) = {}"
    using inv unfolding server_inv_def requests_inv_def by blast
  moreover have "set (su_active (rs_sup s)) = running s" "length (su_active (rs_sup s)) \<le> 2"
    using inv by (simp_all add: server_inv_def admission_inv_def)
  ultimately show ?thesis
    using inv sub by (simp add: server_inv_def requests_inv_def)
qed

text \<open>
  C26. A cancellation reaches exactly its execution: a well-formed cancellation is answered, affirmatively if and only if some open
  request executes that attempt; it aborts the signal of that request and of no other, and ends only itself.
\<close>

theorem cancel_precise:
  assumes "reach server_initial (serves uuid_ok) s" and "request_at i s = Some q" and "rq_phase q = Reading ''/cancel'' n"
    and "\<not> rq_lost q" and "uuid_ok e" and "safe_int a" and "0 < a"
  defines "key \<equiv> e @ '':'' @ int_text a"
  shows "let t = body_ends uuid_ok i (Some (CancelInput e a)) s in
     rs_replies t = rs_replies s @
       [(i, if \<exists>x \<in> set (rs_requests s). phase_key (rq_phase x) = Some key then (200, ReplyRequested True) else (409, ReplyRequested False))] \<and>
     set (rs_requests t) =
       (\<lambda>x. if phase_key (rq_phase x) = Some key then x\<lparr>rq_aborted := True\<rparr> else x) ` (set (rs_requests s) - {q})"
proof -
  have inv: "requests_inv s" using serving.reach_inv [OF assms(1)] by (simp add: server_inv_def)
  have q: "q \<in> set (rs_requests s)" "rq_id q = i" using request_at_Some [OF assms(2)] by auto
  let ?t = "body_ends uuid_ok i (Some (CancelInput e a)) s"
  have t: "?t = (case map_of (rs_controllers s) key of None \<Rightarrow> answer q (409, ReplyRequested False) s
      | Some j \<Rightarrow> answer q (200, ReplyRequested True) (abort_request j s))"
    using assms by (simp add: body_ends_def cancel_body_def)
  have ended: "rs_replies (answer q r u) = rs_replies u @ [(i, r)]"
    "set (rs_requests (answer q r u)) = {x \<in> set (rs_requests u). rq_id x \<noteq> i}" for r u
    using assms(4) q(2) by (auto simp: answer_def send_reply_def end_request_def)
  have ctrl: "(key, j) \<in> set (rs_controllers s) \<longleftrightarrow> (\<exists>x \<in> set (rs_requests s). rq_id x = j \<and> phase_key (rq_phase x) = Some key)" for j
    using inv by (simp add: requests_inv_def registered_iff)
  have rest: "{x \<in> set (rs_requests s). rq_id x \<noteq> i} = set (rs_requests s) - {q}"
    unfolding q(2) [symmetric] using same_request [OF inv q(1)] by blast
  show ?thesis
  proof (cases "map_of (rs_controllers s) key")
    case None
    then have "(key, j) \<notin> set (rs_controllers s)" for j by (force simp: map_of_eq_None_iff)
    with ctrl have none: "\<forall>x \<in> set (rs_requests s). phase_key (rq_phase x) \<noteq> Some key" by auto
    then show ?thesis using None by (auto simp: t ended rest Let_def)
  next
    case (Some j)
    with ctrl obtain x where x: "x \<in> set (rs_requests s)" "rq_id x = j" "phase_key (rq_phase x) = Some key"
      by (auto dest: map_of_SomeD)
    let ?abort = "\<lambda>y. if rq_id y = j then y\<lparr>rq_aborted := True\<rparr> else y"
    have iff: "rq_id y = j \<longleftrightarrow> phase_key (rq_phase y) = Some key" if "y \<in> set (rs_requests s)" for y
      using same_key [OF inv x(1,3) that] same_request [OF inv x(1) that] unfolding x(2) [symmetric] using x(3) by blast
    have "{y \<in> ?abort ` set (rs_requests s). rq_id y \<noteq> i} = ?abort ` {y \<in> set (rs_requests s). rq_id y \<noteq> i}"
      by (rule image_filter_kept) simp
    also have "\<dots> = (\<lambda>y. if phase_key (rq_phase y) = Some key then y\<lparr>rq_aborted := True\<rparr> else y) ` (set (rs_requests s) - {q})"
      unfolding rest using iff by (intro image_cong) auto
    finally have "set (rs_requests ?t) =
        (\<lambda>y. if phase_key (rq_phase y) = Some key then y\<lparr>rq_aborted := True\<rparr> else y) ` (set (rs_requests s) - {q})"
      using Some by (simp add: t ended(2) abort_request_def)
    moreover have "rs_replies ?t = rs_replies s @ [(i, 200, ReplyRequested True)]"
      using Some by (simp add: t ended(1) abort_request_def)
    ultimately show ?thesis using x by (auto simp: Let_def)
  qed
qed

section \<open>The client's cancellation\<close>

text \<open>
  \<open>cancel\<close> of \<open>apps/runner/src/client.ts\<close>: once the caller's signal is aborted, the client asks the server to cancel, again and again
  while the server does not know the attempt yet, for five seconds. Any other answer than the affirmative one destroys
  the request, which the server sees as a lost connection. A probe is one round: whether the execution had settled when it was sent, what
  came back (nothing, when the connection failed or timed out), when, and whether the execution had settled by then.
\<close>

record probe =
  pb_finishedBefore :: bool
  pb_status :: "nat option"
  pb_now :: millis
  pb_finishedAfter :: bool

datatype cancel_result = Moot | Requested | Destroyed

text \<open>One round, and whether another one follows.\<close>

definition cancel_round :: "millis \<Rightarrow> probe \<Rightarrow> cancel_result option" where
  "cancel_round until p =
     (if pb_finishedBefore p then Some Moot
      else case pb_status p of
        None \<Rightarrow> Some (if pb_finishedAfter p then Moot else Destroyed)
      | Some st \<Rightarrow>
          if st = 409 \<and> pb_now p < until \<and> \<not> pb_finishedAfter p then None
          else if st \<noteq> 200 \<and> \<not> pb_finishedAfter p then Some Destroyed
          else Some (if st = 200 then Requested else Moot))"

text \<open>The loop over the rounds that happen; the list is as long as need be.\<close>

fun cancel_rounds :: "millis \<Rightarrow> probe list \<Rightarrow> (nat \<times> cancel_result) option" where
  "cancel_rounds until [] = None"
| "cancel_rounds until (p # ps) =
     (case cancel_round until p of
        Some r \<Rightarrow> Some (1, r)
      | None \<Rightarrow> map_option (\<lambda>(n, r). (Suc n, r)) (cancel_rounds until ps))"

text \<open>Rounds fifty milliseconds apart.\<close>

fun spaced :: "millis \<Rightarrow> probe list \<Rightarrow> bool" where
  "spaced t [] \<longleftrightarrow> True"
| "spaced t (p # ps) \<longleftrightarrow> t \<le> pb_now p \<and> spaced (pb_now p + 50) ps"

lemma cancel_rounds_end:
  "spaced t ps \<Longrightarrow> until - t + 50 \<le> 50 * int (length ps) \<Longrightarrow> 0 < length ps \<Longrightarrow>
     \<exists>n r. cancel_rounds until ps = Some (n, r) \<and> 1 \<le> n \<and> n \<le> length ps"
proof (induction ps arbitrary: t)
  case (Cons p ps)
  show ?case
  proof (cases "cancel_round until p")
    case None
    then have "pb_now p < until" by (auto simp: cancel_round_def split: if_splits option.splits)
    with Cons.prems have "until - (pb_now p + 50) + 50 \<le> 50 * int (length ps)" "spaced (pb_now p + 50) ps" "0 < length ps"
      by (auto simp: zero_less_iff_neq_zero)
    from Cons.IH [OF this(2,1,3)] None show ?thesis by auto
  qed auto
qed simp

text \<open>
  A cancellation ends: of the rounds after an abort at time \<open>t\<close>, fifty milliseconds apart, at most a hundred and one are made, and the last
  one leaves the execution settled, its abort requested, or its connection destroyed.
\<close>

lemma cancel_terminates:
  assumes "spaced t ps" and "101 \<le> length ps"
  shows "\<exists>n r. cancel_rounds (t + 5000) ps = Some (n, r) \<and> n \<le> 101"
proof -
  let ?ps = "take 101 ps"
  have "spaced t (take k ps)" for k using assms(1)
    by (induction t ps arbitrary: k rule: spaced.induct) (auto simp: take_Cons split: nat.splits)
  then obtain n r where n: "cancel_rounds (t + 5000) ?ps = Some (n, r)" "n \<le> 101"
    using cancel_rounds_end [of t ?ps "t + 5000"] assms(2) by force
  have "cancel_rounds u xs = Some x \<Longrightarrow> cancel_rounds u (xs @ ys) = Some x" for u xs ys x
    by (induction xs arbitrary: x) (auto split: option.splits)
  from this [OF n(1), of "drop 101 ps"] n(2) show ?thesis by simp
qed

end
