(* ===== verification/ServiceScenario.thy ===== *)
theory ServiceScenario
  imports RunnerScenario Service Delivery RunnerServer
begin

text \<open>
  A worked run of the whole service: the submission of the pipeline's worked run is created, claimed by a worker, given its plan,
  executed on the host of the sandbox's worked run, and settled with the judge's verdict; a socket of the user follows it; and the runner's server is asked to cancel it.
\<close>

section \<open>Settlement\<close>

definition v_result :: judged_result where
  "v_result = \<lparr>jr_verdict = TIME_LIMIT_EXCEEDED, jr_runtimeMs = None, jr_memoryKiB = None,
     jr_publicCaseResults = Some [\<lparr>cr_caseId = s_case, cr_verdict = TIME_LIMIT_EXCEEDED, cr_outputTruncated = None,
       cr_stdout = Some [], cr_stderr = Some [], cr_exitCode = None, cr_runtimeMs = None, cr_memoryKiB = None\<rparr>]\<rparr>"

lemma v_judge: "judge (is_uuid s_env) (strip_vt s_env) t_plan RUN Python (Some t_observation) = Inr v_result"
proof -
  have "observationSchema (is_uuid s_env) t_observation"
    by (simp add: observationSchema_def t_observation_def t_observed_def unobserved_def observedCaseSchema_def
        s_env_def s_id_length)
  moreover have "judge_loop (strip_vt s_env) RUN (jp_cases t_plan) (ob_cases t_observation)
      \<lparr>ja_verdict = ACCEPTED, ja_budget = 24576, ja_results = []\<rparr> =
      Inr \<lparr>ja_verdict = TIME_LIMIT_EXCEEDED, ja_budget = 24576, ja_results = the (jr_publicCaseResults v_result)\<rparr>"
    by (simp add: t_plan_def t_observation_def t_observed_def unobserved_def judge_case_step_def current_verdict_def
        project_case_def display_def sanitized_def s_env_def v_result_def)
  ultimately show ?thesis
    by (simp add: judge_def t_select t_observation_def t_observed_def unobserved_def outputBytes_def v_result_def)
      (simp add: t_plan_def)
qed

lemma v_finish: "finish s_env (s_clock 4000) s_lease v_result s_db3 = Inr (True, s_finished_by v_result)"
proof (rule s_finish_by [where x = "hd (the (jr_publicCaseResults v_result))"])
  show "resultSchema s_env v_result"
    by (simp add: resultSchema_def v_result_def s_env_ok worker_verdict_def)
  show "json_bytes (result_json v_result) \<le> MAX_OUTPUT_BYTES"
    by (simp add: result_json_def case_json_def v_result_def MAX_OUTPUT_BYTES_def opt_member_def s_case_def
        json_string_bytes_def json_point_bytes_def js_def of_char_def unit_bytes_def high_surrogate_def low_surrogate_def)
qed (simp_all add: v_result_def)

lemma loadJudgePlan_cong:
  "db_versions d = db_versions d' \<Longrightarrow> db_testCases d = db_testCases d' \<Longrightarrow> loadJudgePlan d v m = loadJudgePlan d' v m"
  unfolding loadJudgePlan_def plan_cases_def by (simp only:)

lemma v_calls: "make_calls (\<lambda>made c. True) (backend_calls RUN v_result) [] = (True, [CallMarkRunning])"
  by (simp add: backend_calls_def console_calls_def v_result_def)

lemma v_backend:
  "\<exists>calls sv'. backend_execute s_env (\<lambda>_ _. Inr t_plan) (client_execute t_host t_manifest (is_uuid s_env) False 10 True)
     (\<lambda>made c. True) s_compiling t_server = ((Inr v_result, calls), sv')"
proof -
  from t_client obtain sv' where
    "client_execute t_host t_manifest (is_uuid s_env) False 10 True t_request t_server = (Inr t_observation, sv')"
    by blast
  moreover have "jp_versionId t_plan = s_version" by (simp add: t_plan_def)
  ultimately show ?thesis
    by (simp add: backend_execute_def t_compiling t_select t_request_of v_judge v_calls)
qed

section \<open>The run is reachable\<close>

definition v_held :: held where
  "v_held = \<lparr>hl_lease = s_lease, hl_execution = s_compiling, hl_plan = None\<rparr>"

abbreviation v_workers :: "held list" where
  "v_workers \<equiv> [v_held\<lparr>hl_plan := Some t_plan\<rparr>, v_held]"

lemma v_reach: "reach service_initial (service_step s_env s_cfg t_manifest) (s_finished_by v_result, v_workers)"
proof -
  let ?R = "reach service_initial (service_step s_env s_cfg t_manifest)"
  have "service_initial (s_catalog, [])"
    using s_initial by (simp add: service_initial_def catalog_initial_def s_catalog_def)
  then have "?R (s_catalog, [])" by (rule reach_init)
  moreover have "routine_step s_env s_cfg s_catalog s_db1" using s_create s_env_ok(2) by (rule routine_create)
  ultimately have "?R (s_db1, [])" by (blast intro: reach_step service_step.background)
  from reach_step [OF this service_step.taken [OF s_claim]] have "?R (s_db2, [v_held])" by (simp add: v_held_def)
  moreover have "loadJudgePlan s_db2 s_version RUN = Inr t_plan"
    unfolding t_load [symmetric] by (rule loadJudgePlan_cong) (simp_all add: s_db2_def s_db1_def)
  then have "service_step s_env s_cfg t_manifest (s_db2, [v_held]) (s_db2, v_workers)"
    using t_compiling by (intro service_step.planned) (simp_all add: v_held_def)
  ultimately have "?R (s_db2, v_workers)" by (rule reach_step)
  from reach_step [OF this service_step.background [OF routine_markRunning [OF s_markRunning]]]
  have "?R (s_db3, v_workers)" .
  moreover from v_backend obtain calls sv' where "backend_execute s_env (\<lambda>_ _. Inr t_plan)
      (client_execute t_host t_manifest (is_uuid s_env) False 10 True) (\<lambda>made c. True) s_compiling t_server =
      ((Inr v_result, calls), sv')" by blast
  then have "service_step s_env s_cfg t_manifest (s_db3, v_workers) (s_finished_by v_result, v_workers)"
    using v_finish by (intro service_step.settled [where x = "v_held\<lparr>hl_plan := Some t_plan\<rparr>"]) (simp_all add: v_held_def)
  ultimately show ?thesis by (rule reach_step)
qed


section \<open>A socket follows the run\<close>

definition v_subscription :: json where
  "v_subscription = JObj [(''executionId'', JStr (js s_id)), (''attempt'', JNum 1), (''afterSequence'', JNum 0)]"

definition v_channel :: channel where
  "v_channel = new_channel (s_clock 0) s_user"

text \<open>The user subscribes while the execution compiles, and is polled once it runs.\<close>

definition v_subscribe :: "channel_event list" where
  "v_subscribe = [Begin (s_clock 2500) True v_subscription, Resume, Resolved (s_clock 2500) (Inr (Some s_user)), Answer]"

definition v_poll :: "channel_event list" where
  "v_poll = [PollStart, PollOpened (Inr (Some s_user)), PollVisit (s_clock 5000), PollSend True]"

lemma live_fold: "reach live_initial (live_step env cfg) (d, ch) \<Longrightarrow>
    reach live_initial (live_step env cfg) (d, fold (channel_step env d) evs ch)"
  by (induction evs arbitrary: ch) (auto intro: reach_step live_step.happens)

lemma v_live:
  "reach live_initial (live_step s_env s_cfg)
     (s_db3, fold (channel_step s_env s_db3) v_poll (fold (channel_step s_env s_db2) v_subscribe v_channel))"
proof -
  let ?R = "reach live_initial (live_step s_env s_cfg)"
  have "live_initial (s_catalog, v_channel)" using s_initial by (auto simp: live_initial_def v_channel_def)
  then have "?R (s_catalog, v_channel)" by (rule reach_init)
  from reach_step [OF this live_step.moves_on [OF step_create [OF s_create s_env_ok(2)]]] have "?R (s_db1, v_channel)" .
  from reach_step [OF this live_step.moves_on [OF step_claim [OF s_claim]]] have "?R (s_db2, v_channel)" .
  from reach_step [OF live_fold [OF this] live_step.moves_on [OF step_markRunning [OF s_markRunning]]] live_fold
  show ?thesis by blast
qed

lemma v_parsed: "executionSubscriptionSchema (is_uuid s_env) v_subscription =
    Some \<lparr>su_executionId = s_id, su_attempt = 1, su_afterSequence = 0\<rparr>"
  by code_simp


section \<open>The runner's server is asked to cancel\<close>

definition v_server :: runner_server where
  "v_server = fold (server_step (is_uuid s_env))
     [Arrive ''POST'' ''/execute'' (Some ''application/json''), BodyEnds 0 (Some (ExecuteInput t_request)),
      Arrive ''POST'' ''/cancel'' (Some ''application/json'')] (new_server t_sup)"

lemma serves_fold:
  "reach server_initial (serves uuid_ok) s \<Longrightarrow> reach server_initial (serves uuid_ok) (fold (server_step uuid_ok) evs s)"
proof (induction evs arbitrary: s)
  case (Cons ev evs)
  have "serves uuid_ok s (server_step uuid_ok ev s)" by (auto simp: serves_def)
  with Cons.prems have "reach server_initial (serves uuid_ok) (server_step uuid_ok ev s)" by (rule reach_step)
  from Cons.IH [OF this] show ?case by simp
qed simp

lemma v_serves: "reach server_initial (serves (is_uuid s_env)) v_server"
proof -
  have "idle t_sup" by (simp add: idle_def t_sup_def)
  then have "server_initial (new_server t_sup)" by (auto simp: server_initial_def)
  then show ?thesis unfolding v_server_def by (intro serves_fold reach_init)
qed

lemma v_requests:
  "rs_requests v_server =
     [\<lparr>rq_id = 1, rq_phase = Reading ''/cancel'' 0, rq_aborted = False, rq_lost = False\<rparr>,
      \<lparr>rq_id = 0, rq_phase = Executing t_request None, rq_aborted = False, rq_lost = False\<rparr>]" "rs_replies v_server = []"
proof -
  have start: "start_execution (is_uuid s_env) t_request t_sup = (Inr (), t_sup\<lparr>su_active := [execution_key t_request]\<rparr>)"
    using t_request_ok by (simp add: start_execution_def t_sup_def)
  show "rs_requests v_server =
     [\<lparr>rq_id = 1, rq_phase = Reading ''/cancel'' 0, rq_aborted = False, rq_lost = False\<rparr>,
      \<lparr>rq_id = 0, rq_phase = Executing t_request None, rq_aborted = False, rq_lost = False\<rparr>]" "rs_replies v_server = []"
    using start t_request_ok
    by (simp_all add: v_server_def new_server_def arrive_def Let_def body_ends_def request_at_def execute_body_of_def set_request_def)
qed

theorem server_tasks_witness: "rs_admitted v_server = 2 \<and> length (su_active (rs_sup v_server)) \<le> 2"
  using server_tasks [OF v_serves] by (simp add: v_requests)

theorem cancel_precise_witness:
  "rs_replies (body_ends (is_uuid s_env) 1 (Some (CancelInput s_id 1)) v_server) = [(1, 200, ReplyRequested True)]"
proof -
  let ?q = "\<lparr>rq_id = 1, rq_phase = Reading ''/cancel'' 0, rq_aborted = False, rq_lost = False\<rparr>"
  have "request_at 1 v_server = Some ?q" by (simp add: request_at_def v_requests)
  from cancel_precise [OF v_serves this, of 0 s_id 1] s_env_ok(2) show ?thesis
    by (simp add: v_requests safe_int_def Let_def execution_key_def t_request_def)
qed

end
