(* ===== verification/Competitions.thy ===== *)
theory Competitions
  imports ProblemAdmin
begin

text \<open>
  Contests and tournaments (\<open>apps/api/src/competitions/competitions.ts\<close> and the competition routes of
  \<open>apps/api/src/admin/admin.ts\<close>): schedules, rounds and their problems, registration, management by the
  owner, and the leaderboard. A leaderboard is shown without the projection of its times to text.
\<close>

section \<open>Input\<close>

record round_input =
  ro_title :: jsstr
  ro_startsAt :: millis
  ro_endsAt :: millis
  ro_problemSlugs :: "string list"

record competition_input =
  ci_slug :: string
  ci_kind :: competitionKind
  ci_title :: jsstr
  ci_description :: jsstr
  ci_rulesMarkdown :: jsstr
  ci_prizeLabel :: "jsstr option"
  ci_startsAt :: millis
  ci_endsAt :: millis
  ci_rounds :: "round_input list"

definition roundSchema :: "round_input \<Rightarrow> bool" where
  "roundSchema r \<longleftrightarrow>
     trimmed_text 2 100 (ro_title r) \<and> list_all slug_ok (ro_problemSlugs r) \<and>
     1 \<le> length (ro_problemSlugs r) \<and> length (ro_problemSlugs r) \<le> 30"

text \<open>At most ten rounds for a user, twenty for an administrator.\<close>

definition competitionSchema :: "nat \<Rightarrow> competition_input \<Rightarrow> bool" where
  "competitionSchema max_rounds i \<longleftrightarrow>
     slug_ok (ci_slug i) \<and> trimmed_text 3 160 (ci_title i) \<and> trimmed_text 10 1000 (ci_description i) \<and>
     trimmed_text 10 20000 (ci_rulesMarkdown i) \<and> opt_all (trimmed_text 0 100) (ci_prizeLabel i) \<and>
     list_all roundSchema (ci_rounds i) \<and> 1 \<le> length (ci_rounds i) \<and> length (ci_rounds i) \<le> max_rounds"

definition createSchema :: "competition_input \<Rightarrow> bool" where
  "createSchema = competitionSchema 10"

definition createCompetitionInput :: "competition_input \<Rightarrow> bool" where
  "createCompetitionInput = competitionSchema 20"

section \<open>Status\<close>

datatype competition_status = CS_UPCOMING | CS_LIVE | CS_FINISHED

definition status :: "millis \<Rightarrow> millis \<Rightarrow> millis \<Rightarrow> competition_status" where
  "status startsAt endsAt now =
     (if now < startsAt then CS_UPCOMING else if endsAt \<le> now then CS_FINISHED else CS_LIVE)"

section \<open>Rows\<close>

definition create_competition_row :: "competition \<Rightarrow> db \<Rightarrow> db result" where
  "create_competition_row c d =
     (if \<not> co_startsAt c < co_endsAt c then Inl (DbError ''competition check constraint'')
      else if \<not> opt_all (\<lambda>u. u \<in> us_id ` set (db_users d)) (co_ownerId c) then Inl (DbError ''P2003'')
      else if co_slug c \<in> co_slug ` set (db_competitions d) then Inl (DbError ''P2002'')
      else map_result (\<lambda>rows. d\<lparr>db_competitions := rows\<rparr>) (insert_by co_id c (db_competitions d)))"

definition create_round_row :: "competition_round \<Rightarrow> db \<Rightarrow> db result" where
  "create_round_row r d =
     (if \<not> rd_startsAt r < rd_endsAt r then Inl (DbError ''round check constraint'')
      else if rd_competitionId r \<notin> co_id ` set (db_competitions d) then Inl (DbError ''P2003'')
      else if (rd_competitionId r, rd_ordinal r) \<in> (\<lambda>x. (rd_competitionId x, rd_ordinal x)) ` set (db_rounds d)
      then Inl (DbError ''P2002'')
      else map_result (\<lambda>rows. d\<lparr>db_rounds := rows\<rparr>) (insert_by rd_id r (db_rounds d)))"

definition cb_key :: "competition_problem \<Rightarrow> uuid \<times> uuid" where
  "cb_key c = (cb_roundId c, cb_problemId c)"

definition create_competition_problem :: "competition_problem \<Rightarrow> db \<Rightarrow> db result" where
  "create_competition_problem c d =
     (if cb_points c \<le> 0 then Inl (DbError ''points check constraint'')
      else if cb_roundId c \<notin> rd_id ` set (db_rounds d) \<or> cb_problemId c \<notin> pr_id ` set (db_problems d) then Inl (DbError ''P2003'')
      else if (cb_roundId c, cb_ordinal c) \<in> (\<lambda>x. (cb_roundId x, cb_ordinal x)) ` set (db_competitionProblems d)
      then Inl (DbError ''P2002'')
      else map_result (\<lambda>rows. d\<lparr>db_competitionProblems := rows\<rparr>) (insert_by cb_key c (db_competitionProblems d)))"

definition rg_key :: "registration \<Rightarrow> uuid \<times> uuid" where
  "rg_key r = (rg_competitionId r, rg_userId r)"

definition create_registration :: "registration \<Rightarrow> db \<Rightarrow> db result" where
  "create_registration r d =
     (if rg_competitionId r \<notin> co_id ` set (db_competitions d) \<or> rg_userId r \<notin> us_id ` set (db_users d) then Inl (DbError ''P2003'')
      else map_result (\<lambda>rows. d\<lparr>db_registrations := rows\<rparr>) (insert_by rg_key r (db_registrations d)))"

text \<open>Rounds go with their problems; an execution that ran in one keeps it.\<close>

definition delete_rounds_of :: "uuid \<Rightarrow> db \<Rightarrow> db result" where
  "delete_rounds_of c d =
     (let gone = map rd_id (filter (\<lambda>r. rd_competitionId r = c) (db_rounds d)) in
      if \<exists>e \<in> set (db_executions d). (case ex_competitionRoundId e of None \<Rightarrow> False | Some r \<Rightarrow> r \<in> set gone) then Inl (DbError ''P2003'')
      else Inr (d\<lparr>db_rounds := filter (\<lambda>r. rd_competitionId r \<noteq> c) (db_rounds d),
                  db_competitionProblems := filter (\<lambda>p. cb_roundId p \<notin> set gone) (db_competitionProblems d)\<rparr>))"

section \<open>Schedules\<close>

definition INVALID_SCHEDULE :: error where
  "INVALID_SCHEDULE = ApiError 400 ''INVALID_SCHEDULE'' None"

definition round_fits :: "millis \<Rightarrow> millis \<Rightarrow> round_input \<Rightarrow> bool" where
  "round_fits startsAt endsAt r \<longleftrightarrow>
     \<not> (ro_startsAt r < startsAt \<or> endsAt < ro_endsAt r \<or> ro_endsAt r \<le> ro_startsAt r)"

definition check_rounds :: "competition_input \<Rightarrow> unit result" where
  "check_rounds i =
     (if ci_kind i = CONTEST \<and> length (ci_rounds i) \<noteq> 1 then Inl (ApiError 400 ''INVALID_ROUNDS'' None)
      else if \<not> list_all (round_fits (ci_startsAt i) (ci_endsAt i)) (ci_rounds i) then Inl INVALID_SCHEDULE
      else Inr ())"

text \<open>The published problems the rounds name, or the refusal when one is missing.\<close>

definition round_problems :: "competition_input \<Rightarrow> db \<Rightarrow> problem list result" where
  "round_problems i d =
     (let slugs = unique (concat (map ro_problemSlugs (ci_rounds i)));
          problems = filter (\<lambda>p. pr_slug p \<in> set slugs \<and> published_version d p \<noteq> None) (db_problems d)
      in if length problems \<noteq> length slugs then Inl (ApiError 400 ''INVALID_PROBLEM'' None) else Inr problems)"

definition problem_of_slug :: "problem list \<Rightarrow> string \<Rightarrow> uuid" where
  "problem_of_slug ps s = (case find_by pr_slug s ps of None \<Rightarrow> '''' | Some p \<Rightarrow> pr_id p)"

definition create_round :: "uuid \<Rightarrow> problem list \<Rightarrow> (nat \<Rightarrow> uuid) \<Rightarrow> nat \<times> round_input \<Rightarrow> db \<Rightarrow> db result" where
  "create_round competitionId ps newId x d =
     (case x of (index, r) \<Rightarrow>
       bind_result (create_round_row
           \<lparr>rd_id = newId index, rd_competitionId = competitionId, rd_title = ro_title r, rd_ordinal = int index + 1,
            rd_startsAt = ro_startsAt r, rd_endsAt = ro_endsAt r\<rparr> d)
         (fold_result (\<lambda>(ordinal, s). create_competition_problem
             \<lparr>cb_roundId = newId index, cb_problemId = problem_of_slug ps s, cb_ordinal = int ordinal + 1, cb_points = 100\<rparr>)
           (enumerate 0 (ro_problemSlugs r))))"

definition create_rounds :: "uuid \<Rightarrow> problem list \<Rightarrow> (nat \<Rightarrow> uuid) \<Rightarrow> round_input list \<Rightarrow> db \<Rightarrow> db result" where
  "create_rounds competitionId ps newId rounds d =
     fold_result (create_round competitionId ps newId) (enumerate 0 rounds) d"

definition competition_row :: "uuid \<Rightarrow> uuid option \<Rightarrow> bool \<Rightarrow> competition_input \<Rightarrow> competition" where
  "competition_row i owner published input =
     \<lparr>co_id = i, co_slug = ci_slug input, co_kind = ci_kind input, co_title = ci_title input,
      co_description = ci_description input, co_rulesMarkdown = ci_rulesMarkdown input,
      co_prizeLabel = ci_prizeLabel input, co_startsAt = ci_startsAt input, co_endsAt = ci_endsAt input,
      co_published = published, co_ownerId = owner\<rparr>"

definition SLUG_TAKEN :: error where
  "SLUG_TAKEN = ApiError 409 ''SLUG_TAKEN'' None"

section \<open>Creation by a user\<close>

definition managed_active :: "millis \<Rightarrow> uuid \<Rightarrow> db \<Rightarrow> competition list" where
  "managed_active now userId d = filter (\<lambda>c. co_ownerId c = Some userId \<and> now < co_endsAt c) (db_competitions d)"

definition create_competition ::
    "clock \<Rightarrow> uuid \<Rightarrow> (nat \<Rightarrow> uuid) \<Rightarrow> uuid \<Rightarrow> competition_input \<Rightarrow> db \<Rightarrow> uuid tx" where
  "create_competition ck newId newRoundId userId input d =
     (let now = ck_host ck in
      if ci_startsAt input < now + 5 * 60000 then Inl INVALID_SCHEDULE
      else if ci_endsAt input \<le> ci_startsAt input then Inl INVALID_SCHEDULE
      else bind_result (check_rounds input) (\<lambda>_.
           bind_result (round_problems input d) (\<lambda>ps.
           on_P2002 SLUG_TAKEN
             (if 5 \<le> length (managed_active now userId d) then Inl (ApiError 429 ''COMPETITION_LIMIT'' None)
              else bind_result (create_competition_row (competition_row newId (Some userId) True input) d) (\<lambda>d1.
                   bind_result (create_rounds newId ps newRoundId (ci_rounds input) d1) (\<lambda>d2.
                   map_result (\<lambda>d3. (newId, audit userId ''USER_COMPETITION_CREATE'' newId d3))
                     (create_registration \<lparr>rg_competitionId = newId, rg_userId = userId, rg_joinedAt = ck_host ck\<rparr> d2)))))))"

section \<open>Views\<close>

definition registration_count :: "db \<Rightarrow> uuid \<Rightarrow> nat" where
  "registration_count d c = length (filter (\<lambda>r. rg_competitionId r = c) (db_registrations d))"

definition rounds_of :: "db \<Rightarrow> uuid \<Rightarrow> competition_round list" where
  "rounds_of d c = filter (\<lambda>r. rd_competitionId r = c) (db_rounds d)"

definition co_key :: "competition \<Rightarrow> millis \<times> uuid" where
  "co_key c = (co_startsAt c, co_id c)"

record competition_item =
  cm_id :: uuid
  cm_slug :: string
  cm_kind :: competitionKind
  cm_title :: jsstr
  cm_description :: jsstr
  cm_prizeLabel :: "jsstr option"
  cm_startsAt :: millis
  cm_endsAt :: millis
  cm_status :: competition_status
  cm_registrations :: nat
  cm_rounds :: nat

definition competition_item_of :: "millis \<Rightarrow> db \<Rightarrow> competition \<Rightarrow> competition_item" where
  "competition_item_of now d c =
     \<lparr>cm_id = co_id c, cm_slug = co_slug c, cm_kind = co_kind c, cm_title = co_title c, cm_description = co_description c,
      cm_prizeLabel = co_prizeLabel c, cm_startsAt = co_startsAt c, cm_endsAt = co_endsAt c,
      cm_status = status (co_startsAt c) (co_endsAt c) now, cm_registrations = registration_count d (co_id c),
      cm_rounds = length (rounds_of d (co_id c))\<rparr>"

definition list_competitions :: "millis \<Rightarrow> competitionKind option \<Rightarrow> db \<Rightarrow> competition_item list" where
  "list_competitions now kind d =
     map (competition_item_of now d)
       (sort_key co_key (filter (\<lambda>c. co_published c \<and> opt_all (\<lambda>k. co_kind c = k) kind) (db_competitions d)))"

text \<open>The listings of an owner and of an administrator, newest first; only the owner's has the status.\<close>

record managed_item =
  mi_id :: uuid
  mi_slug :: string
  mi_kind :: competitionKind
  mi_title :: jsstr
  mi_published :: bool
  mi_startsAt :: millis
  mi_endsAt :: millis
  mi_registrations :: nat
  mi_rounds :: nat

definition managed_item_of :: "db \<Rightarrow> competition \<Rightarrow> managed_item" where
  "managed_item_of d c =
     \<lparr>mi_id = co_id c, mi_slug = co_slug c, mi_kind = co_kind c, mi_title = co_title c, mi_published = co_published c,
      mi_startsAt = co_startsAt c, mi_endsAt = co_endsAt c, mi_registrations = registration_count d (co_id c),
      mi_rounds = length (rounds_of d (co_id c))\<rparr>"

definition mine :: "millis \<Rightarrow> uuid \<Rightarrow> db \<Rightarrow> (managed_item \<times> competition_status) list" where
  "mine now userId d =
     map (\<lambda>c. (managed_item_of d c, status (co_startsAt c) (co_endsAt c) now))
       (rev (sort_key co_key (filter (\<lambda>c. co_ownerId c = Some userId) (db_competitions d))))"

definition admin_competitions :: "db \<Rightarrow> managed_item list" where
  "admin_competitions d = map (managed_item_of d) (rev (sort_key co_key (db_competitions d)))"

record round_problem =
  rq_id :: uuid
  rq_slug :: string
  rq_title :: jsstr
  rq_difficulty :: difficulty
  rq_tags :: "string list"
  rq_points :: int
  rq_ordinal :: int

record round_view =
  rv_id :: uuid
  rv_title :: jsstr
  rv_ordinal :: int
  rv_startsAt :: millis
  rv_endsAt :: millis
  rv_status :: competition_status
  rv_problems :: "round_problem list"

record competition_view =
  cv_item :: competition_item
  cv_rulesMarkdown :: jsstr
  cv_roundViews :: "round_view list"

record management_view = competition_view +
  cv_published :: bool
  cv_ownerId :: "uuid option"

text \<open>A problem without a current version is left out of the round.\<close>

definition round_problem_of :: "db \<Rightarrow> competition_problem \<Rightarrow> round_problem option" where
  "round_problem_of d c =
     Option.bind (find_problem d (cb_problemId c)) (\<lambda>p. Option.bind (pr_currentVersionId p) (\<lambda>i.
       map_option (\<lambda>v. \<lparr>rq_id = pr_id p, rq_slug = pr_slug p, rq_title = vn_title v, rq_difficulty = vn_difficulty v,
           rq_tags = vn_tags v, rq_points = cb_points c, rq_ordinal = cb_ordinal c\<rparr>) (find_version d i)))"

definition problems_of_round :: "db \<Rightarrow> uuid \<Rightarrow> competition_problem list" where
  "problems_of_round d r = filter (\<lambda>c. cb_roundId c = r) (db_competitionProblems d)"

definition round_view_of :: "millis \<Rightarrow> db \<Rightarrow> competition_round \<Rightarrow> round_view" where
  "round_view_of now d r =
     \<lparr>rv_id = rd_id r, rv_title = rd_title r, rv_ordinal = rd_ordinal r, rv_startsAt = rd_startsAt r, rv_endsAt = rd_endsAt r,
      rv_status = status (rd_startsAt r) (rd_endsAt r) now,
      rv_problems = List.map_filter (round_problem_of d) (sort_key cb_ordinal (problems_of_round d (rd_id r)))\<rparr>"

definition round_views :: "millis \<Rightarrow> db \<Rightarrow> competition \<Rightarrow> round_view list" where
  "round_views now d c = map (round_view_of now d) (sort_key rd_ordinal (rounds_of d (co_id c)))"

definition published_competition :: "string \<Rightarrow> db \<Rightarrow> competition result" where
  "published_competition slug d =
     (case find (\<lambda>c. co_slug c = slug \<and> co_published c) (db_competitions d) of None \<Rightarrow> Inl NOT_FOUND | Some c \<Rightarrow> Inr c)"

definition competition_detail :: "millis \<Rightarrow> string \<Rightarrow> db \<Rightarrow> competition_view result" where
  "competition_detail now slug d =
     map_result (\<lambda>c. \<lparr>cv_item = competition_item_of now d c, cv_rulesMarkdown = co_rulesMarkdown c,
         cv_roundViews = round_views now d c\<rparr>) (published_competition slug d)"

section \<open>Registration\<close>

definition find_registration :: "uuid \<Rightarrow> uuid \<Rightarrow> db \<Rightarrow> registration option" where
  "find_registration c u d = find_by rg_key (c, u) (db_registrations d)"

definition upsert_registration :: "clock \<Rightarrow> uuid \<Rightarrow> uuid \<Rightarrow> db \<Rightarrow> registration tx" where
  "upsert_registration ck c u d =
     (case find_registration c u d of
        Some r \<Rightarrow> Inr (r, d)
      | None \<Rightarrow> let r = \<lparr>rg_competitionId = c, rg_userId = u, rg_joinedAt = ck_host ck\<rparr>
                in map_result (Pair r) (create_registration r d))"

definition registration_notification :: "clock \<Rightarrow> uuid \<Rightarrow> uuid \<Rightarrow> competition \<Rightarrow> notification" where
  "registration_notification ck newId userId c =
     \<lparr>nt_id = newId, nt_userId = userId, nt_kind = ''COMPETITION_REGISTRATION'',
      nt_title = js ''Competition registration confirmed'',
      nt_body = js ''You are registered for '' @ co_title c @ js ''.'',
      nt_href = Some (''/'' @ (if co_kind c = CONTEST then ''contests'' else ''tournaments'') @ ''/'' @ co_slug c),
      nt_dedupeKey = Some (''competition:'' @ co_id c @ '':registration''), nt_readAt = None, nt_createdAt = ck_host ck\<rparr>"

definition register :: "clock \<Rightarrow> uuid \<Rightarrow> uuid \<Rightarrow> string \<Rightarrow> db \<Rightarrow> millis tx" where
  "register ck newId userId slug d =
     bind_result (published_competition slug d) (\<lambda>c.
       if co_endsAt c \<le> ck_host ck then Inl (ApiError 409 ''REGISTRATION_CLOSED'' None)
       else bind_result (upsert_registration ck (co_id c) userId d) (\<lambda>(r, d1).
         case find_user d1 userId of
           None \<Rightarrow> Inl (DbError ''P2025'')
         | Some u \<Rightarrow>
             map_result (Pair (rg_joinedAt r))
               (if us_competitionNotifications u then insert_notification (registration_notification ck newId userId c) d1
                else Inr d1)))"

definition registration_status :: "uuid \<Rightarrow> string \<Rightarrow> db \<Rightarrow> millis option result" where
  "registration_status userId slug d =
     map_result (\<lambda>c. map_option rg_joinedAt (find_registration (co_id c) userId d)) (published_competition slug d)"

section \<open>Management\<close>

text \<open>Only the owner and administrators get past \<open>managed\<close>.\<close>

definition managed :: "uuid \<Rightarrow> role \<Rightarrow> string \<Rightarrow> db \<Rightarrow> competition result" where
  "managed userId role slug d =
     (case find_by co_slug slug (db_competitions d) of
        None \<Rightarrow> Inl NOT_FOUND
      | Some c \<Rightarrow>
          if role \<noteq> ADMIN \<and> co_ownerId c \<noteq> Some userId then Inl (ApiError 403 ''ORGANIZER_REQUIRED'' None) else Inr c)"

definition management :: "millis \<Rightarrow> uuid \<Rightarrow> role \<Rightarrow> string \<Rightarrow> db \<Rightarrow> management_view result" where
  "management now userId role slug d =
     map_result (\<lambda>c. \<lparr>cv_item = competition_item_of now d c, cv_rulesMarkdown = co_rulesMarkdown c,
         cv_roundViews = round_views now d c, cv_published = co_published c, cv_ownerId = co_ownerId c\<rparr>)
       (managed userId role slug d)"

definition registrations :: "uuid \<Rightarrow> role \<Rightarrow> string \<Rightarrow> db \<Rightarrow> (string \<times> jsstr \<times> millis) list result" where
  "registrations userId role slug d =
     map_result (\<lambda>c. List.map_filter (\<lambda>r. map_option (\<lambda>u. (us_username u, us_displayName u, rg_joinedAt r)) (find_user d (rg_userId r)))
         (sort_key (\<lambda>r. (rg_joinedAt r, rg_userId r)) (filter (\<lambda>r. rg_competitionId r = co_id c) (db_registrations d))))
       (managed userId role slug d)"

text \<open>The submissions made in a round of the competition.\<close>

definition in_competition :: "db \<Rightarrow> uuid \<Rightarrow> execution \<Rightarrow> bool" where
  "in_competition d c e \<longleftrightarrow>
     ex_mode e = SUBMIT \<and>
     (case ex_competitionRoundId e of None \<Rightarrow> False | Some r \<Rightarrow> r \<in> rd_id ` set (rounds_of d c))"

record contest_submission =
  cu_execution :: execution
  cu_username :: string
  cu_displayName :: jsstr
  cu_round :: jsstr
  cu_problemSlug :: string
  cu_problemTitle :: jsstr

definition contest_submission_of :: "db \<Rightarrow> execution \<Rightarrow> contest_submission option" where
  "contest_submission_of d e =
     Option.bind (find_user d (ex_userId e)) (\<lambda>u.
     Option.bind (Option.bind (ex_competitionRoundId e) (\<lambda>r. find_by rd_id r (db_rounds d))) (\<lambda>r.
     Option.bind (find_version d (ex_problemVersionId e)) (\<lambda>v.
       map_option (\<lambda>p. \<lparr>cu_execution = e, cu_username = us_username u, cu_displayName = us_displayName u,
           cu_round = rd_title r, cu_problemSlug = pr_slug p, cu_problemTitle = vn_title v\<rparr>)
         (find_problem d (vn_problemId v)))))"

definition competition_submissions :: "uuid \<Rightarrow> role \<Rightarrow> string \<Rightarrow> db \<Rightarrow> contest_submission list result" where
  "competition_submissions userId role slug d =
     map_result (\<lambda>c. List.map_filter (contest_submission_of d)
         (take 200 (rev (sort_key (\<lambda>e. (ex_createdAt e, ex_id e)) (filter (in_competition d (co_id c)) (db_executions d))))))
       (managed userId role slug d)"

definition put_competition :: "uuid \<Rightarrow> (competition \<Rightarrow> competition) \<Rightarrow> db \<Rightarrow> db" where
  "put_competition i f d = d\<lparr>db_competitions := update_by co_id i f (db_competitions d)\<rparr>"

text \<open>\<open>tx.competition.update\<close> with the columns \<open>update\<close> writes; an absent prize label is left as it is.\<close>

definition rewrite_competition :: "competition_input \<Rightarrow> competition \<Rightarrow> competition" where
  "rewrite_competition i c =
     c\<lparr>co_kind := ci_kind i, co_title := ci_title i, co_description := ci_description i,
       co_rulesMarkdown := ci_rulesMarkdown i,
       co_prizeLabel := (case ci_prizeLabel i of None \<Rightarrow> co_prizeLabel c | Some p \<Rightarrow> Some p),
       co_startsAt := ci_startsAt i, co_endsAt := ci_endsAt i\<rparr>"

definition update_competition ::
    "clock \<Rightarrow> (nat \<Rightarrow> uuid) \<Rightarrow> uuid \<Rightarrow> role \<Rightarrow> string \<Rightarrow> competition_input \<Rightarrow> db \<Rightarrow> uuid tx" where
  "update_competition ck newRoundId userId role slug input d =
     bind_result (managed userId role slug d) (\<lambda>current.
       if ci_slug input \<noteq> slug then Inl (ApiError 409 ''SLUG_IMMUTABLE'' None)
       else if co_startsAt current \<le> ck_host ck then Inl (ApiError 409 ''COMPETITION_STARTED'' None)
       else if ci_startsAt input < ck_host ck + 60000 \<or> ci_endsAt input \<le> ci_startsAt input then Inl INVALID_SCHEDULE
       else bind_result (check_rounds input) (\<lambda>_.
            bind_result (round_problems input d) (\<lambda>ps.
            bind_result (delete_rounds_of (co_id current) d) (\<lambda>d1.
            map_result (\<lambda>d2. (co_id current,
                audit userId (if role = ADMIN then ''ADMIN_COMPETITION_UPDATE'' else ''OWNER_COMPETITION_UPDATE'') (co_id current) d2))
              (create_rounds (co_id current) ps newRoundId (ci_rounds input)
                (put_competition (co_id current) (rewrite_competition input) d1))))))"

section \<open>Administration\<close>

definition setCompetitionPublication :: "uuid \<Rightarrow> uuid \<Rightarrow> bool \<Rightarrow> db \<Rightarrow> bool tx" where
  "setCompetitionPublication actorId i published d =
     (if i \<notin> co_id ` set (db_competitions d) then Inl NOT_FOUND
      else Inr (published, audit actorId (if published then ''COMPETITION_PUBLISH'' else ''COMPETITION_UNPUBLISH'') i
                  (put_competition i (\<lambda>c. c\<lparr>co_published := published\<rparr>) d)))"

definition delete_competition_row :: "uuid \<Rightarrow> db \<Rightarrow> db result" where
  "delete_competition_row i d =
     map_result (\<lambda>d1. d1\<lparr>db_competitions := filter (\<lambda>c. co_id c \<noteq> i) (db_competitions d1),
         db_registrations := filter (\<lambda>r. rg_competitionId r \<noteq> i) (db_registrations d1)\<rparr>) (delete_rounds_of i d)"

definition round_used :: "db \<Rightarrow> competition_round \<Rightarrow> bool" where
  "round_used d r \<longleftrightarrow> list_ex (\<lambda>e. ex_competitionRoundId e = Some (rd_id r)) (db_executions d)"

definition deleteCompetition :: "uuid \<Rightarrow> uuid \<Rightarrow> db \<Rightarrow> db result" where
  "deleteCompetition actorId i d =
     (if i \<notin> co_id ` set (db_competitions d) then Inl NOT_FOUND
      else if list_ex (round_used d) (rounds_of d i) then Inl (ApiError 409 ''COMPETITION_IN_USE'' None)
      else map_result (audit actorId ''COMPETITION_DELETE'' i) (delete_competition_row i d))"

definition createCompetition ::
    "uuid \<Rightarrow> (nat \<Rightarrow> uuid) \<Rightarrow> uuid \<Rightarrow> competition_input \<Rightarrow> bool \<Rightarrow> db \<Rightarrow> uuid tx" where
  "createCompetition newId newRoundId actorId input published d =
     (if ci_endsAt input \<le> ci_startsAt input then Inl INVALID_SCHEDULE
      else bind_result (check_rounds input) (\<lambda>_.
           bind_result (round_problems input d) (\<lambda>ps.
           on_P2002 SLUG_TAKEN
             (bind_result (create_competition_row (competition_row newId None published input) d) (\<lambda>d1.
              map_result (\<lambda>d2. (newId, audit actorId (if published then ''COMPETITION_PUBLISH'' else ''COMPETITION_DRAFT_CREATE'') newId d2))
                (create_rounds newId ps newRoundId (ci_rounds input) d1))))))"

end
