(* ===== verification/Seed.thy ===== *)
theory Seed
  imports CatalogSafety Competitions
begin

text \<open>
  The sample data (\<open>apps/api/src/database/sample-seed.ts\<close>): one problem with its version and tests, and two competitions. \<open>seed\<close> is
  one transaction; it creates the problem or verifies that it is the one it would create, and brings the competitions up to
  date, moving their dates only when nobody takes part. The identifiers of the test cases, which the database
  draws, are an argument.
\<close>

section \<open>The sample\<close>

definition sampleProblemId :: uuid where "sampleProblemId = ''00000000-0000-4000-8000-000000000001''"
definition sampleVersionId :: uuid where "sampleVersionId = ''00000000-0000-4000-8000-000000000002''"
definition contestId :: uuid where "contestId = ''00000000-0000-4000-8000-000000000010''"
definition contestRoundId :: uuid where "contestRoundId = ''00000000-0000-4000-8000-000000000011''"
definition tournamentId :: uuid where "tournamentId = ''00000000-0000-4000-8000-000000000020''"
definition tournamentRoundId :: uuid where "tournamentRoundId = ''00000000-0000-4000-8000-000000000021''"

definition text_lines :: "string list \<Rightarrow> jsstr" where
  "text_lines ls = js (concat (map (\<lambda>l. l @ [CHR 0x0A]) ls))"

definition quoted :: "string \<Rightarrow> string" where
  "quoted s = CHR 0x27 # s @ [CHR 0x27]"

record seed_case =
  sm_ordinal :: int
  sm_visibility :: visibility
  sm_input :: jsstr
  sm_expectedOutput :: jsstr

definition sample_cases :: "seed_case list" where
  "sample_cases =
     [\<lparr>sm_ordinal = 0, sm_visibility = PUBLIC, sm_input = text_lines [''2 3''], sm_expectedOutput = text_lines [''5'']\<rparr>,
      \<lparr>sm_ordinal = 1, sm_visibility = PUBLIC, sm_input = text_lines [''-2 8''], sm_expectedOutput = text_lines [''6'']\<rparr>,
      \<lparr>sm_ordinal = 2, sm_visibility = HIDDEN, sm_input = text_lines [''1000000000 1000000000''],
       sm_expectedOutput = text_lines [''2000000000'']\<rparr>]"

definition sample_templates :: json where
  "sample_templates = JObj
     [(''java'', JStr (text_lines [''import java.util.Scanner;'', ''public class Solution {'',
         ''  public static void main(String[] args) {'', ''    Scanner scanner = new Scanner(System.in);'',
         ''    long a = scanner.nextLong();'', ''    long b = scanner.nextLong();'', ''    // Print the sum.'', ''  }'', ''}''])),
      (''python'', JStr (text_lines [''import sys'', ''a, b = map(int, sys.stdin.read().split())'', ''# Print the sum.''])),
      (''javascript'', JStr (text_lines [''const fs = require('' @ quoted ''node:fs'' @ '');'',
         ''const [a, b] = fs.readFileSync(0, '' @ quoted ''utf8'' @ '').trim().split(/'' @ [CHR 0x5C] @ ''s+/).map(Number);'',
         ''// Print the sum.'']))]"

definition sample_version :: version where
  "sample_version =
     \<lparr>vn_id = sampleVersionId, vn_problemId = sampleProblemId, vn_number = 1, vn_published = False,
      vn_title = js ''Sum Two Numbers'', vn_difficulty = EASY, vn_tags = [''math'', ''stdin''],
      vn_statementMarkdown = js ''Read two integers from standard input and print their sum followed by a newline.'',
      vn_constraints = [js ''-1000000000 <= a, b <= 1000000000''], vn_timeMs = 2000, vn_memoryKiB = 262144,
      vn_templates = sample_templates, vn_inputMode = STDIN, vn_comparator = ''EXACT_NEWLINE''\<rparr>"

definition sample_test :: "(nat \<Rightarrow> uuid) \<Rightarrow> nat \<times> seed_case \<Rightarrow> test_case" where
  "sample_test ids x =
     \<lparr>tc_id = ids (fst x), tc_problemVersionId = sampleVersionId, tc_ordinal = sm_ordinal (snd x),
      tc_visibility = sm_visibility (snd x), tc_input = sm_input (snd x), tc_expectedOutput = sm_expectedOutput (snd x), tc_files = []\<rparr>"

section \<open>The competitions\<close>

record seed_event =
  sd_id :: uuid
  sd_roundId :: uuid
  sd_slug :: string
  sd_kind :: competitionKind
  sd_title :: jsstr
  sd_description :: jsstr
  sd_rulesMarkdown :: jsstr
  sd_prizeLabel :: jsstr
  sd_startOffsetDays :: int
  sd_durationDays :: int
  sd_roundTitle :: jsstr

definition seed_events :: "seed_event list" where
  "seed_events =
     [\<lparr>sd_id = contestId, sd_roundId = contestRoundId, sd_slug = ''weekend-sprint'', sd_kind = CONTEST,
       sd_title = js ''Weekend Sprint'', sd_description = js ''A focused timed contest for practicing speed and accuracy.'',
       sd_rulesMarkdown = js ''Solve the published problems during the event. Highest score wins; ties use the lowest penalty.'',
       sd_prizeLabel = js ''1,000 XP'', sd_startOffsetDays = 7, sd_durationDays = 0, sd_roundTitle = js ''Main round''\<rparr>,
      \<lparr>sd_id = tournamentId, sd_roundId = tournamentRoundId, sd_slug = ''arena-open'', sd_kind = TOURNAMENT,
       sd_title = js ''Arena Open'', sd_description = js ''A multi-round tournament that rewards consistent problem solving.'',
       sd_rulesMarkdown = js ''Register before the final round ends. Scores come from accepted submissions during active tournament rounds.'',
       sd_prizeLabel = js ''5,000 XP'', sd_startOffsetDays = 14, sd_durationDays = 7, sd_roundTitle = js ''Qualifier''\<rparr>]"

definition seed_startsAt :: "millis \<Rightarrow> seed_event \<Rightarrow> millis" where
  "seed_startsAt now ev = now + sd_startOffsetDays ev * 86400000"

definition seed_endsAt :: "millis \<Rightarrow> seed_event \<Rightarrow> millis" where
  "seed_endsAt now ev = now + (sd_startOffsetDays ev + sd_durationDays ev) * 86400000 + 2 * 3600000"

definition find_competition :: "string \<Rightarrow> db \<Rightarrow> competition option" where
  "find_competition slug d = find_by co_slug slug (db_competitions d)"

definition mayReschedule :: "millis \<Rightarrow> db \<Rightarrow> competition option \<Rightarrow> bool" where
  "mayReschedule now d existing =
     (case existing of
        None \<Rightarrow> True
      | Some c \<Rightarrow> co_endsAt c \<le> now \<and> registration_count d (co_id c) = 0 \<and> list_all (\<lambda>r. \<not> round_used d r) (rounds_of d (co_id c)))"

definition upsert_competition :: "millis \<Rightarrow> bool \<Rightarrow> seed_event \<Rightarrow> db \<Rightarrow> db result" where
  "upsert_competition now may ev d =
     (case find_competition (sd_slug ev) d of
        None \<Rightarrow> create_competition_row
          \<lparr>co_id = sd_id ev, co_slug = sd_slug ev, co_kind = sd_kind ev, co_title = sd_title ev, co_description = sd_description ev,
           co_rulesMarkdown = sd_rulesMarkdown ev, co_prizeLabel = Some (sd_prizeLabel ev), co_startsAt = seed_startsAt now ev,
           co_endsAt = seed_endsAt now ev, co_published = True, co_ownerId = None\<rparr> d
      | Some _ \<Rightarrow> Inr (d\<lparr>db_competitions := update_by co_slug (sd_slug ev)
          (\<lambda>c. c\<lparr>co_title := sd_title ev, co_description := sd_description ev, co_rulesMarkdown := sd_rulesMarkdown ev,
                co_prizeLabel := Some (sd_prizeLabel ev), co_published := True,
                co_startsAt := (if may then seed_startsAt now ev else co_startsAt c),
                co_endsAt := (if may then seed_endsAt now ev else co_endsAt c)\<rparr>) (db_competitions d)\<rparr>))"

definition rd_key :: "competition_round \<Rightarrow> uuid \<times> int" where
  "rd_key r = (rd_competitionId r, rd_ordinal r)"

definition upsert_round :: "millis \<Rightarrow> bool \<Rightarrow> seed_event \<Rightarrow> db \<Rightarrow> db result" where
  "upsert_round now may ev d =
     (case find_by rd_key (sd_id ev, 1) (db_rounds d) of
        None \<Rightarrow> create_round_row
          \<lparr>rd_id = sd_roundId ev, rd_competitionId = sd_id ev, rd_title = sd_roundTitle ev, rd_ordinal = 1,
           rd_startsAt = seed_startsAt now ev, rd_endsAt = seed_endsAt now ev\<rparr> d
      | Some _ \<Rightarrow> Inr (d\<lparr>db_rounds := update_by rd_key (sd_id ev, 1)
          (\<lambda>r. r\<lparr>rd_title := sd_roundTitle ev, rd_startsAt := (if may then seed_startsAt now ev else rd_startsAt r),
                rd_endsAt := (if may then seed_endsAt now ev else rd_endsAt r)\<rparr>) (db_rounds d)\<rparr>))"

text \<open>The unique index on the round and the ordinal also guards the update.\<close>

definition upsert_round_problem :: "seed_event \<Rightarrow> db \<Rightarrow> db result" where
  "upsert_round_problem ev d =
     (case find_by cb_key (sd_roundId ev, sampleProblemId) (db_competitionProblems d) of
        None \<Rightarrow> create_competition_problem
          \<lparr>cb_roundId = sd_roundId ev, cb_problemId = sampleProblemId, cb_ordinal = 1, cb_points = 100\<rparr> d
      | Some _ \<Rightarrow>
          if \<exists>x \<in> set (db_competitionProblems d). cb_roundId x = sd_roundId ev \<and> cb_problemId x \<noteq> sampleProblemId \<and> cb_ordinal x = 1
          then Inl (DbError ''P2002'')
          else Inr (d\<lparr>db_competitionProblems := update_by cb_key (sd_roundId ev, sampleProblemId)
            (\<lambda>x. x\<lparr>cb_ordinal := 1, cb_points := 100\<rparr>) (db_competitionProblems d)\<rparr>))"

definition seed_competition :: "millis \<Rightarrow> seed_event \<Rightarrow> db \<Rightarrow> db result" where
  "seed_competition now ev d =
     (let may = mayReschedule now d (find_competition (sd_slug ev) d)
      in bind_result (upsert_competition now may ev d) (\<lambda>d1.
         bind_result (upsert_round now may ev d1) (upsert_round_problem ev)))"

definition seedCompetitions :: "millis \<Rightarrow> db \<Rightarrow> db result" where
  "seedCompetitions now = fold_result (seed_competition now) seed_events"

section \<open>The transaction\<close>

definition sample_matches :: "test_case list \<Rightarrow> bool" where
  "sample_matches ts \<longleftrightarrow>
     length ts = length sample_cases \<and>
     list_all2 (\<lambda>t e. tc_ordinal t = sm_ordinal e \<and> tc_visibility t = sm_visibility e \<and> tc_input t = sm_input e \<and>
       tc_expectedOutput t = sm_expectedOutput e) ts sample_cases"

definition sample_exact :: "db \<Rightarrow> problem \<Rightarrow> bool" where
  "sample_exact d p \<longleftrightarrow>
     pr_id p = sampleProblemId \<and> pr_currentVersionId p = Some sampleVersionId \<and>
     (case find (\<lambda>v. vn_id v = sampleVersionId) (versions_of d (pr_id p)) of
        None \<Rightarrow> False
      | Some v \<Rightarrow> vn_published v \<and> vn_comparator v = ''EXACT_NEWLINE'' \<and> vn_timeMs v = 2000 \<and> vn_memoryKiB v = 262144 \<and>
          sample_matches (sort_key tc_ordinal (cases_of d (vn_id v))))"

datatype seeded = Verified | Created

definition create_sample :: "clock \<Rightarrow> (nat \<Rightarrow> uuid) \<Rightarrow> db \<Rightarrow> db result" where
  "create_sample ck ids d =
     bind_result (create_problem_row
         \<lparr>pr_id = sampleProblemId, pr_slug = ''sum-two-numbers'', pr_currentVersionId = None, pr_createdAt = ck_host ck\<rparr> d) (\<lambda>d1.
     bind_result (create_version_row sample_version d1) (\<lambda>d2.
     bind_result (fold_result create_test_row (map (sample_test ids) (enumerate 0 sample_cases)) d2) (\<lambda>d3.
     bind_result (publish_version sampleVersionId d3) (\<lambda>d4.
     set_current_version sampleProblemId (Some sampleVersionId) d4))))"

definition seed :: "clock \<Rightarrow> (nat \<Rightarrow> uuid) \<Rightarrow> db \<Rightarrow> seeded tx" where
  "seed ck ids d =
     (case find_by pr_slug ''sum-two-numbers'' (db_problems d) of
        Some p \<Rightarrow>
          if \<not> sample_exact d p then Inl (PlainError ''SAMPLE_SEED_CONFLICT'')
          else map_result (Pair Verified) (seedCompetitions (ck_host ck) d)
      | None \<Rightarrow> bind_result (create_sample ck ids d) (\<lambda>d1. map_result (Pair Created) (seedCompetitions (ck_host ck) d1)))"

section \<open>The competitions are brought up to date\<close>

definition beside :: "db \<Rightarrow> db \<Rightarrow> bool" where
  "beside d d' \<longleftrightarrow> (\<exists>cs rs ps. d' = d\<lparr>db_competitions := cs, db_rounds := rs, db_competitionProblems := ps\<rparr>)"

lemma besideI:
  "beside d d" "beside d (d\<lparr>db_competitions := cs\<rparr>)" "beside d (d\<lparr>db_rounds := rs\<rparr>)" "beside d (d\<lparr>db_competitionProblems := ps\<rparr>)"
  unfolding beside_def
  by (rule exI [of _ "db_competitions d"] exI [of _ cs], rule exI [of _ "db_rounds d"] exI [of _ rs],
      rule exI [of _ "db_competitionProblems d"] exI [of _ ps], simp)+

lemma beside_trans: "beside a b \<Longrightarrow> beside b c \<Longrightarrow> beside a c"
  by (auto simp: beside_def) blast

lemma upserts_beside:
  "upsert_competition now may ev d = Inr d' \<Longrightarrow> beside d d'"
  "upsert_round now may ev d = Inr d' \<Longrightarrow> beside d d'"
  "upsert_round_problem ev d = Inr d' \<Longrightarrow> beside d d'"
  by (auto simp: upsert_competition_def create_competition_row_def upsert_round_def create_round_row_def upsert_round_problem_def
      create_competition_problem_def result_simps besideI split: option.splits if_splits)

lemma seed_competition_beside: "seed_competition now ev d = Inr d' \<Longrightarrow> beside d d'"
  by (auto simp: seed_competition_def Let_def result_simps)
    (meson upserts_beside beside_trans)

lemma seedCompetitions_beside: "seedCompetitions now d = Inr d' \<Longrightarrow> beside d d'"
  unfolding seedCompetitions_def
  by (erule fold_result_invariant [where P = "beside d"]) (auto intro: besideI beside_trans seed_competition_beside)

text \<open>What a run leaves for the next one to find.\<close>

definition up_to_date :: "db \<Rightarrow> seed_event \<Rightarrow> bool" where
  "up_to_date d ev \<longleftrightarrow>
     find_competition (sd_slug ev) d \<noteq> None \<and> find_by rd_key (sd_id ev, 1) (db_rounds d) \<noteq> None \<and>
     find_by cb_key (sd_roundId ev, sampleProblemId) (db_competitionProblems d) \<noteq> None \<and>
     \<not> (\<exists>x \<in> set (db_competitionProblems d). cb_roundId x = sd_roundId ev \<and> cb_problemId x \<noteq> sampleProblemId \<and> cb_ordinal x = 1)"

lemma keys_kept: "(\<And>r. key (f r) = key r) \<Longrightarrow> key ` set (update_by key k f rows) = key ` set rows"
  by (metis keys_update_by set_map)

lemma find_by_known: "find_by key k rows = Some r \<Longrightarrow> k \<in> key ` set rows"
  using find_by_Some [of key k rows r] by auto

lemma upsert_competition_found:
  assumes "upsert_competition now may ev d = Inr d'"
  shows "insert (sd_slug ev) (co_slug ` set (db_competitions d)) \<subseteq> co_slug ` set (db_competitions d')"
    and "db_rounds d' = db_rounds d" and "db_competitionProblems d' = db_competitionProblems d"
  using assms find_by_known [of co_slug "sd_slug ev" "db_competitions d"]
  by (auto simp: upsert_competition_def find_competition_def create_competition_row_def insert_by_def result_simps keys_kept
      split: option.splits if_splits)

lemma upsert_round_found:
  assumes "upsert_round now may ev d = Inr d'"
  shows "insert (sd_id ev, 1) (rd_key ` set (db_rounds d)) \<subseteq> rd_key ` set (db_rounds d')"
    and "db_competitions d' = db_competitions d" and "db_competitionProblems d' = db_competitionProblems d"
proof -
  have key: "rd_key (r\<lparr>rd_title := t, rd_startsAt := x, rd_endsAt := y\<rparr>) = rd_key r" for r t x y by (simp add: rd_key_def)
  have new: "rd_key \<lparr>rd_id = i, rd_competitionId = c, rd_title = t, rd_ordinal = 1, rd_startsAt = x, rd_endsAt = y\<rparr> = (c, 1)" for i c t x y
    by (simp add: rd_key_def)
  show "insert (sd_id ev, 1) (rd_key ` set (db_rounds d)) \<subseteq> rd_key ` set (db_rounds d')"
    and "db_competitions d' = db_competitions d" and "db_competitionProblems d' = db_competitionProblems d"
    using assms find_by_known [of rd_key "(sd_id ev, 1)" "db_rounds d"]
    by (auto simp: upsert_round_def create_round_row_def insert_by_def result_simps keys_kept key new
        split: option.splits if_splits)
qed

definition first_taken :: "uuid \<Rightarrow> competition_problem list \<Rightarrow> bool" where
  "first_taken r ps \<longleftrightarrow> (\<exists>x \<in> set ps. cb_roundId x = r \<and> cb_problemId x \<noteq> sampleProblemId \<and> cb_ordinal x = 1)"

lemma upsert_round_problem_found:
  assumes "upsert_round_problem ev d = Inr d'"
  shows "insert (sd_roundId ev, sampleProblemId) (cb_key ` set (db_competitionProblems d)) \<subseteq> cb_key ` set (db_competitionProblems d')"
    and "first_taken r (db_competitionProblems d') \<longleftrightarrow> first_taken r (db_competitionProblems d)"
    and "\<not> first_taken (sd_roundId ev) (db_competitionProblems d)"
    and "db_competitions d' = db_competitions d" and "db_rounds d' = db_rounds d"
proof -
  let ?ps = "db_competitionProblems d" and ?k = "(sd_roundId ev, sampleProblemId)"
  let ?f = "\<lambda>x. x\<lparr>cb_ordinal := 1, cb_points := 100\<rparr>"
  let ?new = "\<lparr>cb_roundId = sd_roundId ev, cb_problemId = sampleProblemId, cb_ordinal = 1, cb_points = 100\<rparr>"
  have cases: "(d' = d\<lparr>db_competitionProblems := update_by cb_key ?k ?f ?ps\<rparr> \<and> ?k \<in> cb_key ` set ?ps \<and> \<not> first_taken (sd_roundId ev) ?ps) \<or>
      (d' = d\<lparr>db_competitionProblems := ?ps @ [?new]\<rparr> \<and> (sd_roundId ev, 1) \<notin> (\<lambda>x. (cb_roundId x, cb_ordinal x)) ` set ?ps)"
    using assms find_by_known [of cb_key ?k ?ps]
    by (auto simp: upsert_round_problem_def create_competition_problem_def insert_by_def result_simps first_taken_def
        split: option.splits if_splits)
  have "\<not> first_taken (sd_roundId ev) ?ps" if "(sd_roundId ev, 1) \<notin> (\<lambda>x. (cb_roundId x, cb_ordinal x)) ` set ?ps"
    using that by (force simp: first_taken_def)
  with cases show "\<not> first_taken (sd_roundId ev) ?ps" by blast
  have "first_taken r (update_by cb_key ?k ?f ?ps) \<longleftrightarrow> first_taken r ?ps" "first_taken r (?ps @ [?new]) \<longleftrightarrow> first_taken r ?ps"
    by (auto simp: first_taken_def update_by_def cb_key_def)
  with cases show "first_taken r (db_competitionProblems d') \<longleftrightarrow> first_taken r (db_competitionProblems d)" by auto
  have "cb_key (?f x) = cb_key x" "cb_key ?new = ?k" for x by (simp_all add: cb_key_def)
  with cases show "insert ?k (cb_key ` set ?ps) \<subseteq> cb_key ` set (db_competitionProblems d')"
    and "db_competitions d' = db_competitions d" and "db_rounds d' = db_rounds d"
    by (auto simp: keys_kept)
qed

lemma up_to_date_iff:
  "up_to_date d ev \<longleftrightarrow>
     sd_slug ev \<in> co_slug ` set (db_competitions d) \<and> (sd_id ev, 1) \<in> rd_key ` set (db_rounds d) \<and>
     (sd_roundId ev, sampleProblemId) \<in> cb_key ` set (db_competitionProblems d) \<and>
     \<not> first_taken (sd_roundId ev) (db_competitionProblems d)"
  by (simp add: up_to_date_def first_taken_def find_competition_def find_by_None del: not_None_eq)

lemma seed_competition_up_to_date:
  assumes "seed_competition now ev d = Inr d'"
  shows "up_to_date d' ev" and "up_to_date d ev' \<Longrightarrow> up_to_date d' ev'"
proof -
  let ?may = "mayReschedule now d (find_competition (sd_slug ev) d)"
  from assms obtain d1 d2 where ops: "upsert_competition now ?may ev d = Inr d1" "upsert_round now ?may ev d1 = Inr d2"
    "upsert_round_problem ev d2 = Inr d'"
    by (auto simp: seed_competition_def Let_def result_simps)
  note found = upsert_competition_found [OF ops(1)] upsert_round_found [OF ops(2)] upsert_round_problem_found [OF ops(3)]
  show "up_to_date d' ev" and "up_to_date d ev' \<Longrightarrow> up_to_date d' ev'"
    unfolding up_to_date_iff using found by auto
qed

lemma seed_competition_again: "up_to_date d ev \<Longrightarrow> \<exists>d'. seed_competition now ev d = Inr d'"
  by (auto simp: seed_competition_def up_to_date_def upsert_competition_def upsert_round_def upsert_round_problem_def Let_def)

lemma seedCompetitions_again:
  assumes "seedCompetitions now d = Inr d1"
  shows "\<exists>d2. seedCompetitions now' d1 = Inr d2"
proof -
  have "list_all (up_to_date d1) seed_events"
  proof -
    have "list_all (up_to_date t) (xs @ ys)"
      if "fold_result (seed_competition now) ys s = Inr t" "list_all (up_to_date s) xs" for xs ys s t
      using that
    proof (induction ys arbitrary: xs s)
      case (Cons y ys)
      then obtain u where u: "seed_competition now y s = Inr u" "fold_result (seed_competition now) ys u = Inr t"
        by (auto simp: result_simps)
      have "list_all (up_to_date u) (xs @ [y])"
        using Cons.prems(2) seed_competition_up_to_date [OF u(1)] by (auto simp: list_all_iff)
      from Cons.IH [OF u(2) this] show ?case by simp
    qed simp
    from this [of seed_events d d1 "[]"] assms show ?thesis by (simp add: seedCompetitions_def)
  qed
  moreover have "\<exists>t. fold_result (seed_competition now') ys s = Inr t" if "list_all (up_to_date s) ys" for ys s
    using that
  proof (induction ys arbitrary: s)
    case (Cons y ys)
    then obtain u where u: "seed_competition now' y s = Inr u" using seed_competition_again [of s y now'] by auto
    have "list_all (up_to_date u) ys" using Cons.prems seed_competition_up_to_date(2) [OF u] by (auto simp: list_all_iff)
    from Cons.IH [OF this] u show ?case by (simp add: result_simps)
  qed simp
  ultimately show ?thesis by (simp add: seedCompetitions_def)
qed

section \<open>The sample is what it is verified to be\<close>

lemma beside_le: "beside d d' \<Longrightarrow> catalog_le d d'"
  by (rule catalog_le_same) (auto simp: beside_def jobs_kept_def)

lemma create_sample_le:
  assumes "create_sample ck ids d = Inr d'"
  shows "catalog_le d d'"
proof -
  let ?p = "\<lparr>pr_id = sampleProblemId, pr_slug = ''sum-two-numbers'', pr_currentVersionId = None, pr_createdAt = ck_host ck\<rparr>"
  from assms obtain d1 d2 d3 d4 where ops: "create_problem_row ?p d = Inr d1" "create_version_row sample_version d1 = Inr d2"
    "fold_result create_test_row (map (sample_test ids) (enumerate 0 sample_cases)) d2 = Inr d3"
    "publish_version sampleVersionId d3 = Inr d4" "set_current_version sampleProblemId (Some sampleVersionId) d4 = Inr d'"
    by (auto simp: create_sample_def result_simps)
  have "slug_ok (pr_slug ?p)" by code_simp
  from create_problem_row_le [OF ops(1) this] have "catalog_le d d1" .
  moreover have "catalog_le d1 d2"
    using ops(2) by (rule create_version_row_le) (simp_all add: sample_version_def js_def)
  moreover have "catalog_le d2 d3"
    using ops(3) by (rule fold_result_invariant [where P = "catalog_le d2"])
      (auto intro: catalog_le_refl catalog_le_trans create_test_row_le)
  ultimately show ?thesis
    using publish_version_le [OF ops(4)] set_current_version_le [OF ops(5)] by (blast intro: catalog_le_trans)
qed

lemma create_tests_rows:
  "fold_result create_test_row ts d = Inr d' \<Longrightarrow> d' = d\<lparr>db_testCases := db_testCases d @ ts\<rparr>"
proof (induction ts arbitrary: d)
  case (Cons t ts)
  then obtain u where "create_test_row t d = Inr u" "fold_result create_test_row ts u = Inr d'"
    by (auto simp: result_simps)
  moreover from this(1) have "u = d\<lparr>db_testCases := db_testCases d @ [t]\<rparr>"
    by (auto simp: create_test_row_def insert_by_def result_simps split: if_splits)
  ultimately show ?case using Cons.IH [of u] by simp
qed simp

lemma sample_sorted: "sample_matches (sort_key tc_ordinal (map (sample_test ids) (enumerate 0 sample_cases)))"
  by (simp add: sample_matches_def sample_cases_def sample_test_def)

lemma create_sample_exact:
  assumes run: "create_sample ck ids d = Inr d'" and fk: "\<forall>t \<in> set (db_testCases d). tc_problemVersionId t \<in> vn_id ` set (db_versions d)"
    and new: "find_by pr_slug ''sum-two-numbers'' (db_problems d) = None"
  shows "\<exists>p. find_by pr_slug ''sum-two-numbers'' (db_problems d') = Some p \<and> sample_exact d' p"
proof -
  let ?p = "\<lparr>pr_id = sampleProblemId, pr_slug = ''sum-two-numbers'', pr_currentVersionId = None, pr_createdAt = ck_host ck\<rparr>"
  let ?ts = "map (sample_test ids) (enumerate 0 sample_cases)"
  from run obtain d1 d2 d3 d4 where ops: "create_problem_row ?p d = Inr d1" "create_version_row sample_version d1 = Inr d2"
    "fold_result create_test_row ?ts d2 = Inr d3"
    "publish_version sampleVersionId d3 = Inr d4" "set_current_version sampleProblemId (Some sampleVersionId) d4 = Inr d'"
    by (auto simp: create_sample_def result_simps)
  from ops(1) have d1: "d1 = d\<lparr>db_problems := db_problems d @ [?p]\<rparr>" "sampleProblemId \<notin> pr_id ` set (db_problems d)"
    by (auto simp: create_problem_row_def insert_by_def result_simps split: if_splits)
  from ops(2) have d2: "d2 = d1\<lparr>db_versions := db_versions d1 @ [sample_version]\<rparr>" "sampleVersionId \<notin> vn_id ` set (db_versions d1)"
    by (auto simp: create_version_row_def insert_by_def result_simps sample_version_def split: if_splits)
  note d3 = create_tests_rows [OF ops(3)]
  from ops(4) have d4: "d4 = d3\<lparr>db_versions := update_by vn_id sampleVersionId (\<lambda>v. v\<lparr>vn_published := True\<rparr>) (db_versions d3)\<rparr>"
    by (auto simp: publish_version_def split: option.splits if_splits)
  from ops(5) have d': "d' = d4\<lparr>db_problems := update_by pr_id sampleProblemId (\<lambda>q. q\<lparr>pr_currentVersionId := Some sampleVersionId\<rparr>) (db_problems d4)\<rparr>"
    by (auto simp: set_current_version_def split: if_splits)
  have untouched: "update_by key k f rows = rows" if "k \<notin> key ` set rows" for key :: "'r \<Rightarrow> 'k" and k f rows
    using that by (induction rows) (auto simp: update_by_def)
  have app: "update_by key k f (xs @ ys) = update_by key k f xs @ update_by key k f ys" for key :: "'r \<Rightarrow> 'k" and k f xs ys
    by (simp add: update_by_def)
  let ?q = "?p\<lparr>pr_currentVersionId := Some sampleVersionId\<rparr>" and ?v = "sample_version\<lparr>vn_published := True\<rparr>"
  have problems: "db_problems d' = db_problems d @ [?q]"
    using d1 by (simp add: d' d4 d3 d2 app untouched) (simp add: update_by_def)
  have versions: "db_versions d' = db_versions d @ [?v]"
    using d2 d1 by (simp add: d' d4 d3 app untouched) (simp add: update_by_def sample_version_def)
  have tests: "db_testCases d' = db_testCases d @ ?ts" by (simp add: d' d4 d3 d2 d1)
  have old: "sampleVersionId \<notin> vn_id ` set (db_versions d)" using d2 d1 by simp
  have "tc_problemVersionId t \<noteq> sampleVersionId" if "t \<in> set (db_testCases d)" for t using fk old that by metis
  then have "cases_of d' sampleVersionId = ?ts"
    by (auto simp: cases_of_def tests filter_empty_conv sample_test_def intro!: filter_True)
  moreover have "find (\<lambda>v. vn_id v = sampleVersionId) (versions_of d' sampleProblemId) = Some ?v"
  proof -
    have "find P (filter Q xs @ [v]) = Some v" if "\<forall>x \<in> set xs. \<not> P x" "P v" for P Q v and xs :: "version list"
      using that by (induction xs) auto
    moreover have "\<forall>x \<in> set (db_versions d). vn_id x \<noteq> sampleVersionId" using old by (metis imageI)
    moreover have "vn_id ?v = sampleVersionId" "vn_problemId ?v = sampleProblemId" by (simp_all add: sample_version_def)
    ultimately show ?thesis by (simp add: versions_of_def versions)
  qed
  moreover have "find_by pr_slug ''sum-two-numbers'' (db_problems d') = Some ?q"
    using new by (simp add: problems find_by_append table_simps)
  ultimately show ?thesis using sample_sorted [of ids] by (simp add: sample_exact_def sample_version_def)
qed

section \<open>Seeding again\<close>

lemma sample_exact_beside: "beside d d' \<Longrightarrow> sample_exact d' p \<longleftrightarrow> sample_exact d p"
  by (auto simp: beside_def sample_exact_def versions_of_def cases_of_def split: option.splits)

lemma sample_plan:
  assumes "sample_exact d p" and "distinct (map vn_id (db_versions d))"
  shows "\<exists>plan. loadJudgePlan d sampleVersionId SUBMIT = Inr plan \<and> jp_timeMs plan = 2000 \<and> jp_memoryKiB plan = 262144 \<and>
     map (\<lambda>c. (jc_visibility c, jc_input c, jc_expectedOutput c)) (jp_cases plan) =
     map (\<lambda>e. (sm_visibility e, sm_input e, sm_expectedOutput e)) sample_cases"
proof -
  from assms(1) obtain v where v: "find (\<lambda>v. vn_id v = sampleVersionId) (versions_of d (pr_id p)) = Some v" "vn_published v"
    "vn_comparator v = ''EXACT_NEWLINE''" "vn_timeMs v = 2000" "vn_memoryKiB v = 262144"
    "sample_matches (sort_key tc_ordinal (cases_of d (vn_id v)))"
    by (auto simp: sample_exact_def split: option.splits)
  then have in_db: "v \<in> set (db_versions d)" "vn_id v = sampleVersionId"
    by (auto simp: find_Some_iff versions_of_def) (metis filter_is_subset nth_mem subsetD)
  have "find (\<lambda>v. vn_id v = sampleVersionId \<and> vn_published v) (db_versions d) = Some v"
  proof -
    have "w = v" if "w \<in> set (db_versions d)" "vn_id w = sampleVersionId" for w
      using assms(2) in_db that by (auto simp: distinct_map inj_on_def)
    moreover have "find (\<lambda>v. vn_id v = sampleVersionId \<and> vn_published v) (db_versions d) \<noteq> None"
      using in_db v(2) by (auto simp: find_None_iff)
    then obtain w where "find (\<lambda>v. vn_id v = sampleVersionId \<and> vn_published v) (db_versions d) = Some w" by blast
    moreover from this have "w \<in> set (db_versions d)" "vn_id w = sampleVersionId" by (auto simp: find_Some_iff)
    ultimately show ?thesis by simp
  qed
  moreover have "map (\<lambda>t. (tc_visibility t, tc_input t, tc_expectedOutput t)) (plan_cases d sampleVersionId SUBMIT) =
      map (\<lambda>e. (sm_visibility e, sm_input e, sm_expectedOutput e)) sample_cases"
    using v(6) in_db(2) by (auto simp: plan_cases_def cases_of_def sample_matches_def list_all2_conv_all_nth intro!: nth_equalityI)
  ultimately show ?thesis using v(3-5) by (simp add: loadJudgePlan_def judge_case_of_def comp_def)
qed


text \<open>A competition that has not ended, or in which somebody registered or submitted, keeps its dates.\<close>

lemma seed_keeps_dates:
  assumes "upsert_competition now may ev d = Inr d'" and "find_competition (sd_slug ev) d = Some c" and "\<not> may"
  shows "\<exists>c'. find_competition (sd_slug ev) d' = Some c' \<and> co_startsAt c' = co_startsAt c \<and> co_endsAt c' = co_endsAt c \<and> co_id c' = co_id c"
  using assms by (auto simp: upsert_competition_def find_competition_def table_simps)

text \<open>
  The two competitions are found by their slugs and their rounds by their competition, but the round's problem by the fixed identifier of
  the round. \<open>update\<close> of a competition deletes its rounds and creates others; once a seeded competition was edited, seeding fails.
\<close>

lemma seed_after_edit:
  assumes "find_competition (sd_slug ev) d = Some c" and "(sd_id ev, 1) \<in> rd_key ` set (db_rounds d)"
    and "sd_roundId ev \<notin> rd_id ` set (db_rounds d)" and "sd_roundId ev \<notin> cb_roundId ` set (db_competitionProblems d)"
  shows "seed_competition now ev d = Inl (DbError ''P2003'')"
proof -
  let ?may = "mayReschedule now d (find_competition (sd_slug ev) d)"
  obtain d1 where d1: "upsert_competition now ?may ev d = Inr d1" "db_rounds d1 = db_rounds d" "db_competitionProblems d1 = db_competitionProblems d"
    using assms(1) by (auto simp: upsert_competition_def)
  have "find_by rd_key (sd_id ev, 1) (db_rounds d1) \<noteq> None" using assms(2) d1(2) find_by_None [of rd_key "(sd_id ev, 1)"] by metis
  then obtain d2 f where d2: "upsert_round now ?may ev d1 = Inr d2" "db_rounds d2 = update_by rd_key (sd_id ev, 1) f (db_rounds d)"
    "\<And>r. rd_id (f r) = rd_id r" "db_competitionProblems d2 = db_competitionProblems d"
    using d1 by (auto simp: upsert_round_def)
  have "map rd_id (db_rounds d2) = map rd_id (db_rounds d)" unfolding d2(2) update_by_def using d2(3) by simp
  then have "rd_id ` set (db_rounds d2) = rd_id ` set (db_rounds d)" by (metis set_map)
  moreover have "(sd_roundId ev, sampleProblemId) \<notin> cb_key ` set (db_competitionProblems d2)"
    using assms(4) d2(4) by (auto simp: cb_key_def)
  then have "find_by cb_key (sd_roundId ev, sampleProblemId) (db_competitionProblems d2) = None" by (simp only: find_by_None not_False_eq_True)
  ultimately have "upsert_round_problem ev d2 = Inl (DbError ''P2003'')"
    using assms(3) by (simp add: upsert_round_problem_def create_competition_problem_def)
  with d1(1) d2(1) show ?thesis by (simp add: seed_competition_def Let_def)
qed

end
