(* ===== verification/SeedScenario.thy ===== *)
theory SeedScenario
  imports Seed
begin

text \<open>The sample data on an empty database, and a seeded contest that an administrator edits.\<close>

definition z_clock :: "millis \<Rightarrow> clock" where
  "z_clock t = \<lparr>ck_start = t, ck_db = t, ck_trigger = t, ck_host = t\<rparr>"

definition z_ids :: "nat \<Rightarrow> uuid" where
  "z_ids n = replicate n (CHR ''a'')"

definition z_seeded :: db where
  "z_seeded = (case seed (z_clock 0) z_ids empty_db of Inr (r, d) \<Rightarrow> d | Inl e \<Rightarrow> empty_db)"

lemma z_seed: "seed (z_clock 0) z_ids empty_db = Inr (Created, z_seeded)"
proof -
  have "case seed (z_clock 0) z_ids empty_db of Inr (Created, _) \<Rightarrow> True | _ \<Rightarrow> False" by code_simp
  then show ?thesis by (auto simp: z_seeded_def split: sum.splits prod.splits seeded.splits)
qed


section \<open>An edited contest\<close>

definition z_edit :: competition_input where
  "z_edit = \<lparr>ci_slug = ''weekend-sprint'', ci_kind = CONTEST, ci_title = js ''Weekend Sprint'',
     ci_description = js ''A later start for the contest.'', ci_rulesMarkdown = js ''Highest score wins.'', ci_prizeLabel = None,
     ci_startsAt = 8 * 86400000, ci_endsAt = 9 * 86400000,
     ci_rounds = [\<lparr>ro_title = js ''Main round'', ro_startsAt = 8 * 86400000, ro_endsAt = 9 * 86400000,
       ro_problemSlugs = [''sum-two-numbers'']\<rparr>]\<rparr>"

lemma seed_fails_after_edit:
  "case update_competition (z_clock 1000) (\<lambda>n. ''new-round'') ''admin'' ADMIN ''weekend-sprint'' z_edit z_seeded of
     Inl e \<Rightarrow> False | Inr (i, d) \<Rightarrow> seed (z_clock 2000) z_ids d = Inl (DbError ''P2003'')"
  by code_simp

end
