(* ===== verification/Base64.thy ===== *)
theory Base64
  imports Text
begin

text \<open>
  The encodings of \<open>Buffer\<close> the program uses for keys and hashes: \<open>toString('base64')\<close>,
  \<open>toString('base64url')\<close> and \<open>Buffer.from(s, 'base64')\<close>, which reads both alphabets, skips every other
  character and drops the bits that do not fill a byte. Bytes and characters are regrouped through
  their bits, most significant first.
\<close>

section \<open>Bits\<close>

fun bits_of :: "nat \<Rightarrow> nat \<Rightarrow> bool list" where
  "bits_of 0 n = []"
| "bits_of (Suc k) n = bits_of k (n div 2) @ [odd n]"

definition bits_value :: "bool list \<Rightarrow> nat" where
  "bits_value bs = foldl (\<lambda>n b. 2 * n + of_bool b) 0 bs"

lemma length_bits_of [simp]: "length (bits_of k n) = k"
  by (induction k arbitrary: n) simp_all

lemma bits_value_snoc [simp]: "bits_value (bs @ [b]) = 2 * bits_value bs + of_bool b"
  by (simp add: bits_value_def)

lemma bits_value_less: "bits_value bs < 2 ^ length bs"
  by (induction bs rule: rev_induct) (auto simp: bits_value_def)

lemma bits_value_of [simp]: "n < 2 ^ k \<Longrightarrow> bits_value (bits_of k n) = n"
  by (induction k arbitrary: n) (auto simp: bits_value_def)

lemma bits_of_value [simp]: "bits_of (length bs) (bits_value bs) = bs"
  by (induction bs rule: rev_induct) simp_all

section \<open>Regrouping\<close>

function chunk_full :: "nat \<Rightarrow> 'a list \<Rightarrow> 'a list list" where
  "chunk_full k xs = (if k = 0 \<or> length xs < k then [] else take k xs # chunk_full k (drop k xs))"
  by auto
termination by (relation "measure (length \<circ> snd)") auto

function chunk_pad :: "nat \<Rightarrow> 'a \<Rightarrow> 'a list \<Rightarrow> 'a list list" where
  "chunk_pad k z xs =
     (if k = 0 \<or> xs = [] then [] else take k (xs @ replicate k z) # chunk_pad k z (drop k xs))"
  by auto
termination by (relation "measure (length \<circ> snd \<circ> snd)") auto

declare chunk_full.simps [simp del] chunk_pad.simps [simp del]

lemma length_chunk_full: "0 < k \<Longrightarrow> length (chunk_full k xs) = length xs div k"
proof (induction k xs rule: chunk_full.induct)
  case (1 k xs)
  show ?case
  proof (cases "length xs < k")
    case True
    then show ?thesis by (simp add: chunk_full.simps)
  next
    case False
    with 1 show ?thesis by (subst chunk_full.simps) (simp add: le_div_geq)
  qed
qed

lemma chunk_full_concat:
  "0 < k \<Longrightarrow> (\<forall>x \<in> set xs. length (f x) = k) \<Longrightarrow> length rest < k \<Longrightarrow>
     chunk_full k (concat (map f xs) @ rest) = map f xs"
  by (induction xs) (simp_all add: chunk_full.simps)

lemma length_in_chunk_pad: "c \<in> set (chunk_pad k z xs) \<Longrightarrow> length c = k"
proof (induction k z xs rule: chunk_pad.induct)
  case (1 k z xs)
  then show ?case by (subst (asm) (2) chunk_pad.simps) (auto split: if_splits)
qed

lemma concat_chunk_pad:
  "0 < k \<Longrightarrow> \<exists>m < k. concat (chunk_pad k z xs) = xs @ replicate m z"
proof (induction k z xs rule: chunk_pad.induct)
  case (1 k z xs)
  show ?case
  proof (cases "length xs \<le> k")
    case True
    then have "chunk_pad k z (drop k xs) = []" by (simp add: chunk_pad.simps)
    with True "1.prems" show ?thesis
      by (subst chunk_pad.simps) (auto intro: exI [of _ "k - length xs"] simp: Suc_le_eq min_def)
  next
    case False
    with 1 obtain m where "m < k" "concat (chunk_pad k z (drop k xs)) = drop k xs @ replicate m z"
      by (metis linorder_not_less length_greater_0_conv less_nat_zero_code list.size(3) nat_less_le)
    with False "1.prems" show ?thesis
      by (subst chunk_pad.simps) (auto intro!: exI [of _ m] simp: append_assoc [symmetric])
  qed
qed

section \<open>The alphabets\<close>

definition base64_alphabet :: string where
  "base64_alphabet = ''ABCDEFGHIJKLMNOPQRSTUVWXYZabcdefghijklmnopqrstuvwxyz0123456789+/''"

definition base64url_alphabet :: string where
  "base64url_alphabet = ''ABCDEFGHIJKLMNOPQRSTUVWXYZabcdefghijklmnopqrstuvwxyz0123456789-_''"

text \<open>The position of a character in either alphabet.\<close>

definition sextet :: "char \<Rightarrow> nat option" where
  "sextet c =
     (if upper_char c then Some (of_char c - 65) else if lower_char c then Some (of_char c - 71)
      else if digit_char c then Some (of_char c + 4) else if c \<in> {CHR ''+'', CHR ''-''} then Some 62
      else if c \<in> {CHR ''/'', CHR ''_''} then Some 63 else None)"

definition sextet_char :: "string \<Rightarrow> nat \<Rightarrow> char" where
  "sextet_char alphabet n = alphabet ! n"

lemma sextet_alphabet:
  "list_all (\<lambda>n. sextet (sextet_char base64_alphabet n) = Some n \<and>
     sextet (sextet_char base64url_alphabet n) = Some n) [0..<64]"
  by code_simp

lemma sextet_of_alphabet [simp]:
  assumes "n < 64" and "alphabet \<in> {base64_alphabet, base64url_alphabet}"
  shows "sextet (sextet_char alphabet n) = Some n"
  using sextet_alphabet assms by (auto simp: list_all_iff)

section \<open>Encoding and decoding\<close>

definition encode_with :: "string \<Rightarrow> bytes \<Rightarrow> string" where
  "encode_with alphabet bs =
     map (sextet_char alphabet \<circ> bits_value) (chunk_pad 6 False (concat (map (bits_of 8 \<circ> unat) bs)))"

definition base64url_encode :: "bytes \<Rightarrow> string" where
  "base64url_encode bs = encode_with base64url_alphabet bs"

definition base64_encode :: "bytes \<Rightarrow> string" where
  "base64_encode bs =
     (let s = encode_with base64_alphabet bs in s @ replicate ((4 - length s mod 4) mod 4) (CHR ''=''))"

definition base64_decode :: "string \<Rightarrow> bytes" where
  "base64_decode s =
     map (of_nat \<circ> bits_value) (chunk_full 8 (concat (map (bits_of 6) (List.map_filter sextet s))))"

lemma decode_encode_with:
  assumes "alphabet \<in> {base64_alphabet, base64url_alphabet}"
  shows "base64_decode (encode_with alphabet bs @ replicate n (CHR ''='')) = bs"
proof -
  let ?bits = "concat (map (bits_of 8 \<circ> unat) bs)"
  let ?chunks = "chunk_pad 6 False ?bits"
  have len: "length c = 6" if "c \<in> set ?chunks" for c using that by (rule length_in_chunk_pad)
  have small: "bits_value c < 64" if "c \<in> set ?chunks" for c
    using bits_value_less [of c] len [OF that] by simp
  have pad: "List.map_filter sextet (replicate n (CHR ''='')) = []"
    by (induction n) (simp_all add: List.map_filter_def sextet_def upper_char_def lower_char_def digit_char_def)
  have "List.map_filter sextet (map (sextet_char alphabet \<circ> bits_value) cs) = map bits_value cs"
    if "set cs \<subseteq> set ?chunks" for cs
    using that small assms by (induction cs) (auto simp: List.map_filter_def)
  then have "List.map_filter sextet (encode_with alphabet bs) = map bits_value ?chunks"
    by (simp add: encode_with_def)
  with pad have "List.map_filter sextet (encode_with alphabet bs @ replicate n (CHR ''='')) = map bits_value ?chunks"
    by (simp add: List.map_filter_def)
  moreover have "map (bits_of 6) (map bits_value cs) = cs" if "set cs \<subseteq> set ?chunks" for cs
    using that
  proof (induction cs)
    case (Cons c cs)
    then have "length c = 6" by (intro len) (simp only: list.set insert_subset)
    then have "bits_of 6 (bits_value c) = c" by (metis bits_of_value)
    with Cons show ?case by simp
  qed simp
  ultimately have "base64_decode (encode_with alphabet bs @ replicate n (CHR ''='')) =
      map (of_nat \<circ> bits_value) (chunk_full 8 (concat ?chunks))"
    by (simp add: base64_decode_def)
  moreover obtain m where "m < 6" and m: "concat ?chunks = ?bits @ replicate m False"
    using concat_chunk_pad [of 6 False ?bits] by auto
  then have "chunk_full 8 (concat ?chunks) = map (bits_of 8 \<circ> unat) bs"
    unfolding m by (intro chunk_full_concat) auto
  moreover have "unat b < 2 ^ 8" for b :: byte by (metis unsigned_less len_num0 len_bit0 len_num1 mult_2 one_add_one numeral_Bit0)
  then have "(of_nat \<circ> bits_value \<circ> (bits_of 8 \<circ> unat)) b = b" for b :: byte by simp
  ultimately show ?thesis by (simp add: map_idI)
qed

lemma decode_base64url [simp]: "base64_decode (base64url_encode bs) = bs"
  using decode_encode_with [of base64url_alphabet bs 0] by (simp add: base64url_encode_def)

lemma decode_base64 [simp]: "base64_decode (base64_encode bs) = bs"
  by (simp add: base64_encode_def Let_def decode_encode_with)

lemma length_base64_decode: "length (base64_decode s) = 6 * length (List.map_filter sextet s) div 8"
  by (simp add: base64_decode_def length_chunk_full length_concat comp_def sum_list_triv)

lemma encode_with_chars: "c \<in> set (encode_with alphabet bs) \<Longrightarrow> c \<in> set (take 64 alphabet) \<or> length alphabet < 64"
proof -
  assume "c \<in> set (encode_with alphabet bs)"
  then obtain ch where ch: "ch \<in> set (chunk_pad 6 False (concat (map (bits_of 8 \<circ> unat) bs)))"
    and c: "c = alphabet ! bits_value ch"
    by (auto simp: encode_with_def sextet_char_def)
  have "bits_value ch < 64" using bits_value_less [of ch] length_in_chunk_pad [OF ch] by simp
  then show ?thesis unfolding c in_set_conv_nth by (cases "length alphabet < 64") auto
qed

lemma dollar_not_encoded: "CHR ''$'' \<notin> set (base64url_encode bs)"
proof
  assume "CHR ''$'' \<in> set (base64url_encode bs)"
  from encode_with_chars [OF this [unfolded base64url_encode_def]] show False
    by (simp add: base64url_alphabet_def)
qed

end
