(* ===== verification/Config.thy ===== *)
theory Config
  imports Admission Base64 "HOL-Library.Monad_Syntax"
begin

text \<open>
  The configuration of the API (\<open>apps/api/src/config/config.ts\<close>) and of the worker
  (\<open>apps/api/src/executions/worker-config.ts\<close>), read from the environment variables of the process. A
  rejected environment is one error: the list of field names in its message is left out.

  The parameters are the URL parser of the platform, \<open>isIP\<close> of \<open>node:net\<close>, \<open>Number\<close> where its result is
  an integer, and the \<open>z.url()\<close> of zod (the accepted value, if it accepts).
\<close>

section \<open>The platform\<close>

record url =
  url_protocol :: string
  url_username :: string
  url_password :: string
  url_pathname :: string
  url_search :: string
  url_hash :: string
  url_origin :: string

record platform =
  to_number :: "string \<Rightarrow> int option"
  zod_url :: "string \<Rightarrow> string option"
  parse_url :: "string \<Rightarrow> url option"
  is_ip :: "string \<Rightarrow> nat"

section \<open>Values\<close>

datatype nodeEnv = Development | Test | Production

record env_values =
  cf_NODE_ENV :: nodeEnv
  cf_HOST :: string
  cf_PORT :: int
  cf_PUBLIC_ORIGIN :: string
  cf_API_ORIGIN :: "string option"
  cf_DATABASE_URL :: string
  cf_EXECUTIONS_ENABLED :: bool
  cf_PIPELINE_ENABLED :: bool
  cf_REALTIME_ENABLED :: bool
  cf_REDIS_URL :: "string option"
  cf_QUEUE_NAME :: string
  cf_OIDC_ENABLED :: bool
  cf_OIDC_ISSUER :: "string option"
  cf_OIDC_CLIENT_ID :: "string option"
  cf_OIDC_CLIENT_SECRET :: "string option"
  cf_OIDC_TRANSACTION_KEY :: "string option"
  cf_OIDC_CLIENT_AUTH_METHOD :: string
  cf_OIDC_ID_TOKEN_ALG :: string
  cf_PASSWORD_AUTH_ENABLED :: bool
  cf_AUTH_TRANSACTION_KEY :: "string option"
  cf_GOOGLE_AUTH_ENABLED :: bool
  cf_GOOGLE_CLIENT_ID :: "string option"
  cf_GOOGLE_CLIENT_SECRET :: "string option"
  cf_GITHUB_AUTH_ENABLED :: bool
  cf_GITHUB_CLIENT_ID :: "string option"
  cf_GITHUB_CLIENT_SECRET :: "string option"
  cf_SESSION_TTL_SECONDS :: int
  cf_AUTH_LOGIN_REQUESTS_PER_MINUTE :: int
  cf_AUTH_LOGIN_GLOBAL_PER_MINUTE :: int
  cf_TRUST_PROXY_CIDRS :: string
  cf_ENV_MAX_ACTIVE_JOBS_PER_USER :: int
  cf_ENV_MAX_ACTIVE_JOBS_GLOBAL :: int
  cf_ENV_EXECUTION_CREATIONS_PER_MINUTE :: int
  cf_ENV_EXECUTION_IP_CREATIONS_PER_MINUTE :: int
  cf_ENV_EXECUTION_GLOBAL_CREATIONS_PER_MINUTE :: int
  cf_ENV_EXECUTION_RATE_LIMIT_KEY :: "string option"
  cf_ENV_QUEUE_TTL_SECONDS :: int
  cf_JOB_MAINTENANCE_INTERVAL_SECONDS :: int

section \<open>Field schemas\<close>

definition env_enum :: "(string \<times> 'a) list \<Rightarrow> 'a \<Rightarrow> string option \<Rightarrow> 'a option" where
  "env_enum names dflt raw = (case raw of None \<Rightarrow> Some dflt | Some s \<Rightarrow> map_of names s)"

definition env_flag :: "string option \<Rightarrow> bool option" where
  "env_flag raw = env_enum [(''true'', True), (''false'', False)] False raw"

definition env_text :: "(string \<Rightarrow> bool) \<Rightarrow> string \<Rightarrow> string option \<Rightarrow> string option" where
  "env_text ok dflt raw =
     (case raw of None \<Rightarrow> Some dflt | Some s \<Rightarrow> if ok s then Some s else None)"

text \<open>\<open>z.coerce.number().int().min(lo).max(hi).default(d)\<close>.\<close>

definition env_int :: "platform \<Rightarrow> int \<Rightarrow> int \<Rightarrow> int \<Rightarrow> string option \<Rightarrow> int option" where
  "env_int pf lo hi dflt raw =
     (case raw of None \<Rightarrow> Some dflt
      | Some s \<Rightarrow> (case to_number pf s of None \<Rightarrow> None
          | Some n \<Rightarrow> if lo \<le> n \<and> n \<le> hi then Some n else None))"

text \<open>\<open>optionalString\<close>: the empty string stands for an absent variable.\<close>

definition optionalString :: "(string \<Rightarrow> string option) \<Rightarrow> string option \<Rightarrow> string option option" where
  "optionalString schema raw =
     (case raw of None \<Rightarrow> Some None
      | Some s \<Rightarrow> if s = '''' then Some None else map_option Some (schema s))"

definition refined :: "(string \<Rightarrow> bool) \<Rightarrow> string \<Rightarrow> string option" where
  "refined ok s = (if ok s then Some s else None)"

definition starts_with :: "string \<Rightarrow> string \<Rightarrow> bool" where
  "starts_with p s \<longleftrightarrow> take (length p) s = p"

text \<open>\<open>/^[A-Za-z0-9+/]{43}=$/\<close>.\<close>

definition key_format :: "string \<Rightarrow> bool" where
  "key_format s \<longleftrightarrow>
     length s = 44 \<and> list_all (\<lambda>c. alnum_char c \<or> c = CHR ''+'' \<or> c = CHR ''/'') (take 43 s) \<and>
     drop 43 s = ''=''"

definition postgres_url :: "platform \<Rightarrow> string option \<Rightarrow> string option" where
  "postgres_url pf raw =
     (case raw of None \<Rightarrow> None
      | Some s \<Rightarrow> (case zod_url pf s of None \<Rightarrow> None
          | Some u \<Rightarrow> refined (\<lambda>u. starts_with ''postgres://'' u \<or> starts_with ''postgresql://'' u) u))"

definition redis_url :: "platform \<Rightarrow> string \<Rightarrow> string option" where
  "redis_url pf s =
     (case zod_url pf s of None \<Rightarrow> None
      | Some u \<Rightarrow> refined (\<lambda>u. starts_with ''redis://'' u \<or> starts_with ''rediss://'' u) u)"

definition queue_name :: "string \<Rightarrow> bool" where
  "queue_name s \<longleftrightarrow> 1 \<le> length s \<and> length s \<le> 80 \<and> list_all token_char s"

definition client_id :: "string \<Rightarrow> bool" where
  "client_id s \<longleftrightarrow> length s \<le> 255"

definition parse_fields :: "platform \<Rightarrow> (string \<Rightarrow> string option) \<Rightarrow> env_values option" where
  "parse_fields pf e = do {
     nodeEnv \<leftarrow> env_enum [(''development'', Development), (''test'', Test), (''production'', Production)]
       Development (e ''NODE_ENV'');
     host \<leftarrow> env_text (\<lambda>_. True) ''127.0.0.1'' (e ''HOST'');
     port \<leftarrow> env_int pf 1 65535 3001 (e ''PORT'');
     publicOrigin \<leftarrow> (case e ''PUBLIC_ORIGIN'' of None \<Rightarrow> Some ''http://localhost:3000'' | Some s \<Rightarrow> zod_url pf s);
     apiOrigin \<leftarrow> optionalString (zod_url pf) (e ''API_ORIGIN'');
     databaseUrl \<leftarrow> postgres_url pf (e ''DATABASE_URL'');
     executions \<leftarrow> env_flag (e ''EXECUTIONS_ENABLED'');
     pipeline \<leftarrow> env_flag (e ''PIPELINE_ENABLED'');
     realtime \<leftarrow> env_flag (e ''REALTIME_ENABLED'');
     redis \<leftarrow> optionalString (redis_url pf) (e ''REDIS_URL'');
     queue \<leftarrow> env_text queue_name ''arenacore-executions'' (e ''QUEUE_NAME'');
     oidc \<leftarrow> env_flag (e ''OIDC_ENABLED'');
     oidcIssuer \<leftarrow> optionalString (zod_url pf) (e ''OIDC_ISSUER'');
     oidcId \<leftarrow> optionalString (refined client_id) (e ''OIDC_CLIENT_ID'');
     oidcSecret \<leftarrow> optionalString Some (e ''OIDC_CLIENT_SECRET'');
     oidcKey \<leftarrow> optionalString (refined key_format) (e ''OIDC_TRANSACTION_KEY'');
     authMethod \<leftarrow> env_text (\<lambda>s. s \<in> {''client_secret_basic'', ''client_secret_post''}) ''client_secret_basic''
       (e ''OIDC_CLIENT_AUTH_METHOD'');
     alg \<leftarrow> env_text (\<lambda>s. s \<in> {''RS256'', ''ES256''}) ''RS256'' (e ''OIDC_ID_TOKEN_ALG'');
     password \<leftarrow> env_flag (e ''PASSWORD_AUTH_ENABLED'');
     authKey \<leftarrow> optionalString (refined key_format) (e ''AUTH_TRANSACTION_KEY'');
     google \<leftarrow> env_flag (e ''GOOGLE_AUTH_ENABLED'');
     googleId \<leftarrow> optionalString (refined client_id) (e ''GOOGLE_CLIENT_ID'');
     googleSecret \<leftarrow> optionalString Some (e ''GOOGLE_CLIENT_SECRET'');
     github \<leftarrow> env_flag (e ''GITHUB_AUTH_ENABLED'');
     githubId \<leftarrow> optionalString (refined client_id) (e ''GITHUB_CLIENT_ID'');
     githubSecret \<leftarrow> optionalString Some (e ''GITHUB_CLIENT_SECRET'');
     sessionTtl \<leftarrow> env_int pf 300 86400 28800 (e ''SESSION_TTL_SECONDS'');
     loginRequests \<leftarrow> env_int pf 1 100 20 (e ''AUTH_LOGIN_REQUESTS_PER_MINUTE'');
     loginGlobal \<leftarrow> env_int pf 1 10000 120 (e ''AUTH_LOGIN_GLOBAL_PER_MINUTE'');
     cidrs \<leftarrow> env_text (\<lambda>_. True) '''' (e ''TRUST_PROXY_CIDRS'');
     perUser \<leftarrow> env_int pf 1 10 1 (e ''MAX_ACTIVE_JOBS_PER_USER'');
     globally \<leftarrow> env_int pf 1 100000 1000 (e ''MAX_ACTIVE_JOBS_GLOBAL'');
     creations \<leftarrow> env_int pf 1 1000 10 (e ''EXECUTION_CREATIONS_PER_MINUTE'');
     ipCreations \<leftarrow> env_int pf 1 10000 60 (e ''EXECUTION_IP_CREATIONS_PER_MINUTE'');
     globalCreations \<leftarrow> env_int pf 1 100000 300 (e ''EXECUTION_GLOBAL_CREATIONS_PER_MINUTE'');
     rateKey \<leftarrow> optionalString (refined key_format) (e ''EXECUTION_RATE_LIMIT_KEY'');
     queueTtl \<leftarrow> env_int pf 10 3600 120 (e ''QUEUE_TTL_SECONDS'');
     maintenance \<leftarrow> env_int pf 1 300 15 (e ''JOB_MAINTENANCE_INTERVAL_SECONDS'');
     Some \<lparr>cf_NODE_ENV = nodeEnv, cf_HOST = host, cf_PORT = port, cf_PUBLIC_ORIGIN = publicOrigin,
       cf_API_ORIGIN = apiOrigin, cf_DATABASE_URL = databaseUrl, cf_EXECUTIONS_ENABLED = executions,
       cf_PIPELINE_ENABLED = pipeline, cf_REALTIME_ENABLED = realtime, cf_REDIS_URL = redis, cf_QUEUE_NAME = queue,
       cf_OIDC_ENABLED = oidc, cf_OIDC_ISSUER = oidcIssuer, cf_OIDC_CLIENT_ID = oidcId,
       cf_OIDC_CLIENT_SECRET = oidcSecret, cf_OIDC_TRANSACTION_KEY = oidcKey,
       cf_OIDC_CLIENT_AUTH_METHOD = authMethod, cf_OIDC_ID_TOKEN_ALG = alg, cf_PASSWORD_AUTH_ENABLED = password,
       cf_AUTH_TRANSACTION_KEY = authKey, cf_GOOGLE_AUTH_ENABLED = google, cf_GOOGLE_CLIENT_ID = googleId,
       cf_GOOGLE_CLIENT_SECRET = googleSecret, cf_GITHUB_AUTH_ENABLED = github, cf_GITHUB_CLIENT_ID = githubId,
       cf_GITHUB_CLIENT_SECRET = githubSecret, cf_SESSION_TTL_SECONDS = sessionTtl,
       cf_AUTH_LOGIN_REQUESTS_PER_MINUTE = loginRequests, cf_AUTH_LOGIN_GLOBAL_PER_MINUTE = loginGlobal,
       cf_TRUST_PROXY_CIDRS = cidrs, cf_ENV_MAX_ACTIVE_JOBS_PER_USER = perUser,
       cf_ENV_MAX_ACTIVE_JOBS_GLOBAL = globally, cf_ENV_EXECUTION_CREATIONS_PER_MINUTE = creations,
       cf_ENV_EXECUTION_IP_CREATIONS_PER_MINUTE = ipCreations,
       cf_ENV_EXECUTION_GLOBAL_CREATIONS_PER_MINUTE = globalCreations, cf_ENV_EXECUTION_RATE_LIMIT_KEY = rateKey,
       cf_ENV_QUEUE_TTL_SECONDS = queueTtl, cf_JOB_MAINTENANCE_INTERVAL_SECONDS = maintenance\<rparr> }"

section \<open>Refinements across fields\<close>

definition issue :: "bool \<Rightarrow> string \<Rightarrow> string list" where
  "issue c path = (if c then [path] else [])"

definition canonical_key :: "string option \<Rightarrow> bool" where
  "canonical_key k = opt_all (\<lambda>s. base64_encode (base64_decode s) = s) k"

definition some_auth :: "env_values \<Rightarrow> bool" where
  "some_auth v \<longleftrightarrow>
     cf_PASSWORD_AUTH_ENABLED v \<or> cf_OIDC_ENABLED v \<or> cf_GOOGLE_AUTH_ENABLED v \<or> cf_GITHUB_AUTH_ENABLED v"

definition issuer_ok :: "platform \<Rightarrow> string \<Rightarrow> bool" where
  "issuer_ok pf s =
     (case parse_url pf s of None \<Rightarrow> False
      | Some u \<Rightarrow> url_protocol u = ''https:'' \<and> url_username u = '''' \<and> url_password u = '''' \<and>
          url_search u = '''' \<and> url_hash u = '''')"

text \<open>One entry of \<open>TRUST_PROXY_CIDRS\<close>: an address with an optional prefix length.\<close>

definition cidr_ok :: "platform \<Rightarrow> string \<Rightarrow> bool" where
  "cidr_ok pf cidr =
     (case split_on (CHR ''/'') (ascii_trim cidr) of
        [address] \<Rightarrow> address \<noteq> '''' \<and> is_ip pf address \<noteq> 0
      | [address, plen] \<Rightarrow> address \<noteq> '''' \<and> is_ip pf address \<noteq> 0 \<and> plen \<noteq> '''' \<and> list_all digit_char plen \<and>
          1 \<le> digits_value plen \<and> digits_value plen \<le> (if is_ip pf address = 4 then 32 else 128)
      | _ \<Rightarrow> False)"

definition exact_origin :: "url \<Rightarrow> string \<Rightarrow> bool" where
  "exact_origin u s \<longleftrightarrow> url_origin u = s \<and> url_username u = '''' \<and> url_password u = ''''"

definition http_url :: "url \<Rightarrow> bool" where
  "http_url u \<longleftrightarrow> url_protocol u \<in> {''http:'', ''https:''}"

definition api_url :: "platform \<Rightarrow> env_values \<Rightarrow> url option" where
  "api_url pf v = (case cf_API_ORIGIN v of None \<Rightarrow> None | Some s \<Rightarrow> parse_url pf s)"

text \<open>The checks after the one that \<open>PUBLIC_ORIGIN\<close> parses, with its URL.\<close>

definition origin_issues :: "platform \<Rightarrow> env_values \<Rightarrow> url \<Rightarrow> string list" where
  "origin_issues pf v origin =
     issue (\<not> http_url origin) ''PUBLIC_ORIGIN'' @
     issue (\<not> exact_origin origin (cf_PUBLIC_ORIGIN v)) ''PUBLIC_ORIGIN'' @
     issue (case cf_API_ORIGIN v of None \<Rightarrow> False
            | Some s \<Rightarrow> \<not> (case api_url pf v of None \<Rightarrow> False | Some u \<Rightarrow> http_url u \<and> exact_origin u s)) ''API_ORIGIN'' @
     (if cf_NODE_ENV v = Production \<and> cf_EXECUTIONS_ENABLED v
      then issue (\<not> some_auth v) ''AUTHENTICATION'' @ issue (\<not> cf_PIPELINE_ENABLED v) ''PIPELINE_ENABLED'' @
           issue (\<not> cf_REALTIME_ENABLED v) ''REALTIME_ENABLED''
      else []) @
     issue (cf_NODE_ENV v = Production \<and> url_protocol origin \<noteq> ''https:'') ''PUBLIC_ORIGIN'' @
     issue (cf_NODE_ENV v = Production \<and> (case api_url pf v of None \<Rightarrow> False | Some u \<Rightarrow> url_protocol u \<noteq> ''https:''))
       ''API_ORIGIN''"

definition config_issues :: "platform \<Rightarrow> env_values \<Rightarrow> string list" where
  "config_issues pf v =
     issue (cf_PIPELINE_ENABLED v \<and> cf_REDIS_URL v = None) ''REDIS_URL'' @
     issue (cf_EXECUTIONS_ENABLED v \<and> cf_ENV_EXECUTION_RATE_LIMIT_KEY v = None) ''EXECUTION_RATE_LIMIT_KEY'' @
     (if cf_OIDC_ENABLED v
      then issue (cf_OIDC_ISSUER v = None) ''OIDC_ISSUER'' @ issue (cf_OIDC_CLIENT_ID v = None) ''OIDC_CLIENT_ID'' @
           issue (cf_OIDC_CLIENT_SECRET v = None) ''OIDC_CLIENT_SECRET'' @
           issue (cf_OIDC_TRANSACTION_KEY v = None) ''OIDC_TRANSACTION_KEY''
      else []) @
     (if cf_GOOGLE_AUTH_ENABLED v
      then issue (cf_GOOGLE_CLIENT_ID v = None) ''GOOGLE_CLIENT_ID'' @
           issue (cf_GOOGLE_CLIENT_SECRET v = None) ''GOOGLE_CLIENT_SECRET''
      else []) @
     (if cf_GITHUB_AUTH_ENABLED v
      then issue (cf_GITHUB_CLIENT_ID v = None) ''GITHUB_CLIENT_ID'' @
           issue (cf_GITHUB_CLIENT_SECRET v = None) ''GITHUB_CLIENT_SECRET''
      else []) @
     issue (some_auth v \<and> cf_AUTH_TRANSACTION_KEY v = None \<and> cf_OIDC_TRANSACTION_KEY v = None) ''AUTH_TRANSACTION_KEY'' @
     issue (\<not> opt_all (issuer_ok pf) (cf_OIDC_ISSUER v)) ''OIDC_ISSUER'' @
     issue (\<not> canonical_key (cf_OIDC_TRANSACTION_KEY v)) ''OIDC_TRANSACTION_KEY'' @
     issue (\<not> canonical_key (cf_AUTH_TRANSACTION_KEY v)) ''AUTH_TRANSACTION_KEY'' @
     issue (\<not> canonical_key (cf_ENV_EXECUTION_RATE_LIMIT_KEY v)) ''EXECUTION_RATE_LIMIT_KEY'' @
     (if cf_TRUST_PROXY_CIDRS v = '''' then []
      else concat (map (\<lambda>cidr. issue (\<not> cidr_ok pf cidr) ''TRUST_PROXY_CIDRS'')
             (split_on (CHR '','') (cf_TRUST_PROXY_CIDRS v)))) @
     (case parse_url pf (cf_PUBLIC_ORIGIN v) of None \<Rightarrow> [''PUBLIC_ORIGIN''] | Some u \<Rightarrow> origin_issues pf v u)"

definition parseConfig :: "platform \<Rightarrow> (string \<Rightarrow> string option) \<Rightarrow> env_values result" where
  "parseConfig pf e =
     (case parse_fields pf e of
        None \<Rightarrow> Inl (PlainError ''Invalid configuration'')
      | Some v \<Rightarrow> if config_issues pf v = [] then Inr v else Inl (PlainError ''Invalid configuration''))"

section \<open>The getters of \<open>Config\<close>\<close>

definition authTransactionKey :: "env_values \<Rightarrow> string option" where
  "authTransactionKey v =
     (case cf_AUTH_TRANSACTION_KEY v of Some k \<Rightarrow> Some k | None \<Rightarrow> cf_OIDC_TRANSACTION_KEY v)"

definition apiOrigin :: "env_values \<Rightarrow> string" where
  "apiOrigin v = (case cf_API_ORIGIN v of Some s \<Rightarrow> s | None \<Rightarrow> cf_PUBLIC_ORIGIN v)"

definition secureCookies :: "env_values \<Rightarrow> bool" where
  "secureCookies v = starts_with ''https:'' (apiOrigin v)"

definition callbackUrl :: "env_values \<Rightarrow> string" where
  "callbackUrl v = apiOrigin v @ ''/api/v1/auth/callback''"

definition loginCookieName :: "env_values \<Rightarrow> string" where
  "loginCookieName v = (if cf_NODE_ENV v = Production then ''__Host-arenacore_oidc'' else ''arenacore_oidc'')"

definition cookieName :: "env_values \<Rightarrow> string" where
  "cookieName v = (if cf_NODE_ENV v = Production then ''__Host-arenacore_session'' else ''arenacore_session'')"

text \<open>The values the execution components read; an absent rate limit key is the empty one.\<close>

definition execution_config :: "env_values \<Rightarrow> config" where
  "execution_config v =
     \<lparr>cf_executionsEnabled = cf_EXECUTIONS_ENABLED v, cf_pipelineEnabled = cf_PIPELINE_ENABLED v,
      cf_MAX_ACTIVE_JOBS_PER_USER = cf_ENV_MAX_ACTIVE_JOBS_PER_USER v,
      cf_MAX_ACTIVE_JOBS_GLOBAL = cf_ENV_MAX_ACTIVE_JOBS_GLOBAL v,
      cf_QUEUE_TTL_SECONDS = cf_ENV_QUEUE_TTL_SECONDS v,
      cf_EXECUTION_GLOBAL_CREATIONS_PER_MINUTE = cf_ENV_EXECUTION_GLOBAL_CREATIONS_PER_MINUTE v,
      cf_EXECUTION_IP_CREATIONS_PER_MINUTE = cf_ENV_EXECUTION_IP_CREATIONS_PER_MINUTE v,
      cf_EXECUTION_CREATIONS_PER_MINUTE = cf_ENV_EXECUTION_CREATIONS_PER_MINUTE v,
      cf_EXECUTION_RATE_LIMIT_KEY = (case cf_ENV_EXECUTION_RATE_LIMIT_KEY v of None \<Rightarrow> '''' | Some k \<Rightarrow> k)\<rparr>"

section \<open>The worker\<close>

record worker_config =
  wc_RUNNER_SOCKET_PATH :: string
  wc_DATABASE_URL :: string
  wc_REDIS_URL :: string
  wc_QUEUE_NAME :: string

text \<open>\<open>/^\/(?:[^\0/]+\/)*[^\0/]+$/\<close>: an absolute path without empty components.\<close>

definition socket_path :: "string \<Rightarrow> bool" where
  "socket_path s =
     (case split_on (CHR ''/'') s of
        [] \<Rightarrow> False
      | first # rest \<Rightarrow> first = '''' \<and> rest \<noteq> [] \<and> list_all (\<lambda>p. p \<noteq> '''' \<and> CHR 0x00 \<notin> set p) rest)"

text \<open>\<open>/^(?:\/\d*)?$/\<close>: nothing, or a slash and a database number.\<close>

definition redis_path :: "string \<Rightarrow> bool" where
  "redis_path p \<longleftrightarrow> p = '''' \<or> (hd p = CHR ''/'' \<and> list_all digit_char (tl p))"

definition redis_url_plain :: "platform \<Rightarrow> string \<Rightarrow> bool" where
  "redis_url_plain pf s =
     opt_all (\<lambda>u. url_search u = '''' \<and> url_hash u = '''' \<and> redis_path (url_pathname u)) (parse_url pf s)"

definition parseWorkerConfig :: "platform \<Rightarrow> (string \<Rightarrow> string option) \<Rightarrow> worker_config result" where
  "parseWorkerConfig pf e =
     (case do {
         socket \<leftarrow> Option.bind (e ''RUNNER_SOCKET_PATH'') (refined socket_path);
         database \<leftarrow> postgres_url pf (e ''DATABASE_URL'');
         redis \<leftarrow> Option.bind (e ''REDIS_URL'') (redis_url pf);
         queue \<leftarrow> env_text queue_name ''arenacore-executions'' (e ''QUEUE_NAME'');
         Some \<lparr>wc_RUNNER_SOCKET_PATH = socket, wc_DATABASE_URL = database, wc_REDIS_URL = redis, wc_QUEUE_NAME = queue\<rparr> }
      of None \<Rightarrow> Inl (PlainError ''Invalid worker configuration'')
       | Some w \<Rightarrow>
           if e ''NODE_ENV'' = Some ''production'' \<and> e ''RUNNER_WORKER_ENABLED'' = Some ''true'' \<and>
              redis_url_plain pf (wc_REDIS_URL w)
           then Inr w else Inl (PlainError ''Invalid worker configuration''))"

section \<open>What an accepted configuration guarantees\<close>

lemma refined_Some: "refined ok s = Some t \<longleftrightarrow> ok s \<and> t = s"
  by (auto simp: refined_def)

lemma optional_key_format:
  "optionalString (refined key_format) raw = Some k \<Longrightarrow> opt_all key_format k"
  by (auto simp: optionalString_def refined_Some split: option.splits if_splits)

lemma parse_fields_keys:
  assumes "parse_fields pf e = Some v"
  shows "opt_all key_format (cf_OIDC_TRANSACTION_KEY v) \<and> opt_all key_format (cf_AUTH_TRANSACTION_KEY v) \<and>
    opt_all key_format (cf_ENV_EXECUTION_RATE_LIMIT_KEY v)"
  using assms unfolding parse_fields_def Option.bind_eq_Some_conv
  by (elim exE conjE) (auto dest!: optional_key_format)

lemma parseConfig_Inr:
  "parseConfig pf e = Inr v \<longleftrightarrow> parse_fields pf e = Some v \<and> config_issues pf v = []"
  by (auto simp: parseConfig_def split: option.splits)

lemma issue_Nil [simp]: "issue c p = [] \<longleftrightarrow> \<not> c"
  by (simp add: issue_def)

text \<open>A key of the format is 32 bytes.\<close>

lemma key_format_bytes:
  assumes "key_format s"
  shows "length (base64_decode s) = 32"
proof -
  have alpha: "sextet c \<noteq> None" if "alnum_char c \<or> c = CHR ''+'' \<or> c = CHR ''/''" for c
    using that by (auto simp: sextet_def alnum_char_def)
  have "length (List.map_filter sextet xs) = length xs"
    if "list_all (\<lambda>c. alnum_char c \<or> c = CHR ''+'' \<or> c = CHR ''/'') xs" for xs
    using that alpha by (induction xs) (auto simp: List.map_filter_def)
  moreover have "List.map_filter sextet ''='' = []"
    by (simp add: List.map_filter_def sextet_def upper_char_def lower_char_def digit_char_def)
  moreover have "List.map_filter sextet s = List.map_filter sextet (take 43 s) @ List.map_filter sextet (drop 43 s)"
    by (metis append_take_drop_id List.map_filter_def filter_append map_append)
  ultimately have "length (List.map_filter sextet s) = 43"
    using assms by (auto simp: key_format_def)
  then show ?thesis by (simp add: length_base64_decode)
qed

text \<open>The origin of an HTTP URL starts with its scheme.\<close>

definition origin_law :: "platform \<Rightarrow> bool" where
  "origin_law pf \<longleftrightarrow>
     (\<forall>s u. parse_url pf s = Some u \<longrightarrow> http_url u \<longrightarrow> (\<exists>host. url_origin u = url_protocol u @ ''//'' @ host))"

definition strong_key :: "string option \<Rightarrow> bool" where
  "strong_key k = (case k of None \<Rightarrow> False | Some s \<Rightarrow> length (base64_decode s) = 32 \<and> base64_encode (base64_decode s) = s)"

lemma https_origin:
  assumes "origin_law pf" and "parse_url pf s = Some u" and "exact_origin u s" and "url_protocol u = ''https:''"
  shows "starts_with ''https:'' s"
proof -
  have "http_url u" using assms(4) by (simp add: http_url_def)
  with assms(1,2) obtain host where "url_origin u = url_protocol u @ ''//'' @ host"
    unfolding origin_law_def by blast
  with assms(3,4) have "s = ''https:'' @ ''//'' @ host" by (simp add: exact_origin_def)
  then show ?thesis by (simp add: starts_with_def)
qed

text \<open>
  C32. A production configuration that enables executions is complete and safe: it was accepted only with
  the queue, its Redis URL and the realtime channel enabled, with some way to sign in, with canonical keys
  of 32 bytes for login transactions and for rate limits, over HTTPS, so that session cookies are marked
  secure and carry the \<open>__Host-\<close> prefix.
\<close>

theorem production_config_safe:
  assumes "parseConfig pf e = Inr v" and "origin_law pf"
    and "cf_NODE_ENV v = Production" and "cf_EXECUTIONS_ENABLED v"
  shows "cf_PIPELINE_ENABLED v \<and> cf_REDIS_URL v \<noteq> None \<and> cf_REALTIME_ENABLED v \<and> some_auth v \<and>
    strong_key (authTransactionKey v) \<and> strong_key (cf_ENV_EXECUTION_RATE_LIMIT_KEY v) \<and>
    secureCookies v \<and> starts_with ''https:'' (cf_PUBLIC_ORIGIN v) \<and> starts_with ''__Host-'' (cookieName v)"
proof -
  from assms(1) have fields: "parse_fields pf e = Some v" and issues: "config_issues pf v = []"
    by (simp_all add: parseConfig_Inr)
  from issues obtain u where u: "parse_url pf (cf_PUBLIC_ORIGIN v) = Some u" and ou: "origin_issues pf v u = []"
    by (auto simp: config_issues_def split: option.splits)
  note ou = ou [unfolded origin_issues_def append_is_Nil_conv issue_Nil]
  from ou assms(3,4) have auth: "some_auth v" "cf_PIPELINE_ENABLED v" "cf_REALTIME_ENABLED v"
    and "exact_origin u (cf_PUBLIC_ORIGIN v)" "url_protocol u = ''https:''" by auto
  with u assms(2) have public: "starts_with ''https:'' (cf_PUBLIC_ORIGIN v)" by (intro https_origin)
  have "starts_with ''https:'' s" if "cf_API_ORIGIN v = Some s" for s
    using ou that assms(2,3) by (auto simp: api_url_def split: option.splits intro: https_origin)
  with public have "secureCookies v" by (auto simp: secureCookies_def apiOrigin_def split: option.splits)
  moreover have "strong_key (cf_ENV_EXECUTION_RATE_LIMIT_KEY v)" "strong_key (authTransactionKey v)"
    using issues assms(4) auth parse_fields_keys [OF fields]
    by (auto simp: config_issues_def strong_key_def authTransactionKey_def canonical_key_def key_format_bytes
        split: option.splits)
  ultimately show ?thesis
    using auth public issues assms(3) by (auto simp: config_issues_def cookieName_def starts_with_def)
qed

end
