(* ===== verification/Processes.thy ===== *)
theory Processes
  imports Config Runner
begin

text \<open>
  How the processes start: the connection to Redis and the timer of the pipeline (\<open>queue.ts\<close>), the worker
  (\<open>worker-main.ts\<close>), the runner (\<open>main.ts\<close> and \<open>preflight.ts\<close> of \<open>apps/runner\<close>) and the HTTP application (\<open>bootstrap.ts\<close>). What the outside answers
  (does the database connect, is a promise fulfilled in time) is an argument; the result is what a process does and
  prints, in order.
\<close>

section \<open>Redis\<close>

text \<open>The parts of a URL that \<open>redisOptions\<close> reads beside those of \<open>Config\<close>.\<close>

record redis_location = url +
  url_hostname :: string
  url_port :: string

record redis_options =
  ro_host :: string
  ro_port :: int
  ro_username :: "string option"
  ro_password :: "string option"
  ro_db :: int
  ro_tls :: bool
  ro_maxRetriesPerRequest :: "int option"
  ro_connectTimeout :: int
  ro_enableOfflineQueue :: bool

text \<open>\<open>parse\<close> is \<open>new URL\<close> and \<open>decode\<close> is \<open>decodeURIComponent\<close>; both throw on input they do not accept.\<close>

definition redis_credential :: "(string \<Rightarrow> string option) \<Rightarrow> string \<Rightarrow> string option result" where
  "redis_credential decode s =
     (if s = '''' then Inr None
      else case decode s of None \<Rightarrow> Inl (PlainError ''URIError'') | Some t \<Rightarrow> Inr (Some t))"

definition redisOptions :: "(string \<Rightarrow> redis_location option) \<Rightarrow> (string \<Rightarrow> string option) \<Rightarrow> string \<Rightarrow> bool \<Rightarrow> redis_options result" where
  "redisOptions parse decode s worker =
     (case parse s of
        None \<Rightarrow> Inl (PlainError ''TypeError'')
      | Some u \<Rightarrow>
          if url_protocol u \<notin> {''redis:'', ''rediss:''} \<or> url_search u \<noteq> '''' \<or> url_hash u \<noteq> '''' \<or> \<not> redis_path (url_pathname u)
          then Inl (PlainError ''INVALID_REDIS_URL'')
          else bind_result (redis_credential decode (url_username u)) (\<lambda>user.
               map_result (\<lambda>pass.
                 \<lparr>ro_host = url_hostname u, ro_port = (if url_port u = '''' then 6379 else int (digits_value (url_port u))),
                  ro_username = user, ro_password = pass,
                  ro_db = int (digits_value (drop 1 (url_pathname u))), ro_tls = (url_protocol u = ''rediss:''),
                  ro_maxRetriesPerRequest = (if worker then None else Some 1), ro_connectTimeout = 2000,
                  ro_enableOfflineQueue = worker\<rparr>)
               (redis_credential decode (url_password u))))"

text \<open>The two parsers agree on the parts they share, and a URL with a scheme has that scheme as its protocol.\<close>

definition redis_parse_law :: "platform \<Rightarrow> (string \<Rightarrow> redis_location option) \<Rightarrow> bool" where
  "redis_parse_law pf parse \<longleftrightarrow>
     (\<forall>s t. redis_url pf s = Some t \<longrightarrow> (\<exists>u. parse t = Some u \<and> url_protocol u \<in> {''redis:'', ''rediss:''} \<and>
        (\<exists>v. parse_url pf t = Some v \<and> url_search u = url_search v \<and> url_hash u = url_hash v \<and> url_pathname u = url_pathname v)))"

text \<open>
  What the worker's configuration accepts is a Redis URL that can be connected to, unless its credentials are
  not well-formed.
\<close>

lemma worker_redis_accepted:
  assumes "parseWorkerConfig pf e = Inr w" and "redis_parse_law pf parse" and "\<forall>s. decode s \<noteq> None"
  shows "\<exists>opts. redisOptions parse decode (wc_REDIS_URL w) worker = Inr opts"
proof -
  from assms(1) obtain s where "redis_url pf s = Some (wc_REDIS_URL w)" and plain: "redis_url_plain pf (wc_REDIS_URL w)"
    by (auto simp: parseWorkerConfig_def Option.bind_eq_Some_conv split: option.splits if_splits)
  with assms(2) obtain u v where u: "parse (wc_REDIS_URL w) = Some u" "url_protocol u \<in> {''redis:'', ''rediss:''}"
    and v: "parse_url pf (wc_REDIS_URL w) = Some v" "url_search u = url_search v" "url_hash u = url_hash v" "url_pathname u = url_pathname v"
    unfolding redis_parse_law_def by blast
  from plain v(1) have "url_search v = ''''" "url_hash v = ''''" "redis_path (url_pathname v)" by (simp_all add: redis_url_plain_def)
  moreover have "\<exists>x. redis_credential decode s = Inr x" for s
    using spec [OF assms(3), of s] by (cases "decode s") (simp_all add: redis_credential_def)
  then obtain x y where "redis_credential decode (url_username u) = Inr x" "redis_credential decode (url_password u) = Inr y" by blast
  ultimately show ?thesis using u v by (auto simp: redisOptions_def)
qed

section \<open>The timer of the pipeline\<close>

text \<open>
  One turn of \<open>QueuePipeline\<close>: maintenance, then the dispatcher; a failure is logged, and what was committed before it stays. Turns
  never overlap: a tick that comes while one is pending does nothing.
\<close>

definition pipeline_turn ::
    "env \<Rightarrow> ('q \<Rightarrow> job \<Rightarrow> 'q option) \<Rightarrow> schedule \<Rightarrow> clock \<Rightarrow> clock \<Rightarrow> clock \<Rightarrow> uuid \<Rightarrow> 'q \<times> db \<Rightarrow> bool \<times> 'q \<times> db" where
  "pipeline_turn env add sc ck1 ck2 ck3 token qd =
     (case maintain env sc ck1 (snd qd) of
        Inl e \<Rightarrow> (True, qd)
      | Inr d1 \<Rightarrow> (False, snd (dispatcher_tick add sc ck2 ck3 token (fst qd, d1))))"

definition pipeline_timer :: "bool \<Rightarrow> ('s \<Rightarrow> 's) \<Rightarrow> 's \<Rightarrow> 's" where
  "pipeline_timer pending turn s = (if pending then s else turn s)"

lemma pipeline_turn_good:
  assumes "db_inv env d" and "env_ok env"
  shows "good_step env d (snd (snd (pipeline_turn env add sc ck1 ck2 ck3 token (q, d))))"
proof (cases "maintain env sc ck1 d")
  case (Inr d1)
  with maintain_good [OF assms(1)] assms have g: "good_step env d d1" by blast
  then have "db_inv env d1" by (simp add: good_step_def)
  from good_step_trans [OF g dispatcher_tick_good [OF this]] Inr show ?thesis by (simp add: pipeline_turn_def)
qed (use assms in \<open>simp add: pipeline_turn_def good_step_refl\<close>)

section \<open>The worker\<close>

datatype startup_stage =
    Configuration | DatabaseConnection | DatabasePrivileges | RedisConnection | SupervisorConnection | WorkerInitialization | Ready

fun stage_name :: "startup_stage \<Rightarrow> string" where
  "stage_name Configuration = ''CONFIGURATION''"
| "stage_name DatabaseConnection = ''DATABASE_CONNECTION''"
| "stage_name DatabasePrivileges = ''DATABASE_PRIVILEGES''"
| "stage_name RedisConnection = ''REDIS_CONNECTION''"
| "stage_name SupervisorConnection = ''SUPERVISOR_CONNECTION''"
| "stage_name WorkerInitialization = ''WORKER_INITIALIZATION''"
| "stage_name Ready = ''READY''"

text \<open>A promise as \<open>within\<close> sees it, and the outcome of the race with its timer.\<close>

datatype 'a promise = Fulfilled 'a | Rejects | Pending

definition within :: "'a promise \<Rightarrow> 'a result" where
  "within p = (case p of Fulfilled x \<Rightarrow> Inr x | Rejects \<Rightarrow> Inl (PlainError ''rejected'') | Pending \<Rightarrow> Inl (PlainError ''WORKER_READY_TIMEOUT''))"

text \<open>The private protocol refuses a \<open>GET\<close> with 400, which tells the supervisor from another server.\<close>

definition checkSupervisor :: "nat promise \<Rightarrow> unit result" where
  "checkSupervisor p =
     bind_result (within p) (\<lambda>status. if status \<noteq> 400 then Inl (PlainError ''SUPERVISOR_CHECK_FAILED'') else Inr ())"

text \<open>What the worker meets: its arguments, its environment, and the answers of the services it starts with.\<close>

record worker_world =
  ww_args :: "string list"
  ww_env :: "string \<Rightarrow> string option"
  ww_connects :: bool
  ww_permissions :: "bool option promise"
  ww_queueReady :: "unit promise"
  ww_supervisor :: "nat promise"
  ww_workerReady :: "unit promise"

datatype process_act =
    ConnectDatabase | DisconnectDatabase | OpenQueue | CloseQueue | StartWorker | CloseWorker bool | Say string | Complain string

record process_run =
  pu_stage :: startup_stage
  pu_acts :: "process_act list"
  pu_exitCode :: int

definition startup_failed :: "startup_stage \<Rightarrow> process_act list \<Rightarrow> process_run" where
  "startup_failed stage acts =
     \<lparr>pu_stage = stage, pu_acts = acts @ [Complain (''JUDGING_WORKER_STARTUP_FAILED '' @ stage_name stage)], pu_exitCode = 1\<rparr>"

definition started :: "process_act list \<Rightarrow> process_run" where
  "started acts = \<lparr>pu_stage = Ready, pu_acts = acts, pu_exitCode = 0\<rparr>"

text \<open>The stage at which the dependency check ends.\<close>

definition check_stage :: "worker_world \<Rightarrow> startup_stage" where
  "check_stage w =
     (case ww_permissions w of
        Fulfilled (Some True) \<Rightarrow>
          (case within (ww_queueReady w) of
             Inl e \<Rightarrow> RedisConnection
           | Inr _ \<Rightarrow> (case checkSupervisor (ww_supervisor w) of Inl e \<Rightarrow> SupervisorConnection | Inr _ \<Rightarrow> Ready))
      | _ \<Rightarrow> DatabasePrivileges)"

definition worker_main :: "platform \<Rightarrow> (string \<Rightarrow> bool \<Rightarrow> redis_options result) \<Rightarrow> worker_world \<Rightarrow> process_run" where
  "worker_main pf options w =
     (if 1 < length (ww_args w) \<or> (ww_args w \<noteq> [] \<and> hd (ww_args w) \<notin> {'''', ''--check''}) then startup_failed Configuration []
      else case parseWorkerConfig pf (ww_env w) of
        Inl e \<Rightarrow> startup_failed Configuration []
      | Inr cfg \<Rightarrow>
          if \<not> starts_with ''/'' (wc_RUNNER_SOCKET_PATH cfg) then startup_failed Configuration []
          else if \<not> ww_connects w then startup_failed DatabaseConnection [ConnectDatabase]
          else if ww_args w = [''--check'']
          then (case options (wc_REDIS_URL cfg) False of
                  Inl e \<Rightarrow> startup_failed DatabaseConnection [ConnectDatabase]
                | Inr _ \<Rightarrow>
                    if check_stage w = Ready
                    then started [ConnectDatabase, OpenQueue, Say ''WORKER_DEPENDENCY_CHECK_PASSED'', CloseQueue, DisconnectDatabase]
                    else startup_failed (check_stage w) [ConnectDatabase, OpenQueue, CloseQueue, DisconnectDatabase])
          else (case options (wc_REDIS_URL cfg) True of
                  Inl e \<Rightarrow> startup_failed WorkerInitialization [ConnectDatabase]
                | Inr _ \<Rightarrow>
                    (case within (ww_workerReady w) of
                       Inl e \<Rightarrow> startup_failed WorkerInitialization [ConnectDatabase, StartWorker, CloseWorker True, DisconnectDatabase]
                     | Inr _ \<Rightarrow> started [ConnectDatabase, StartWorker, Say ''JUDGING_WORKER_STARTED''])))"

text \<open>The handler of \<open>SIGTERM\<close> and \<open>SIGINT\<close>: the first signal closes the worker and then the database.\<close>

definition worker_signal :: "bool \<Rightarrow> bool \<times> process_act list" where
  "worker_signal closing = (True, if closing then [] else [CloseWorker False, DisconnectDatabase])"

text \<open>
  The process reports readiness if and only if everything it depends on answered in time, and says at which stage it failed
  otherwise. A start that fails gives back the connection it had opened.
\<close>

lemma worker_start_reported:
  "pu_exitCode (worker_main pf options w) = 0 \<longleftrightarrow> pu_stage (worker_main pf options w) = Ready"
  "pu_exitCode (worker_main pf options w) = 0 \<longleftrightarrow>
     (\<exists>t \<in> {''WORKER_DEPENDENCY_CHECK_PASSED'', ''JUDGING_WORKER_STARTED''}. Say t \<in> set (pu_acts (worker_main pf options w)))"
  by (simp_all add: worker_main_def startup_failed_def started_def split: sum.splits)

lemma worker_start_released:
  assumes "pu_exitCode (worker_main pf (redisOptions parse decode) w) \<noteq> 0"
    and "redis_parse_law pf parse" and "\<forall>s. decode s \<noteq> None"
    and "ww_connects w" and "ConnectDatabase \<in> set (pu_acts (worker_main pf (redisOptions parse decode) w))"
  shows "DisconnectDatabase \<in> set (pu_acts (worker_main pf (redisOptions parse decode) w))"
proof -
  obtain cfg where cfg: "parseWorkerConfig pf (ww_env w) = Inr cfg"
    using assms(5) by (cases "parseWorkerConfig pf (ww_env w)") (auto simp: worker_main_def startup_failed_def split: if_splits)
  obtain o1 o2 where "redisOptions parse decode (wc_REDIS_URL cfg) False = Inr o1" "redisOptions parse decode (wc_REDIS_URL cfg) True = Inr o2"
    using worker_redis_accepted [OF cfg assms(2,3), of False] worker_redis_accepted [OF cfg assms(2,3), of True] by blast
  with assms(1,4,5) cfg show ?thesis
    by (simp add: worker_main_def startup_failed_def started_def split: sum.splits if_splits)
qed

section \<open>The runner\<close>

record runner_world =
  rw_manifestPath :: "string option"
  rw_manifest :: "manifest option"
  rw_args :: "string list"
  rw_socketPath :: "string option"
  rw_listens :: bool

text \<open>The manifest is read, parsed and validated by the constructor of the supervisor.\<close>

definition read_manifest :: "runner_world \<Rightarrow> manifest option" where
  "read_manifest w =
     (case rw_manifestPath w of
        None \<Rightarrow> None
      | Some p \<Rightarrow> if p = '''' then None
          else case rw_manifest w of None \<Rightarrow> None | Some m \<Rightarrow> if manifestSchema m then Some m else None)"

text \<open>\<open>main.ts\<close>: preflight and reaping come before the socket, and the socket before the message.\<close>

definition runner_main :: "host \<Rightarrow> millis \<Rightarrow> runner_world \<Rightarrow> sup \<Rightarrow> string \<times> sup" where
  "runner_main h now w s =
     (case read_manifest w of
        None \<Rightarrow> (''RUNNER_STARTUP_FAILED'', s)
      | Some mf \<Rightarrow>
          if ''--janitor'' \<in> set (rw_args w)
          then (case reapExpired h now s of (Inl e, t) \<Rightarrow> (''RUNNER_STARTUP_FAILED'', t) | (Inr _, t) \<Rightarrow> (''RUNNER_JANITOR_PASSED'', t))
          else (case preflight h mf s of
                  (Inl e, t) \<Rightarrow> (''RUNNER_STARTUP_FAILED'', t)
                | (Inr _, t) \<Rightarrow>
                    (case reapExpired h now t of
                       (Inl e, u) \<Rightarrow> (''RUNNER_STARTUP_FAILED'', u)
                     | (Inr _, u) \<Rightarrow>
                         (if rw_socketPath w \<in> {None, Some ''''} \<or> \<not> rw_listens w then ''RUNNER_STARTUP_FAILED'' else ''RUNNER_SUPERVISOR_READY'', u))))"

text \<open>\<open>preflight.ts\<close>: the code that is printed for a failed preflight.\<close>

definition preflight_code :: "runner_error \<Rightarrow> string" where
  "preflight_code e =
     (case e of
        RunnerErr m \<Rightarrow> if m \<in> {''ISOLATION_UNAVAILABLE'', ''UNTRUSTED_RUNTIME_IMAGE''} then m else ''PREFLIGHT_UNKNOWN_FAILURE''
      | DockerErr c \<Rightarrow> docker_code_name c
      | RunnerZod \<Rightarrow> ''PREFLIGHT_VALIDATION_FAILED''
      | CleanupErr \<Rightarrow> ''PREFLIGHT_UNKNOWN_FAILURE'')"

definition preflight_main :: "host \<Rightarrow> millis \<Rightarrow> runner_world \<Rightarrow> sup \<Rightarrow> string \<times> sup" where
  "preflight_main h now w s =
     (case rw_manifestPath w of
        None \<Rightarrow> (''RUNNER_PREFLIGHT_FAILED PREFLIGHT_UNKNOWN_FAILURE'', s)
      | Some p \<Rightarrow>
          if p = '''' \<or> rw_manifest w = None then (''RUNNER_PREFLIGHT_FAILED PREFLIGHT_UNKNOWN_FAILURE'', s)
          else if \<not> manifestSchema (the (rw_manifest w)) then (''RUNNER_PREFLIGHT_FAILED PREFLIGHT_VALIDATION_FAILED'', s)
          else (case preflight h (the (rw_manifest w)) s of
                  (Inl e, t) \<Rightarrow> (''RUNNER_PREFLIGHT_FAILED '' @ preflight_code e, t)
                | (Inr _, t) \<Rightarrow>
                    (case reapExpired h now t of
                       (Inl e, u) \<Rightarrow> (''RUNNER_PREFLIGHT_FAILED '' @ preflight_code e, u)
                     | (Inr _, u) \<Rightarrow> (''RUNNER_PREFLIGHT_PASSED_CONFIGURATION_ONLY'', u))))"

text \<open>A runner that reports readiness has passed the preflight of its host and images and removed the expired containers.\<close>

lemma runner_ready:
  assumes "runner_main h now w s = (''RUNNER_SUPERVISOR_READY'', u)"
  shows "\<exists>mf t. read_manifest w = Some mf \<and> manifestSchema mf \<and> preflight h mf s = (Inr (), t) \<and> su_ready t \<and>
     reapExpired h now t = (Inr (), u)"
proof -
  from assms obtain mf t where m: "read_manifest w = Some mf" "preflight h mf s = (Inr (), t)" "reapExpired h now t = (Inr (), u)"
    by (auto simp: runner_main_def split: option.splits if_splits prod.splits sum.splits)
  then have "su_ready t"
    by (auto simp: preflight_def bind_act_def modify_act_def throw_act_def split: prod.splits sum.splits if_splits)
  moreover have "manifestSchema mf" using m(1) by (auto simp: read_manifest_def split: option.splits if_splits)
  ultimately show ?thesis using m by blast
qed

section \<open>The HTTP application\<close>

text \<open>What \<open>configureApp\<close> sets from the configuration; \<open>origin\<close> is the header of a request.\<close>

definition trusted_proxies :: "env_values \<Rightarrow> string list option" where
  "trusted_proxies v =
     (if cf_TRUST_PROXY_CIDRS v = '''' then None else Some (map ascii_trim (split_on (CHR '','') (cf_TRUST_PROXY_CIDRS v))))"

definition cors_origin :: "env_values \<Rightarrow> string option \<Rightarrow> bool" where
  "cors_origin v origin \<longleftrightarrow> origin = Some (cf_PUBLIC_ORIGIN v)"

record app_settings =
  ap_prefix :: string
  ap_trustProxy :: "string list option"
  ap_corsMethods :: "string list"
  ap_corsHeaders :: "string list"
  ap_corsMaxAge :: int
  ap_cacheControl :: string
  ap_jsonLimit :: nat

definition configureApp :: "env_values \<Rightarrow> app_settings" where
  "configureApp v =
     \<lparr>ap_prefix = ''api/v1'', ap_trustProxy = trusted_proxies v,
      ap_corsMethods = [''GET'', ''HEAD'', ''POST'', ''PATCH'', ''PUT'', ''DELETE'', ''OPTIONS''],
      ap_corsHeaders = [''Content-Type'', ''Idempotency-Key'', ''X-CSRF-Token''], ap_corsMaxAge = 600,
      ap_cacheControl = ''no-store'', ap_jsonLimit = 512 * 1024\<rparr>"

definition health_ready :: "bool \<Rightarrow> string result" where
  "health_ready answers = (if answers then Inr ''ok'' else Inl (ApiError 503 ''NOT_READY'' None))"

text \<open>Every proxy the application trusts is an address range the configuration validated.\<close>

lemma trusted_proxies_valid:
  assumes "parseConfig pf e = Inr v" and "trusted_proxies v = Some ps" and "p \<in> set ps"
  shows "\<exists>raw. p = ascii_trim raw \<and> cidr_ok pf raw"
proof -
  from assms(1) have "config_issues pf v = []" by (simp add: parseConfig_Inr)
  with assms(2) have "\<forall>c \<in> set (split_on (CHR '','') (cf_TRUST_PROXY_CIDRS v)). cidr_ok pf c"
    by (auto simp: config_issues_def trusted_proxies_def split: if_splits)
  with assms(2,3) show ?thesis by (auto simp: trusted_proxies_def split: if_splits) blast
qed

end
