(* ===== verification/Sessions.thy ===== *)
theory Sessions
  imports Config Errors
begin

text \<open>
  Sessions and guards (\<open>apps/api/src/auth/session.ts\<close>, \<open>apps/api/src/auth/roles.guard.ts\<close>). SHA-256 of a
  token and the HMAC that derives its CSRF token are parameters, as is the cookie parser: a request
  carries the cookies it read. One call reads the clock of the process once.
\<close>

record auth_crypto =
  hash_token :: "string \<Rightarrow> string"
  csrf_mac :: "string \<Rightarrow> string"
  auth_mac :: "bytes \<Rightarrow> string \<Rightarrow> string"

record http =
  rq_method :: string
  rq_origin :: "string option"
  rq_secFetchSite :: "string option"
  rq_csrf :: "string option"
  rq_cookies :: "string \<Rightarrow> string option"
  rq_ip :: string

section \<open>Tokens\<close>

text \<open>\<open>/^[A-Za-z0-9_-]{43}$/\<close>.\<close>

definition validToken :: "string \<Rightarrow> bool" where
  "validToken s \<longleftrightarrow> length s = 43 \<and> list_all token_char s"

definition hex_hash :: "string \<Rightarrow> bool" where
  "hex_hash s \<longleftrightarrow> length s = 64 \<and> list_all hex_char s"

definition hex_value :: "char \<Rightarrow> nat" where
  "hex_value c = (if digit_char c then of_char c - 48 else of_char c - 87)"

text \<open>\<open>Buffer.from(s, 'hex')\<close>.\<close>

fun hex_bytes :: "string \<Rightarrow> nat list" where
  "hex_bytes (a # b # s) = (16 * hex_value a + hex_value b) # hex_bytes s"
| "hex_bytes _ = []"

definition hashesEqual :: "string \<Rightarrow> string \<Rightarrow> bool" where
  "hashesEqual a b = (if \<not> hex_hash a \<or> \<not> hex_hash b then False else hex_bytes a = hex_bytes b)"

record session_secrets =
  ss_token :: string
  ss_csrfToken :: string
  ss_tokenHash :: string
  ss_csrfTokenHash :: string

text \<open>\<open>newSessionSecrets\<close>; the random token is an argument.\<close>

definition newSessionSecrets :: "auth_crypto \<Rightarrow> string \<Rightarrow> session_secrets" where
  "newSessionSecrets cr token =
     \<lparr>ss_token = token, ss_csrfToken = csrf_mac cr token, ss_tokenHash = hash_token cr token,
      ss_csrfTokenHash = hash_token cr (csrf_mac cr token)\<rparr>"

section \<open>Principals\<close>

datatype restriction =
    BANNED "jsstr option"
  | SUSPENDED "jsstr option" millis

record principal =
  pn_userId :: uuid
  pn_username :: string
  pn_displayName :: jsstr
  pn_avatarUrl :: "jsstr option"
  pn_themePreference :: themePreference
  pn_role :: role
  pn_sessionId :: uuid
  pn_csrfTokenHash :: string
  pn_csrfToken :: string
  pn_restriction :: "restriction option"

definition user_restriction :: "millis \<Rightarrow> user \<Rightarrow> restriction option" where
  "user_restriction now u =
     (if us_bannedAt u \<noteq> None then Some (BANNED (us_restrictionReason u))
      else case us_suspendedUntil u of
        Some until \<Rightarrow> if now < until then Some (SUSPENDED (us_restrictionReason u) until) else None
      | None \<Rightarrow> None)"

definition session_live :: "millis \<Rightarrow> session \<Rightarrow> bool" where
  "session_live now s \<longleftrightarrow> se_revokedAt s = None \<and> now < se_expiresAt s"

definition find_session :: "db \<Rightarrow> string \<Rightarrow> session option" where
  "find_session d h = find_by se_tokenHash h (db_sessions d)"

definition principal_of :: "auth_crypto \<Rightarrow> millis \<Rightarrow> string \<Rightarrow> session \<Rightarrow> user \<Rightarrow> principal" where
  "principal_of cr now token s u =
     \<lparr>pn_userId = se_userId s, pn_username = us_username u, pn_displayName = us_displayName u,
      pn_avatarUrl = us_avatarUrl u, pn_themePreference = us_themePreference u, pn_role = us_role u,
      pn_sessionId = se_id s, pn_csrfTokenHash = se_csrfTokenHash s, pn_csrfToken = csrf_mac cr token,
      pn_restriction = user_restriction now u\<rparr>"

definition resolve :: "auth_crypto \<Rightarrow> env_values \<Rightarrow> http \<Rightarrow> millis \<Rightarrow> db \<Rightarrow> principal option" where
  "resolve cr v rq now d =
     (case rq_cookies rq (cookieName v) of
        None \<Rightarrow> None
      | Some token \<Rightarrow>
          if \<not> validToken token then None
          else (case find_session d (hash_token cr token) of
             None \<Rightarrow> None
           | Some s \<Rightarrow>
               (case find_user d (se_userId s) of
                  None \<Rightarrow> None
                | Some u \<Rightarrow>
                    if \<not> session_live now s \<or> us_deactivatedAt u \<noteq> None then None
                    else Some (principal_of cr now token s u))))"

section \<open>Guards\<close>

definition safe_method :: "string \<Rightarrow> bool" where
  "safe_method m \<longleftrightarrow> m \<in> {''GET'', ''HEAD'', ''OPTIONS''}"

definition seconds_left :: "millis \<Rightarrow> millis \<Rightarrow> int" where
  "seconds_left until now = max 1 (ceil_div (until - now) 1000)"

definition csrf_ok :: "auth_crypto \<Rightarrow> http \<Rightarrow> principal \<Rightarrow> bool" where
  "csrf_ok cr rq p =
     (case rq_csrf rq of None \<Rightarrow> False
      | Some t \<Rightarrow> validToken t \<and> hashesEqual (hash_token cr t) (pn_csrfTokenHash p))"

text \<open>\<open>SessionGuard.canActivate\<close>: the principal it attaches to the request, or the refusal.\<close>

definition SessionGuard_canActivate ::
    "auth_crypto \<Rightarrow> env_values \<Rightarrow> bool \<Rightarrow> http \<Rightarrow> millis \<Rightarrow> db \<Rightarrow> principal result" where
  "SessionGuard_canActivate cr v allowRestricted rq now d =
     (case resolve cr v rq now d of
        None \<Rightarrow> Inl (ApiError 401 ''AUTHENTICATION_REQUIRED'' None)
      | Some p \<Rightarrow>
          (case if allowRestricted then None else pn_restriction p of
             Some (BANNED _) \<Rightarrow> Inl (ApiError 403 ''ACCOUNT_BANNED'' None)
           | Some (SUSPENDED _ until) \<Rightarrow> Inl (ApiError 403 ''ACCOUNT_SUSPENDED'' (Some (seconds_left until now)))
           | None \<Rightarrow>
               if safe_method (rq_method rq) then Inr p
               else if rq_origin rq \<noteq> Some (cf_PUBLIC_ORIGIN v) then Inl (ApiError 403 ''INVALID_ORIGIN'' None)
               else if \<not> csrf_ok cr rq p then Inl (ApiError 403 ''INVALID_CSRF_TOKEN'' None)
               else Inr p))"

text \<open>\<open>RolesGuard.canActivate\<close> of a handler annotated with \<open>roles\<close>, behind the session guard.\<close>

definition RolesGuard_canActivate :: "role list \<Rightarrow> principal option \<Rightarrow> unit result" where
  "RolesGuard_canActivate roles p =
     (if roles = [] then Inr ()
      else case p of
        None \<Rightarrow> Inl (ApiError 401 ''AUTHENTICATION_REQUIRED'' None)
      | Some q \<Rightarrow> if pn_role q \<in> set roles then Inr () else Inl (ApiError 403 ''PERMISSION_DENIED'' None))"

section \<open>Comparison of hashes\<close>

lemma digit_char_range: "digit_char c \<longleftrightarrow> 48 \<le> (of_char c :: nat) \<and> (of_char c :: nat) \<le> 57"
  by (simp add: digit_char_def less_eq_char_def)

lemma hex_char_range:
  "hex_char c \<longleftrightarrow> digit_char c \<or> 97 \<le> (of_char c :: nat) \<and> (of_char c :: nat) \<le> 102"
  by (simp add: hex_char_def less_eq_char_def)

lemma hex_value_less: "hex_char c \<Longrightarrow> hex_value c < 16"
  by (auto simp: hex_char_range digit_char_range hex_value_def)

lemma hex_value_inj:
  assumes "hex_char a" and "hex_char b" and "hex_value a = hex_value b"
  shows "a = b"
proof -
  have "(of_char a :: nat) = of_char b"
    using assms unfolding hex_char_range digit_char_range hex_value_def
    by (auto simp del: of_char_eq_iff split: if_splits)
  then show ?thesis by simp
qed

lemma hex_bytes_inj:
  assumes "list_all hex_char a" and "list_all hex_char b" and "length a = length b" and "even (length a)"
    and "hex_bytes a = hex_bytes b"
  shows "a = b"
  using assms
proof (induction a arbitrary: b rule: hex_bytes.induct)
  case (1 x y s)
  then obtain x' y' s' where b: "b = x' # y' # s'" by (cases b rule: hex_bytes.cases) auto
  have hex: "hex_char x" "hex_char y" "hex_char x'" "hex_char y'" using 1 b by auto
  have sum: "16 * hex_value x + hex_value y = 16 * hex_value x' + hex_value y'" using 1 b by simp
  then have "hex_value x = hex_value x'"
    using hex_value_less [OF hex(2)] hex_value_less [OF hex(4)] by linarith
  moreover from this sum have "hex_value y = hex_value y'" by simp
  ultimately have "hex_value x = hex_value x'" "hex_value y = hex_value y'" by blast+
  with hex have "x = x'" "y = y'" by (auto intro: hex_value_inj)
  with 1 b show ?case by simp
qed (auto simp: length_Suc_conv)

lemma hashesEqual_iff: "hashesEqual a b \<longleftrightarrow> hex_hash a \<and> a = b"
  using hex_bytes_inj [of a b] by (auto simp: hashesEqual_def hex_hash_def)

section \<open>What the guards let through\<close>

lemma resolve_Some:
  assumes "resolve cr v rq now d = Some p"
  obtains token s u where "rq_cookies rq (cookieName v) = Some token" "validToken token"
    "find_session d (hash_token cr token) = Some s" "find_user d (se_userId s) = Some u"
    "session_live now s" "us_deactivatedAt u = None" "p = principal_of cr now token s u"
  using assms by (auto simp: resolve_def split: option.splits if_splits)

lemma guard_passed:
  assumes "SessionGuard_canActivate cr v allowRestricted rq now d = Inr p"
    and "\<not> safe_method (rq_method rq)"
  shows "\<exists>token csrf s u.
     rq_cookies rq (cookieName v) = Some token \<and> rq_csrf rq = Some csrf \<and> rq_origin rq = Some (cf_PUBLIC_ORIGIN v) \<and>
     s \<in> set (db_sessions d) \<and> u \<in> set (db_users d) \<and> se_userId s = us_id u \<and>
     se_tokenHash s = hash_token cr token \<and> se_csrfTokenHash s = hash_token cr csrf \<and>
     session_live now s \<and> us_deactivatedAt u = None \<and>
     (allowRestricted \<or> us_bannedAt u = None \<and> opt_all (\<lambda>until. until \<le> now) (us_suspendedUntil u)) \<and>
     pn_userId p = us_id u \<and> pn_role p = us_role u \<and> pn_sessionId p = se_id s"
proof -
  from assms(1) have r: "resolve cr v rq now d = Some p"
    and free: "allowRestricted \<or> pn_restriction p = None"
    by (auto simp: SessionGuard_canActivate_def split: option.splits restriction.splits if_splits)
  from assms(1) free assms(2) have origin: "rq_origin rq = Some (cf_PUBLIC_ORIGIN v)" and csrf: "csrf_ok cr rq p"
    unfolding SessionGuard_canActivate_def r
    by (auto split: option.splits restriction.splits if_splits)
  from r obtain token s u where s: "rq_cookies rq (cookieName v) = Some token"
    "find_session d (hash_token cr token) = Some s" "find_user d (se_userId s) = Some u"
    "session_live now s" "us_deactivatedAt u = None" and p: "p = principal_of cr now token s u"
    by (rule resolve_Some) blast
  from csrf obtain t where "rq_csrf rq = Some t" "hash_token cr t = se_csrfTokenHash s"
    by (auto simp: csrf_ok_def hashesEqual_iff p principal_of_def split: option.splits)
  moreover have "s \<in> set (db_sessions d)" "se_tokenHash s = hash_token cr token" "u \<in> set (db_users d)"
    "us_id u = se_userId s"
    using s(2,3) by (auto simp: find_session_def find_user_def dest: find_by_Some)
  moreover have "allowRestricted \<or> us_bannedAt u = None \<and> opt_all (\<lambda>until. until \<le> now) (us_suspendedUntil u)"
    using free by (auto simp: p principal_of_def user_restriction_def split: option.splits if_splits)
  ultimately show ?thesis
    using s origin by (intro exI [of _ token] exI [of _ t] exI [of _ s] exI [of _ u]) (simp add: p principal_of_def)
qed


text \<open>
  C29. A state-changing request that passes the session guard is authentic: it carries the cookie of a
  stored session that is neither revoked nor expired, its user is not deactivated, not banned and not
  suspended (unless the route admits restricted accounts), it comes from the public origin, and it
  carries the token whose hash the session stores. The principal is that user, with the role of the
  database.
\<close>

theorem guard_authentic:
  assumes "SessionGuard_canActivate cr v allowRestricted rq now d = Inr p"
    and "\<not> safe_method (rq_method rq)"
  shows "\<exists>token csrf s u.
     rq_cookies rq (cookieName v) = Some token \<and> rq_csrf rq = Some csrf \<and> rq_origin rq = Some (cf_PUBLIC_ORIGIN v) \<and>
     s \<in> set (db_sessions d) \<and> u \<in> set (db_users d) \<and> se_userId s = us_id u \<and>
     se_tokenHash s = hash_token cr token \<and> se_csrfTokenHash s = hash_token cr csrf \<and>
     session_live now s \<and> us_deactivatedAt u = None \<and>
     (allowRestricted \<or> us_bannedAt u = None \<and> opt_all (\<lambda>until. until \<le> now) (us_suspendedUntil u)) \<and>
     pn_userId p = us_id u \<and> pn_role p = us_role u \<and> pn_sessionId p = se_id s"
  using assms by (rule guard_passed)

end
