(* ===== verification/Password.thy ===== *)
theory Password
  imports Base64 Prelude
begin

text \<open>
  Password hashes (\<open>apps/api/src/auth/password.ts\<close>). \<open>scrypt\<close> of \<open>node:crypto\<close> with the fixed cost
  parameters is the parameter \<open>scrypt\<close> (password, salt); the sixteen random bytes of a new salt are
  an argument; \<open>Number\<close> applied to a part of a stored hash is the parameter \<open>to_number\<close>.
\<close>

definition scrypt_N :: int where "scrypt_N = 32768"
definition scrypt_R :: int where "scrypt_R = 8"
definition scrypt_P :: int where "scrypt_P = 1"
definition scrypt_LENGTH :: nat where "scrypt_LENGTH = 32"

text \<open>\<open>`scrypt$${N}$${R}$${P}$${salt}$${key}`\<close>.\<close>

definition encoded_hash :: "bytes \<Rightarrow> bytes \<Rightarrow> string" where
  "encoded_hash salt key =
     join_with ''$'' [''scrypt'', int_text scrypt_N, int_text scrypt_R, int_text scrypt_P,
       base64url_encode salt, base64url_encode key]"

definition dummy_hash :: string where
  "dummy_hash = encoded_hash (replicate 16 0) (replicate scrypt_LENGTH 0)"

definition hashPassword :: "(jsstr \<Rightarrow> bytes \<Rightarrow> bytes) \<Rightarrow> bytes \<Rightarrow> jsstr \<Rightarrow> string" where
  "hashPassword scrypt salt password = encoded_hash salt (scrypt password salt)"

definition verifyPassword ::
    "(string \<Rightarrow> int option) \<Rightarrow> (jsstr \<Rightarrow> bytes \<Rightarrow> bytes) \<Rightarrow> jsstr \<Rightarrow> string option \<Rightarrow> bool" where
  "verifyPassword to_number scrypt password encoded =
     (case split_on (CHR ''$'') (case encoded of None \<Rightarrow> dummy_hash | Some e \<Rightarrow> e) of
        [scheme, n, r, p, s, k] \<Rightarrow>
          let salt = base64_decode s; expected = base64_decode k in
          if scheme \<noteq> ''scrypt'' then False
          else if to_number n \<noteq> Some scrypt_N \<or> to_number r \<noteq> Some scrypt_R \<or> to_number p \<noteq> Some scrypt_P \<or>
                  length salt \<noteq> 16 \<or> length expected \<noteq> scrypt_LENGTH then False
          else (case encoded of None \<Rightarrow> False | Some e \<Rightarrow> e \<noteq> '''') \<and> scrypt password salt = expected
      | _ \<Rightarrow> False)"

text \<open>\<open>Number\<close> reads the decimal digits of a number.\<close>

definition reads_decimals :: "(string \<Rightarrow> int option) \<Rightarrow> bool" where
  "reads_decimals to_number \<longleftrightarrow> (\<forall>n. to_number (nat_text n) = Some (int n))"

lemma int_text_nat [simp]: "int_text (int n) = nat_text n"
  by (simp add: int_text_def)

lemma split_encoded_hash:
  "split_on (CHR ''$'') (encoded_hash salt key) =
     [''scrypt'', nat_text 32768, nat_text 8, nat_text 1, base64url_encode salt, base64url_encode key]"
proof -
  have digits: "CHR ''$'' \<notin> set (nat_text n)" for n
    using nat_text_digits [of n] by (auto simp: list_all_iff digit_char_def)
  have "int_text scrypt_N = nat_text 32768" "int_text scrypt_R = nat_text 8" "int_text scrypt_P = nat_text 1"
    by (simp_all add: scrypt_N_def scrypt_R_def scrypt_P_def int_text_def)
  then show ?thesis
    unfolding encoded_hash_def
    by (subst split_join) (auto simp: digits dollar_not_encoded)
qed

lemma verify_hashPassword:
  assumes "reads_decimals to_number"
    and "length salt = 16" and "length (scrypt password salt) = scrypt_LENGTH"
  shows "verifyPassword to_number scrypt attempt (Some (hashPassword scrypt salt password)) =
           (scrypt attempt salt = scrypt password salt) \<and>
         \<not> verifyPassword to_number scrypt attempt None"
proof -
  have "hashPassword scrypt salt password \<noteq> ''''"
    using split_encoded_hash [of salt "scrypt password salt"] by (auto simp: hashPassword_def)
  moreover have "to_number (nat_text 32768) = Some scrypt_N" "to_number (nat_text 8) = Some scrypt_R"
    "to_number (nat_text 1) = Some scrypt_P"
    using assms(1) by (simp_all add: reads_decimals_def scrypt_N_def scrypt_R_def scrypt_P_def del: nat_text.simps)
  ultimately show ?thesis
    using assms(2,3)
    by (auto simp: verifyPassword_def dummy_hash_def hashPassword_def split_encoded_hash Let_def
        simp del: nat_text.simps split: list.splits)
qed

text \<open>
  C37. A stored password hash accepts exactly the passwords with the same derived key: what
  \<open>hashPassword\<close> prints, \<open>verifyPassword\<close> reads back with its salt, key and cost parameters, so the
  password itself is accepted and any other password only if \<open>scrypt\<close> maps it to the same key. An
  account without a password accepts none, although the same work is done for it.
\<close>

theorem password_roundtrip:
  assumes "reads_decimals to_number"
    and "length salt = 16" and "length (scrypt password salt) = scrypt_LENGTH"
  shows "verifyPassword to_number scrypt attempt (Some (hashPassword scrypt salt password)) =
           (scrypt attempt salt = scrypt password salt) \<and>
         \<not> verifyPassword to_number scrypt attempt None"
  using verify_hashPassword [where scrypt = scrypt, OF assms] .

text \<open>The right password is accepted, a wrong one and an account without a password are not.\<close>

definition toy_scrypt :: "jsstr \<Rightarrow> bytes \<Rightarrow> bytes" where
  "toy_scrypt password salt = replicate 31 0 @ [of_nat (length password)]"

theorem password_roundtrip_witness:
  "verifyPassword (\<lambda>s. Some (int (digits_value s))) toy_scrypt (js ''correct horse'')
     (Some (hashPassword toy_scrypt (replicate 16 7) (js ''correct horse''))) \<and>
   \<not> verifyPassword (\<lambda>s. Some (int (digits_value s))) toy_scrypt (js ''wrong'')
     (Some (hashPassword toy_scrypt (replicate 16 7) (js ''correct horse''))) \<and>
   \<not> verifyPassword (\<lambda>s. Some (int (digits_value s))) toy_scrypt (js ''wrong'') None"
proof -
  have num: "reads_decimals (\<lambda>s. Some (int (digits_value s)))" by (simp add: reads_decimals_def)
  have salt: "length (replicate 16 (7 :: byte)) = 16" by simp
  have key: "length (toy_scrypt (js ''correct horse'') (replicate 16 7)) = scrypt_LENGTH"
    by (simp add: toy_scrypt_def scrypt_LENGTH_def)
  show ?thesis
    using password_roundtrip [where scrypt = toy_scrypt, OF num salt key, of "js ''correct horse''"]
      password_roundtrip [where scrypt = toy_scrypt, OF num salt key, of "js ''wrong''"]
    by (simp add: toy_scrypt_def js_def)
qed

end
