(* ===== verification/Login.thy ===== *)
theory Login
  imports Sessions UserTables Password
begin

text \<open>
  Signing in (\<open>login.service.ts\<close>, \<open>login-proof.ts\<close>, \<open>password-auth.service.ts\<close>, \<open>oidc.gateway.ts\<close>,
  \<open>github.gateway.ts\<close> and the routes of \<open>auth.controller.ts\<close> in \<open>apps/api/src/auth\<close>). An operation that
  commits before it fails returns its result together with the database it leaves behind.

  Parameters: the random tokens and identifiers, AES-256-GCM, the text of JSON values, the exchange with
  the identity provider.
\<close>

type_synonym 'a stored = "'a result \<times> db"

definition bind_stored :: "'a stored \<Rightarrow> ('a \<Rightarrow> db \<Rightarrow> 'b stored) \<Rightarrow> 'b stored" where
  "bind_stored r f = (case r of (Inl e, d) \<Rightarrow> (Inl e, d) | (Inr x, d) \<Rightarrow> f x d)"

text \<open>A transaction: a failure leaves the database as it was.\<close>

definition transaction :: "(db \<Rightarrow> 'a tx) \<Rightarrow> db \<Rightarrow> 'a stored" where
  "transaction t d = (case t d of Inl e \<Rightarrow> (Inl e, d) | Inr (x, d') \<Rightarrow> (Inr x, d'))"

section \<open>Rate limit of sign-in requests\<close>

definition LOGIN_TTL_SECONDS :: int where "LOGIN_TTL_SECONDS = 300"

definition login_key :: "env_values \<Rightarrow> bytes result" where
  "login_key v =
     (case authTransactionKey v of None \<Rightarrow> Inl (ApiError 503 ''IDENTITY_NOT_CONFIGURED'' None)
      | Some k \<Rightarrow> Inr (base64_decode k))"

definition login_scope :: "auth_crypto \<Rightarrow> bytes \<Rightarrow> int \<Rightarrow> string \<Rightarrow> string" where
  "login_scope cr key window scope = auth_mac cr key (''auth:'' @ int_text window @ '':'' @ scope)"

text \<open>The counters are committed before the verdict: refused requests count too.\<close>

definition login_limit :: "auth_crypto \<Rightarrow> env_values \<Rightarrow> clock \<Rightarrow> string \<Rightarrow> db \<Rightarrow> unit stored" where
  "login_limit cr v ck ip d =
     (case login_key v of
        Inl e \<Rightarrow> (Inl e, d)
      | Inr key \<Rightarrow>
          let now = ck_host ck; window = now div 60000; expiresAt = (window + 1) * 60000;
              all = login_scope cr key window ''global''; client = login_scope cr key window (''ip:'' @ ip);
              l0 = filter (\<lambda>l. \<not> rl_expiresAt l \<le> now) (db_authLimits d);
              l1 = bump_limit all expiresAt l0; l2 = bump_limit client expiresAt l1;
              d' = d\<lparr>db_authLimits := l2\<rparr>
          in if limit_count client l2 > cf_AUTH_LOGIN_REQUESTS_PER_MINUTE v \<or>
                limit_count all l1 > cf_AUTH_LOGIN_GLOBAL_PER_MINUTE v
             then (Inl (ApiError 429 ''LOGIN_RATE_LIMIT'' (Some (max 1 (ceil_div (expiresAt - now) 1000)))), d')
             else (Inr (), d'))"

definition foreign_origin :: "env_values \<Rightarrow> bool \<Rightarrow> http \<Rightarrow> bool" where
  "foreign_origin v requireOrigin rq \<longleftrightarrow>
     (requireOrigin \<and> rq_origin rq \<noteq> Some (cf_PUBLIC_ORIGIN v)) \<or>
     (case rq_origin rq of None \<Rightarrow> False | Some s \<Rightarrow> s \<noteq> '''' \<and> s \<noteq> cf_PUBLIC_ORIGIN v) \<or>
     rq_secFetchSite rq = Some ''cross-site''"

definition protect :: "auth_crypto \<Rightarrow> env_values \<Rightarrow> clock \<Rightarrow> bool \<Rightarrow> http \<Rightarrow> db \<Rightarrow> bytes stored" where
  "protect cr v ck requireOrigin rq d =
     (case login_key v of
        Inl e \<Rightarrow> (Inl e, d)
      | Inr key \<Rightarrow>
          if foreign_origin v requireOrigin rq then (Inl (ApiError 403 ''INVALID_ORIGIN'' None), d)
          else bind_stored (login_limit cr v ck (rq_ip rq) d) (\<lambda>_ d'. (Inr key, d')))"

section \<open>The sealed proof\<close>

datatype provider = Auth0 | Google | Github

record login_proof =
  lp_provider :: provider
  lp_verifier :: string
  lp_nonce :: string
  lp_returnTo :: "jsstr option"

record cipher =
  seal :: "bytes \<Rightarrow> bytes \<Rightarrow> string \<Rightarrow> bytes \<Rightarrow> bytes \<times> bytes"
  unseal :: "bytes \<Rightarrow> bytes \<Rightarrow> string \<Rightarrow> bytes \<Rightarrow> bytes \<Rightarrow> bytes option"
  json_print :: "json \<Rightarrow> bytes"
  json_read :: "bytes \<Rightarrow> json option"

fun provider_name :: "provider \<Rightarrow> string" where
  "provider_name Auth0 = ''auth0''"
| "provider_name Google = ''google''"
| "provider_name Github = ''github''"

definition provider_of :: "string \<Rightarrow> provider option" where
  "provider_of s = map_of [(''auth0'', Auth0), (''google'', Google), (''github'', Github)] s"

definition proof_json :: "login_proof \<Rightarrow> json" where
  "proof_json p =
     JObj ([(''provider'', JStr (js (provider_name (lp_provider p)))), (''verifier'', JStr (js (lp_verifier p))),
            (''nonce'', JStr (js (lp_nonce p)))] @ opt_member ''returnTo'' JStr (lp_returnTo p))"

text \<open>A return path stays on the site.\<close>

definition return_path :: "jsstr \<Rightarrow> bool" where
  "return_path s \<longleftrightarrow>
     length s \<le> 500 \<and> take 1 s = js ''/'' \<and> take 2 s \<noteq> js ''//'' \<and> 92 \<notin> set s"

text \<open>An optional member of an object: absent, or a value of its schema.\<close>

definition optional_member :: "(json \<Rightarrow> 'a option) \<Rightarrow> json \<Rightarrow> string \<Rightarrow> 'a option option" where
  "optional_member schema j k = (case member j k of None \<Rightarrow> Some None | Some x \<Rightarrow> map_option Some (schema x))"

definition text_schema :: "(jsstr \<Rightarrow> bool) \<Rightarrow> json \<Rightarrow> jsstr option" where
  "text_schema ok j = (case j of JStr s \<Rightarrow> if ok s then Some s else None | _ \<Rightarrow> None)"

definition token_member :: "json \<Rightarrow> string \<Rightarrow> string option" where
  "token_member j k = Option.bind (Option.bind (member j k) json_ascii) (refined validToken)"

definition proofSchema :: "json \<Rightarrow> login_proof option" where
  "proofSchema j =
     (if \<not> strict_object [''provider'', ''verifier'', ''nonce'', ''returnTo''] j then None
      else do {
        p \<leftarrow> Option.bind (Option.bind (member j ''provider'') json_ascii) provider_of;
        verifier \<leftarrow> token_member j ''verifier'';
        nonce \<leftarrow> token_member j ''nonce'';
        returnTo \<leftarrow> optional_member (text_schema return_path) j ''returnTo'';
        Some \<lparr>lp_provider = p, lp_verifier = verifier, lp_nonce = nonce, lp_returnTo = returnTo\<rparr> })"

definition encryptProof :: "cipher \<Rightarrow> bytes \<Rightarrow> bytes \<Rightarrow> string \<Rightarrow> login_proof \<Rightarrow> string" where
  "encryptProof ci key iv stateHash p =
     (case seal ci key iv stateHash (json_print ci (proof_json p)) of
        (encrypted, authTag) \<Rightarrow> base64url_encode (iv @ authTag @ encrypted))"

definition decryptProof :: "cipher \<Rightarrow> bytes \<Rightarrow> string \<Rightarrow> string \<Rightarrow> login_proof option" where
  "decryptProof ci key stateHash encoded =
     (let data = base64_decode encoded in
      if length data < 29 then None
      else (case unseal ci key (take 12 data) stateHash (take 16 (drop 12 data)) (drop 28 data) of
              None \<Rightarrow> None
            | Some plain \<Rightarrow> Option.bind (json_read ci plain) proofSchema))"

section \<open>Issuing sessions\<close>

record identity =
  id_issuer :: string
  id_subject :: string
  id_displayName :: jsstr

record issued =
  is_token :: string
  is_expiresAt :: millis

definition ensureAllowed :: "millis \<Rightarrow> user \<Rightarrow> unit result" where
  "ensureAllowed now u =
     (if us_bannedAt u \<noteq> None then Inl (ApiError 403 ''ACCOUNT_BANNED'' None)
      else case us_suspendedUntil u of
        Some until \<Rightarrow> if now < until then Inl (ApiError 403 ''ACCOUNT_SUSPENDED'' (Some (seconds_left until now))) else Inr ()
      | None \<Rightarrow> Inr ())"

definition live_sessions :: "millis \<Rightarrow> uuid \<Rightarrow> db \<Rightarrow> session list" where
  "live_sessions now userId d = filter (\<lambda>s. se_userId s = userId \<and> session_live now s) (db_sessions d)"

definition se_key :: "session \<Rightarrow> millis \<times> uuid" where
  "se_key s = (se_createdAt s, se_id s)"

text \<open>The sessions beyond the newest nine, when there are ten or more.\<close>

definition surplus_sessions :: "millis \<Rightarrow> uuid \<Rightarrow> db \<Rightarrow> uuid list" where
  "surplus_sessions now userId d =
     (let active = rev (sort_key se_key (live_sessions now userId d))
      in if 10 \<le> length active then map se_id (drop 9 active) else [])"

definition new_session :: "clock \<Rightarrow> uuid \<Rightarrow> uuid \<Rightarrow> session_secrets \<Rightarrow> millis \<Rightarrow> session" where
  "new_session ck newId userId ss expiresAt =
     \<lparr>se_id = newId, se_tokenHash = ss_tokenHash ss, se_csrfTokenHash = ss_csrfTokenHash ss, se_userId = userId,
      se_expiresAt = expiresAt, se_revokedAt = None, se_createdAt = ck_host ck\<rparr>"

definition old_session_hash :: "auth_crypto \<Rightarrow> env_values \<Rightarrow> http \<Rightarrow> string option" where
  "old_session_hash cr v rq =
     (case rq_cookies rq (cookieName v) of None \<Rightarrow> None
      | Some t \<Rightarrow> if validToken t then Some (hash_token cr t) else None)"

definition drop_expired_sessions :: "millis \<Rightarrow> uuid \<Rightarrow> db \<Rightarrow> db" where
  "drop_expired_sessions now userId d =
     d\<lparr>db_sessions := filter (\<lambda>s. \<not> (se_userId s = userId \<and> se_expiresAt s \<le> now)) (db_sessions d)\<rparr>"

definition persistSession ::
    "auth_crypto \<Rightarrow> env_values \<Rightarrow> clock \<Rightarrow> http \<Rightarrow> uuid \<Rightarrow> uuid \<Rightarrow> string \<Rightarrow> session_secrets \<Rightarrow> millis \<Rightarrow> db \<Rightarrow> db result"
  where
  "persistSession cr v ck rq newId userId action ss expiresAt d =
     (let now = ck_host ck;
          d1 = (case old_session_hash cr v rq of None \<Rightarrow> d
                | Some h \<Rightarrow> revoke_sessions now (\<lambda>s. se_tokenHash s = h \<and> se_revokedAt s = None) d);
          d2 = drop_expired_sessions now userId d1;
          d3 = revoke_sessions now (\<lambda>s. se_id s \<in> set (surplus_sessions now userId d2)) d2
      in map_result (audit userId action userId) (create_session (new_session ck newId userId ss expiresAt) d3))"

definition session_end :: "env_values \<Rightarrow> clock \<Rightarrow> millis" where
  "session_end v ck = ck_host ck + cf_SESSION_TTL_SECONDS v * 1000"

definition issued_of :: "env_values \<Rightarrow> clock \<Rightarrow> string \<Rightarrow> issued" where
  "issued_of v ck token = \<lparr>is_token = token, is_expiresAt = session_end v ck\<rparr>"

text \<open>
  The fresh values of one sign-in: the session token, the identifiers of a new session and of a new
  user, and the default username.
\<close>

record fresh_ids =
  fr_token :: string
  fr_sessionId :: uuid
  fr_userId :: uuid
  fr_username :: string

definition upsert_identity :: "clock \<Rightarrow> fresh_ids \<Rightarrow> identity \<Rightarrow> db \<Rightarrow> (user \<times> db) result" where
  "upsert_identity ck fr idn d =
     (case find_by us_identity (id_issuer idn, id_subject idn) (db_users d) of
        Some u \<Rightarrow>
          map_result (\<lambda>d'. (u, d')) (update_user (us_id u) (\<lambda>u. u\<lparr>us_displayName := id_displayName idn\<rparr>) d)
      | None \<Rightarrow>
          let u = new_user ck (fr_userId fr) (id_issuer idn) (id_subject idn) (fr_username fr) (id_displayName idn)
          in map_result (\<lambda>d'. (u, d')) (create_user u d))"

definition issueIdentity ::
    "auth_crypto \<Rightarrow> env_values \<Rightarrow> clock \<Rightarrow> http \<Rightarrow> fresh_ids \<Rightarrow> identity \<Rightarrow> db \<Rightarrow> issued tx" where
  "issueIdentity cr v ck rq fr idn d =
     bind_result (upsert_identity ck fr idn d) (\<lambda>(u, d1).
     bind_result (ensureAllowed (ck_host ck) u) (\<lambda>_.
       map_result (Pair (issued_of v ck (fr_token fr)))
         (persistSession cr v ck rq (fr_sessionId fr) (us_id u) ''AUTH_LOGIN'' (newSessionSecrets cr (fr_token fr))
            (session_end v ck) d1)))"

definition issueUser ::
    "auth_crypto \<Rightarrow> env_values \<Rightarrow> clock \<Rightarrow> http \<Rightarrow> fresh_ids \<Rightarrow> uuid \<Rightarrow> string \<Rightarrow> db \<Rightarrow> issued tx" where
  "issueUser cr v ck rq fr userId action d =
     (case find_user d userId of
        None \<Rightarrow> Inl (ApiError 401 ''INVALID_CREDENTIALS'' None)
      | Some u \<Rightarrow>
          bind_result (ensureAllowed (ck_host ck) u) (\<lambda>_.
            map_result (Pair (issued_of v ck (fr_token fr)))
              (persistSession cr v ck rq (fr_sessionId fr) (us_id u) action (newSessionSecrets cr (fr_token fr))
                 (session_end v ck) d)))"

section \<open>Identity providers\<close>

record oidc_client =
  os_issuer :: string
  os_clientId :: string
  os_clientSecret :: string
  os_method :: string
  os_algorithm :: string

definition text_of :: "string option \<Rightarrow> string" where
  "text_of x = (case x of None \<Rightarrow> '''' | Some s \<Rightarrow> s)"

definition oidc_settings :: "env_values \<Rightarrow> provider \<Rightarrow> oidc_client result" where
  "oidc_settings v p =
     (if p = Google then
        if \<not> cf_GOOGLE_AUTH_ENABLED v then Inl (ApiError 503 ''IDENTITY_NOT_CONFIGURED'' None)
        else Inr \<lparr>os_issuer = ''https://accounts.google.com'', os_clientId = text_of (cf_GOOGLE_CLIENT_ID v),
                  os_clientSecret = text_of (cf_GOOGLE_CLIENT_SECRET v), os_method = ''client_secret_post'', os_algorithm = ''RS256''\<rparr>
      else if \<not> cf_OIDC_ENABLED v then Inl (ApiError 503 ''IDENTITY_NOT_CONFIGURED'' None)
      else Inr \<lparr>os_issuer = text_of (cf_OIDC_ISSUER v), os_clientId = text_of (cf_OIDC_CLIENT_ID v),
                os_clientSecret = text_of (cf_OIDC_CLIENT_SECRET v), os_method = cf_OIDC_CLIENT_AUTH_METHOD v,
                os_algorithm = cf_OIDC_ID_TOKEN_ALG v\<rparr>)"

text \<open>What the discovery document must offer.\<close>

record server_metadata =
  sm_endpoints :: "string option list"
  sm_signingAlgs :: "string list option"
  sm_authMethods :: "string list option"
  sm_challengeMethods :: "string list option"

definition safe_endpoint :: "platform \<Rightarrow> string option \<Rightarrow> bool" where
  "safe_endpoint pf e =
     (case Option.bind e (parse_url pf) of None \<Rightarrow> False
      | Some u \<Rightarrow> url_protocol u = ''https:'' \<and> url_username u = '''' \<and> url_password u = '''' \<and> url_hash u = '''')"

definition metadata_ok :: "platform \<Rightarrow> oidc_client \<Rightarrow> server_metadata \<Rightarrow> bool" where
  "metadata_ok pf st m \<longleftrightarrow>
     list_all (safe_endpoint pf) (sm_endpoints m) \<and>
     (case sm_signingAlgs m of None \<Rightarrow> False | Some as \<Rightarrow> os_algorithm st \<in> set as) \<and>
     opt_all (\<lambda>ms. os_method st \<in> set ms) (sm_authMethods m) \<and>
     opt_all (\<lambda>ms. ''S256'' \<in> set ms) (sm_challengeMethods m)"

text \<open>
  The network side of a provider: its discovery document, the claims of a verified code grant, and the
  profile GitHub returns for a code (its numeric identifier as text, its name or login).
\<close>

record claims =
  cl_iss :: string
  cl_sub :: string
  cl_name :: "jsstr option"

record idp =
  ip_metadata :: "provider \<Rightarrow> server_metadata option"
  ip_grant :: "login_proof \<Rightarrow> string \<Rightarrow> claims option"
  ip_github :: "login_proof \<Rightarrow> string \<Rightarrow> (string \<times> jsstr) option"

definition discover :: "platform \<Rightarrow> env_values \<Rightarrow> idp \<Rightarrow> provider \<Rightarrow> oidc_client result" where
  "discover pf v ip p =
     bind_result (oidc_settings v p) (\<lambda>st.
       case ip_metadata ip p of
         None \<Rightarrow> Inl (ApiError 503 ''IDENTITY_UNAVAILABLE'' None)
       | Some m \<Rightarrow> if metadata_ok pf st m then Inr st else Inl (ApiError 503 ''IDENTITY_UNAVAILABLE'' None))"

text \<open>Control characters are removed, the rest is trimmed and cut to 120 code units.\<close>

definition clean_name :: "jsstr \<Rightarrow> jsstr" where
  "clean_name s = take 120 (js_trim (filter (\<lambda>u. 32 \<le> u \<and> u \<noteq> 127) s))"

definition display_name :: "jsstr \<Rightarrow> jsstr" where
  "display_name s = (if clean_name s = [] then js ''ArenaCore user'' else clean_name s)"

definition LOGIN_FAILED :: error where
  "LOGIN_FAILED = ApiError 401 ''LOGIN_FAILED'' None"

definition oidc_exchange :: "platform \<Rightarrow> env_values \<Rightarrow> idp \<Rightarrow> string \<Rightarrow> login_proof \<Rightarrow> identity result" where
  "oidc_exchange pf v ip state p =
     bind_result (discover pf v ip (lp_provider p)) (\<lambda>st.
       case ip_grant ip p state of
         None \<Rightarrow> Inl LOGIN_FAILED
       | Some c \<Rightarrow>
           if cl_sub c = '''' \<or> 255 < length (cl_sub c) \<or> cl_iss c \<noteq> os_issuer st then Inl LOGIN_FAILED
           else Inr \<lparr>id_issuer = cl_iss c, id_subject = cl_sub c,
                     id_displayName = display_name (case cl_name c of None \<Rightarrow> [] | Some n \<Rightarrow> n)\<rparr>)"

text \<open>The parameters of the callback: its state and its authorization code.\<close>

record callback_params =
  cb_state :: string
  cb_code :: "string option"

definition github_exchange :: "env_values \<Rightarrow> idp \<Rightarrow> callback_params \<Rightarrow> string \<Rightarrow> login_proof \<Rightarrow> identity result" where
  "github_exchange v ip cb state p =
     (if \<not> cf_GITHUB_AUTH_ENABLED v then Inl (ApiError 503 ''IDENTITY_NOT_CONFIGURED'' None)
      else if cb_state cb \<noteq> state \<or> cb_code cb = None \<or> cb_code cb = Some '''' then Inl LOGIN_FAILED
      else (case ip_github ip p state of
              None \<Rightarrow> Inl LOGIN_FAILED
            | Some (subject, name) \<Rightarrow>
                Inr \<lparr>id_issuer = ''https://github.com'', id_subject = subject, id_displayName = display_name name\<rparr>))"

text \<open>Whether the provider can start a sign-in: the URL itself is the browser's business.\<close>

definition authorization :: "platform \<Rightarrow> env_values \<Rightarrow> idp \<Rightarrow> provider \<Rightarrow> unit result" where
  "authorization pf v ip p =
     (if p = Github
      then if cf_GITHUB_AUTH_ENABLED v then Inr () else Inl (ApiError 503 ''IDENTITY_NOT_CONFIGURED'' None)
      else map_result (\<lambda>_. ()) (discover pf v ip p))"

section \<open>The login transaction\<close>

record login_tokens =
  lt_state :: string
  lt_browserToken :: string
  lt_verifier :: string
  lt_nonce :: string
  lt_iv :: bytes

definition create_attempt :: "auth_attempt \<Rightarrow> db \<Rightarrow> db result" where
  "create_attempt a d = map_result (\<lambda>rows. d\<lparr>db_authAttempts := rows\<rparr>) (insert_by aa_stateHash a (db_authAttempts d))"

definition browser_token :: "env_values \<Rightarrow> http \<Rightarrow> string option" where
  "browser_token v rq =
     (case rq_cookies rq (loginCookieName v) of None \<Rightarrow> None | Some t \<Rightarrow> if validToken t then Some t else None)"

definition discard_attempts :: "auth_crypto \<Rightarrow> millis \<Rightarrow> string option \<Rightarrow> db \<Rightarrow> db" where
  "discard_attempts cr now old d =
     d\<lparr>db_authAttempts := filter (\<lambda>a. \<not> (aa_expiresAt a \<le> now \<or> (case old of None \<Rightarrow> False
         | Some t \<Rightarrow> aa_browserTokenHash a = hash_token cr t))) (db_authAttempts d)\<rparr>"

definition new_attempt :: "auth_crypto \<Rightarrow> cipher \<Rightarrow> clock \<Rightarrow> bytes \<Rightarrow> login_tokens \<Rightarrow> login_proof \<Rightarrow> auth_attempt" where
  "new_attempt cr ci ck key lt q =
     \<lparr>aa_stateHash = hash_token cr (lt_state lt), aa_browserTokenHash = hash_token cr (lt_browserToken lt),
      aa_encryptedPayload = encryptProof ci key (lt_iv lt) (hash_token cr (lt_state lt)) q,
      aa_expiresAt = ck_host ck + LOGIN_TTL_SECONDS * 1000\<rparr>"

definition begin_login ::
    "auth_crypto \<Rightarrow> cipher \<Rightarrow> platform \<Rightarrow> env_values \<Rightarrow> idp \<Rightarrow> clock \<Rightarrow> http \<Rightarrow> login_tokens \<Rightarrow> provider \<Rightarrow> jsstr \<Rightarrow> db \<Rightarrow> string stored"
  where
  "begin_login cr ci pf v ip ck rq lt p returnTo d =
     bind_stored (protect cr v ck False rq d) (\<lambda>key d1.
       case authorization pf v ip p of
         Inl e \<Rightarrow> (Inl e, d1)
       | Inr _ \<Rightarrow>
           transaction (\<lambda>d. map_result (Pair (lt_browserToken lt))
             (create_attempt
                (new_attempt cr ci ck key lt
                   \<lparr>lp_provider = p, lp_verifier = lt_verifier lt, lp_nonce = lt_nonce lt, lp_returnTo = Some returnTo\<rparr>)
                (discard_attempts cr (ck_host ck) (browser_token v rq) d))) d1)"

definition INVALID_LOGIN_STATE :: error where
  "INVALID_LOGIN_STATE = ApiError 403 ''INVALID_LOGIN_STATE'' None"

text \<open>The attempt a callback may consume: its state, from the browser that began it, in time.\<close>

definition attempt_usable :: "auth_crypto \<Rightarrow> millis \<Rightarrow> string \<Rightarrow> string \<Rightarrow> auth_attempt \<Rightarrow> bool" where
  "attempt_usable cr now state browserToken a \<longleftrightarrow>
     aa_stateHash a = hash_token cr state \<and> aa_browserTokenHash a = hash_token cr browserToken \<and> now < aa_expiresAt a"

definition delete_attempts ::
    "auth_crypto \<Rightarrow> millis \<Rightarrow> string \<Rightarrow> string \<Rightarrow> db \<Rightarrow> nat \<times> db" where
  "delete_attempts cr now state browserToken d =
     (length (filter (attempt_usable cr now state browserToken) (db_authAttempts d)),
      d\<lparr>db_authAttempts := filter (\<lambda>a. \<not> attempt_usable cr now state browserToken a) (db_authAttempts d)\<rparr>)"

text \<open>
  The attempt of the callback, read first and then consumed: the deletion is committed whatever
  follows, and its count decides.
\<close>

definition consume_attempt ::
    "auth_crypto \<Rightarrow> env_values \<Rightarrow> clock \<Rightarrow> http \<Rightarrow> callback_params \<Rightarrow> db \<Rightarrow> auth_attempt stored" where
  "consume_attempt cr v ck rq cb d =
     (case browser_token v rq of
        None \<Rightarrow> (Inl INVALID_LOGIN_STATE, d)
      | Some t \<Rightarrow>
          (case find_by aa_stateHash (hash_token cr (cb_state cb)) (db_authAttempts d) of
             None \<Rightarrow> (Inl INVALID_LOGIN_STATE, d)
           | Some a \<Rightarrow>
               (case delete_attempts cr (ck_host ck) (cb_state cb) t d of
                  (n, d1) \<Rightarrow> if n \<noteq> 1 then (Inl INVALID_LOGIN_STATE, d1) else (Inr a, d1))))"

definition exchange ::
    "platform \<Rightarrow> env_values \<Rightarrow> idp \<Rightarrow> callback_params \<Rightarrow> login_proof \<Rightarrow> identity result" where
  "exchange pf v ip cb q =
     (if lp_provider q = Github then github_exchange v ip cb (cb_state cb) q
      else oidc_exchange pf v ip (cb_state cb) q)"

definition return_to :: "login_proof \<Rightarrow> jsstr" where
  "return_to q = (case lp_returnTo q of None \<Rightarrow> js ''/problems'' | Some r \<Rightarrow> r)"

definition finish_login ::
    "auth_crypto \<Rightarrow> cipher \<Rightarrow> platform \<Rightarrow> env_values \<Rightarrow> idp \<Rightarrow> clock \<Rightarrow> http \<Rightarrow> fresh_ids \<Rightarrow> callback_params \<Rightarrow> db \<Rightarrow> (issued \<times> jsstr) stored"
  where
  "finish_login cr ci pf v ip ck rq fr cb d =
     (case login_key v of
        Inl e \<Rightarrow> (Inl e, d)
      | Inr key \<Rightarrow>
          bind_stored (consume_attempt cr v ck rq cb d) (\<lambda>a d1.
            case decryptProof ci key (hash_token cr (cb_state cb)) (aa_encryptedPayload a) of
              None \<Rightarrow> (Inl LOGIN_FAILED, d1)
            | Some q \<Rightarrow>
                (case exchange pf v ip cb q of
                   Inl e \<Rightarrow> (Inl e, d1)
                 | Inr idn \<Rightarrow>
                     bind_stored (transaction (issueIdentity cr v ck rq fr idn) d1)
                       (\<lambda>session d2. (Inr (session, return_to q), d2)))))"

section \<open>Passwords\<close>

record password_env =
  pe_scrypt :: "jsstr \<Rightarrow> bytes \<Rightarrow> bytes"
  pe_number :: "string \<Rightarrow> int option"

definition password_enabled :: "env_values \<Rightarrow> unit result" where
  "password_enabled v =
     (if cf_PASSWORD_AUTH_ENABLED v then Inr () else Inl (ApiError 503 ''IDENTITY_NOT_CONFIGURED'' None))"

record registration_input =
  ri_email :: string
  ri_password :: jsstr
  ri_displayName :: jsstr
  ri_username :: string

definition normal_email :: "string \<Rightarrow> string" where
  "normal_email s = ascii_lower (ascii_trim s)"

definition registered_user :: "clock \<Rightarrow> uuid \<Rightarrow> registration_input \<Rightarrow> user" where
  "registered_user ck i ri =
     new_user ck i ''arenacore:password'' (normal_email (ri_email ri)) (ascii_lower (ascii_trim (ri_username ri)))
       (js_trim (ri_displayName ri))"

text \<open>The user with its credential in one statement; \<open>P2002\<close> as the route reports it.\<close>

definition create_password_user ::
    "password_env \<Rightarrow> clock \<Rightarrow> uuid \<Rightarrow> uuid \<Rightarrow> bytes \<Rightarrow> registration_input \<Rightarrow> db \<Rightarrow> db result" where
  "create_password_user pe ck userId credentialId salt ri d =
     (case bind_result (create_user (registered_user ck userId ri) d)
             (create_credential \<lparr>cd_id = credentialId, cd_userId = userId, cd_email = normal_email (ri_email ri),
                cd_passwordHash = hashPassword (pe_scrypt pe) salt (ri_password ri)\<rparr>) of
        Inl e \<Rightarrow>
          if e = DbError ''P2002:username'' then Inl (ApiError 409 ''USERNAME_TAKEN'' None)
          else if is_P2002 e then Inl (ApiError 409 ''ACCOUNT_EXISTS'' None)
          else Inl e
      | Inr d' \<Rightarrow> Inr d')"

definition register_password ::
    "auth_crypto \<Rightarrow> password_env \<Rightarrow> env_values \<Rightarrow> clock \<Rightarrow> http \<Rightarrow> fresh_ids \<Rightarrow> uuid \<Rightarrow> bytes \<Rightarrow> registration_input \<Rightarrow> db \<Rightarrow> issued stored"
  where
  "register_password cr pe v ck rq fr credentialId salt ri d =
     (case password_enabled v of
        Inl e \<Rightarrow> (Inl e, d)
      | Inr _ \<Rightarrow>
          bind_stored (protect cr v ck True rq d) (\<lambda>_ d1.
          bind_stored (transaction (\<lambda>d. map_result (Pair ())
              (create_password_user pe ck (fr_userId fr) credentialId salt ri d)) d1) (\<lambda>_ d2.
            transaction (issueUser cr v ck rq fr (fr_userId fr) ''AUTH_PASSWORD_REGISTER'') d2)))"

definition authenticate_password ::
    "auth_crypto \<Rightarrow> password_env \<Rightarrow> env_values \<Rightarrow> clock \<Rightarrow> http \<Rightarrow> fresh_ids \<Rightarrow> string \<Rightarrow> jsstr \<Rightarrow> db \<Rightarrow> issued stored"
  where
  "authenticate_password cr pe v ck rq fr email password d =
     (case password_enabled v of
        Inl e \<Rightarrow> (Inl e, d)
      | Inr _ \<Rightarrow>
          bind_stored (protect cr v ck True rq d) (\<lambda>_ d1.
            let cred = find_by cd_email (normal_email email) (db_credentials d1) in
            if \<not> verifyPassword (pe_number pe) (pe_scrypt pe) password (map_option cd_passwordHash cred)
            then (Inl (ApiError 401 ''INVALID_CREDENTIALS'' None), d1)
            else (case cred of
                    None \<Rightarrow> (Inl (ApiError 401 ''INVALID_CREDENTIALS'' None), d1)
                  | Some c \<Rightarrow> transaction (issueUser cr v ck rq fr (cd_userId c) ''AUTH_PASSWORD_LOGIN'') d1)))"

section \<open>Routes\<close>

text \<open>\<open>GET /auth/callback\<close>: where the browser is sent, and whether it got a session.\<close>

datatype callback_reply =
    SignedIn issued jsstr
  | ProviderRefused

definition auth_callback ::
    "auth_crypto \<Rightarrow> cipher \<Rightarrow> platform \<Rightarrow> env_values \<Rightarrow> idp \<Rightarrow> clock \<Rightarrow> http \<Rightarrow> fresh_ids \<Rightarrow> callback_params \<Rightarrow> bool \<Rightarrow> db \<Rightarrow> callback_reply stored"
  where
  "auth_callback cr ci pf v ip ck rq fr cb providerError d =
     (case finish_login cr ci pf v ip ck rq fr cb d of
        (Inr (session, returnTo), d') \<Rightarrow> (Inr (SignedIn session (js (cf_PUBLIC_ORIGIN v) @ returnTo)), d')
      | (Inl e, d') \<Rightarrow>
          if \<not> providerError \<or> (case e of ApiError st _ _ \<Rightarrow> st \<noteq> 401 | _ \<Rightarrow> True) then (Inl e, d')
          else (Inr ProviderRefused, d'))"

definition logout :: "millis \<Rightarrow> principal \<Rightarrow> db \<Rightarrow> db result" where
  "logout now p d =
     (if pn_sessionId p \<notin> se_id ` set (db_sessions d) then Inl (DbError ''P2025'')
      else Inr (audit (pn_userId p) ''AUTH_LOGOUT'' (pn_userId p)
        (revoke_sessions now (\<lambda>s. se_id s = pn_sessionId p) d)))"

end
