(* ===== verification/Account.thy ===== *)
theory Account
  imports Login
begin

text \<open>
  Self-service of an account (\<open>apps/api/src/account/account.ts\<close>): settings, sessions, password, email and
  deactivation. The routes take the user and session of the principal the guard admitted.
\<close>

section \<open>Schemas\<close>

text \<open>\<open>z.string().min(12).max(128)\<close> within 256 bytes.\<close>

definition password_ok :: "jsstr \<Rightarrow> bool" where
  "password_ok s \<longleftrightarrow> 12 \<le> length s \<and> length s \<le> 128 \<and> byteLength s \<le> 256"

record settings_input =
  si_profileVisibility :: "profileVisibility option"
  si_themePreference :: "themePreference option"
  si_productNotifications :: "bool option"
  si_competitionNotifications :: "bool option"

text \<open>At least one setting is required.\<close>

definition settingsSchema :: "settings_input \<Rightarrow> bool" where
  "settingsSchema i \<longleftrightarrow>
     si_profileVisibility i \<noteq> None \<or> si_themePreference i \<noteq> None \<or> si_productNotifications i \<noteq> None \<or>
     si_competitionNotifications i \<noteq> None"

definition passwordSchema :: "jsstr \<Rightarrow> jsstr \<Rightarrow> bool" where
  "passwordSchema currentPassword newPassword \<longleftrightarrow>
     password_ok currentPassword \<and> password_ok newPassword \<and> currentPassword \<noteq> newPassword"

definition deactivateSchema :: "string \<Rightarrow> jsstr option \<Rightarrow> bool" where
  "deactivateSchema confirmation currentPassword \<longleftrightarrow>
     confirmation = ''DELETE'' \<and> opt_all password_ok currentPassword"

section \<open>Settings\<close>

definition credential_of :: "uuid \<Rightarrow> db \<Rightarrow> credential option" where
  "credential_of userId d = find_by cd_userId userId (db_credentials d)"

record account_settings =
  st_username :: string
  st_displayName :: jsstr
  st_avatarUrl :: "jsstr option"
  st_profileVisibility :: profileVisibility
  st_themePreference :: themePreference
  st_productNotifications :: bool
  st_competitionNotifications :: bool
  st_hasPassword :: bool
  st_email :: "string option"

definition settings :: "uuid \<Rightarrow> db \<Rightarrow> account_settings result" where
  "settings userId d =
     (case find_user d userId of
        None \<Rightarrow> Inl NOT_FOUND
      | Some u \<Rightarrow>
          Inr \<lparr>st_username = us_username u, st_displayName = us_displayName u, st_avatarUrl = us_avatarUrl u,
               st_profileVisibility = us_profileVisibility u, st_themePreference = us_themePreference u,
               st_productNotifications = us_productNotifications u,
               st_competitionNotifications = us_competitionNotifications u,
               st_hasPassword = (credential_of userId d \<noteq> None),
               st_email = map_option cd_email (credential_of userId d)\<rparr>)"

definition or_else :: "'a option \<Rightarrow> 'a \<Rightarrow> 'a" where
  "or_else x y = (case x of None \<Rightarrow> y | Some v \<Rightarrow> v)"

definition apply_settings :: "settings_input \<Rightarrow> user \<Rightarrow> user" where
  "apply_settings i u =
     u\<lparr>us_profileVisibility := or_else (si_profileVisibility i) (us_profileVisibility u),
       us_themePreference := or_else (si_themePreference i) (us_themePreference u),
       us_productNotifications := or_else (si_productNotifications i) (us_productNotifications u),
       us_competitionNotifications := or_else (si_competitionNotifications i) (us_competitionNotifications u)\<rparr>"

definition updateSettings :: "uuid \<Rightarrow> settings_input \<Rightarrow> db \<Rightarrow> db result" where
  "updateSettings userId input d =
     map_result (audit userId ''ACCOUNT_SETTINGS_UPDATE'' userId) (update_user userId (apply_settings input) d)"

section \<open>Sessions\<close>

record session_item =
  sv_id :: uuid
  sv_current :: bool
  sv_createdAt :: millis
  sv_expiresAt :: millis

definition session_view :: "uuid \<Rightarrow> session \<Rightarrow> session_item" where
  "session_view current s =
     \<lparr>sv_id = se_id s, sv_current = (se_id s = current), sv_createdAt = se_createdAt s, sv_expiresAt = se_expiresAt s\<rparr>"

definition sessions :: "millis \<Rightarrow> uuid \<Rightarrow> uuid \<Rightarrow> db \<Rightarrow> session_item list" where
  "sessions now userId currentSessionId d =
     map (session_view currentSessionId) (rev (sort_key se_key (live_sessions now userId d)))"

definition revokeSession :: "millis \<Rightarrow> uuid \<Rightarrow> uuid \<Rightarrow> uuid \<Rightarrow> db \<Rightarrow> bool tx" where
  "revokeSession now userId currentSessionId sessionId d =
     (if \<not> (\<exists>s \<in> set (db_sessions d). se_id s = sessionId \<and> se_userId s = userId \<and> se_revokedAt s = None)
      then Inl NOT_FOUND
      else Inr (sessionId = currentSessionId,
        audit userId (if sessionId = currentSessionId then ''ACCOUNT_CURRENT_SESSION_REVOKE'' else ''ACCOUNT_SESSION_REVOKE'')
          sessionId (revoke_sessions now (\<lambda>s. se_id s = sessionId) d)))"

definition revokeOtherSessions :: "millis \<Rightarrow> uuid \<Rightarrow> uuid \<Rightarrow> db \<Rightarrow> nat \<times> db" where
  "revokeOtherSessions now userId currentSessionId d =
     (let other = (\<lambda>s. se_userId s = userId \<and> se_id s \<noteq> currentSessionId \<and> session_live now s)
      in (length (filter other (db_sessions d)),
          audit userId ''ACCOUNT_OTHER_SESSIONS_REVOKE'' userId (revoke_sessions now other d)))"

text \<open>The sessions a change of password or email ends: every other one of the user, expired or not.\<close>

definition end_other_sessions :: "millis \<Rightarrow> uuid \<Rightarrow> uuid \<Rightarrow> db \<Rightarrow> db" where
  "end_other_sessions now userId currentSessionId d =
     revoke_sessions now (\<lambda>s. se_userId s = userId \<and> se_id s \<noteq> currentSessionId \<and> se_revokedAt s = None) d"

section \<open>Credentials\<close>

definition INVALID_CREDENTIALS :: error where
  "INVALID_CREDENTIALS = ApiError 401 ''INVALID_CREDENTIALS'' None"

definition password_matches :: "password_env \<Rightarrow> jsstr \<Rightarrow> credential \<Rightarrow> bool" where
  "password_matches pe password c = verifyPassword (pe_number pe) (pe_scrypt pe) password (Some (cd_passwordHash c))"

definition changePassword ::
    "password_env \<Rightarrow> millis \<Rightarrow> bytes \<Rightarrow> uuid \<Rightarrow> uuid \<Rightarrow> jsstr \<Rightarrow> jsstr \<Rightarrow> db \<Rightarrow> db result" where
  "changePassword pe now salt userId currentSessionId currentPassword newPassword d =
     (case credential_of userId d of
        None \<Rightarrow> Inl (ApiError 409 ''PASSWORD_NOT_AVAILABLE'' None)
      | Some c \<Rightarrow>
          if \<not> password_matches pe currentPassword c then Inl INVALID_CREDENTIALS
          else map_result (\<lambda>d1. audit userId ''ACCOUNT_PASSWORD_CHANGE'' userId (end_other_sessions now userId currentSessionId d1))
                 (update_credential (cd_id c)
                    (\<lambda>x. x\<lparr>cd_passwordHash := hashPassword (pe_scrypt pe) salt newPassword\<rparr>) d))"

definition changeEmail ::
    "password_env \<Rightarrow> millis \<Rightarrow> uuid \<Rightarrow> uuid \<Rightarrow> jsstr \<Rightarrow> string \<Rightarrow> db \<Rightarrow> (bool \<times> string) tx" where
  "changeEmail pe now userId currentSessionId currentPassword newEmailInput d =
     (case credential_of userId d of
        None \<Rightarrow> Inl (ApiError 409 ''EMAIL_NOT_AVAILABLE'' None)
      | Some c \<Rightarrow>
          if \<not> password_matches pe currentPassword c then Inl INVALID_CREDENTIALS
          else let newEmail = normal_email newEmailInput in
            if newEmail = cd_email c then Inr ((False, cd_email c), d)
            else on_P2002 (ApiError 409 ''EMAIL_TAKEN'' None)
              (bind_result (update_credential (cd_id c) (\<lambda>x. x\<lparr>cd_email := newEmail\<rparr>) d) (\<lambda>d1.
                 map_result (\<lambda>d2. ((True, newEmail),
                     audit userId ''ACCOUNT_EMAIL_CHANGE'' userId (end_other_sessions now userId currentSessionId d2)))
                   (update_user userId (\<lambda>u. u\<lparr>us_subject := newEmail\<rparr>) d1))))"

section \<open>Deactivation\<close>

definition anonymous_user :: "millis \<Rightarrow> string \<Rightarrow> user \<Rightarrow> user" where
  "anonymous_user now sfx u =
     u\<lparr>us_issuer := ''arenacore:deleted'', us_subject := sfx, us_username := ''deleted_'' @ take 24 sfx,
       us_displayName := js ''Deleted user'', us_bio := None, us_location := None, us_website := None,
       us_avatarUrl := None, us_profileVisibility := PV_PRIVATE, us_productNotifications := False,
       us_competitionNotifications := False, us_deactivatedAt := Some now\<rparr>"

text \<open>Everything the transaction removes before it renames the user.\<close>

definition forget_user :: "millis \<Rightarrow> uuid \<Rightarrow> db \<Rightarrow> db" where
  "forget_user now userId d =
     (revoke_sessions now (\<lambda>s. se_userId s = userId \<and> se_revokedAt s = None) d)
       \<lparr>db_credentials := filter (\<lambda>c. cd_userId c \<noteq> userId) (db_credentials d),
        db_competitions := map (\<lambda>c. if co_ownerId c = Some userId then c\<lparr>co_ownerId := None\<rparr> else c) (db_competitions d),
        db_registrations := filter (\<lambda>r. rg_userId r \<noteq> userId) (db_registrations d),
        db_discussionLikes := filter (\<lambda>l. dl_userId l \<noteq> userId) (db_discussionLikes d),
        db_discussionLimits := filter (\<lambda>l. rl_key l \<noteq> userId) (db_discussionLimits d)\<rparr>"

text \<open>\<open>sfx\<close> is the \<open>suffix\<close>, a random UUID without its dashes.\<close>

definition deactivate ::
    "password_env \<Rightarrow> millis \<Rightarrow> string \<Rightarrow> uuid \<Rightarrow> jsstr option \<Rightarrow> db \<Rightarrow> db result" where
  "deactivate pe now sfx userId currentPassword d =
     (if (case credential_of userId d of None \<Rightarrow> False
          | Some c \<Rightarrow> (case currentPassword of None \<Rightarrow> True | Some p \<Rightarrow> p = [] \<or> \<not> password_matches pe p c))
      then Inl INVALID_CREDENTIALS
      else map_result (audit userId ''ACCOUNT_DEACTIVATE'' userId)
             (update_user userId (anonymous_user now sfx) (forget_user now userId d)))"

end
