(* ===== verification/Dates.thy ===== *)
theory Dates
  imports Text
begin

text \<open>
  The calendar of \<open>Date\<close> in UTC, as far as the program uses it: the day of an instant, its text
  \<open>toISOString().slice(0, 10)\<close> and the instant of a day. Days are numbered from 1970-01-01.
\<close>

definition DAY_MS :: int where "DAY_MS = 86400000"

definition day_of :: "int \<Rightarrow> int" where
  "day_of t = t div DAY_MS"

definition day_start :: "int \<Rightarrow> int" where
  "day_start n = n * DAY_MS"

lemma day_of_start [simp]: "day_of (day_start n) = n"
  by (simp add: day_of_def day_start_def DAY_MS_def)

lemma day_start_le: "day_start n \<le> t \<longleftrightarrow> n \<le> day_of t"
  by (simp add: day_start_def day_of_def DAY_MS_def) linarith

text \<open>The proleptic Gregorian date of a day, counted in eras of 400 years that start in March.\<close>

definition civil :: "int \<Rightarrow> int \<times> int \<times> int" where
  "civil n =
     (let z = n + 719468; era = z div 146097; doe = z mod 146097;
          yoe = (doe - doe div 1460 + doe div 36524 - doe div 146096) div 365;
          doy = doe - (365 * yoe + yoe div 4 - yoe div 100);
          mp = (5 * doy + 2) div 153;
          day = doy - (153 * mp + 2) div 5 + 1;
          month = (if mp < 10 then mp + 3 else mp - 9)
      in (yoe + era * 400 + (if month \<le> 2 then 1 else 0), month, day))"

definition pad :: "nat \<Rightarrow> int \<Rightarrow> string" where
  "pad w n = replicate (w - length (int_text n)) (CHR ''0'') @ int_text n"

text \<open>\<open>toISOString().slice(0, 10)\<close> for the years 0 to 9999.\<close>

definition iso_date :: "int \<Rightarrow> string" where
  "iso_date n = (case civil n of (y, m, d) \<Rightarrow> pad 4 y @ ''-'' @ pad 2 m @ ''-'' @ pad 2 d)"

lemma iso_date_samples:
  "civil 0 = (1970, 1, 1)" "civil 19782 = (2024, 2, 29)" "civil 20733 = (2026, 10, 7)" "civil (- 1) = (1969, 12, 31)"
  by code_simp+

text \<open>\<open>Math.round(a / b)\<close> for a positive divisor.\<close>

definition round_div :: "int \<Rightarrow> int \<Rightarrow> int" where
  "round_div a b = (2 * a + b) div (2 * b)"

end
