(* ===== verification/Admin.thy ===== *)
theory Admin
  imports Account Paging Dates
begin

text \<open>
  Administration (\<open>apps/api/src/admin/admin.ts\<close>): roles and restrictions of users, moderation of
  discussions, the review of reports, and the views of the administrator. Problems are administered in
  \<open>ProblemAdmin\<close>, competitions in \<open>Competitions\<close>.
\<close>

section \<open>Roles and restrictions\<close>

definition admins :: "db \<Rightarrow> user list" where
  "admins d = filter (\<lambda>u. us_role u = ADMIN) (db_users d)"

definition setRole :: "uuid \<Rightarrow> uuid \<Rightarrow> role \<Rightarrow> db \<Rightarrow> role tx" where
  "setRole actorId userId role d =
     (if actorId = userId \<and> role \<noteq> ADMIN then Inl (ApiError 409 ''SELF_DEMOTION_FORBIDDEN'' None)
      else case find_user d userId of
        None \<Rightarrow> Inl NOT_FOUND
      | Some u \<Rightarrow>
          if us_role u = role then Inr (us_role u, d)
          else if us_role u = ADMIN \<and> role \<noteq> ADMIN \<and> length (admins d) \<le> 1
          then Inl (ApiError 409 ''LAST_ADMIN_REQUIRED'' None)
          else map_result (\<lambda>d1. (role, audit actorId ''ADMIN_USER_ROLE_UPDATE'' userId d1))
                 (update_user userId (\<lambda>u. u\<lparr>us_role := role\<rparr>) d))"

datatype restriction_input =
    Suspend millis jsstr
  | Ban jsstr
  | Clear

fun restriction_action :: "restriction_input \<Rightarrow> string" where
  "restriction_action (Suspend _ _) = ''SUSPEND''"
| "restriction_action (Ban _) = ''BAN''"
| "restriction_action Clear = ''CLEAR''"

text \<open>The columns the decision sets, or the refusal of a suspension that does not end within a year.\<close>

fun restriction_data :: "millis \<Rightarrow> restriction_input \<Rightarrow> (millis option \<times> millis option \<times> jsstr option) result" where
  "restriction_data now (Ban reason) = Inr (Some now, None, Some reason)"
| "restriction_data now (Suspend until reason) =
     (if until \<le> now \<or> now + 365 * 24 * 60 * 60 * 1000 < until then Inl (ApiError 400 ''INVALID_SUSPENSION'' None)
      else Inr (None, Some until, Some reason))"
| "restriction_data now Clear = Inr (None, None, None)"

definition restrict_user :: "millis \<Rightarrow> uuid \<Rightarrow> uuid \<Rightarrow> restriction_input \<Rightarrow> db \<Rightarrow> db result" where
  "restrict_user now actorId userId input d =
     (if actorId = userId then Inl (ApiError 409 ''SELF_RESTRICTION_FORBIDDEN'' None)
      else case find_user d userId of
        None \<Rightarrow> Inl NOT_FOUND
      | Some u \<Rightarrow>
          if us_role u = ADMIN then Inl (ApiError 409 ''ADMIN_RESTRICTION_FORBIDDEN'' None)
          else bind_result (restriction_data now input) (\<lambda>(banned, suspended, reason).
            map_result (\<lambda>d1. audit actorId (''ADMIN_USER_RESTRICTION_'' @ restriction_action input) userId
                (if input = Clear then d1
                 else revoke_sessions now (\<lambda>s. se_userId s = userId \<and> se_revokedAt s = None) d1))
              (update_user userId (\<lambda>u. u\<lparr>us_bannedAt := banned, us_suspendedUntil := suspended,
                  us_restrictionReason := reason\<rparr>) d)))"

section \<open>Moderation\<close>

fun discussion_status_name :: "discussionStatus \<Rightarrow> string" where
  "discussion_status_name DS_VISIBLE = ''VISIBLE''"
| "discussion_status_name DS_HIDDEN = ''HIDDEN''"
| "discussion_status_name DS_DELETED = ''DELETED''"

definition set_post_status :: "millis \<Rightarrow> uuid list \<Rightarrow> discussionStatus \<Rightarrow> db \<Rightarrow> db" where
  "set_post_status now ids status d =
     d\<lparr>db_discussionPosts := map (\<lambda>p. if dp_id p \<in> set ids then p\<lparr>dp_status := status, dp_updatedAt := now\<rparr> else p)
         (db_discussionPosts d)\<rparr>"

definition moderate :: "millis \<Rightarrow> uuid \<Rightarrow> uuid \<Rightarrow> discussionStatus \<Rightarrow> db \<Rightarrow> db result" where
  "moderate now actorId postId status d =
     (if postId \<notin> dp_id ` set (db_discussionPosts d) then Inl NOT_FOUND
      else Inr (audit actorId (''DISCUSSION_'' @ discussion_status_name status) postId (set_post_status now [postId] status d)))"

fun report_status_name :: "reportStatus \<Rightarrow> string" where
  "report_status_name PENDING = ''PENDING''"
| "report_status_name RESOLVED = ''RESOLVED''"
| "report_status_name DISMISSED = ''DISMISSED''"

record report_decision =
  rd_status :: reportStatus
  rd_moderatorNote :: jsstr
  rd_postStatus :: "discussionStatus option"

definition resolveReportInput :: "report_decision \<Rightarrow> bool" where
  "resolveReportInput i \<longleftrightarrow>
     rd_status i \<in> {RESOLVED, DISMISSED} \<and> js_trim (rd_moderatorNote i) = rd_moderatorNote i \<and>
     3 \<le> length (rd_moderatorNote i) \<and> length (rd_moderatorNote i) \<le> 1000"

definition bulkResolveReportsInput :: "uuid list \<Rightarrow> report_decision \<Rightarrow> bool" where
  "bulkResolveReportsInput ids i \<longleftrightarrow>
     resolveReportInput i \<and> 1 \<le> length ids \<and> length ids \<le> 25 \<and> distinct ids"

definition resolve_row :: "millis \<Rightarrow> uuid \<Rightarrow> report_decision \<Rightarrow> content_report \<Rightarrow> content_report" where
  "resolve_row now actorId i r =
     r\<lparr>rp_status := rd_status i, rp_moderatorId := Some actorId, rp_moderatorNote := Some (rd_moderatorNote i),
       rp_resolvedAt := Some now\<rparr>"

definition audit_reports :: "uuid \<Rightarrow> report_decision \<Rightarrow> uuid list \<Rightarrow> db \<Rightarrow> db" where
  "audit_reports actorId i ids d = fold (audit actorId (''CONTENT_REPORT_'' @ report_status_name (rd_status i))) ids d"

definition resolveReportsAtomic ::
    "millis \<Rightarrow> uuid \<Rightarrow> uuid list \<Rightarrow> report_decision \<Rightarrow> db \<Rightarrow> (uuid \<times> reportStatus \<times> millis) list tx" where
  "resolveReportsAtomic now actorId reportIds i d =
     (let ids = sort reportIds; reports = filter (\<lambda>r. rp_id r \<in> set ids) (db_contentReports d) in
      if length reports \<noteq> length ids then Inl NOT_FOUND
      else if list_ex (\<lambda>r. rp_status r \<noteq> PENDING) reports then Inl (ApiError 409 ''REPORT_ALREADY_REVIEWED'' None)
      else if reports \<noteq> [] \<and> \<not> (3 \<le> char_length (rd_moderatorNote i) \<and> char_length (rd_moderatorNote i) \<le> 1000)
      then Inl (DbError ''report check constraint'')
      else
        let d1 = (case rd_postStatus i of None \<Rightarrow> d | Some st \<Rightarrow> set_post_status now (map rp_postId reports) st d);
            d2 = d1\<lparr>db_contentReports := map (\<lambda>r. if rp_id r \<in> set ids \<and> rp_status r = PENDING then resolve_row now actorId i r else r)
                       (db_contentReports d1)\<rparr>
        in Inr (map (\<lambda>x. (x, rd_status i, now)) ids, audit_reports actorId i ids d2))"

definition resolveReport :: "millis \<Rightarrow> uuid \<Rightarrow> uuid \<Rightarrow> report_decision \<Rightarrow> db \<Rightarrow> (uuid \<times> reportStatus \<times> millis) tx" where
  "resolveReport now actorId reportId i d = map_result (map_prod hd id) (resolveReportsAtomic now actorId [reportId] i d)"

section \<open>Overview and analytics\<close>

definition submissions_since :: "millis \<Rightarrow> db \<Rightarrow> execution list" where
  "submissions_since t d = filter (\<lambda>e. ex_mode e = SUBMIT \<and> t \<le> ex_createdAt e) (db_executions d)"

definition ex_key :: "execution \<Rightarrow> millis \<times> uuid" where
  "ex_key e = (ex_createdAt e, ex_id e)"

definition submissions_newest :: "db \<Rightarrow> execution list" where
  "submissions_newest d = rev (sort_key ex_key (filter (\<lambda>e. ex_mode e = SUBMIT) (db_executions d)))"

record overview_data =
  ov_users :: nat
  ov_submissionsToday :: nat
  ov_publishedProblems :: nat
  ov_moderationPending :: nat
  ov_activeExecutions :: nat
  ov_recent :: "execution list"

definition overview :: "millis \<Rightarrow> db \<Rightarrow> overview_data" where
  "overview now d =
     \<lparr>ov_users = length (db_users d),
      ov_submissionsToday = length (submissions_since (day_start (day_of now)) d),
      ov_publishedProblems = length (filter (\<lambda>v. vn_published v \<and> Some (vn_id v) \<in> pr_currentVersionId ` set (db_problems d)) (db_versions d)),
      ov_moderationPending = length (filter (\<lambda>r. rp_status r = PENDING) (db_contentReports d)),
      ov_activeExecutions = length (active_rows d),
      ov_recent = take 8 (submissions_newest d)\<rparr>"

record day_stats =
  dr_date :: int
  dr_submissions :: nat
  dr_accepted :: nat
  dr_activeUsers :: nat

definition accepted :: "execution list \<Rightarrow> execution list" where
  "accepted es = filter (\<lambda>e. ex_verdict e = Some ACCEPTED) es"

definition daily_row :: "execution list \<Rightarrow> int \<Rightarrow> day_stats" where
  "daily_row es day =
     (let on_day = filter (\<lambda>e. day_of (ex_createdAt e) = day) es
      in \<lparr>dr_date = day, dr_submissions = length on_day, dr_accepted = length (accepted on_day),
          dr_activeUsers = length (remdups (map ex_userId on_day))\<rparr>)"

text \<open>\<open>GROUP BY date_trunc('day', "createdAt")\<close>: one row for each day with a submission.\<close>

definition daily_rows :: "execution list \<Rightarrow> day_stats list" where
  "daily_rows es = map (daily_row es) (sort (remdups (map (\<lambda>e. day_of (ex_createdAt e)) es)))"

definition empty_day :: "int \<Rightarrow> day_stats" where
  "empty_day day = \<lparr>dr_date = day, dr_submissions = 0, dr_accepted = 0, dr_activeUsers = 0\<rparr>"

definition since_day :: "millis \<Rightarrow> nat \<Rightarrow> int" where
  "since_day now days = day_of now - int days + 1"

definition daily :: "execution list \<Rightarrow> int \<Rightarrow> nat \<Rightarrow> day_stats list" where
  "daily es first days =
     map (\<lambda>k. case find_by dr_date (first + int k) (daily_rows es) of Some r \<Rightarrow> r | None \<Rightarrow> empty_day (first + int k)) [0..<days]"

text \<open>\<open>Math.round(accepted * 1000 / submissions) / 10\<close>, in tenths of a percent.\<close>

definition success_tenths :: "nat \<Rightarrow> nat \<Rightarrow> int" where
  "success_tenths acc n = (if n = 0 then 0 else round_div (int acc * 1000) (int n))"

record problem_stats =
  pw_slug :: string
  pw_title :: jsstr
  pw_submissions :: nat
  pw_accepted :: nat

definition execution_problem :: "db \<Rightarrow> execution \<Rightarrow> problem option" where
  "execution_problem d e = Option.bind (find_version d (ex_problemVersionId e)) (\<lambda>v. find_problem d (vn_problemId v))"

definition problem_row :: "db \<Rightarrow> execution list \<Rightarrow> problem \<Rightarrow> problem_stats" where
  "problem_row d es p =
     (let own = filter (\<lambda>e. execution_problem d e = Some p) es;
          titles = map (\<lambda>e. case find_version d (ex_problemVersionId e) of None \<Rightarrow> [] | Some v \<Rightarrow> vn_title v) (rev (sort_key ex_createdAt own))
      in \<lparr>pw_slug = pr_slug p, pw_title = (case titles of [] \<Rightarrow> [] | t # _ \<Rightarrow> t), pw_submissions = length own,
          pw_accepted = length (accepted own)\<rparr>)"

text \<open>\<open>ORDER BY submissions DESC, p.slug ASC LIMIT 10\<close>.\<close>

definition problem_rows :: "db \<Rightarrow> execution list \<Rightarrow> problem_stats list" where
  "problem_rows d es =
     take 10 (sort_key (\<lambda>r. (- int (pw_submissions r), pw_slug r))
       (map (problem_row d es) (filter (\<lambda>p. list_ex (\<lambda>e. execution_problem d e = Some p) es) (db_problems d))))"

record analytics_report =
  an_since :: millis
  an_until :: millis
  an_newUsers :: nat
  an_submissions :: nat
  an_accepted :: nat
  an_activeUsers :: nat
  an_successTenths :: int
  an_daily :: "day_stats list"
  an_topProblems :: "problem_stats list"

definition analytics :: "millis \<Rightarrow> nat \<Rightarrow> db \<Rightarrow> analytics_report" where
  "analytics now days d =
     (let since = day_start (since_day now days); es = submissions_since since d
      in \<lparr>an_since = since, an_until = now,
          an_newUsers = length (filter (\<lambda>u. since \<le> us_createdAt u) (db_users d)),
          an_submissions = length es, an_accepted = length (accepted es),
          an_activeUsers = length (remdups (map ex_userId es)),
          an_successTenths = success_tenths (length (accepted es)) (length es),
          an_daily = daily es (since_day now days) days, an_topProblems = problem_rows d es\<rparr>)"

text \<open>A quoted CSV field: quotes are doubled.\<close>

fun double_quotes :: "string \<Rightarrow> string" where
  "double_quotes [] = []"
| "double_quotes (c # s) = (if c = CHR 0x22 then [c, c] else [c]) @ double_quotes s"

definition csv_field :: "string \<Rightarrow> string" where
  "csv_field s = CHR 0x22 # double_quotes s @ [CHR 0x22]"

definition csv_row :: "day_stats \<Rightarrow> string list" where
  "csv_row r = [iso_date (dr_date r), nat_text (dr_submissions r), nat_text (dr_accepted r), nat_text (dr_activeUsers r)]"

definition analyticsExport :: "millis \<Rightarrow> nat \<Rightarrow> db \<Rightarrow> string \<times> string" where
  "analyticsExport now days d =
     (let report = analytics now days d;
          rows = [''date'', ''submissions'', ''accepted'', ''active_users''] # map csv_row (an_daily report)
      in (''arenacore-analytics-'' @ iso_date (day_of (an_since report)) @ ''-'' @ iso_date (day_of (an_until report)) @ ''.csv'',
          join_with [CHR 0x0A] (map (\<lambda>r. join_with '','' (map csv_field r)) rows) @ [CHR 0x0A]))"

section \<open>Listings\<close>

definition us_key :: "user \<Rightarrow> millis \<times> uuid" where
  "us_key u = (us_createdAt u, us_id u)"

record user_query =
  uq_search :: "jsstr option"
  uq_role :: "role option"
  uq_restriction :: "string option"

definition restriction_where :: "millis \<Rightarrow> string option \<Rightarrow> user \<Rightarrow> bool" where
  "restriction_where now r u \<longleftrightarrow>
     (if r = Some ''BANNED'' then us_bannedAt u \<noteq> None
      else if r = Some ''SUSPENDED'' then us_bannedAt u = None \<and> (case us_suspendedUntil u of None \<Rightarrow> False | Some t \<Rightarrow> now < t)
      else if r = Some ''ACTIVE'' then us_bannedAt u = None \<and> opt_all (\<lambda>t. t \<le> now) (us_suspendedUntil u)
      else True)"

definition search_user :: "(jsstr \<Rightarrow> jsstr \<Rightarrow> bool) \<Rightarrow> db \<Rightarrow> jsstr \<Rightarrow> user \<Rightarrow> bool" where
  "search_user ilike d s u \<longleftrightarrow>
     ilike s (js (us_username u)) \<or> ilike s (us_displayName u) \<or>
     (case credential_of (us_id u) d of None \<Rightarrow> False | Some c \<Rightarrow> ilike s (js (cd_email c)))"

definition listed_users :: "(jsstr \<Rightarrow> jsstr \<Rightarrow> bool) \<Rightarrow> millis \<Rightarrow> user_query \<Rightarrow> db \<Rightarrow> user list" where
  "listed_users ilike now q d =
     filter (\<lambda>u. opt_all (\<lambda>r. us_role u = r) (uq_role q) \<and> opt_all (\<lambda>s. search_user ilike d s u) (uq_search q) \<and>
        restriction_where now (uq_restriction q) u) (db_users d)"

record user_entry =
  ui_id :: uuid
  ui_username :: string
  ui_displayName :: jsstr
  ui_role :: role
  ui_joinedAt :: millis
  ui_submissions :: nat
  ui_restriction :: "restriction option"

definition user_item :: "millis \<Rightarrow> db \<Rightarrow> user \<Rightarrow> user_entry" where
  "user_item now d u =
     \<lparr>ui_id = us_id u, ui_username = us_username u, ui_displayName = us_displayName u, ui_role = us_role u,
      ui_joinedAt = us_createdAt u, ui_submissions = length (filter (\<lambda>e. ex_userId e = us_id u) (db_executions d)),
      ui_restriction = user_restriction now u\<rparr>"

definition INVALID_CURSOR :: error where
  "INVALID_CURSOR = ApiError 400 ''INVALID_CURSOR'' None"

definition admin_users ::
    "(jsstr \<Rightarrow> jsstr \<Rightarrow> bool) \<Rightarrow> millis \<Rightarrow> user_query \<Rightarrow> db \<Rightarrow> uuid option \<Rightarrow> (user_entry list \<times> uuid option) result" where
  "admin_users ilike now q d cursor =
     (case cursor of
        None \<Rightarrow> Inr (map_prod (map (user_item now d)) (map_option us_id) (page 20 us_key None (listed_users ilike now q d)))
      | Some c \<Rightarrow>
          (case find_user d c of
             None \<Rightarrow> Inl INVALID_CURSOR
           | Some b \<Rightarrow> Inr (map_prod (map (user_item now d)) (map_option us_id)
                         (page 20 us_key (Some (us_key b)) (listed_users ilike now q d)))))"

definition admin_submissions :: "db \<Rightarrow> uuid option \<Rightarrow> (execution list \<times> uuid option) result" where
  "admin_submissions d cursor =
     (let rows = filter (\<lambda>e. ex_mode e = SUBMIT) (db_executions d) in
      case cursor of
        None \<Rightarrow> Inr (map_prod id (map_option ex_id) (page 50 ex_key None rows))
      | Some c \<Rightarrow>
          (case find_execution d c of
             None \<Rightarrow> Inl INVALID_CURSOR
           | Some b \<Rightarrow> Inr (map_prod id (map_option ex_id) (page 50 ex_key (Some (ex_key b)) rows))))"

definition rp_key :: "content_report \<Rightarrow> millis \<times> uuid" where
  "rp_key r = (rp_createdAt r, rp_id r)"

definition moderation :: "reportStatus \<Rightarrow> db \<Rightarrow> uuid option \<Rightarrow> (content_report list \<times> uuid option) result" where
  "moderation status d cursor =
     (let rows = filter (\<lambda>r. rp_status r = status) (db_contentReports d) in
      case cursor of
        None \<Rightarrow> Inr (map_prod id (map_option rp_id) (page 50 rp_key None rows))
      | Some c \<Rightarrow>
          (case find (\<lambda>r. rp_id r = c \<and> rp_status r = status) (db_contentReports d) of
             None \<Rightarrow> Inl INVALID_CURSOR
           | Some b \<Rightarrow> Inr (map_prod id (map_option rp_id) (page 50 rp_key (Some (rp_key b)) rows))))"

end
