(* ===== verification/AccountSafety.thy ===== *)
theory AccountSafety
  imports Admin
begin

text \<open>
  The accounts over time: sign-in, self-service and administration as one transition system, whose state
  is the database together with the time, and the invariant of its sessions and administrators. Clocks of
  the replicas are taken to agree, and each transaction to be atomic.
\<close>

section \<open>Status of users and live sessions\<close>

type_synonym status = "uuid \<times> millis option \<times> millis option \<times> role"

definition us_status :: "user \<Rightarrow> status" where
  "us_status u = (us_id u, us_bannedAt u, us_suspendedUntil u, us_role u)"

definition restricted :: "millis \<Rightarrow> status \<Rightarrow> bool" where
  "restricted t st = (case st of (i, b, s, r) \<Rightarrow> b \<noteq> None \<or> (case s of None \<Rightarrow> False | Some until \<Rightarrow> t < until))"

definition statuses :: "db \<Rightarrow> status list" where
  "statuses d = map us_status (db_users d)"

lemma restricted_user: "restricted t (us_status u) \<longleftrightarrow> user_restriction t u \<noteq> None"
  by (auto simp: restricted_def us_status_def user_restriction_def split: option.splits)

lemma restricted_later: "t \<le> t' \<Longrightarrow> restricted t' st \<Longrightarrow> restricted t st"
  by (auto simp: restricted_def split: prod.splits option.splits)

lemma live_sessions_later: "t \<le> t' \<Longrightarrow> live_sessions t' u d = filter (session_live t') (live_sessions t u d)"
  by (auto simp: live_sessions_def session_live_def intro: filter_cong)

definition account_inv :: "millis \<Rightarrow> db \<Rightarrow> bool" where
  "account_inv t d \<longleftrightarrow>
     distinct (map us_id (db_users d)) \<and> (\<forall>u. length (live_sessions t u d) \<le> 10) \<and>
     (\<forall>st \<in> set (statuses d). restricted t st \<longrightarrow> live_sessions t (fst st) d = []) \<and>
     (\<exists>st \<in> set (statuses d). snd (snd (snd st)) = ADMIN)"

lemma account_user_inv:
  "account_inv t d \<longleftrightarrow>
     distinct (map us_id (db_users d)) \<and> (\<forall>u. length (live_sessions t u d) \<le> 10) \<and>
     (\<forall>u \<in> set (db_users d). restricted t (us_status u) \<longrightarrow> live_sessions t (us_id u) d = []) \<and>
     (\<exists>u \<in> set (db_users d). us_role u = ADMIN)"
  by (auto simp: account_inv_def statuses_def us_status_def)

lemma account_inv_later:
  assumes "account_inv t d" and "t \<le> t'"
  shows "account_inv t' d"
proof -
  have "length (live_sessions t' u d) \<le> length (live_sessions t u d)" for u
    unfolding live_sessions_later [OF assms(2)] by (rule length_filter_le)
  with assms(1) have "length (live_sessions t' u d) \<le> 10" for u
    using le_trans unfolding account_inv_def by blast
  moreover have "live_sessions t' (fst st) d = []" if "st \<in> set (statuses d)" "restricted t' st" for st
    using that assms restricted_later [of t t' st] by (simp add: account_inv_def live_sessions_later)
  ultimately show ?thesis using assms(1) by (auto simp: account_inv_def)
qed

section \<open>Calm steps\<close>

text \<open>A step that issues no session and changes no status, and may add unrestricted users.\<close>

definition calm :: "millis \<Rightarrow> db \<Rightarrow> db \<Rightarrow> bool" where
  "calm t d d' \<longleftrightarrow>
     (\<forall>u. length (live_sessions t u d') \<le> length (live_sessions t u d)) \<and>
     (\<exists>extra. statuses d' = statuses d @ extra \<and> (\<forall>st \<in> set extra. \<not> restricted t st)) \<and>
     (distinct (map us_id (db_users d)) \<longrightarrow> distinct (map us_id (db_users d')))"

lemma calm_refl [simp]: "calm t d d"
  by (simp add: calm_def)

lemma calm_trans: "calm t a b \<Longrightarrow> calm t b c \<Longrightarrow> calm t a c"
  unfolding calm_def by (auto intro: order_trans)

lemma calm_inv:
  assumes "account_inv t d" and "calm t d d'"
  shows "account_inv t d'"
proof -
  from assms(2) obtain extra where ex: "statuses d' = statuses d @ extra" "\<forall>st \<in> set extra. \<not> restricted t st"
    and len: "\<And>u. length (live_sessions t u d') \<le> length (live_sessions t u d)"
    by (auto simp: calm_def)
  have "live_sessions t (fst st) d' = []" if "st \<in> set (statuses d')" "restricted t st" for st
    using that ex assms(1) len [of "fst st"] by (auto simp: account_inv_def)
  moreover have "length (live_sessions t u d') \<le> 10" for u
    using assms(1) by (auto simp: account_inv_def intro: order_trans [OF len])
  ultimately show ?thesis
    using assms ex by (auto simp: account_inv_def calm_def)
qed

lemma calm_same: "db_users d' = db_users d \<Longrightarrow> db_sessions d' = db_sessions d \<Longrightarrow> calm t d d'"
  by (simp add: calm_def statuses_def live_sessions_def)

lemma calm_audit [simp]: "calm t d (audit a c x d)"
  by (rule calm_same) (simp_all add: audit_def)

lemma length_filter_map_mono:
  "(\<And>x. x \<in> set xs \<Longrightarrow> P (f x) \<Longrightarrow> Q x) \<Longrightarrow> length (filter P (map f xs)) \<le> length (filter Q xs)"
  by (induction xs) auto

lemma calm_revoke [simp]: "calm t d (revoke_sessions now P d)"
proof -
  have "length (live_sessions t u (revoke_sessions now P d)) \<le> length (live_sessions t u d)" for u
  proof -
    let ?f = "\<lambda>s. if P s then s\<lparr>se_revokedAt := Some now\<rparr> else s"
    have "db_sessions (revoke_sessions now P d) = map ?f (db_sessions d)" by (simp add: revoke_sessions_def)
    then show ?thesis
      unfolding live_sessions_def by (auto simp only: session_live_def intro!: length_filter_map_mono split: if_splits) simp_all
  qed
  then show ?thesis by (simp add: calm_def statuses_def revoke_sessions_def)
qed

lemma length_filter_filter_le: "length (filter P (filter Q xs)) \<le> length (filter P xs)"
  by (induction xs) auto

lemma calm_drop_expired [simp]: "calm t d (drop_expired_sessions now u d)"
  unfolding calm_def live_sessions_def drop_expired_sessions_def statuses_def
  by (simp add: length_filter_filter_le del: filter_filter)

lemma calm_put_user:
  assumes "\<And>u. us_status (f u) = us_status u"
  shows "calm t d (put_user i f d)"
proof -
  have ids: "us_id (f u) = us_id u" for u using assms [of u] by (simp add: us_status_def)
  have "map us_status (update_by us_id i f us) = map us_status us" for us
    by (induction us) (auto simp: update_by_def assms)
  with ids show ?thesis by (simp add: calm_def statuses_def put_user_def live_sessions_def table_simps)
qed

lemma calm_update_user:
  "update_user i f d = Inr d' \<Longrightarrow> (\<And>u. us_status (f u) = us_status u) \<Longrightarrow> calm t d d'"
  by (auto simp: result_simps intro: calm_put_user)

lemma calm_create_user:
  "create_user u d = Inr d' \<Longrightarrow> \<not> restricted t (us_status u) \<Longrightarrow> calm t d d'"
  by (auto simp: calm_def create_user_Inr statuses_def live_sessions_def)

lemma new_user_free [simp]: "\<not> restricted t (us_status (new_user ck i iss sub name disp))"
  by (simp add: restricted_def us_status_def new_user_def)

section \<open>Issuing a session\<close>

lemma count_surplus:
  fixes xs :: "'a list" and f :: "'a \<Rightarrow> 'i" and k :: "'a \<Rightarrow> 'k::linorder"
  shows "length (filter (\<lambda>s. P s \<and> f s \<notin> set (map f (drop n (rev (sort_key k (filter P xs)))))) xs) \<le> n"
proof -
  define active where "active = rev (sort_key k (filter P xs))"
  define keep where "keep = (\<lambda>s. f s \<notin> set (map f (drop n active)))"
  have "mset (filter (\<lambda>s. P s \<and> keep s) xs) = mset (filter keep active)"
    by (simp add: active_def filter_filter_mset conj_commute)
  then have "length (filter (\<lambda>s. P s \<and> keep s) xs) = length (filter keep active)"
    by (rule mset_eq_length)
  also have "\<dots> = length (filter keep (take n active @ drop n active))"
    by simp
  also have "\<dots> = length (filter keep (take n active))"
    unfolding filter_append by (auto simp: filter_empty_conv keep_def)
  also have "\<dots> \<le> n" by (rule le_trans [OF length_filter_le]) simp
  finally show ?thesis by (simp add: keep_def active_def)
qed

lemma live_after_surplus:
  "length (live_sessions now u (revoke_sessions now (\<lambda>s. se_id s \<in> set (surplus_sessions now u d)) d)) \<le> 9"
proof -
  let ?P = "\<lambda>s. se_userId s = u \<and> session_live now s"
  let ?active = "rev (sort_key se_key (live_sessions now u d))"
  let ?S = "surplus_sessions now u d"
  have kept: "live_sessions now u (revoke_sessions now (\<lambda>s. se_id s \<in> set ?S) d) =
      filter (\<lambda>s. ?P s \<and> se_id s \<notin> set ?S) (db_sessions d)"
  proof -
    have "filter ?P (map (\<lambda>s. if se_id s \<in> set ?S then s\<lparr>se_revokedAt := Some now\<rparr> else s) xs) =
        filter (\<lambda>s. ?P s \<and> se_id s \<notin> set ?S) xs" for xs
      by (induction xs) (auto simp: session_live_def)
    then show ?thesis by (simp add: live_sessions_def revoke_sessions_def)
  qed
  show ?thesis
  proof (cases "10 \<le> length ?active")
    case True
    then have "?S = map se_id (drop 9 (rev (sort_key se_key (filter ?P (db_sessions d)))))"
      by (simp add: surplus_sessions_def Let_def live_sessions_def)
    then show ?thesis unfolding kept using count_surplus [where P = ?P and f = se_id and n = 9 and k = se_key] by simp
  next
    case False
    have "length (filter (\<lambda>s. ?P s \<and> se_id s \<notin> set ?S) (db_sessions d)) \<le> length (filter ?P (db_sessions d))"
      by (induction "db_sessions d") (auto simp: filter_filter [symmetric] simp del: filter_filter)
    also have "\<dots> < 10" using False by (simp add: live_sessions_def)
    finally show ?thesis unfolding kept by simp
  qed
qed

lemma persistSession_inv:
  assumes inv: "account_inv (ck_host ck) d" and user: "st \<in> set (statuses d)" "fst st = userId" "\<not> restricted (ck_host ck) st"
    and op: "persistSession cr v ck rq newId userId action ss expiresAt d = Inr d'"
  shows "account_inv (ck_host ck) d'"
proof -
  let ?t = "ck_host ck"
  define d1 where "d1 = (case old_session_hash cr v rq of None \<Rightarrow> d
      | Some h \<Rightarrow> revoke_sessions ?t (\<lambda>s. se_tokenHash s = h \<and> se_revokedAt s = None) d)"
  define d2 where "d2 = drop_expired_sessions ?t userId d1"
  define d3 where "d3 = revoke_sessions ?t (\<lambda>s. se_id s \<in> set (surplus_sessions ?t userId d2)) d2"
  let ?s = "new_session ck newId userId ss expiresAt"
  from op have d': "d' = audit userId action userId (d3\<lparr>db_sessions := db_sessions d3 @ [?s]\<rparr>)"
    by (auto simp: persistSession_def Let_def d1_def d2_def d3_def result_simps)
  have "calm ?t d d1" by (simp add: d1_def split: option.splits)
  then have calm: "calm ?t d d3"
    unfolding d3_def d2_def by (meson calm_trans calm_revoke calm_drop_expired)
  have inv3: "account_inv ?t d3" by (rule calm_inv [OF inv calm])
  have st3: "st \<in> set (statuses d3)" using calm user(1) by (auto simp: calm_def)
  have nine: "length (live_sessions ?t userId d3) \<le> 9"
    unfolding d3_def by (rule live_after_surplus)
  have stat: "statuses d' = statuses d3" "db_users d' = db_users d3"
    by (simp_all add: d' audit_def statuses_def)
  have live: "live_sessions ?t u d' = live_sessions ?t u d3 @ (if u = userId \<and> session_live ?t ?s then [?s] else [])" for u
    by (auto simp: d' audit_def live_sessions_def new_session_def)
  have "length (live_sessions ?t u d') \<le> 10" for u
    using inv3 nine by (cases "u = userId") (auto simp: live account_inv_def)
  moreover have "live_sessions ?t (fst x) d' = []" if "x \<in> set (statuses d')" "restricted ?t x" for x
  proof -
    have "fst x \<noteq> userId"
    proof
      assume same: "fst x = userId"
      have "distinct (map fst (statuses d3))"
        using inv3 by (simp add: account_inv_def statuses_def us_status_def comp_def)
      with st3 that(1) stat same user(2) have "x = st" by (auto simp: distinct_map inj_on_def)
      with that(2) user(3) show False by simp
    qed
    with that stat inv3 show ?thesis by (auto simp: live account_inv_def)
  qed
  ultimately show ?thesis using inv3 stat by (auto simp: account_inv_def)
qed

section \<open>Operations\<close>

lemma snd_transaction:
  assumes "P d" and "\<And>x d'. f d = Inr (x, d') \<Longrightarrow> P d'"
  shows "P (snd (transaction f d))"
  using assms by (auto simp: transaction_def split: sum.splits)

lemma snd_bind_stored:
  assumes "P (snd r)" and "\<And>x d. P d \<Longrightarrow> P (snd (f x d))"
  shows "P (snd (bind_stored r f))"
  using assms by (auto simp: bind_stored_def split: prod.splits sum.splits)

lemma protect_calm: "calm t d (snd (protect cr v ck b rq d))"
  by (rule calm_same) (auto simp: protect_def login_limit_def bind_stored_def Let_def split: sum.splits)

lemma ensureAllowed_free: "ensureAllowed now u = Inr x \<longleftrightarrow> \<not> restricted now (us_status u)"
  by (auto simp: ensureAllowed_def restricted_def us_status_def split: option.splits)

lemma status_member: "find_user d i = Some u \<Longrightarrow> us_status u \<in> set (statuses d) \<and> fst (us_status u) = i"
  by (auto simp: find_user_def statuses_def us_status_def dest: find_by_Some)

lemma issueUser_inv:
  assumes "account_inv (ck_host ck) d" and "issueUser cr v ck rq fr userId action d = Inr (x, d')"
  shows "account_inv (ck_host ck) d'"
proof -
  from assms(2) obtain u where u: "find_user d userId = Some u" "\<not> restricted (ck_host ck) (us_status u)"
    "persistSession cr v ck rq (fr_sessionId fr) (us_id u) action (newSessionSecrets cr (fr_token fr)) (session_end v ck) d = Inr d'"
    by (auto simp: issueUser_def result_simps ensureAllowed_free split: option.splits)
  show ?thesis
    using persistSession_inv [OF assms(1) _ _ u(2,3)] status_member [OF u(1)] by (auto simp: us_status_def)
qed

lemma upsert_identity_status:
  assumes "upsert_identity ck fr idn d = Inr (u, d1)"
  shows "calm t d d1" and "us_status u \<in> set (statuses d1)"
proof -
  show calm: "calm t d d1"
    using assms
    by (auto simp: upsert_identity_def map_result_Inr Let_def split: option.splits elim!: calm_create_user)
      (erule calm_update_user, simp add: us_status_def)
  show "us_status u \<in> set (statuses d1)"
  proof (cases "find_by us_identity (id_issuer idn, id_subject idn) (db_users d)")
    case None
    with assms show ?thesis by (auto simp: upsert_identity_def result_simps Let_def statuses_def)
  next
    case (Some w)
    with assms have "u = w" by (auto simp: upsert_identity_def result_simps)
    with Some have "us_status u \<in> set (statuses d)" by (auto simp: statuses_def dest: find_by_Some)
    with calm show ?thesis by (auto simp: calm_def)
  qed
qed

lemma issueIdentity_inv:
  assumes "account_inv (ck_host ck) d" and "issueIdentity cr v ck rq fr idn d = Inr (x, d')"
  shows "account_inv (ck_host ck) d'"
proof -
  from assms(2) obtain u d1 where u: "upsert_identity ck fr idn d = Inr (u, d1)" "\<not> restricted (ck_host ck) (us_status u)"
    "persistSession cr v ck rq (fr_sessionId fr) (us_id u) ''AUTH_LOGIN'' (newSessionSecrets cr (fr_token fr)) (session_end v ck) d1 = Inr d'"
    by (auto simp: issueIdentity_def result_simps ensureAllowed_free)
  from upsert_identity_status [OF u(1)] show ?thesis
    by (intro persistSession_inv [OF calm_inv [OF assms(1)] _ _ u(2,3)]) (simp_all add: us_status_def)
qed

lemma begin_login_calm: "calm t d (snd (begin_login cr ci pf v ip ck rq lt p returnTo d))"
  unfolding begin_login_def
  by (intro snd_bind_stored [where P = "calm t d"] protect_calm)
    (auto simp: transaction_def create_attempt_def discard_attempts_def result_simps split: sum.splits
       elim!: calm_trans intro!: calm_same)

lemma consume_attempt_calm: "calm t d (snd (consume_attempt cr v ck rq cb d))"
  by (rule calm_same) (auto simp: consume_attempt_def delete_attempts_def split: option.splits)

lemma finish_login_inv:
  assumes "account_inv (ck_host ck) d"
  shows "account_inv (ck_host ck) (snd (finish_login cr ci pf v ip ck rq fr cb d))"
proof -
  let ?P = "account_inv (ck_host ck)"
  have issue: "?P (snd (transaction (issueIdentity cr v ck rq fr idn) d))" if "?P d" for idn d
    using that by (rule snd_transaction [where P = ?P]) (rule issueIdentity_inv [OF that])
  have "?P (snd (consume_attempt cr v ck rq cb d))" by (rule calm_inv [OF assms consume_attempt_calm])
  then show ?thesis
    unfolding finish_login_def
    by (auto simp: assms issue split: sum.splits option.splits intro!: snd_bind_stored [where P = ?P])
qed

lemma authenticate_password_inv:
  assumes "account_inv (ck_host ck) d"
  shows "account_inv (ck_host ck) (snd (authenticate_password cr pe v ck rq fr email password d))"
proof -
  let ?P = "account_inv (ck_host ck)"
  have issue: "?P (snd (transaction (issueUser cr v ck rq fr i a) d))" if "?P d" for i a d
    using that by (rule snd_transaction [where P = ?P]) (rule issueUser_inv [OF that])
  have "?P (snd (protect cr v ck b rq d))" for b by (rule calm_inv [OF assms protect_calm])
  then show ?thesis
    unfolding authenticate_password_def
    by (auto simp: assms issue Let_def split: sum.splits option.splits intro!: snd_bind_stored [where P = ?P])
qed

lemma create_credential_Inr:
  "create_credential c d = Inr d' \<Longrightarrow> db_users d' = db_users d \<and> db_sessions d' = db_sessions d"
  by (auto simp: create_credential_def result_simps split: if_splits)

lemma update_credential_Inr:
  "update_credential i f d = Inr d' \<Longrightarrow> db_users d' = db_users d \<and> db_sessions d' = db_sessions d"
  by (auto simp: update_credential_def split: option.splits if_splits)

lemma create_password_user_calm:
  assumes "create_password_user pe ck userId credentialId salt ri d = Inr d'"
  shows "calm t d d'"
proof -
  from assms obtain d1 where d1: "create_user (registered_user ck userId ri) d = Inr d1"
      "create_credential \<lparr>cd_id = credentialId, cd_userId = userId, cd_email = normal_email (ri_email ri),
         cd_passwordHash = hashPassword (pe_scrypt pe) salt (ri_password ri)\<rparr> d1 = Inr d'"
    by (auto simp: create_password_user_def result_simps split: sum.splits if_splits)
  have "calm t d d1" by (rule calm_create_user [OF d1(1)]) (simp add: registered_user_def)
  moreover have "calm t d1 d'" by (rule calm_same) (use d1(2) in \<open>simp_all add: create_credential_Inr\<close>)
  ultimately show ?thesis by (rule calm_trans)
qed

lemma register_password_inv:
  assumes "account_inv (ck_host ck) d"
  shows "account_inv (ck_host ck) (snd (register_password cr pe v ck rq fr credentialId salt ri d))"
proof -
  let ?P = "account_inv (ck_host ck)"
  have issue: "?P (snd (transaction (issueUser cr v ck rq fr i a) d))" if "?P d" for i a d
    using that by (rule snd_transaction [where P = ?P]) (rule issueUser_inv [OF that])
  have new: "?P (snd (transaction (\<lambda>d. map_result (Pair ()) (create_password_user pe ck i credentialId salt ri d)) d))"
    if "?P d" for i d
    using that by (rule snd_transaction [where P = ?P])
      (auto simp: result_simps intro: calm_inv [OF that] create_password_user_calm)
  have "?P (snd (protect cr v ck b rq d))" for b by (rule calm_inv [OF assms protect_calm])
  then show ?thesis
    unfolding register_password_def
    by (auto simp: assms issue new split: sum.splits intro!: snd_bind_stored [where P = ?P])
qed

lemma calm_end_other [simp]: "calm t d (end_other_sessions now u s d)"
  by (simp add: end_other_sessions_def)

lemma updateSettings_calm: "updateSettings u i d = Inr d' \<Longrightarrow> calm t d d'"
  by (auto simp: updateSettings_def map_result_Inr us_status_def apply_settings_def
      intro: calm_trans [OF _ calm_audit] elim!: calm_update_user)

lemma revokeSession_calm: "revokeSession now u cur sid d = Inr (x, d') \<Longrightarrow> calm t d d'"
  by (auto simp: revokeSession_def split: if_splits intro: calm_trans [OF _ calm_audit])

lemma revokeOtherSessions_calm: "calm t d (snd (revokeOtherSessions now u cur d))"
  by (auto simp: revokeOtherSessions_def Let_def intro: calm_trans [OF _ calm_audit])

lemma logout_calm: "logout now p d = Inr d' \<Longrightarrow> calm t d d'"
  by (auto simp: logout_def split: if_splits intro: calm_trans [OF _ calm_audit])

lemma calm_update_credential: "update_credential i f d = Inr d' \<Longrightarrow> calm t d d'"
  by (rule calm_same) (simp_all add: update_credential_Inr)

lemma changePassword_calm: "changePassword pe now salt u cur old new d = Inr d' \<Longrightarrow> calm t d d'"
  by (auto simp: changePassword_def map_result_Inr split: option.splits if_splits
      intro!: calm_trans [OF calm_trans [OF _ calm_end_other] calm_audit] elim!: calm_update_credential)

lemma changeEmail_calm:
  assumes "changeEmail pe now u cur pw email d = Inr (x, d')"
  shows "calm t d d'"
proof -
  consider "d' = d"
    | c e d1 d2 where "update_credential c e d = Inr d1" "update_user u (\<lambda>w. w\<lparr>us_subject := normal_email email\<rparr>) d1 = Inr d2"
        "d' = audit u ''ACCOUNT_EMAIL_CHANGE'' u (end_other_sessions now u cur d2)"
    using assms
    by (auto simp: changeEmail_def Let_def on_P2002_Inr bind_result_Inr map_result_Inr split: option.splits if_splits)
  then show ?thesis
  proof cases
    case 2
    have "calm t d1 d2" by (rule calm_update_user [OF 2(2)]) (simp add: us_status_def)
    with calm_update_credential [OF 2(1)] have "calm t d d2" by (rule calm_trans)
    then show ?thesis unfolding 2(3) by (intro calm_trans [OF calm_trans [OF _ calm_end_other] calm_audit])
  qed simp
qed

lemma deactivate_calm:
  assumes "deactivate pe now sfx u pw d = Inr d'"
  shows "calm t d d'"
proof -
  from assms obtain d1 where d1: "update_user u (anonymous_user now sfx) (forget_user now u d) = Inr d1"
      "d' = audit u ''ACCOUNT_DEACTIVATE'' u d1"
    by (auto simp: deactivate_def map_result_Inr split: if_splits)
  have "calm t d (forget_user now u d)"
    using calm_revoke [of t d now "\<lambda>s. se_userId s = u \<and> se_revokedAt s = None"]
    by (rule calm_trans) (rule calm_same, simp_all add: forget_user_def)
  moreover have "calm t (forget_user now u d) d1"
    by (rule calm_update_user [OF d1(1)]) (simp add: us_status_def anonymous_user_def)
  ultimately show ?thesis unfolding d1(2) by (intro calm_trans [OF calm_trans calm_audit])
qed

lemma moderate_calm: "moderate now a p st d = Inr d' \<Longrightarrow> calm t d d'"
  by (auto simp: moderate_def set_post_status_def split: if_splits intro!: calm_trans [OF calm_same calm_audit])

lemma audit_reports_same [simp]:
  "db_users (audit_reports a i ids d) = db_users d" "db_sessions (audit_reports a i ids d) = db_sessions d"
  by (induction ids arbitrary: d) (simp_all add: audit_reports_def audit_def)

lemma resolveReports_calm: "resolveReportsAtomic now a ids i d = Inr (x, d') \<Longrightarrow> calm t d d'"
  by (rule calm_same)
    (auto simp: resolveReportsAtomic_def Let_def set_post_status_def split: if_splits option.splits)

subsection \<open>Roles and restrictions\<close>

text \<open>The statuses after an update of one user.\<close>

lemma statuses_put:
  assumes "\<And>u. us_id (f u) = us_id u"
  shows "statuses (put_user i f d) = map (\<lambda>u. us_status (if us_id u = i then f u else u)) (db_users d)"
  by (simp add: statuses_def put_user_def update_by_def)

lemma two_admins:
  assumes "1 < length (admins d)" and "distinct (map us_id (db_users d))"
  shows "\<exists>u \<in> set (db_users d). us_role u = ADMIN \<and> us_id u \<noteq> i"
proof (rule ccontr)
  assume "\<not> ?thesis"
  then have "set (map us_id (admins d)) \<subseteq> {i}" by (auto simp: admins_def)
  moreover have "distinct (map us_id (admins d))" using assms(2) by (simp add: admins_def distinct_map_filter)
  ultimately have "length (map us_id (admins d)) \<le> 1"
    by (metis card_mono distinct_card finite.emptyI finite.insertI is_singletonI is_singleton_altdef)
  with assms(1) show False by simp
qed

lemma setRole_inv:
  assumes inv: "account_inv t d" and op: "setRole actorId userId role d = Inr (x, d')"
  shows "account_inv t d'"
proof (cases "d' = d")
  case False
  let ?f = "\<lambda>u. u\<lparr>us_role := role\<rparr>"
  from op False obtain u where u: "find_user d userId = Some u" and
      d': "d' = audit actorId ''ADMIN_USER_ROLE_UPDATE'' userId (put_user userId ?f d)" and
      last: "us_role u = ADMIN \<Longrightarrow> role \<noteq> ADMIN \<Longrightarrow> 1 < length (admins d)"
    by (auto simp: setRole_def result_simps split: option.splits if_splits)
  have mem: "u \<in> set (db_users d)" "us_id u = userId" using u by (auto simp: find_user_def dest: find_by_Some)
  have st: "statuses d' = map (\<lambda>u. us_status (if us_id u = userId then ?f u else u)) (db_users d)"
    by (simp add: d' audit_def statuses_def put_user_def update_by_def)
  have same: "live_sessions t i d' = live_sessions t i d" "map us_id (db_users d') = map us_id (db_users d)" for i
    by (simp_all add: d' audit_def put_user_def live_sessions_def table_simps)
  have "\<exists>st \<in> set (statuses d'). snd (snd (snd st)) = ADMIN"
  proof (cases "role = ADMIN")
    case True
    with mem show ?thesis by (auto simp: st us_status_def intro!: bexI [of _ u])
  next
    case False
    have "\<exists>w \<in> set (db_users d). us_role w = ADMIN \<and> us_id w \<noteq> userId"
    proof (cases "us_role u = ADMIN")
      case True
      from last [OF True False] inv show ?thesis by (intro two_admins) (auto simp: account_inv_def)
    next
      case no: False
      from inv obtain w where "w \<in> set (db_users d)" "us_role w = ADMIN"
        by (auto simp: account_inv_def statuses_def us_status_def)
      moreover from this no mem inv have "us_id w \<noteq> userId"
        by (auto simp: account_inv_def distinct_map inj_on_def)
      ultimately show ?thesis by blast
    qed
    then show ?thesis by (auto simp: st us_status_def)
  qed
  moreover have "live_sessions t (fst y) d = []" if "y \<in> set (statuses d')" "restricted t y" for y
    using that(2) that(1) [unfolded st] inv by (auto simp: account_user_inv restricted_def us_status_def split: if_splits)
  ultimately show ?thesis using inv by (auto simp: account_inv_def same)
qed (use inv in simp)

lemma restriction_cleared:
  "restriction_data now input = Inr (banned, suspended, reason) \<Longrightarrow> input = Clear \<Longrightarrow> banned = None \<and> suspended = None"
  by auto

lemma live_after_revoke:
  "live_sessions t u (revoke_sessions now (\<lambda>s. se_userId s = u \<and> se_revokedAt s = None) d) = []"
proof -
  have "filter (\<lambda>s. se_userId s = u \<and> session_live t s)
      (map (\<lambda>s. if se_userId s = u \<and> se_revokedAt s = None then s\<lparr>se_revokedAt := Some now\<rparr> else s) xs) = []" for xs
    by (induction xs) (auto simp: session_live_def)
  then show ?thesis by (simp add: live_sessions_def revoke_sessions_def)
qed

lemma restrict_user_inv:
  assumes inv: "account_inv t d" and op: "restrict_user now actorId userId input d = Inr d'"
  shows "account_inv t d'"
proof -
  from op obtain u banned suspended reason where u: "find_user d userId = Some u" "us_role u \<noteq> ADMIN"
      and data: "restriction_data now input = Inr (banned, suspended, reason)"
      and d': "d' = audit actorId (''ADMIN_USER_RESTRICTION_'' @ restriction_action input) userId
        (if input = Clear then put_user userId (\<lambda>u. u\<lparr>us_bannedAt := banned, us_suspendedUntil := suspended, us_restrictionReason := reason\<rparr>) d
         else revoke_sessions now (\<lambda>s. se_userId s = userId \<and> se_revokedAt s = None)
           (put_user userId (\<lambda>u. u\<lparr>us_bannedAt := banned, us_suspendedUntil := suspended, us_restrictionReason := reason\<rparr>) d))"
    by (auto simp: restrict_user_def result_simps split: option.splits if_splits)
  let ?f = "\<lambda>u. u\<lparr>us_bannedAt := banned, us_suspendedUntil := suspended, us_restrictionReason := reason\<rparr>"
  have users: "db_users d' = map (\<lambda>u. if us_id u = userId then ?f u else u) (db_users d)"
    by (simp add: d' audit_def revoke_sessions_def put_user_def update_by_def)
  have ids: "map us_id (db_users d') = map us_id (db_users d)"
    by (simp add: users)
  have same: "live_sessions t i (audit a c x (put_user userId ?f d)) = live_sessions t i d" for i a c x
    by (simp add: live_sessions_def audit_def put_user_def)
  have fewer: "length (live_sessions t i d') \<le> length (live_sessions t i d)" for i
    using calm_revoke [of t "put_user userId ?f d"] by (auto simp: d' calm_def live_sessions_def audit_def put_user_def)
  have none: "input \<noteq> Clear \<Longrightarrow> live_sessions t userId d' = []"
    using live_after_revoke [of t userId now "put_user userId ?f d"] by (simp add: d' audit_def live_sessions_def)
  have "live_sessions t (us_id w) d' = []" if "w \<in> set (db_users d')" "restricted t (us_status w)" for w
  proof (cases "us_id w = userId \<and> input \<noteq> Clear")
    case False
    have "\<not> restricted t (us_status (?f x))" if "input = Clear" for x
      using restriction_cleared [OF data that] by (simp add: restricted_def us_status_def)
    with False that have "w \<in> set (db_users d)" by (auto simp: users)
    with that(2) inv fewer [of "us_id w"] show ?thesis by (auto simp: account_user_inv)
  qed (use none in simp)
  moreover have "\<exists>w \<in> set (db_users d'). us_role w = ADMIN"
  proof -
    from inv obtain w where w: "w \<in> set (db_users d)" "us_role w = ADMIN" by (auto simp: account_user_inv)
    with u inv have "us_id w \<noteq> userId"
      by (auto simp: account_user_inv find_user_def distinct_map inj_on_def dest: find_by_Some)
    with w show ?thesis by (auto simp: users)
  qed
  ultimately show ?thesis
    using inv by (auto simp: account_user_inv ids intro: order_trans [OF fewer])
qed

section \<open>The system of accounts\<close>

text \<open>
  The steps: time passes; a sign-in begins, completes or fails at any point; a password registers or
  authenticates; the routes of the account and of the administrator; and every other write of the program,
  which touches neither the sessions nor the users' roles, restrictions and identifiers.
\<close>

inductive account_step :: "millis \<times> db \<Rightarrow> millis \<times> db \<Rightarrow> bool" where
  as_tick: "t \<le> t' \<Longrightarrow> account_step (t, d) (t', d)"
| as_begin: "ck_host ck = t \<Longrightarrow> account_step (t, d) (t, snd (begin_login cr ci pf v ip ck rq lt p returnTo d))"
| as_finish: "ck_host ck = t \<Longrightarrow> account_step (t, d) (t, snd (finish_login cr ci pf v ip ck rq fr cb d))"
| as_register: "ck_host ck = t \<Longrightarrow> account_step (t, d) (t, snd (register_password cr pe v ck rq fr credentialId salt ri d))"
| as_authenticate: "ck_host ck = t \<Longrightarrow> account_step (t, d) (t, snd (authenticate_password cr pe v ck rq fr email password d))"
| as_logout: "logout t p d = Inr d' \<Longrightarrow> account_step (t, d) (t, d')"
| as_settings: "updateSettings userId input d = Inr d' \<Longrightarrow> account_step (t, d) (t, d')"
| as_revoke: "revokeSession t userId currentId sessionId d = Inr (x, d') \<Longrightarrow> account_step (t, d) (t, d')"
| as_revokeOthers: "account_step (t, d) (t, snd (revokeOtherSessions t userId currentId d))"
| as_password: "changePassword pe t salt userId currentId old new d = Inr d' \<Longrightarrow> account_step (t, d) (t, d')"
| as_email: "changeEmail pe t userId currentId password email d = Inr (y, d') \<Longrightarrow> account_step (t, d) (t, d')"
| as_deactivate: "deactivate pe t sfx userId pw d = Inr d' \<Longrightarrow> account_step (t, d) (t, d')"
| as_role: "setRole actorId userId role d = Inr (r, d') \<Longrightarrow> account_step (t, d) (t, d')"
| as_restrict: "restrict_user t actorId userId restriction d = Inr d' \<Longrightarrow> account_step (t, d) (t, d')"
| as_moderate: "moderate t actorId postId status d = Inr d' \<Longrightarrow> account_step (t, d) (t, d')"
| as_reports: "resolveReportsAtomic t actorId ids decision d = Inr (z, d') \<Longrightarrow> account_step (t, d) (t, d')"
| as_other: "db_sessions d' = db_sessions d \<Longrightarrow> statuses d' = statuses d \<Longrightarrow> account_step (t, d) (t, d')"

definition account_init :: "millis \<times> db \<Rightarrow> bool" where
  "account_init s \<longleftrightarrow>
     db_sessions (snd s) = [] \<and> distinct (map us_id (db_users (snd s))) \<and> admins (snd s) \<noteq> []"

lemma statuses_ids: "map us_id (db_users d) = map fst (statuses d)"
  by (simp add: statuses_def us_status_def)

lemma other_inv: "account_inv t d \<Longrightarrow> db_sessions d' = db_sessions d \<Longrightarrow> statuses d' = statuses d \<Longrightarrow> account_inv t d'"
  by (simp add: account_inv_def statuses_ids live_sessions_def)

lemmas account_calm =
  begin_login_calm logout_calm updateSettings_calm revokeSession_calm revokeOtherSessions_calm changePassword_calm
  changeEmail_calm deactivate_calm moderate_calm resolveReports_calm

lemmas account_inv_intros =
  account_inv_later finish_login_inv register_password_inv authenticate_password_inv setRole_inv restrict_user_inv other_inv

interpretation accounts: invariant_system account_init account_step "\<lambda>(t, d). account_inv t d"
proof
  fix s :: "millis \<times> db" assume "account_init s"
  then show "case s of (t, d) \<Rightarrow> account_inv t d"
    by (cases s) (auto simp: account_init_def account_user_inv live_sessions_def admins_def filter_empty_conv)
next
  fix s s' :: "millis \<times> db"
  assume inv: "case s of (t, d) \<Rightarrow> account_inv t d" and step: "account_step s s'"
  from step inv show "case s' of (t, d) \<Rightarrow> account_inv t d"
    by cases (auto intro: account_inv_intros calm_inv account_calm)
qed


text \<open>
  In every state the accounts can reach some user has the role of an administrator: no sequence of
  role changes, restrictions and deactivations removes the last one; each operation is taken to be atomic.
\<close>

lemma admin_remains:
  assumes "reach account_init account_step (t, d)"
  shows "\<exists>u \<in> set (db_users d). us_role u = ADMIN"
  using accounts.reach_inv [OF assms] by (auto simp: account_user_inv)

text \<open>
  The row that keeps the role may be a deactivated account, which no credential and no provider identity
  opens: \<open>deactivate\<close> does not look at the role and \<open>setRole\<close> does not look at \<open>deactivatedAt\<close>.
\<close>

lemma last_admin_deactivates:
  assumes "find_user d i = Some u" and "us_role u = ADMIN" and "credential_of i d = None"
    and "update_user i (anonymous_user now sfx) (forget_user now i d) = Inr d1"
  shows "\<exists>d'. deactivate pe now sfx i None d = Inr d' \<and>
    (\<exists>w. find_user d' i = Some w \<and> us_role w = ADMIN \<and> us_deactivatedAt w = Some now)"
proof -
  from assms(4) have d1: "d1 = put_user i (anonymous_user now sfx) (forget_user now i d)"
    by (auto simp: update_user_Inr)
  have "find_user (audit a c x d1) i = Some (anonymous_user now sfx u)" for a c x
    using assms(1) unfolding d1
    by (simp add: find_user_def audit_def put_user_def forget_user_def revoke_sessions_def anonymous_user_def table_simps)
  with assms show ?thesis
    by (auto simp: deactivate_def anonymous_user_def)
qed

section \<open>One session for one attempt\<close>

lemma persistSession_attempts:
  "persistSession cr v ck rq i u a ss ex d = Inr d' \<Longrightarrow> db_authAttempts d' = db_authAttempts d"
  by (auto simp: persistSession_def Let_def result_simps audit_def revoke_sessions_def drop_expired_sessions_def
      split: option.splits)

lemma issueIdentity_attempts:
  "issueIdentity cr v ck rq fr idn d = Inr (x, d') \<Longrightarrow> db_authAttempts d' = db_authAttempts d"
  by (auto simp: issueIdentity_def upsert_identity_def result_simps put_user_def Let_def split: option.splits
      dest!: persistSession_attempts)

text \<open>The key of the table: at most one attempt has a state.\<close>

lemma deleted_attempts_gone:
  assumes "distinct (map aa_stateHash as)" and "length (filter P as) = 1" and "\<And>a. P a \<Longrightarrow> aa_stateHash a = h"
  shows "h \<notin> aa_stateHash ` set (filter (\<lambda>a. \<not> P a) as)"
proof -
  from assms(2) have "filter P as \<noteq> []" by auto
  then obtain a where a: "a \<in> set as" "P a" by (auto simp: filter_empty_conv)
  with assms(1,3) show ?thesis by (auto simp: distinct_map inj_on_def)
qed

lemma consume_attempt_Inr:
  assumes "distinct (map aa_stateHash (db_authAttempts d))" and "consume_attempt cr v ck rq cb d = (Inr a, d1)"
  shows "\<exists>t. browser_token v rq = Some t \<and> a \<in> set (db_authAttempts d) \<and> attempt_usable cr (ck_host ck) (cb_state cb) t a"
    and "hash_token cr (cb_state cb) \<notin> aa_stateHash ` set (db_authAttempts d1)"
proof -
  let ?h = "hash_token cr (cb_state cb)"
  from assms(2) obtain t where t: "browser_token v rq = Some t" "find_by aa_stateHash ?h (db_authAttempts d) = Some a"
      "length (filter (attempt_usable cr (ck_host ck) (cb_state cb) t) (db_authAttempts d)) = 1"
      "db_authAttempts d1 = filter (\<lambda>a. \<not> attempt_usable cr (ck_host ck) (cb_state cb) t a) (db_authAttempts d)"
    by (auto simp: consume_attempt_def delete_attempts_def split: option.splits if_splits)
  have a: "a \<in> set (db_authAttempts d)" "aa_stateHash a = ?h" using find_by_Some [OF t(2)] by auto
  show gone: "?h \<notin> aa_stateHash ` set (db_authAttempts d1)"
    unfolding t(4) by (rule deleted_attempts_gone [OF assms(1) t(3)]) (simp add: attempt_usable_def)
  with a t(4) have "attempt_usable cr (ck_host ck) (cb_state cb) t a" by force
  with t a show "\<exists>t. browser_token v rq = Some t \<and> a \<in> set (db_authAttempts d) \<and> attempt_usable cr (ck_host ck) (cb_state cb) t a"
    by blast
qed

lemma absent_attempt:
  assumes "hash_token cr (cb_state cb) \<notin> aa_stateHash ` set (db_authAttempts d)"
  shows "consume_attempt cr v ck rq cb d = (Inl INVALID_LOGIN_STATE, d)"
    and "fst (delete_attempts cr now (cb_state cb) t d) = 0"
proof -
  have "find_by aa_stateHash (hash_token cr (cb_state cb)) (db_authAttempts d) = None"
    using assms find_by_Some [of aa_stateHash "hash_token cr (cb_state cb)" "db_authAttempts d"]
    by (cases "find_by aa_stateHash (hash_token cr (cb_state cb)) (db_authAttempts d)") (auto simp: image_iff)
  then show "consume_attempt cr v ck rq cb d = (Inl INVALID_LOGIN_STATE, d)"
    by (simp add: consume_attempt_def split: option.splits)
  show "fst (delete_attempts cr now (cb_state cb) t d) = 0"
    using assms by (auto simp: delete_attempts_def attempt_usable_def filter_empty_conv image_iff)
qed

text \<open>
  C31. A callback signs a browser in only for an attempt that this browser began and that has not expired,
  whose sealed proof opens and whose exchange the provider confirms; it consumes the attempt, so that a
  second callback with the same state is refused, also one that read the attempt before it was deleted.
\<close>

theorem login_attempt_once:
  assumes "distinct (map aa_stateHash (db_authAttempts d))"
    and "finish_login cr ci pf v ip ck rq fr cb d = (Inr (session, returnTo), d')"
  shows "(\<exists>t key a q idn. browser_token v rq = Some t \<and> login_key v = Inr key \<and> a \<in> set (db_authAttempts d) \<and>
       aa_stateHash a = hash_token cr (cb_state cb) \<and> aa_browserTokenHash a = hash_token cr t \<and>
       ck_host ck < aa_expiresAt a \<and>
       decryptProof ci key (aa_stateHash a) (aa_encryptedPayload a) = Some q \<and> exchange pf v ip cb q = Inr idn) \<and>
     (\<forall>ip' ck' rq' fr'. finish_login cr ci pf v ip' ck' rq' fr' cb d' = (Inl INVALID_LOGIN_STATE, d')) \<and>
     (\<forall>now t. fst (delete_attempts cr now (cb_state cb) t d') = 0)"
proof -
  from assms(2) obtain key a d1 q idn where f: "login_key v = Inr key" "consume_attempt cr v ck rq cb d = (Inr a, d1)"
      "decryptProof ci key (hash_token cr (cb_state cb)) (aa_encryptedPayload a) = Some q" "exchange pf v ip cb q = Inr idn"
      "issueIdentity cr v ck rq fr idn d1 = Inr (session, d')"
    by (auto simp: finish_login_def bind_stored_def transaction_def split: sum.splits prod.splits option.splits)
  note used = consume_attempt_Inr [OF assms(1) f(2)]
  from used(2) issueIdentity_attempts [OF f(5)]
  have gone: "hash_token cr (cb_state cb) \<notin> aa_stateHash ` set (db_authAttempts d')" by simp
  have "finish_login cr ci pf v ip' ck' rq' fr' cb d' = (Inl INVALID_LOGIN_STATE, d')" for ip' ck' rq' fr'
    by (simp add: finish_login_def f(1) absent_attempt(1) [OF gone] bind_stored_def)
  moreover from used(1) f(1,3,4) have "\<exists>t key a q idn. browser_token v rq = Some t \<and> login_key v = Inr key \<and>
      a \<in> set (db_authAttempts d) \<and> aa_stateHash a = hash_token cr (cb_state cb) \<and> aa_browserTokenHash a = hash_token cr t \<and>
      ck_host ck < aa_expiresAt a \<and>
      decryptProof ci key (aa_stateHash a) (aa_encryptedPayload a) = Some q \<and> exchange pf v ip cb q = Inr idn"
    unfolding attempt_usable_def by metis
  ultimately show ?thesis using absent_attempt(2) [OF gone] by blast
qed

end
