(* ===== verification/Discussions.thy ===== *)
theory Discussions
  imports ProblemAdmin Paging
begin

text \<open>
  The discussions of problems (\<open>apps/api/src/discussions/discussions.ts\<close> and its schemas in
  \<open>packages/contracts\<close>): threads and replies, the write quota, likes and reports, with the checks, keys
  and the parent trigger of the migrations. Prisma's \<open>cursor\<close> with \<open>skip: 1\<close> continues after the
  boundary row in the order of the listing.
\<close>

section \<open>Schemas\<close>

definition createDiscussionSchema :: "jsstr \<Rightarrow> jsstr \<Rightarrow> bool" where
  "createDiscussionSchema title body \<longleftrightarrow> trimmed_text 5 120 title \<and> trimmed_text 1 4000 body"

definition createDiscussionReplySchema :: "jsstr \<Rightarrow> bool" where
  "createDiscussionReplySchema body \<longleftrightarrow> trimmed_text 1 4000 body"

definition reportSchema :: "jsstr option \<Rightarrow> bool" where
  "reportSchema details \<longleftrightarrow> opt_all (trimmed_text 3 1000) details"

section \<open>Rows\<close>

definition post_checks :: "discussion_post \<Rightarrow> bool" where
  "post_checks p \<longleftrightarrow>
     (case dp_parentId p of
        None \<Rightarrow> (case dp_title p of None \<Rightarrow> False | Some t \<Rightarrow> 5 \<le> char_length t \<and> char_length t \<le> 120)
      | Some q \<Rightarrow> dp_title p = None \<and> q \<noteq> dp_id p) \<and>
     1 \<le> char_length (dp_body p) \<and> char_length (dp_body p) \<le> 4000"

text \<open>\<open>enforce_discussion_parent\<close>: a reply belongs to a thread of the same problem.\<close>

definition parent_ok :: "db \<Rightarrow> discussion_post \<Rightarrow> bool" where
  "parent_ok d p \<longleftrightarrow>
     (case dp_parentId p of None \<Rightarrow> True
      | Some i \<Rightarrow> (case find_by dp_id i (db_discussionPosts d) of None \<Rightarrow> False
                   | Some q \<Rightarrow> dp_parentId q = None \<and> dp_problemId q = dp_problemId p))"

definition create_post :: "discussion_post \<Rightarrow> db \<Rightarrow> db result" where
  "create_post p d =
     (if \<not> parent_ok d p then Inl (DbError ''invalid discussion parent'')
      else if \<not> post_checks p then Inl (DbError ''post check constraint'')
      else if dp_problemId p \<notin> pr_id ` set (db_problems d) \<or> dp_authorId p \<notin> us_id ` set (db_users d) then Inl (DbError ''P2003'')
      else map_result (\<lambda>rows. d\<lparr>db_discussionPosts := rows\<rparr>) (insert_by dp_id p (db_discussionPosts d)))"

definition new_post :: "clock \<Rightarrow> uuid \<Rightarrow> uuid \<Rightarrow> uuid \<Rightarrow> uuid option \<Rightarrow> jsstr option \<Rightarrow> jsstr \<Rightarrow> discussion_post" where
  "new_post ck i problemId authorId parentId title body =
     \<lparr>dp_id = i, dp_problemId = problemId, dp_authorId = authorId, dp_parentId = parentId, dp_title = title,
      dp_body = body, dp_status = DS_VISIBLE, dp_createdAt = ck_host ck, dp_updatedAt = ck_host ck\<rparr>"

section \<open>Views\<close>

record post_view =
  pv_id :: uuid
  pv_author :: "(string \<times> jsstr) option"
  pv_title :: "jsstr option"
  pv_body :: jsstr
  pv_createdAt :: millis
  pv_updatedAt :: millis
  pv_replyCount :: nat
  pv_likeCount :: nat

definition visible_replies :: "db \<Rightarrow> uuid \<Rightarrow> discussion_post list" where
  "visible_replies d i = filter (\<lambda>p. dp_parentId p = Some i \<and> dp_status p = DS_VISIBLE) (db_discussionPosts d)"

definition likes_of :: "db \<Rightarrow> uuid \<Rightarrow> discussion_like list" where
  "likes_of d i = filter (\<lambda>l. dl_postId l = i) (db_discussionLikes d)"

definition project :: "db \<Rightarrow> discussion_post \<Rightarrow> post_view" where
  "project d p =
     \<lparr>pv_id = dp_id p, pv_author = map_option (\<lambda>u. (us_username u, us_displayName u)) (find_user d (dp_authorId p)),
      pv_title = (case dp_title p of Some [] \<Rightarrow> None | t \<Rightarrow> t), pv_body = dp_body p,
      pv_createdAt = dp_createdAt p, pv_updatedAt = dp_updatedAt p,
      pv_replyCount = length (visible_replies d (dp_id p)), pv_likeCount = length (likes_of d (dp_id p))\<rparr>"

definition publishedProblem :: "string \<Rightarrow> db \<Rightarrow> uuid result" where
  "publishedProblem slug d =
     (case find_by pr_slug slug (db_problems d) of
        None \<Rightarrow> Inl NOT_FOUND
      | Some p \<Rightarrow> if published_version d p = None then Inl NOT_FOUND else Inr (pr_id p))"

text \<open>\<open>problem: {currentVersion: {is: {published: true}}}\<close>.\<close>

definition on_published :: "db \<Rightarrow> discussion_post \<Rightarrow> bool" where
  "on_published d p \<longleftrightarrow>
     (case find_problem d (dp_problemId p) of None \<Rightarrow> False | Some q \<Rightarrow> published_version d q \<noteq> None)"

definition visible_post :: "uuid \<Rightarrow> db \<Rightarrow> discussion_post option" where
  "visible_post i d = find (\<lambda>p. dp_id p = i \<and> dp_status p = DS_VISIBLE \<and> on_published d p) (db_discussionPosts d)"

definition visible_thread :: "uuid \<Rightarrow> db \<Rightarrow> discussion_post option" where
  "visible_thread i d =
     find (\<lambda>p. dp_id p = i \<and> dp_parentId p = None \<and> dp_status p = DS_VISIBLE \<and> on_published d p) (db_discussionPosts d)"

section \<open>Listings\<close>

definition threads :: "uuid \<Rightarrow> db \<Rightarrow> discussion_post list" where
  "threads problemId d =
     filter (\<lambda>p. dp_problemId p = problemId \<and> dp_parentId p = None \<and> dp_status p = DS_VISIBLE) (db_discussionPosts d)"

definition dp_key :: "discussion_post \<Rightarrow> millis \<times> uuid" where
  "dp_key p = (dp_createdAt p, dp_id p)"

definition oldest_key :: "discussion_post \<Rightarrow> (millis \<times> uuid) reversed" where
  "oldest_key p = Reversed (dp_key p)"

text \<open>One page of posts in the order of a key, after the row of the cursor.\<close>

definition post_page ::
    "(discussion_post \<Rightarrow> 'k::linorder) \<Rightarrow> discussion_post list \<Rightarrow> db \<Rightarrow> uuid option \<Rightarrow> (post_view list \<times> uuid option) result" where
  "post_page key rows d cursor =
     (case cursor of
        None \<Rightarrow> Inr (map_prod (map (project d)) (map_option dp_id) (page 20 key None rows))
      | Some c \<Rightarrow>
          (case find_by dp_id c rows of
             None \<Rightarrow> Inl (ApiError 400 ''INVALID_CURSOR'' None)
           | Some b \<Rightarrow> Inr (map_prod (map (project d)) (map_option dp_id) (page 20 key (Some (key b)) rows))))"

definition list_discussions :: "string \<Rightarrow> db \<Rightarrow> uuid option \<Rightarrow> (post_view list \<times> uuid option) result" where
  "list_discussions slug d cursor =
     bind_result (publishedProblem slug d) (\<lambda>problemId. post_page dp_key (threads problemId d) d cursor)"

definition replies :: "uuid \<Rightarrow> db \<Rightarrow> uuid option \<Rightarrow> (post_view list \<times> uuid option) result" where
  "replies postId d cursor =
     (if visible_thread postId d = None then Inl NOT_FOUND
      else post_page oldest_key (visible_replies d postId) d cursor)"

section \<open>Writing\<close>

text \<open>
  The upsert of the user's window and its verdict. It runs in the transaction of the write, so a refused
  write leaves the counter as it was.
\<close>

definition quota_row :: "clock \<Rightarrow> uuid \<Rightarrow> rate_limit list \<Rightarrow> rate_limit" where
  "quota_row ck userId ls =
     (case find_by rl_key userId ls of
        None \<Rightarrow> \<lparr>rl_key = userId, rl_count = 1, rl_expiresAt = ck_start ck + 60000\<rparr>
      | Some r \<Rightarrow>
          if rl_expiresAt r \<le> ck_start ck then \<lparr>rl_key = userId, rl_count = 1, rl_expiresAt = ck_start ck + 60000\<rparr>
          else r\<lparr>rl_count := rl_count r + 1\<rparr>)"

definition put_limit :: "rate_limit \<Rightarrow> rate_limit list \<Rightarrow> rate_limit list" where
  "put_limit row ls =
     (if find_by rl_key (rl_key row) ls = None then ls @ [row] else update_by rl_key (rl_key row) (\<lambda>_. row) ls)"

definition consumeWriteQuota :: "clock \<Rightarrow> uuid \<Rightarrow> db \<Rightarrow> db result" where
  "consumeWriteQuota ck userId d =
     (let row = quota_row ck userId (db_discussionLimits d) in
      if userId \<notin> us_id ` set (db_users d) then Inl (DbError ''P2003'')
      else if rl_count row > 10 then Inl (ApiError 429 ''DISCUSSION_RATE_LIMITED'' (Some 60))
      else Inr (d\<lparr>db_discussionLimits := put_limit row (db_discussionLimits d)\<rparr>))"

definition write_post :: "clock \<Rightarrow> string \<Rightarrow> discussion_post \<Rightarrow> db \<Rightarrow> post_view tx" where
  "write_post ck action p d =
     bind_result (consumeWriteQuota ck (dp_authorId p) d) (\<lambda>d1.
       map_result (\<lambda>d2. (project d2 p, audit (dp_authorId p) action (dp_id p) d2)) (create_post p d1))"

definition create_discussion :: "clock \<Rightarrow> uuid \<Rightarrow> string \<Rightarrow> uuid \<Rightarrow> jsstr \<Rightarrow> jsstr \<Rightarrow> db \<Rightarrow> post_view tx" where
  "create_discussion ck newId slug userId title body d =
     bind_result (publishedProblem slug d) (\<lambda>problemId.
       write_post ck ''DISCUSSION_CREATE'' (new_post ck newId problemId userId None (Some title) body) d)"

definition create_reply :: "clock \<Rightarrow> uuid \<Rightarrow> uuid \<Rightarrow> uuid \<Rightarrow> jsstr \<Rightarrow> db \<Rightarrow> post_view tx" where
  "create_reply ck newId postId userId body d =
     (case visible_thread postId d of
        None \<Rightarrow> Inl NOT_FOUND
      | Some parent \<Rightarrow>
          write_post ck ''DISCUSSION_REPLY_CREATE'' (new_post ck newId (dp_problemId parent) userId (Some (dp_id parent)) None body) d)"

definition like_post :: "uuid \<Rightarrow> uuid \<Rightarrow> bool \<Rightarrow> db \<Rightarrow> nat tx" where
  "like_post postId userId liked d =
     (if visible_post postId d = None then Inl NOT_FOUND
      else
        let mine = \<lparr>dl_postId = postId, dl_userId = userId\<rparr>;
            ls = db_discussionLikes d;
            ls' = (if \<not> liked then filter (\<lambda>l. l \<noteq> mine) ls else if mine \<in> set ls then ls else ls @ [mine]);
            d' = d\<lparr>db_discussionLikes := ls'\<rparr>
        in if liked \<and> userId \<notin> us_id ` set (db_users d) then Inl (DbError ''P2003'')
           else Inr (length (likes_of d' postId), d'))"

section \<open>Reports\<close>

definition create_report :: "content_report \<Rightarrow> db \<Rightarrow> db result" where
  "create_report r d =
     (if \<not> opt_all (\<lambda>s. 3 \<le> char_length s \<and> char_length s \<le> 1000) (rp_details r) then Inl (DbError ''report check constraint'')
      else if rp_postId r \<notin> dp_id ` set (db_discussionPosts d) \<or> rp_reporterId r \<notin> us_id ` set (db_users d) then Inl (DbError ''P2003'')
      else if (rp_postId r, rp_reporterId r) \<in> (\<lambda>x. (rp_postId x, rp_reporterId x)) ` set (db_contentReports d)
      then Inl (DbError ''P2002'')
      else map_result (\<lambda>rows. d\<lparr>db_contentReports := rows\<rparr>) (insert_by rp_id r (db_contentReports d)))"

definition new_report :: "clock \<Rightarrow> uuid \<Rightarrow> uuid \<Rightarrow> uuid \<Rightarrow> reportReason \<Rightarrow> jsstr option \<Rightarrow> content_report" where
  "new_report ck i postId userId reason details =
     \<lparr>rp_id = i, rp_postId = postId, rp_reporterId = userId, rp_reason = reason, rp_details = details,
      rp_status = PENDING, rp_moderatorId = None, rp_moderatorNote = None, rp_createdAt = ck_host ck, rp_resolvedAt = None\<rparr>"

definition report_post :: "clock \<Rightarrow> uuid \<Rightarrow> uuid \<Rightarrow> uuid \<Rightarrow> reportReason \<Rightarrow> jsstr option \<Rightarrow> db \<Rightarrow> content_report tx" where
  "report_post ck newId postId userId reason details d =
     (case visible_post postId d of
        None \<Rightarrow> Inl NOT_FOUND
      | Some p \<Rightarrow>
          if dp_authorId p = userId then Inl (ApiError 409 ''SELF_REPORT_FORBIDDEN'' None)
          else let r = new_report ck newId postId userId reason details in
            on_P2002 (ApiError 409 ''ALREADY_REPORTED'' None)
              (map_result (\<lambda>d'. (r, audit userId ''DISCUSSION_REPORT_CREATE'' newId d')) (create_report r d)))"

record report_entry =
  rv_report :: content_report
  rv_postId :: uuid
  rv_postTitle :: "jsstr option"
  rv_problemSlug :: string
  rv_problemTitle :: jsstr

text \<open>The title of the current version, published or not, else the slug.\<close>

definition current_title :: "db \<Rightarrow> problem \<Rightarrow> jsstr" where
  "current_title d p =
     (case Option.bind (pr_currentVersionId p) (find_version d) of None \<Rightarrow> js (pr_slug p) | Some v \<Rightarrow> vn_title v)"

definition report_view :: "db \<Rightarrow> content_report \<Rightarrow> report_entry option" where
  "report_view d r =
     (case find_by dp_id (rp_postId r) (db_discussionPosts d) of None \<Rightarrow> None
      | Some p \<Rightarrow> map_option (\<lambda>q. \<lparr>rv_report = r, rv_postId = dp_id p, rv_postTitle = dp_title p,
                     rv_problemSlug = pr_slug q, rv_problemTitle = current_title d q\<rparr>) (find_problem d (dp_problemId p)))"

definition reports_mine :: "uuid \<Rightarrow> db \<Rightarrow> report_entry list" where
  "reports_mine userId d =
     List.map_filter (report_view d)
       (take 100 (rev (sort_key (\<lambda>r. (rp_createdAt r, rp_id r)) (filter (\<lambda>r. rp_reporterId r = userId) (db_contentReports d)))))"

section \<open>The listings\<close>

lemma find_in_filter:
  "distinct (map dp_id (filter P rows)) \<Longrightarrow> r \<in> set (filter P rows) \<Longrightarrow> find_by dp_id (dp_id r) (filter P rows) = Some r"
  by (rule find_by_distinct)

text \<open>A listing over any rows with distinct identifiers, in the order of a key that tells them apart.\<close>

interpretation thread_listing: paged_listing "\<lambda>(problemId, d). threads problemId d" dp_key dp_id
  "\<lambda>(problemId, d). project d" 20 "\<lambda>(problemId, d). post_page dp_key (threads problemId d) d"
  "\<lambda>(problemId, d). distinct (map dp_id (db_discussionPosts d))"
  by unfold_locales
    (auto simp: post_page_def threads_def dp_key_def distinct_map_filter find_by_distinct distinct_map inj_on_def
      split: option.splits)

interpretation reply_listing: paged_listing "\<lambda>(postId, d). visible_replies d postId" oldest_key dp_id
  "\<lambda>(postId, d). project d" 20 "\<lambda>(postId, d). post_page oldest_key (visible_replies d postId) d"
  "\<lambda>(postId, d). distinct (map dp_id (db_discussionPosts d))"
  by unfold_locales
    (auto simp: post_page_def visible_replies_def oldest_key_def dp_key_def distinct_map_filter find_by_distinct
      distinct_map inj_on_def split: option.splits)

section \<open>The write quota\<close>

text \<open>
  The abstract window of one user: how many writes it holds and when it ends. A write opens a window of
  one minute, or takes one of the ten places of the current one.
\<close>

type_synonym window = "(int \<times> millis) option"

definition window_of :: "uuid \<Rightarrow> db \<Rightarrow> window" where
  "window_of u d = map_option (\<lambda>r. (rl_count r, rl_expiresAt r)) (find_by rl_key u (db_discussionLimits d))"

definition quota_step :: "millis \<Rightarrow> window \<Rightarrow> window" where
  "quota_step t w =
     (case w of
        None \<Rightarrow> Some (1, t + 60000)
      | Some (n, e) \<Rightarrow> if e \<le> t then Some (1, t + 60000) else if n < 10 then Some (n + 1, e) else None)"

lemma quota_row_key [simp]: "rl_key (quota_row ck u ls) = u"
  by (auto simp: quota_row_def split: option.splits dest: find_by_Some)

lemma find_put_limit: "find_by rl_key v (put_limit row ls) = (if v = rl_key row then Some row else find_by rl_key v ls)"
proof -
  have "find_by rl_key v (update_by rl_key (rl_key row) (\<lambda>_. row) ls) =
      (if v = rl_key row then map_option (\<lambda>_. row) (find_by rl_key v ls) else find_by rl_key v ls)"
    by (induction ls) (auto simp: table_simps update_by_def)
  then show ?thesis by (auto simp: put_limit_def find_by_append table_simps split: option.splits)
qed

lemma consumeWriteQuota_window:
  assumes "consumeWriteQuota ck u d = Inr d'"
  shows "quota_step (ck_start ck) (window_of u d) = window_of u d'" and "window_of u d' \<noteq> None"
    and "v \<noteq> u \<Longrightarrow> window_of v d' = window_of v d"
proof -
  let ?row = "quota_row ck u (db_discussionLimits d)"
  from assms have row: "rl_count ?row \<le> 10" and d': "d' = d\<lparr>db_discussionLimits := put_limit ?row (db_discussionLimits d)\<rparr>"
    by (auto simp: consumeWriteQuota_def Let_def split: if_splits)
  show "quota_step (ck_start ck) (window_of u d) = window_of u d'"
    using row by (auto simp: d' window_of_def find_put_limit quota_step_def)
      (auto simp: quota_row_def split: option.splits if_splits)
  show "window_of u d' \<noteq> None" "v \<noteq> u \<Longrightarrow> window_of v d' = window_of v d"
    by (simp_all add: d' window_of_def find_put_limit)
qed

text \<open>The writes a user gets through, from a window on: each one has a place.\<close>

fun quota_run :: "window \<Rightarrow> millis list \<Rightarrow> bool" where
  "quota_run w [] = True"
| "quota_run w (t # ts) = (quota_step t w \<noteq> None \<and> quota_run (quota_step t w) ts)"

definition counted :: "window \<Rightarrow> bool" where
  "counted w = (case w of None \<Rightarrow> True | Some (n, e) \<Rightarrow> 1 \<le> n)"

lemma counted_step: "counted w \<Longrightarrow> counted (quota_step t w)"
  by (auto simp: counted_def quota_step_def split: option.splits if_splits)

text \<open>A window with \<open>n\<close> writes is full after \<open>10 - n\<close> more: the next one comes after its end.\<close>

lemma window_full:
  assumes "quota_run (Some (n, e)) ts" and "sorted ts" and "nat (10 - n) < length ts" and "n \<le> 10"
  shows "e \<le> ts ! nat (10 - n)"
  using assms
proof (induction ts arbitrary: n)
  case (Cons t ts)
  show ?case
  proof (cases "e \<le> t")
    case True
    then show ?thesis using Cons.prems by (cases "nat (10 - n)") (auto intro: order_trans)
  next
    case False
    with Cons.prems have n: "n < 10" "quota_run (Some (n + 1, e)) ts"
      by (auto simp: quota_step_def split: if_splits)
    then have "nat (10 - n) = Suc (nat (10 - (n + 1)))" by simp
    with Cons.IH [of "n + 1"] Cons.prems n show ?thesis by simp
  qed
qed simp

text \<open>The first write after the end of a window opens the next one.\<close>

lemma window_opens:
  assumes "quota_run (Some (n, e)) ts" and "j < length ts" and "\<forall>i < j. ts ! i < e" and "e \<le> ts ! j"
  shows "quota_run (Some (1, ts ! j + 60000)) (drop (Suc j) ts)"
  using assms
proof (induction ts arbitrary: n j)
  case (Cons t ts)
  show ?case
  proof (cases j)
    case 0
    with Cons.prems show ?thesis by (simp add: quota_step_def)
  next
    case (Suc k)
    with Cons.prems(3) have "t < e" by auto
    with Cons.prems(1) have "quota_run (Some (n + 1, e)) ts" by (auto simp: quota_step_def split: if_splits)
    moreover have "\<forall>i < k. ts ! i < e" using Cons.prems(3) Suc by auto
    ultimately show ?thesis using Cons.prems(2,4) Suc Cons.IH [of "n + 1" k] by simp
  qed
qed simp

lemma quota_slides:
  assumes run: "quota_run w (t # ts)" and sorted: "sorted (t # ts)" and w: "counted w" and len: "20 \<le> length ts"
  shows "t + 60000 \<le> ts ! 19"
proof -
  from run w obtain n e where step: "quota_step t w = Some (n, e)" "1 \<le> n" "n \<le> 10" and rest: "quota_run (Some (n, e)) ts"
    by (auto simp: quota_step_def counted_def split: option.splits if_splits)
  have "e \<le> ts ! nat (10 - n)" using sorted step len by (intro window_full [OF rest]) auto
  then obtain j where j: "j \<le> nat (10 - n)" "e \<le> ts ! j" "\<forall>i < j. ts ! i < e"
    using ex_least_nat_le [of "\<lambda>j. e \<le> ts ! j"] by (metis not_le order.refl)
  with step have "j \<le> 9" by simp
  with len have jl: "j < length ts" by simp
  let ?rest = "drop (Suc j) ts"
  have "ts ! j + 60000 \<le> ?rest ! nat (10 - 1)"
    using window_opens [OF rest jl j(3,2)] sorted len \<open>j \<le> 9\<close> by (intro window_full) (auto intro: sorted_wrt_drop)
  also have "?rest ! nat (10 - 1) = ts ! (j + 10)" using len \<open>j \<le> 9\<close> by (simp add: add.commute)
  also have "\<dots> \<le> ts ! 19" using sorted len \<open>j \<le> 9\<close> by (intro sorted_nth_mono) auto
  finally have "ts ! j + 60000 \<le> ts ! 19" .
  moreover have "t \<le> ts ! j" using sorted jl by auto
  ultimately show ?thesis by simp
qed

lemma quota_run_drop: "quota_run w ts \<Longrightarrow> counted w \<Longrightarrow> \<exists>w'. counted w' \<and> quota_run w' (drop i ts)"
proof (induction ts arbitrary: w i)
  case (Cons t ts)
  then show ?case by (cases i) (auto intro: counted_step)
qed auto

subsection \<open>Histories of writes\<close>

text \<open>Requests of any users to open threads and to reply, in the order they are served.\<close>

datatype write_request =
    NewThread clock uuid string uuid jsstr jsstr
  | NewReply clock uuid uuid uuid jsstr

fun request_time :: "write_request \<Rightarrow> millis" where
  "request_time (NewThread ck i slug u title body) = ck_start ck"
| "request_time (NewReply ck i post u body) = ck_start ck"

fun request_user :: "write_request \<Rightarrow> uuid" where
  "request_user (NewThread ck i slug u title body) = u"
| "request_user (NewReply ck i post u body) = u"

fun serve :: "write_request \<Rightarrow> db \<Rightarrow> post_view tx" where
  "serve (NewThread ck i slug u title body) d = create_discussion ck i slug u title body d"
| "serve (NewReply ck i post u body) d = create_reply ck i post u body d"

text \<open>The times of the writes of one user that were accepted.\<close>

fun accepted_writes :: "uuid \<Rightarrow> write_request list \<Rightarrow> db \<Rightarrow> millis list" where
  "accepted_writes u [] d = []"
| "accepted_writes u (r # rs) d =
     (case serve r d of
        Inl e \<Rightarrow> accepted_writes u rs d
      | Inr (v, d') \<Rightarrow> (if request_user r = u then [request_time r] else []) @ accepted_writes u rs d')"

lemma write_post_window:
  assumes "write_post ck a p d = Inr (v, d')"
  shows "quota_step (ck_start ck) (window_of (dp_authorId p) d) = window_of (dp_authorId p) d'"
    and "window_of (dp_authorId p) d' \<noteq> None" and "u \<noteq> dp_authorId p \<Longrightarrow> window_of u d' = window_of u d"
proof -
  from assms obtain d1 d2 where d: "consumeWriteQuota ck (dp_authorId p) d = Inr d1" "create_post p d1 = Inr d2"
      "d' = audit (dp_authorId p) a (dp_id p) d2"
    by (auto simp: write_post_def bind_result_Inr map_result_Inr)
  have "db_discussionLimits d' = db_discussionLimits d1"
    using d(2,3) by (auto simp: create_post_def audit_def map_result_Inr split: if_splits)
  then have same: "window_of x d' = window_of x d1" for x by (simp add: window_of_def)
  note w = consumeWriteQuota_window [OF d(1)]
  show "quota_step (ck_start ck) (window_of (dp_authorId p) d) = window_of (dp_authorId p) d'"
    "window_of (dp_authorId p) d' \<noteq> None" using w(1,2) by (simp_all add: same)
  show "u \<noteq> dp_authorId p \<Longrightarrow> window_of u d' = window_of u d" using w(3) by (simp add: same)
qed

lemma serve_window:
  assumes "serve r d = Inr (v, d')"
  shows "quota_step (request_time r) (window_of (request_user r) d) = window_of (request_user r) d'"
    and "window_of (request_user r) d' \<noteq> None" and "u \<noteq> request_user r \<Longrightarrow> window_of u d' = window_of u d"
proof -
  from assms obtain ck a p where "write_post ck a p d = Inr (v, d')" "ck_start ck = request_time r" "dp_authorId p = request_user r"
    by (cases r) (auto simp: create_discussion_def create_reply_def bind_result_Inr new_post_def split: option.splits)
  from write_post_window [OF this(1)] this(2,3)
  show "quota_step (request_time r) (window_of (request_user r) d) = window_of (request_user r) d'"
    "window_of (request_user r) d' \<noteq> None" "u \<noteq> request_user r \<Longrightarrow> window_of u d' = window_of u d" by simp_all
qed

lemma accepted_writes_run: "quota_run (window_of u d) (accepted_writes u rs d)"
proof (induction rs arbitrary: d)
  case (Cons r rs)
  show ?case
  proof (cases "serve r d")
    case (Inr y)
    obtain v d' where y: "y = (v, d')" by (cases y)
    with Inr have s: "serve r d = Inr (v, d')" by simp
    show ?thesis
      using Cons [of d'] serve_window [OF s] by (cases "request_user r = u") (auto simp: s)
  qed (use Cons in simp)
qed simp

lemma set_accepted_writes: "set (accepted_writes u rs d) \<subseteq> request_time ` set rs"
  by (induction rs arbitrary: d) (fastforce split: sum.splits)+

lemma sorted_accepted_writes: "sorted (map request_time rs) \<Longrightarrow> sorted (accepted_writes u rs d)"
proof (induction rs arbitrary: d)
  case (Cons r rs)
  then show ?case using set_accepted_writes [of u rs] by (fastforce split: sum.splits)
qed simp

text \<open>
  C36. The write quota bounds the rate of posts and replies over every stretch of time, not only within
  one of its windows: of the accepted writes of a user, whatever other users do and whatever is refused
  in between, any twenty-one in a row take at least a minute.
\<close>

theorem discussion_rate:
  assumes "sorted (map request_time rs)" and "\<forall>r \<in> set (db_discussionLimits d). 1 \<le> rl_count r"
    and "i + 20 < length (accepted_writes u rs d)"
  shows "accepted_writes u rs d ! i + 60000 \<le> accepted_writes u rs d ! (i + 20)"
proof -
  let ?ts = "accepted_writes u rs d"
  have "counted (window_of u d)"
    using assms(2) by (auto simp: counted_def window_of_def split: option.splits dest: find_by_Some)
  from quota_run_drop [OF accepted_writes_run this]
  obtain w where w: "counted w" "quota_run w (drop i ?ts)" by blast
  have drop: "drop i ?ts = ?ts ! i # drop (Suc i) ?ts" using assms(3) by (simp add: Cons_nth_drop_Suc)
  have "sorted ?ts" using assms(1) by (rule sorted_accepted_writes)
  then have "sorted (?ts ! i # drop (Suc i) ?ts)" unfolding drop [symmetric] by (rule sorted_wrt_drop)
  from quota_slides [OF w(2) [unfolded drop] this w(1)] assms(3) show ?thesis by (simp add: add.commute)
qed

section \<open>Threads\<close>

text \<open>Every reply hangs on a thread of its own problem; threads have a title and replies have none.\<close>

definition threads_ok :: "db \<Rightarrow> bool" where
  "threads_ok d \<longleftrightarrow>
     distinct (map dp_id (db_discussionPosts d)) \<and> (\<forall>p \<in> set (db_discussionPosts d). post_checks p \<and> parent_ok d p)"

lemma threads_ok_cong: "db_discussionPosts d' = db_discussionPosts d \<Longrightarrow> threads_ok d' \<longleftrightarrow> threads_ok d"
  unfolding threads_ok_def parent_ok_def by (simp only:)

lemma create_post_threads:
  assumes "threads_ok d" and "create_post p d = Inr d'"
  shows "threads_ok d'"
proof -
  from assms(2) have p: "parent_ok d p" "post_checks p" "dp_id p \<notin> dp_id ` set (db_discussionPosts d)"
      "db_discussionPosts d' = db_discussionPosts d @ [p]"
    by (auto simp: create_post_def result_simps split: if_splits)
  have "parent_ok d' q" if "parent_ok d q" for q
    using that by (auto simp: parent_ok_def p(4) find_by_append split: option.splits)
  with assms(1) p show ?thesis by (auto simp: threads_ok_def)
qed

lemma write_post_threads:
  assumes "threads_ok d" and "write_post ck a p d = Inr (v, d')"
  shows "threads_ok d'"
proof -
  from assms(2) obtain d1 d2 where d: "consumeWriteQuota ck (dp_authorId p) d = Inr d1" "create_post p d1 = Inr d2"
      "db_discussionPosts d' = db_discussionPosts d2"
    by (auto simp: write_post_def bind_result_Inr map_result_Inr audit_def)
  have same: "db_discussionPosts d1 = db_discussionPosts d"
    using d(1) by (auto simp: consumeWriteQuota_def Let_def split: if_splits)
  have "threads_ok d1" using assms(1) threads_ok_cong [OF same] by simp
  from create_post_threads [OF this d(2)] show ?thesis using threads_ok_cong [OF d(3)] by simp
qed

text \<open>
  A title is measured in UTF-16 code units by the schema and in characters by the table: three characters
  outside the basic plane pass the one and fail the other, and the request ends in an internal error.
\<close>

definition short_title :: jsstr where
  "short_title = concat (replicate 3 [0xD83D, 0xDE00])"

lemma short_title_refused:
  "createDiscussionSchema short_title (js ''x'')"
  "create_post (new_post ck i p u None (Some short_title) (js ''x'')) d = Inl (DbError ''post check constraint'')"
proof -
  show "createDiscussionSchema short_title (js ''x'')" by code_simp
  have "char_length short_title = 3" by code_simp
  then show "create_post (new_post ck i p u None (Some short_title) (js ''x'')) d = Inl (DbError ''post check constraint'')"
    by (simp add: create_post_def parent_ok_def post_checks_def new_post_def)
qed

end
