(* ===== verification/Notifications.thy ===== *)
theory Notifications
  imports UserTables Paging JobStore
begin

text \<open>
  The notifications of a user (\<open>apps/api/src/notifications/notifications.ts\<close>): the listing, the count of
  the unread ones and the two ways to mark them read. Every query is restricted to the user's own rows.
\<close>

definition nt_cursor :: "notification \<Rightarrow> millis \<times> uuid" where
  "nt_cursor n = (nt_createdAt n, nt_id n)"

definition notifications_of :: "uuid \<Rightarrow> db \<Rightarrow> notification list" where
  "notifications_of userId d = filter (\<lambda>n. nt_userId n = userId) (db_notifications d)"

definition unread :: "notification \<Rightarrow> bool" where
  "unread n \<longleftrightarrow> nt_readAt n = None"

definition unreadCount :: "uuid \<Rightarrow> db \<Rightarrow> nat" where
  "unreadCount userId d = length (filter unread (notifications_of userId d))"

text \<open>The page the client gets: its items, the next cursor and the number of unread ones.\<close>

definition notification_page :: "uuid \<Rightarrow> db \<Rightarrow> uuid option \<Rightarrow> (notification list \<times> uuid option) result" where
  "notification_page userId d cursor =
     (case cursor of
        None \<Rightarrow> Inr (map_prod id (map_option nt_id) (page 30 nt_cursor None (notifications_of userId d)))
      | Some c \<Rightarrow>
          (case find (\<lambda>n. nt_id n = c \<and> nt_userId n = userId) (db_notifications d) of
             None \<Rightarrow> Inl (ApiError 400 ''INVALID_CURSOR'' None)
           | Some b \<Rightarrow>
               Inr (map_prod id (map_option nt_id) (page 30 nt_cursor (Some (nt_cursor b)) (notifications_of userId d)))))"

definition list_notifications :: "uuid \<Rightarrow> db \<Rightarrow> uuid option \<Rightarrow> ((notification list \<times> uuid option) \<times> nat) result" where
  "list_notifications userId d cursor = map_result (\<lambda>p. (p, unreadCount userId d)) (notification_page userId d cursor)"

definition mark_rows :: "millis \<Rightarrow> (notification \<Rightarrow> bool) \<Rightarrow> db \<Rightarrow> nat \<times> db" where
  "mark_rows now P d =
     (length (filter P (db_notifications d)),
      d\<lparr>db_notifications := map (\<lambda>n. if P n then n\<lparr>nt_readAt := Some now\<rparr> else n) (db_notifications d)\<rparr>)"

text \<open>
  A notification that is already read keeps its time; one of another user is not found.
\<close>

definition markRead :: "millis \<Rightarrow> uuid \<Rightarrow> uuid \<Rightarrow> db \<Rightarrow> millis option tx" where
  "markRead now userId i d =
     (case mark_rows now (\<lambda>n. nt_id n = i \<and> nt_userId n = userId \<and> nt_readAt n = None) d of
        (n, d') \<Rightarrow>
          if n = 0 \<and> \<not> list_ex (\<lambda>n. nt_id n = i \<and> nt_userId n = userId) (db_notifications d) then Inl NOT_FOUND
          else if n \<noteq> 0 then Inr (Some now, d')
          else (case find_by nt_id i (db_notifications d') of
                  None \<Rightarrow> Inl (DbError ''P2025'')
                | Some r \<Rightarrow> Inr (nt_readAt r, d')))"

definition markAllRead :: "millis \<Rightarrow> uuid \<Rightarrow> db \<Rightarrow> nat \<times> db" where
  "markAllRead now userId d = mark_rows now (\<lambda>n. nt_userId n = userId \<and> nt_readAt n = None) d"

section \<open>The listing\<close>

lemma find_own:
  assumes "distinct (map nt_id rows)" and "n \<in> set rows" and "nt_userId n = userId"
  shows "find (\<lambda>x. nt_id x = nt_id n \<and> nt_userId x = userId) rows = Some n"
  using assms by (induction rows) (auto simp: image_iff)

interpretation notification_listing: paged_listing "\<lambda>(userId, d). notifications_of userId d" nt_cursor nt_id
  "\<lambda>_ n. n" 30 "\<lambda>(userId, d). notification_page userId d" "\<lambda>(userId, d). distinct (map nt_id (db_notifications d))"
proof (unfold_locales, goal_cases)
  case (2 s)
  then show ?case by (cases s) (simp add: notification_page_def id_def)
next
  case (3 s r)
  then show ?case
    by (cases s) (auto simp: notification_page_def notifications_of_def find_own id_def)
next
  case (4 s)
  then show ?case
    by (cases s) (auto simp: notifications_of_def nt_cursor_def distinct_map inj_on_def)
qed simp

section \<open>What marking does\<close>

lemma unread_after_mark:
  "filter unread (map (\<lambda>n. if P n then n\<lparr>nt_readAt := Some now\<rparr> else n) ns) = filter (\<lambda>n. unread n \<and> \<not> P n) ns"
  by (induction ns) (auto simp: unread_def)

lemma notifications_of_mark:
  "notifications_of u (snd (mark_rows now P d)) =
     map (\<lambda>n. if P n then n\<lparr>nt_readAt := Some now\<rparr> else n) (notifications_of u d)"
proof -
  have "filter (\<lambda>n. nt_userId n = u) (map (\<lambda>n. if P n then n\<lparr>nt_readAt := Some now\<rparr> else n) ns) =
      map (\<lambda>n. if P n then n\<lparr>nt_readAt := Some now\<rparr> else n) (filter (\<lambda>n. nt_userId n = u) ns)" for ns
    by (induction ns) auto
  then show ?thesis by (simp add: notifications_of_def mark_rows_def)
qed

text \<open>Marking all reports how many were unread and leaves none; other users' rows stay as they are.\<close>

lemma markAllRead_count:
  "fst (markAllRead now userId d) = unreadCount userId d" "unreadCount userId (snd (markAllRead now userId d)) = 0"
  "u \<noteq> userId \<Longrightarrow> notifications_of u (snd (markAllRead now userId d)) = notifications_of u d"
proof -
  show "fst (markAllRead now userId d) = unreadCount userId d"
    by (simp add: markAllRead_def mark_rows_def unreadCount_def notifications_of_def unread_def conj_commute)
  show "unreadCount userId (snd (markAllRead now userId d)) = 0"
    unfolding unreadCount_def markAllRead_def notifications_of_mark unread_after_mark
    by (auto simp: filter_empty_conv notifications_of_def unread_def)
  show "u \<noteq> userId \<Longrightarrow> notifications_of u (snd (markAllRead now userId d)) = notifications_of u d"
    unfolding markAllRead_def notifications_of_mark by (rule map_idI) (auto simp: notifications_of_def)
qed

end
