(* ===== verification/ApiScenario.thy ===== *)
theory ApiScenario
  imports Scenario CatalogSafety AccountSafety Discussions Notifications
begin

text \<open>
  Worked inputs of the API: a production environment, one administrator who registers with a password,
  a sign-in through GitHub, a discussion with a busy author and the withdrawal of a problem. The
  properties of these components are instantiated at them.
\<close>

section \<open>A production environment\<close>

definition a_key :: string where "a_key = replicate 43 (CHR ''A'') @ ''=''"

definition a_origin :: string where "a_origin = ''https://arena.example''"

definition a_env :: "string \<Rightarrow> string option" where
  "a_env = map_of
     [(''NODE_ENV'', ''production''), (''PUBLIC_ORIGIN'', a_origin), (''DATABASE_URL'', ''postgres://db/arena''),
      (''EXECUTIONS_ENABLED'', ''true''), (''PIPELINE_ENABLED'', ''true''), (''REALTIME_ENABLED'', ''true''),
      (''REDIS_URL'', ''redis://queue''), (''PASSWORD_AUTH_ENABLED'', ''true''), (''GITHUB_AUTH_ENABLED'', ''true''),
      (''GITHUB_CLIENT_ID'', ''id''), (''GITHUB_CLIENT_SECRET'', ''secret''), (''AUTH_TRANSACTION_KEY'', a_key),
      (''EXECUTION_RATE_LIMIT_KEY'', a_key)]"

definition a_platform :: platform where
  "a_platform = \<lparr>to_number = (\<lambda>s. Some (int (digits_value s))), zod_url = Some,
     parse_url = (\<lambda>s. if s = a_origin
       then Some \<lparr>url_protocol = ''https:'', url_username = '''', url_password = '''', url_pathname = ''/'', url_search = '''',
                  url_hash = '''', url_origin = a_origin\<rparr>
       else None),
     is_ip = (\<lambda>_. 0)\<rparr>"

definition a_config :: env_values where
  "a_config = \<lparr>cf_NODE_ENV = Production, cf_HOST = ''127.0.0.1'', cf_PORT = 3001, cf_PUBLIC_ORIGIN = a_origin,
     cf_API_ORIGIN = None, cf_DATABASE_URL = ''postgres://db/arena'', cf_EXECUTIONS_ENABLED = True,
     cf_PIPELINE_ENABLED = True, cf_REALTIME_ENABLED = True, cf_REDIS_URL = Some ''redis://queue'',
     cf_QUEUE_NAME = ''arenacore-executions'', cf_OIDC_ENABLED = False, cf_OIDC_ISSUER = None, cf_OIDC_CLIENT_ID = None,
     cf_OIDC_CLIENT_SECRET = None, cf_OIDC_TRANSACTION_KEY = None,
     cf_OIDC_CLIENT_AUTH_METHOD = ''client_secret_basic'', cf_OIDC_ID_TOKEN_ALG = ''RS256'', cf_PASSWORD_AUTH_ENABLED = True,
     cf_AUTH_TRANSACTION_KEY = Some a_key, cf_GOOGLE_AUTH_ENABLED = False, cf_GOOGLE_CLIENT_ID = None,
     cf_GOOGLE_CLIENT_SECRET = None, cf_GITHUB_AUTH_ENABLED = True, cf_GITHUB_CLIENT_ID = Some ''id'',
     cf_GITHUB_CLIENT_SECRET = Some ''secret'', cf_SESSION_TTL_SECONDS = 28800, cf_AUTH_LOGIN_REQUESTS_PER_MINUTE = 20,
     cf_AUTH_LOGIN_GLOBAL_PER_MINUTE = 120, cf_TRUST_PROXY_CIDRS = '''', cf_ENV_MAX_ACTIVE_JOBS_PER_USER = 1,
     cf_ENV_MAX_ACTIVE_JOBS_GLOBAL = 1000, cf_ENV_EXECUTION_CREATIONS_PER_MINUTE = 10,
     cf_ENV_EXECUTION_IP_CREATIONS_PER_MINUTE = 60, cf_ENV_EXECUTION_GLOBAL_CREATIONS_PER_MINUTE = 300,
     cf_ENV_EXECUTION_RATE_LIMIT_KEY = Some a_key, cf_ENV_QUEUE_TTL_SECONDS = 120,
     cf_JOB_MAINTENANCE_INTERVAL_SECONDS = 15\<rparr>"

lemma a_key_format: "key_format a_key" "a_key \<noteq> ''''"
  by code_simp+

lemma a_key_canonical: "base64_encode (base64_decode a_key) = a_key"
proof -
  have "a_key = base64_encode (replicate 32 0)" by code_simp
  then show ?thesis by (metis decode_base64)
qed

lemma a_fields: "parse_fields a_platform a_env = Some a_config"
  unfolding parse_fields_def
  by (simp add: a_env_def a_platform_def env_enum_def env_flag_def env_text_def env_int_def optionalString_def
      postgres_url_def redis_url_def refined_def starts_with_def a_key_format client_id_def a_config_def)

lemma a_config: "parseConfig a_platform a_env = Inr a_config"
proof -
  have "config_issues a_platform a_config = []"
    by (simp add: config_issues_def origin_issues_def issue_def a_config_def a_platform_def canonical_key_def
        a_key_canonical some_auth_def http_url_def exact_origin_def api_url_def)
  then show ?thesis by (simp add: parseConfig_def a_fields)
qed

lemma a_origin_law: "origin_law a_platform"
  by (auto simp: origin_law_def a_platform_def a_origin_def split: if_splits)

theorem production_config_safe_witness:
  "secureCookies a_config \<and> strong_key (authTransactionKey a_config) \<and> cookieName a_config = ''__Host-arenacore_session''"
proof -
  have "cf_NODE_ENV a_config = Production" "cf_EXECUTIONS_ENABLED a_config" by (simp_all add: a_config_def)
  from production_config_safe [OF a_config a_origin_law this] show ?thesis
    using \<open>cf_NODE_ENV a_config = Production\<close> by (simp add: cookieName_def)
qed

section \<open>An authenticated request\<close>

definition a_token :: string where "a_token = replicate 43 (CHR ''t'')"
definition a_csrf :: string where "a_csrf = replicate 43 (CHR ''c'')"

definition a_crypto :: auth_crypto where
  "a_crypto = \<lparr>hash_token = (\<lambda>t. replicate 63 (CHR ''a'') @ take 1 t), csrf_mac = (\<lambda>_. a_csrf),
     auth_mac = (\<lambda>_ m. m)\<rparr>"

definition a_admin :: uuid where "a_admin = ''aaaaaaaa-aaaa-4aaa-8aaa-aaaaaaaaaaaa''"

definition a_base :: db where
  "a_base = empty_db\<lparr>db_users :=
     [(new_user (s_clock 0) a_admin ''https://github.com'' ''1'' ''root'' (js ''Root''))\<lparr>us_role := ADMIN\<rparr>]\<rparr>"

definition a_session :: session where
  "a_session = \<lparr>se_id = s_token, se_tokenHash = hash_token a_crypto a_csrf, se_csrfTokenHash = hash_token a_crypto a_csrf,
     se_userId = a_admin, se_expiresAt = 5000, se_revokedAt = None, se_createdAt = 0\<rparr>"

definition a_request :: http where
  "a_request = \<lparr>rq_method = ''POST'', rq_origin = Some a_origin, rq_secFetchSite = None, rq_csrf = Some a_csrf,
     rq_cookies = (\<lambda>n. if n = cookieName a_config then Some a_csrf else None), rq_ip = ''192.0.2.1''\<rparr>"

definition a_signed :: db where
  "a_signed = a_base\<lparr>db_sessions := [a_session]\<rparr>"

theorem guard_authentic_witness:
  "\<exists>p. SessionGuard_canActivate a_crypto a_config False a_request 1000 a_signed = Inr p \<and> pn_userId p = a_admin \<and> pn_role p = ADMIN"
proof -
  let ?g = "SessionGuard_canActivate a_crypto a_config False a_request 1000 a_signed"
  have "case ?g of Inr p \<Rightarrow> True | Inl _ \<Rightarrow> False" by code_simp
  then obtain p where p: "?g = Inr p" by (auto split: sum.splits)
  have "\<not> safe_method (rq_method a_request)" by (simp add: a_request_def safe_method_def)
  from guard_authentic [OF p this] have "pn_userId p = a_admin" "pn_role p = ADMIN"
    by (auto simp: a_signed_def a_base_def a_session_def new_user_def empty_db_def)
  with p show ?thesis by blast
qed

section \<open>Registration\<close>

definition a_password :: password_env where
  "a_password = \<lparr>pe_scrypt = toy_scrypt, pe_number = (\<lambda>s. Some (int (digits_value s)))\<rparr>"

definition a_fresh :: fresh_ids where
  "a_fresh = \<lparr>fr_token = a_token, fr_sessionId = s_token2, fr_userId = s_user, fr_username = ''user_1''\<rparr>"

definition a_registration :: registration_input where
  "a_registration = \<lparr>ri_email = ''ada@example.org'', ri_password = js ''correct horse'', ri_displayName = js ''Ada'',
     ri_username = ''ada''\<rparr>"

definition a_salt :: bytes where "a_salt = replicate 16 7"

definition a_registered :: db where
  "a_registered = snd (register_password a_crypto a_password a_config (s_clock 1000) a_request a_fresh s_id
     a_salt a_registration a_base)"

lemma a_initial: "account_init (1000, a_base)"
  by (simp add: account_init_def a_base_def empty_db_def admins_def new_user_def)

lemma a_reach: "reach account_init account_step (1000, a_registered)"
proof -
  have "reach account_init account_step (1000, a_base)" using a_initial by (rule reach_init)
  then show ?thesis
    unfolding a_registered_def by (rule reach_step) (rule as_register, simp add: s_clock_def)
qed

lemma a_hash_length: "length (hashPassword toy_scrypt a_salt (js ''correct horse'')) = 83"
proof -
  have "length (int_text 32768) = 5" "length (int_text 8) = 1" "length (int_text 1) = 1"
    by (simp_all add: int_text_def nat_text.simps)
  moreover have "length (base64url_encode a_salt) = 22" by code_simp
  moreover have "length (base64url_encode (toy_scrypt (js ''correct horse'') a_salt)) = 43" by code_simp
  ultimately show ?thesis
    by (simp add: hashPassword_def encoded_hash_def scrypt_N_def scrypt_R_def scrypt_P_def)
qed

abbreviation a_user :: user where "a_user \<equiv> registered_user (s_clock 1000) s_user a_registration"

lemma a_user_facts:
  "user_checks a_user" "us_identity a_user \<notin> us_identity ` set (db_users a_base)"
  "us_username a_user \<notin> us_username ` set (db_users a_base)" "us_id a_user \<notin> us_id ` set (db_users a_base)"
  "normal_email (ri_email a_registration) = ''ada@example.org''" "us_id a_user = s_user" "us_bannedAt a_user = None"
  "us_suspendedUntil a_user = None"
  by code_simp+

lemma a_created:
  assumes "db_users d = db_users a_base" and "db_credentials d = []"
  shows "\<exists>d'. create_password_user a_password (s_clock 1000) s_user s_id a_salt a_registration d = Inr d' \<and>
    db_users d' = db_users d @ [a_user] \<and> db_sessions d' = db_sessions d"
proof -
  have "credential_checks \<lparr>cd_id = s_id, cd_userId = s_user, cd_email = ''ada@example.org'',
      cd_passwordHash = hashPassword toy_scrypt a_salt (js ''correct horse'')\<rparr>"
    unfolding credential_checks_def credential.select_convs a_hash_length by code_simp
  moreover have "create_user a_user d = Inr (d\<lparr>db_users := db_users d @ [a_user]\<rparr>)"
    using a_user_facts by (simp add: create_user_Inr assms)
  ultimately show ?thesis
    by (simp add: create_password_user_def create_credential_def assms(2) insert_by_def a_password_def
        a_user_facts(5) a_registration_def [THEN arg_cong [where f = ri_password]])
qed

lemma a_issued:
  assumes "find_user d s_user = Some a_user" and "db_sessions d = []"
  shows "\<exists>x d'. issueUser a_crypto a_config (s_clock 1000) a_request a_fresh s_user action d = Inr (x, d') \<and>
    db_sessions d' = [new_session (s_clock 1000) s_token2 s_user (newSessionSecrets a_crypto a_token) (1000 + 28800000)]"
proof -
  have "s_user \<in> us_id ` set (db_users d)"
    using find_by_Some [OF assms(1) [unfolded find_user_def]] by (auto simp: image_iff intro: bexI [of _ a_user])
  then show ?thesis
    using assms a_user_facts(6-8)
    by (auto simp: issueUser_def ensureAllowed_def persistSession_def create_session_def insert_by_def Let_def audit_def
        revoke_sessions_def drop_expired_sessions_def new_session_def session_end_def a_config_def a_fresh_def s_clock_def
        split: option.splits)
qed

lemma a_registered_sessions: "length (live_sessions 1000 s_user a_registered) = 1"
proof -
  have "case protect a_crypto a_config (s_clock 1000) True a_request a_base of
      (Inr _, d) \<Rightarrow> db_users d = db_users a_base \<and> db_credentials d = [] \<and> db_sessions d = [] | _ \<Rightarrow> False" by code_simp
  then obtain k d1 where d1: "protect a_crypto a_config (s_clock 1000) True a_request a_base = (Inr k, d1)"
      "db_users d1 = db_users a_base" "db_credentials d1 = []" "db_sessions d1 = []"
    by (auto split: prod.splits sum.splits)
  from a_created [OF d1(2,3)] obtain d2 where d2:
      "create_password_user a_password (s_clock 1000) s_user s_id a_salt a_registration d1 = Inr d2"
      "db_users d2 = db_users d1 @ [a_user]" "db_sessions d2 = []" using d1(4) by auto
  have "find_user d2 s_user = Some a_user"
  proof -
    have "find_by us_id s_user (db_users a_base) = None" using a_user_facts(4,6) by (simp add: find_by_None)
    then show ?thesis using a_user_facts(6) by (simp add: find_user_def d2(2) d1(2) find_by_append table_simps)
  qed
  from a_issued [OF this d2(3)] obtain x d3 where d3:
      "issueUser a_crypto a_config (s_clock 1000) a_request a_fresh s_user ''AUTH_PASSWORD_REGISTER'' d2 = Inr (x, d3)"
      "db_sessions d3 = [new_session (s_clock 1000) s_token2 s_user (newSessionSecrets a_crypto a_token) (1000 + 28800000)]"
    by blast
  have d: "a_registered = d3"
    using d1(1) d2(1) d3(1)
    by (simp add: a_registered_def register_password_def password_enabled_def a_config_def [THEN arg_cong [where f = cf_PASSWORD_AUTH_ENABLED]]
        bind_stored_def transaction_def a_fresh_def)
  show ?thesis unfolding d live_sessions_def d3(2) by (simp add: new_session_def session_live_def)
qed


lemma admin_remains_example: "\<exists>u \<in> set (db_users a_registered). us_role u = ADMIN"
  by (rule admin_remains [OF a_reach])

section \<open>A sign-in through GitHub\<close>

definition a_state :: string where "a_state = replicate 43 (CHR ''s'')"

definition a_tokens :: login_tokens where
  "a_tokens = \<lparr>lt_state = a_state, lt_browserToken = a_token, lt_verifier = a_csrf, lt_nonce = a_csrf, lt_iv = replicate 12 0\<rparr>"

definition a_proof :: login_proof where
  "a_proof = \<lparr>lp_provider = Github, lp_verifier = a_csrf, lp_nonce = a_csrf, lp_returnTo = Some (js ''/problems'')\<rparr>"

definition a_cipher :: cipher where
  "a_cipher = \<lparr>seal = (\<lambda>key iv aad plain. (plain, replicate 16 1)), unseal = (\<lambda>key iv aad tag data. Some data),
     json_print = (\<lambda>_. [42]), json_read = (\<lambda>b. if b = [42] then Some (proof_json a_proof) else None)\<rparr>"

definition a_idp :: idp where
  "a_idp = \<lparr>ip_metadata = (\<lambda>_. None), ip_grant = (\<lambda>_ _. None), ip_github = (\<lambda>_ _. Some (''1'', js ''Root''))\<rparr>"

definition a_browser :: http where
  "a_browser = a_request\<lparr>rq_cookies := (\<lambda>n. if n = loginCookieName a_config then Some a_token else None)\<rparr>"

definition a_callback :: callback_params where
  "a_callback = \<lparr>cb_state = a_state, cb_code = Some ''code''\<rparr>"

definition a_attempt :: auth_attempt where
  "a_attempt = new_attempt a_crypto a_cipher (s_clock 1000) (base64_decode a_key) a_tokens a_proof"

definition a_begun :: db where
  "a_begun = a_base\<lparr>db_authAttempts := [a_attempt]\<rparr>"

lemma a_opened:
  "decryptProof a_cipher (base64_decode a_key) (hash_token a_crypto a_state) (aa_encryptedPayload a_attempt) = Some a_proof"
proof -
  have "proofSchema (proof_json a_proof) = Some a_proof" by code_simp
  then show ?thesis
    by (simp add: decryptProof_def a_attempt_def new_attempt_def encryptProof_def a_cipher_def a_tokens_def Let_def)
qed

lemma a_consumed:
  "consume_attempt a_crypto a_config (s_clock 2000) a_browser a_callback a_begun = (Inr a_attempt, a_base)"
proof -
  have "browser_token a_config a_browser = Some a_token"
    by (simp add: browser_token_def a_browser_def) code_simp
  moreover have "attempt_usable a_crypto 2000 a_state a_token a_attempt"
    by (simp add: attempt_usable_def a_attempt_def new_attempt_def a_tokens_def s_clock_def LOGIN_TTL_SECONDS_def)
  moreover have "aa_stateHash a_attempt = hash_token a_crypto a_state"
    by (simp add: a_attempt_def new_attempt_def a_tokens_def)
  ultimately show ?thesis
    by (simp add: consume_attempt_def delete_attempts_def a_callback_def a_begun_def table_simps s_clock_def a_base_def empty_db_def)
qed

lemma a_identity:
  "case issueIdentity a_crypto a_config (s_clock 2000) a_browser a_fresh
     \<lparr>id_issuer = ''https://github.com'', id_subject = ''1'', id_displayName = js ''Root''\<rparr> a_base of Inr _ \<Rightarrow> True | Inl _ \<Rightarrow> False"
  by code_simp

lemma a_finished:
  "\<exists>session d'. finish_login a_crypto a_cipher a_platform a_config a_idp (s_clock 2000) a_browser a_fresh a_callback a_begun =
     (Inr (session, js ''/problems''), d')"
proof -
  from a_identity obtain x d' where "issueIdentity a_crypto a_config (s_clock 2000) a_browser a_fresh
      \<lparr>id_issuer = ''https://github.com'', id_subject = ''1'', id_displayName = js ''Root''\<rparr> a_base = Inr (x, d')"
    by (auto split: sum.splits)
  moreover have "login_key a_config = Inr (base64_decode a_key)"
    by (simp add: login_key_def authTransactionKey_def a_config_def)
  moreover have "exchange a_platform a_config a_idp a_callback a_proof =
      Inr \<lparr>id_issuer = ''https://github.com'', id_subject = ''1'', id_displayName = js ''Root''\<rparr>" by code_simp
  moreover have "cb_state a_callback = a_state" "return_to a_proof = js ''/problems''"
    by (simp_all add: a_callback_def return_to_def a_proof_def)
  ultimately show ?thesis
    by (simp add: finish_login_def a_consumed bind_stored_def a_opened transaction_def)
qed

theorem login_attempt_once_witness:
  "\<exists>session d'. finish_login a_crypto a_cipher a_platform a_config a_idp (s_clock 2000) a_browser a_fresh a_callback a_begun =
       (Inr (session, js ''/problems''), d') \<and>
     finish_login a_crypto a_cipher a_platform a_config a_idp (s_clock 2001) a_browser a_fresh a_callback d' =
       (Inl INVALID_LOGIN_STATE, d')"
proof -
  have "distinct (map aa_stateHash (db_authAttempts a_begun))" by (simp add: a_begun_def)
  from login_attempt_once [OF this] a_finished show ?thesis by blast
qed

section \<open>A busy author\<close>

definition a_writes :: "write_request list" where
  "a_writes = map (\<lambda>i. NewThread (s_clock (if i < 10 then 0 else if i < 20 then 60000 else 120000))
     (nat_text i) ''sum'' s_user (js ''Title'') (js ''Body'')) [0..<21]"

theorem discussion_rate_witness:
  "accepted_writes s_user a_writes s_catalog ! 0 + 60000 \<le> accepted_writes s_user a_writes s_catalog ! (0 + 20)"
proof -
  have "sorted (map request_time a_writes)" by (simp add: a_writes_def s_clock_def upt_rec)
  moreover have "\<forall>r \<in> set (db_discussionLimits s_catalog). 1 \<le> rl_count r" by (simp add: s_catalog_def empty_db_def)
  moreover have "0 + 20 < length (accepted_writes s_user a_writes s_catalog)" by code_simp
  ultimately show ?thesis by (rule discussion_rate)
qed

section \<open>A withdrawn problem\<close>

theorem judge_plan_stable_witness:
  "\<exists>d' plan. setProblemPublication s_user s_problem False s_catalog = Inr (None, d') \<and>
     loadJudgePlan s_catalog s_version SUBMIT = Inr plan \<and> loadJudgePlan d' s_version SUBMIT = Inr plan"
proof -
  have "case setProblemPublication s_user s_problem False s_catalog of Inr (None, _) \<Rightarrow> True | _ \<Rightarrow> False" by code_simp
  then obtain d' where d': "setProblemPublication s_user s_problem False s_catalog = Inr (None, d')"
    by (auto split: sum.splits option.splits prod.splits)
  then have step: "judge_step s_env s_cfg s_catalog d'"
    by (auto simp: judge_step_def intro: step_setProblemPublication)
  have "catalog_initial s_catalog" using s_initial by (simp add: catalog_initial_def s_catalog_def)
  then have reach: "reach catalog_initial (judge_step s_env s_cfg) s_catalog" by (rule reach_init)
  obtain plan where plan: "loadJudgePlan s_catalog s_version SUBMIT = Inr plan"
    by (simp add: loadJudgePlan_def s_catalog_def)
  have "(judge_step s_env s_cfg)\<^sup>*\<^sup>* s_catalog d'" using step by blast
  from judge_plan_stable [OF s_env_ok(1) reach this plan] d' plan show ?thesis by blast
qed

end
