(* ===== verification/Leaderboard.thy ===== *)
theory Leaderboard
  imports Competitions Executions
begin

text \<open>
  The leaderboard of a competition (\<open>buildLeaderboard\<close> of \<open>apps/api/src/competitions/competitions.ts\<close>): the
  loop over a participant's submissions, the score and the penalty it adds up, and the ranking. A
  reference definition states the result without the loop, over the list of attempts.
\<close>

section \<open>The code\<close>

definition competition_problems :: "db \<Rightarrow> uuid \<Rightarrow> competition_problem list" where
  "competition_problems d c = concat (map (\<lambda>r. problems_of_round d (rd_id r)) (rounds_of d c))"

text \<open>\<open>points.set(id, Math.max(points.get(id) ?? 0, problem.points))\<close>.\<close>

definition known_points :: "(uuid \<rightharpoonup> int) \<Rightarrow> uuid \<Rightarrow> int" where
  "known_points m p = (case m p of None \<Rightarrow> 0 | Some n \<Rightarrow> n)"

definition points_step :: "competition_problem \<Rightarrow> (uuid \<rightharpoonup> int) \<Rightarrow> (uuid \<rightharpoonup> int)" where
  "points_step x m = m(cb_problemId x \<mapsto> max (known_points m (cb_problemId x)) (cb_points x))"

definition points_map :: "competition_problem list \<Rightarrow> (uuid \<rightharpoonup> int)" where
  "points_map ps = fold points_step ps Map.empty"

definition participant_executions :: "db \<Rightarrow> uuid \<Rightarrow> uuid \<Rightarrow> execution list" where
  "participant_executions d c u =
     sort_key ex_createdAt (filter (\<lambda>e. ex_userId e = u \<and> in_competition d c e) (db_executions d))"

text \<open>The loop: the solved problems with their times, and the number of wrong attempts.\<close>

type_synonym tally = "(uuid \<times> millis) list \<times> nat"

definition tally_step :: "db \<Rightarrow> millis \<Rightarrow> execution \<Rightarrow> tally \<Rightarrow> tally" where
  "tally_step d joinedAt e s =
     (case s of (solved, wrong) \<Rightarrow>
       if ex_createdAt e < joinedAt then s
       else case version_problem d e of
         None \<Rightarrow> s
       | Some p \<Rightarrow>
           if p \<in> fst ` set solved then s
           else if ex_verdict e = Some ACCEPTED then (solved @ [(p, ex_createdAt e)], wrong)
           else (solved, wrong + 1))"

definition tally_of :: "db \<Rightarrow> millis \<Rightarrow> execution list \<Rightarrow> tally" where
  "tally_of d joinedAt es = fold (tally_step d joinedAt) es ([], 0)"

definition elapsed_minutes :: "millis \<Rightarrow> millis \<Rightarrow> int" where
  "elapsed_minutes startsAt t = max 0 ((t - startsAt) div 60000)"

record leaderboard_entry =
  le_username :: string
  le_displayName :: jsstr
  le_score :: int
  le_solved :: nat
  le_penalty :: int
  le_joinedAt :: millis

definition leaderboard_entry_of :: "db \<Rightarrow> competition \<Rightarrow> registration \<Rightarrow> user \<Rightarrow> leaderboard_entry" where
  "leaderboard_entry_of d c r u =
     (let points = points_map (competition_problems d (co_id c)) in
      case tally_of d (rg_joinedAt r) (participant_executions d (co_id c) (us_id u)) of (solved, wrong) \<Rightarrow>
        \<lparr>le_username = us_username u, le_displayName = us_displayName u,
         le_score = sum_list (map (\<lambda>x. known_points points (fst x)) solved), le_solved = length solved,
         le_penalty = sum_list (map (\<lambda>x. elapsed_minutes (co_startsAt c) (snd x)) solved) + int wrong * 20,
         le_joinedAt = rg_joinedAt r\<rparr>)"

text \<open>
  \<open>localeCompare\<close> on usernames, which are lower-case letters, digits and underscores: the underscore
  comes first, then the digits, then the letters.
\<close>

definition locale_key :: "string \<Rightarrow> nat list" where
  "locale_key s = map (\<lambda>c. if c = CHR ''_'' then 0 else of_char c) s"

definition le_key :: "leaderboard_entry \<Rightarrow> int \<times> int \<times> int \<times> nat list" where
  "le_key e = (- le_score e, - int (le_solved e), le_penalty e, locale_key (le_username e))"

definition participants :: "db \<Rightarrow> competition \<Rightarrow> registration list" where
  "participants d c = filter (\<lambda>r. rg_competitionId r = co_id c) (db_registrations d)"

definition buildLeaderboard :: "db \<Rightarrow> competition \<Rightarrow> (nat \<times> leaderboard_entry) list" where
  "buildLeaderboard d c =
     enumerate 1 (sort_key le_key
       (List.map_filter (\<lambda>r. map_option (leaderboard_entry_of d c r) (find_user d (rg_userId r))) (participants d c)))"

definition competition_leaderboard :: "string \<Rightarrow> db \<Rightarrow> (nat \<times> leaderboard_entry) list result" where
  "competition_leaderboard slug d = map_result (buildLeaderboard d) (published_competition slug d)"

definition managedLeaderboard :: "uuid \<Rightarrow> role \<Rightarrow> string \<Rightarrow> db \<Rightarrow> (nat \<times> leaderboard_entry) list result" where
  "managedLeaderboard userId role slug d = map_result (buildLeaderboard d) (managed userId role slug d)"

section \<open>The reference\<close>

text \<open>An attempt: its problem, whether it was accepted, and its time.\<close>

type_synonym attempt = "uuid \<times> bool \<times> millis"

definition attempt_of :: "db \<Rightarrow> millis \<Rightarrow> execution \<Rightarrow> attempt option" where
  "attempt_of d joinedAt e =
     (if ex_createdAt e < joinedAt then None
      else map_option (\<lambda>p. (p, ex_verdict e = Some ACCEPTED, ex_createdAt e)) (version_problem d e))"

definition solved_problems :: "attempt list \<Rightarrow> uuid set" where
  "solved_problems xs = {p. \<exists>t. (p, True, t) \<in> set xs}"

definition first_solved :: "attempt list \<Rightarrow> uuid \<Rightarrow> millis" where
  "first_solved xs p = Min {t. (p, True, t) \<in> set xs}"

text \<open>Attempts that are not accepted count until the problem is solved.\<close>

definition counted_wrong :: "attempt list \<Rightarrow> nat set" where
  "counted_wrong xs =
     {i. i < length xs \<and> \<not> fst (snd (xs ! i)) \<and>
         \<not> (\<exists>j < i. fst (xs ! j) = fst (xs ! i) \<and> fst (snd (xs ! j)))}"

definition best_points :: "competition_problem list \<Rightarrow> uuid \<Rightarrow> int" where
  "best_points ps p = Max (insert 0 (cb_points ` {x \<in> set ps. cb_problemId x = p}))"

definition reference_entry :: "db \<Rightarrow> competition \<Rightarrow> registration \<Rightarrow> user \<Rightarrow> leaderboard_entry" where
  "reference_entry d c r u =
     (let xs = List.map_filter (attempt_of d (rg_joinedAt r)) (participant_executions d (co_id c) (us_id u))
      in \<lparr>le_username = us_username u, le_displayName = us_displayName u,
          le_score = (\<Sum>p \<in> solved_problems xs. best_points (competition_problems d (co_id c)) p),
          le_solved = card (solved_problems xs),
          le_penalty = (\<Sum>p \<in> solved_problems xs. elapsed_minutes (co_startsAt c) (first_solved xs p)) +
            20 * int (card (counted_wrong xs)),
          le_joinedAt = rg_joinedAt r\<rparr>)"

section \<open>The loop computes the reference\<close>

fun attempt_step :: "attempt \<Rightarrow> tally \<Rightarrow> tally" where
  "attempt_step (p, ok, t) (solved, wrong) =
     (if p \<in> fst ` set solved then (solved, wrong) else if ok then (solved @ [(p, t)], wrong) else (solved, wrong + 1))"

lemma tally_attempts:
  "fold (tally_step d j) es s = fold attempt_step (List.map_filter (attempt_of d j) es) s"
  by (induction es arbitrary: s)
    (auto simp: List.map_filter_simps attempt_of_def tally_step_def split: option.splits prod.splits)

lemma Max_insert_max: "finite S \<Longrightarrow> Max (insert (max a b) S) = Max (insert a (insert b S))" for a b :: int
  by (cases "S = {}") (simp_all add: max.assoc)

lemma points_map_best: "known_points (fold points_step ps m) p = Max (insert (known_points m p) (cb_points ` {x \<in> set ps. cb_problemId x = p}))"
proof (induction ps arbitrary: m)
  case (Cons x ps)
  let ?S = "cb_points ` {x \<in> set ps. cb_problemId x = p}"
  show ?case
  proof (cases "cb_problemId x = p")
    case True
    then have "{y \<in> set (x # ps). cb_problemId y = p} = insert x {y \<in> set ps. cb_problemId y = p}" by auto
    moreover have "known_points (points_step x m) p = max (known_points m p) (cb_points x)"
      using True by (simp add: points_step_def known_points_def)
    moreover have "finite ?S" by simp
    ultimately show ?thesis by (simp only: fold_Cons comp_apply Cons.IH image_insert Max_insert_max)
  next
    case False
    then have "{y \<in> set (x # ps). cb_problemId y = p} = {y \<in> set ps. cb_problemId y = p}" by auto
    moreover have "known_points (points_step x m) p = known_points m p"
      using False by (simp add: points_step_def known_points_def)
    ultimately show ?thesis by (simp add: Cons.IH)
  qed
qed simp

lemma known_points_map: "known_points (points_map ps) p = best_points ps p"
  by (simp add: points_map_def points_map_best best_points_def) (simp add: known_points_def)

lemma counted_wrong_snoc:
  "counted_wrong (xs @ [(p, ok, t)]) =
     counted_wrong xs \<union> (if ok \<or> p \<in> solved_problems xs then {} else {length xs})"
proof -
  have solved: "p \<in> solved_problems xs \<longleftrightarrow> (\<exists>j < length xs. fst (xs ! j) = p \<and> fst (snd (xs ! j)))" for p
  proof
    assume "p \<in> solved_problems xs"
    then obtain t j where "j < length xs" and "xs ! j = (p, True, t)" by (auto simp: solved_problems_def in_set_conv_nth)
    then show "\<exists>j < length xs. fst (xs ! j) = p \<and> fst (snd (xs ! j))" by (intro exI [of _ j]) simp
  next
    assume "\<exists>j < length xs. fst (xs ! j) = p \<and> fst (snd (xs ! j))"
    then obtain j where j: "j < length xs" "fst (xs ! j) = p" "fst (snd (xs ! j))" by blast
    then have "(p, True, snd (snd (xs ! j))) \<in> set xs" using nth_mem [OF j(1)] by (metis prod.collapse)
    then show "p \<in> solved_problems xs" by (auto simp: solved_problems_def)
  qed
  show ?thesis
    by (auto simp: counted_wrong_def solved nth_append less_Suc_eq split: if_splits)
qed

lemma finite_counted_wrong [simp]: "finite (counted_wrong xs)"
  by (simp add: counted_wrong_def)

lemma solved_problems_snoc:
  "solved_problems (xs @ [(p, ok, t)]) = (if ok then insert p (solved_problems xs) else solved_problems xs)"
  by (auto simp: solved_problems_def)

lemma first_solved_old:
  assumes "q \<in> solved_problems xs" and "\<forall>x \<in> set xs. snd (snd x) \<le> t"
  shows "first_solved (xs @ [(p, ok, t)]) q = first_solved xs q"
proof -
  let ?T = "{t. (q, True, t) \<in> set xs}"
  have fin: "finite ?T" by (rule finite_subset [of _ "(snd \<circ> snd) ` set xs"]) force+
  have ne: "?T \<noteq> {}" using assms(1) by (auto simp: solved_problems_def)
  show ?thesis
  proof (cases "ok \<and> p = q")
    case True
    have "{s. (q, True, s) \<in> set (xs @ [(p, ok, t)])} = insert t ?T" using True by auto
    moreover have "Min ?T \<le> t" using Min_in [OF fin ne] assms(2) by force
    then have "Min (insert t ?T) = Min ?T" by (simp add: Min_insert [OF fin ne] min_absorb2)
    ultimately show ?thesis by (simp only: first_solved_def)
  next
    case False
    then have "{s. (q, True, s) \<in> set (xs @ [(p, ok, t)])} = ?T" by auto
    then show ?thesis by (simp add: first_solved_def)
  qed
qed

lemma first_solved_new:
  "p \<notin> solved_problems xs \<Longrightarrow> first_solved (xs @ [(p, True, t)]) p = t"
proof -
  assume "p \<notin> solved_problems xs"
  then have "{s. (p, True, s) \<in> set (xs @ [(p, True, t)])} = {t}" by (auto simp: solved_problems_def)
  then show ?thesis by (simp add: first_solved_def)
qed

lemma tally_correct:
  assumes "sorted (map (\<lambda>x. snd (snd x)) xs)" and "fold attempt_step xs ([], 0) = (solved, wrong)"
  shows "distinct (map fst solved) \<and> fst ` set solved = solved_problems xs \<and>
    (\<forall>x \<in> set solved. snd x = first_solved xs (fst x)) \<and> wrong = card (counted_wrong xs)"
  using assms
proof (induction xs arbitrary: solved wrong rule: rev_induct)
  case Nil
  then show ?case by (simp add: solved_problems_def counted_wrong_def)
next
  case (snoc x xs)
  obtain p ok t where x: "x = (p, ok, t)" by (cases x)
  obtain s w where sw: "fold attempt_step xs ([], 0) = (s, w)" by (cases "fold attempt_step xs ([], 0)")
  from snoc.prems(1) have late: "\<forall>y \<in> set xs. snd (snd y) \<le> t" by (auto simp: x sorted_append)
  from snoc.prems(1) have "sorted (map (\<lambda>x. snd (snd x)) xs)" by (simp add: sorted_append)
  note IH = snoc.IH [OF this sw]
  have old: "\<forall>y \<in> set s. snd y = first_solved (xs @ [x]) (fst y)"
  proof
    fix y assume y: "y \<in> set s"
    with IH have "fst y \<in> solved_problems xs" by blast
    with IH y late show "snd y = first_solved (xs @ [x]) (fst y)" by (simp add: x first_solved_old)
  qed
  have fresh: "length xs \<notin> counted_wrong xs" by (simp add: counted_wrong_def)
  show ?case
  proof (cases "p \<in> solved_problems xs")
    case True
    with IH sw snoc.prems(2) have "solved = s" "wrong = w" by (auto simp: x)
    with IH old True show ?thesis
      by (auto simp: x solved_problems_snoc counted_wrong_snoc)
  next
    case False
    with IH have new: "p \<notin> fst ` set s" by simp
    show ?thesis
    proof (cases ok)
      case True
      with new sw snoc.prems(2) have "solved = s @ [(p, t)]" "wrong = w" by (auto simp: x)
      with IH old False new True show ?thesis
        by (auto simp: x solved_problems_snoc counted_wrong_snoc first_solved_new)
    next
      case not_ok: False
      with new sw snoc.prems(2) have "solved = s" "wrong = w + 1" by (auto simp: x)
      with IH old False fresh not_ok show ?thesis
        by (auto simp: x solved_problems_snoc counted_wrong_snoc)
    qed
  qed
qed

lemma attempts_sorted:
  "sorted (map ex_createdAt es) \<Longrightarrow> sorted (map (\<lambda>x. snd (snd x)) (List.map_filter (attempt_of d j) es))"
proof (induction es)
  case (Cons e es)
  have times: "x \<in> set (List.map_filter (attempt_of d j) es) \<Longrightarrow> snd (snd x) \<in> ex_createdAt ` set es" for x
    by (auto simp: List.map_filter_def attempt_of_def split: if_splits)
  show ?case
  proof (cases "attempt_of d j e")
    case None
    with Cons show ?thesis by (simp add: List.map_filter_simps)
  next
    case (Some x)
    then have "snd (snd x) = ex_createdAt e" by (auto simp: attempt_of_def split: if_splits)
    with Some Cons times show ?thesis by (fastforce simp: List.map_filter_simps)
  qed
qed (simp add: List.map_filter_simps)

lemma leaderboard_entry_reference: "leaderboard_entry_of d c r u = reference_entry d c r u"
proof -
  let ?es = "participant_executions d (co_id c) (us_id u)"
  let ?xs = "List.map_filter (attempt_of d (rg_joinedAt r)) ?es"
  obtain solved wrong where t: "tally_of d (rg_joinedAt r) ?es = (solved, wrong)"
    by (cases "tally_of d (rg_joinedAt r) ?es")
  have "sorted (map ex_createdAt ?es)" by (simp add: participant_executions_def)
  note ok = tally_correct [OF attempts_sorted [OF this], of d "rg_joinedAt r" solved wrong]
  from t have "fold attempt_step ?xs ([], 0) = (solved, wrong)" by (simp add: tally_of_def tally_attempts)
  note ok = ok [OF this]
  have sums: "sum_list (map f (map fst solved)) = (\<Sum>p \<in> solved_problems ?xs. f p)" for f :: "uuid \<Rightarrow> int"
    using ok sum_list_distinct_conv_sum_set [of "map fst solved" f] by simp
  have times: "map (\<lambda>x. g (snd x)) solved = map (\<lambda>p. g (first_solved ?xs p)) (map fst solved)" for g :: "millis \<Rightarrow> int"
    using ok by simp
  have "length solved = card (solved_problems ?xs)"
    using ok distinct_card [of "map fst solved"] by simp
  then show ?thesis
    using ok sums [of "best_points (competition_problems d (co_id c))"]
      sums [of "\<lambda>p. elapsed_minutes (co_startsAt c) (first_solved ?xs p)"]
      arg_cong [OF times [of "elapsed_minutes (co_startsAt c)"], of sum_list]
    by (simp add: leaderboard_entry_of_def reference_entry_def Let_def t known_points_map comp_def)
qed

section \<open>The ranking\<close>

definition outranks :: "leaderboard_entry \<Rightarrow> leaderboard_entry \<Rightarrow> bool" where
  "outranks a b \<longleftrightarrow>
     le_score b < le_score a \<or>
     (le_score a = le_score b \<and>
       (le_solved b < le_solved a \<or>
        (le_solved a = le_solved b \<and>
          (le_penalty a < le_penalty b \<or>
           (le_penalty a = le_penalty b \<and> locale_key (le_username a) \<le> locale_key (le_username b))))))"

lemma le_key_outranks: "le_key a \<le> le_key b \<longleftrightarrow> outranks a b"
  by (auto simp: le_key_def outranks_def less_eq_prod_def less_prod_def)

lemma sort_outranks: "sorted_wrt outranks (sort_key le_key es)"
proof -
  have "sorted (map le_key (sort_key le_key es))" by simp
  then have "sorted_wrt (\<lambda>a b. le_key a \<le> le_key b) (sort_key le_key es)" by (simp add: sorted_wrt_map)
  then show ?thesis by (simp add: le_key_outranks)
qed

lemma map_filter_total:
  "\<forall>x \<in> set xs. f x \<noteq> None \<Longrightarrow> List.map_filter (\<lambda>x. map_option (g x) (f x)) xs = map (\<lambda>x. g x (the (f x))) xs"
  by (induction xs) (auto simp: List.map_filter_simps)

text \<open>
  C38. The leaderboard of a published competition has one entry for each registered user, whose score is the sum
  of the best points of the problems solved, whose penalty is the sum of the minutes to the first accepted
  submission of each of them and twenty for every other submission made before its problem was solved; the
  entries are ordered by score, then problems solved, then penalty, then username, and ranked from one.
\<close>

theorem leaderboard_correct:
  assumes "competition_leaderboard slug d = Inr items"
    and "\<forall>r \<in> set (db_registrations d). find_user d (rg_userId r) \<noteq> None"
  shows "\<exists>c. published_competition slug d = Inr c \<and>
    mset (map snd items) =
      image_mset (\<lambda>r. reference_entry d c r (the (find_user d (rg_userId r)))) (mset (participants d c)) \<and>
    sorted_wrt outranks (map snd items) \<and> map fst items = [1..<Suc (length items)]"
proof -
  from assms(1) obtain c where c: "published_competition slug d = Inr c" and items: "items = buildLeaderboard d c"
    by (auto simp: competition_leaderboard_def result_simps)
  have all: "\<forall>r \<in> set (participants d c). find_user d (rg_userId r) \<noteq> None"
    using assms(2) by (simp add: participants_def)
  have "map snd items =
      sort_key le_key (map (\<lambda>r. reference_entry d c r (the (find_user d (rg_userId r)))) (participants d c))"
    by (simp add: items buildLeaderboard_def map_filter_total [OF all] leaderboard_entry_reference)
  moreover have "map fst items = [1..<Suc (length items)]" by (simp add: items buildLeaderboard_def)
  ultimately show ?thesis using c by (simp add: sort_outranks)
qed

section \<open>An example\<close>

text \<open>
  Two contestants solve the only problem: one at minute 10 after a wrong answer, one at minute 15 with the
  first submission.
\<close>

definition cup_user :: "string \<Rightarrow> user" where
  "cup_user name = new_user \<lparr>ck_start = 0, ck_db = 0, ck_trigger = 0, ck_host = 0\<rparr> name ''local'' name name (js name)"

definition cup_submission :: "string \<Rightarrow> string \<Rightarrow> millis \<Rightarrow> verdict \<Rightarrow> execution" where
  "cup_submission i u t v =
     \<lparr>ex_id = i, ex_userId = u, ex_problemVersionId = ''v'', ex_competitionRoundId = Some ''r'', ex_language = Python,
      ex_mode = SUBMIT, ex_sourceCode = js ''x'', ex_payloadHash = '''', ex_idempotencyKey = i, ex_state = FINISHED,
      ex_verdict = Some v, ex_attempt = 1, ex_lastSequence = 1, ex_leaseToken = None, ex_leaseExpiresAt = None,
      ex_runtimeMs = None, ex_memoryKiB = None, ex_publicResults = None, ex_createdAt = t, ex_finishedAt = Some (t + 1),
      ex_queueExpiresAt = t + 60000, ex_failureCode = None, ex_cancellationRequestedAt = None\<rparr>"

definition cup_version :: version where
  "cup_version =
     \<lparr>vn_id = ''v'', vn_problemId = ''p'', vn_number = 1, vn_published = True, vn_title = js ''Sum'', vn_difficulty = EASY,
      vn_tags = [], vn_statementMarkdown = js ''Add.'', vn_constraints = [], vn_timeMs = 1000, vn_memoryKiB = 65536,
      vn_templates = JNull, vn_inputMode = STDIN, vn_comparator = ''EXACT_NEWLINE''\<rparr>"

definition cup :: competition where
  "cup = \<lparr>co_id = ''c'', co_slug = ''cup'', co_kind = CONTEST, co_title = js ''Cup'', co_description = js ''A cup'',
     co_rulesMarkdown = js ''Be fair'', co_prizeLabel = None, co_startsAt = 0, co_endsAt = 3600000, co_published = True,
     co_ownerId = None\<rparr>"

definition cup_db :: db where
  "cup_db = empty_db\<lparr>db_users := [cup_user ''ann'', cup_user ''bob''],
     db_problems := [\<lparr>pr_id = ''p'', pr_slug = ''sum'', pr_currentVersionId = Some ''v'', pr_createdAt = 0\<rparr>],
     db_versions := [cup_version], db_competitions := [cup],
     db_rounds := [\<lparr>rd_id = ''r'', rd_competitionId = ''c'', rd_title = js ''Final'', rd_ordinal = 1, rd_startsAt = 0, rd_endsAt = 3600000\<rparr>],
     db_competitionProblems := [\<lparr>cb_roundId = ''r'', cb_problemId = ''p'', cb_ordinal = 1, cb_points = 100\<rparr>],
     db_registrations := [\<lparr>rg_competitionId = ''c'', rg_userId = ''ann'', rg_joinedAt = 0\<rparr>,
       \<lparr>rg_competitionId = ''c'', rg_userId = ''bob'', rg_joinedAt = 0\<rparr>],
     db_executions := [cup_submission ''1'' ''ann'' 600000 ACCEPTED, cup_submission ''2'' ''ann'' 300000 WRONG_ANSWER,
       cup_submission ''3'' ''bob'' 900000 ACCEPTED]\<rparr>"

definition cup_items :: "(nat \<times> leaderboard_entry) list" where
  "cup_items =
     [(1, \<lparr>le_username = ''bob'', le_displayName = js ''bob'', le_score = 100, le_solved = 1, le_penalty = 15, le_joinedAt = 0\<rparr>),
      (2, \<lparr>le_username = ''ann'', le_displayName = js ''ann'', le_score = 100, le_solved = 1, le_penalty = 30, le_joinedAt = 0\<rparr>)]"

lemma cup_board: "competition_leaderboard ''cup'' cup_db = Inr cup_items"
  by code_simp

lemma cup_users: "\<forall>r \<in> set (db_registrations cup_db). find_user cup_db (rg_userId r) \<noteq> None"
  by code_simp

theorem leaderboard_correct_witness:
  "\<exists>c. published_competition ''cup'' cup_db = Inr c \<and>
    mset (map snd cup_items) =
      image_mset (\<lambda>r. reference_entry cup_db c r (the (find_user cup_db (rg_userId r)))) (mset (participants cup_db c)) \<and>
    sorted_wrt outranks (map snd cup_items) \<and> map fst cup_items = [1..<Suc (length cup_items)]"
  by (rule leaderboard_correct [OF cup_board cup_users])

end
