(* ===== verification/Frames.thy ===== *)
theory Frames
  imports Prelude
begin

text \<open>
  What a fallible call leaves as it is: a view of the state that every successful outcome preserves, and the
  rules by which calls that preserve a view are put together.
\<close>

definition keeps :: "('s \<Rightarrow> 'v) \<Rightarrow> ('x \<Rightarrow> 's) \<Rightarrow> 's \<Rightarrow> 'e + 'x \<Rightarrow> bool" where
  "keeps v state s r \<longleftrightarrow> (\<forall>x. r = Inr x \<longrightarrow> v (state x) = v s)"

named_theorems frame_intros \<open>how calls that preserve a view are put together\<close>

lemma keepsD: "keeps v state s r \<Longrightarrow> r = Inr x \<Longrightarrow> v (state x) = v s"
  by (simp add: keeps_def)

lemma keeps_bind [frame_intros]:
  assumes "keeps v id s m" and "\<And>t. v t = v s \<Longrightarrow> keeps v state t (f t)"
  shows "keeps v state s (bind_result m f)"
  using assms by (auto simp: keeps_def bind_result_Inr)

lemma keeps_bind_value [frame_intros]:
  assumes "keeps v snd s m" and "\<And>y t. v t = v s \<Longrightarrow> keeps v state t (f (y, t))"
  shows "keeps v state s (bind_result m f)"
  using assms by (fastforce simp: keeps_def bind_result_Inr)

lemma keeps_check:
  fixes m :: "'e + 'm"
  assumes "\<And>y. m = Inr y \<Longrightarrow> keeps v state s (f y)"
  shows "keeps v state s (bind_result m f)"
  using assms by (auto simp: keeps_def bind_result_Inr)

lemma keeps_map [frame_intros]:
  assumes "keeps v id s m" and "\<And>t. v t = v s \<Longrightarrow> v (state (f t)) = v t"
  shows "keeps v state s (map_result f m)"
  using assms by (auto simp: keeps_def map_result_Inr)

lemma keeps_map_value [frame_intros]:
  assumes "keeps v snd s m" and "\<And>y t. v t = v s \<Longrightarrow> v (state (f (y, t))) = v t"
  shows "keeps v state s (map_result f m)"
  using assms by (fastforce simp: keeps_def map_result_Inr)

lemma keeps_Inl [frame_intros]: "keeps v state s (Inl e)"
  by (simp add: keeps_def)

lemma keeps_Inr [frame_intros]: "v (state x) = v s \<Longrightarrow> keeps v state s (Inr x)"
  by (simp add: keeps_def)

lemma keeps_if [frame_intros]:
  "(b \<Longrightarrow> keeps v state s x) \<Longrightarrow> (\<not> b \<Longrightarrow> keeps v state s y) \<Longrightarrow> keeps v state s (if b then x else y)"
  by simp

lemma keeps_option [frame_intros]:
  "(o' = None \<Longrightarrow> keeps v state s x) \<Longrightarrow> (\<And>y. o' = Some y \<Longrightarrow> keeps v state s (f y)) \<Longrightarrow>
     keeps v state s (case o' of None \<Rightarrow> x | Some y \<Rightarrow> f y)"
  by (simp split: option.splits)

lemma keeps_fold [frame_intros]:
  assumes "\<And>x t. keeps v id t (f x t)"
  shows "keeps v id s (fold_result f xs s)"
  using assms by (induction xs arbitrary: s) (auto intro!: frame_intros)

text \<open>Rows outside the updated ones.\<close>

lemma filter_update_by:
  "(\<And>r. r \<in> set rows \<Longrightarrow> key r = k \<Longrightarrow> \<not> P r \<and> \<not> P (f r)) \<Longrightarrow> filter P (update_by key k f rows) = filter P rows"
  by (induction rows) (auto simp: update_by_def)

lemma filter_map_outside:
  "(\<And>r. r \<in> set rows \<Longrightarrow> Q r \<Longrightarrow> \<not> P r \<and> \<not> P (f r)) \<Longrightarrow>
     filter P (map (\<lambda>r. if Q r then f r else r) rows) = filter P rows"
  by (induction rows) auto

end
