(* ===== verification/AdminRoutes.thy ===== *)
theory AdminRoutes
  imports Admin Leaderboard Frames
begin

text \<open>
  The routes of the administrator (\<open>AdminController\<close> of \<open>apps/api/src/admin/admin.ts\<close>): the two guards, the
  validation of the request and the operation, in that order. A write is a value with its parsed input; the
  answers of the writes are left out. Whatever a route changes was asked for by a user the guards admitted
  and is recorded under that user's name.
\<close>

section \<open>The interface of the controllers\<close>

text \<open>
  What one request reads besides the database: the cryptography, the configuration, the schema of UUIDs and
  the \<open>ILIKE\<close> of PostgreSQL, the clocks, and the identifiers of the rows it creates.
\<close>

record api =
  ap_crypto :: auth_crypto
  ap_values :: env_values
  ap_uuid :: "string \<Rightarrow> bool"
  ap_ilike :: "jsstr \<Rightarrow> jsstr \<Rightarrow> bool"
  ap_clock :: clock
  ap_fresh :: "nat \<Rightarrow> uuid"

definition ap_now :: "'x api_scheme \<Rightarrow> millis" where
  "ap_now ap = ck_host (ap_clock ap)"

text \<open>\<open>@UseGuards(SessionGuard, RolesGuard)\<close>.\<close>

definition guarded :: "'x api_scheme \<Rightarrow> bool \<Rightarrow> role list \<Rightarrow> http \<Rightarrow> db \<Rightarrow> principal result" where
  "guarded ap allowRestricted roles rq d =
     bind_result (SessionGuard_canActivate (ap_crypto ap) (ap_values ap) allowRestricted rq (ap_now ap) d) (\<lambda>p.
       map_result (\<lambda>_. p) (RolesGuard_canActivate roles (Some p)))"

section \<open>Writes\<close>

datatype admin_write =
    SetRole uuid role
  | Restrict uuid restriction_input
  | BulkResolveReports "uuid list" report_decision
  | ResolveReport uuid report_decision
  | Moderate uuid discussionStatus
  | CreateProblem problem_input
  | EditProblem uuid problem_input
  | SetProblemPublication uuid bool
  | DeleteProblem uuid
  | CreateCompetition competition_input bool
  | SetCompetitionPublication uuid bool
  | DeleteCompetition uuid

fun admin_write_method :: "admin_write \<Rightarrow> string" where
  "admin_write_method (CreateProblem _) = ''POST''"
| "admin_write_method (CreateCompetition _ _) = ''POST''"
| "admin_write_method (DeleteProblem _) = ''DELETE''"
| "admin_write_method (DeleteCompetition _) = ''DELETE''"
| "admin_write_method _ = ''PATCH''"

text \<open>\<open>@RequireRoles\<close> of the handler, or else of the class.\<close>

fun admin_write_roles :: "admin_write \<Rightarrow> role list" where
  "admin_write_roles (BulkResolveReports _ _) = [ADMIN, MODERATOR]"
| "admin_write_roles (ResolveReport _ _) = [ADMIN, MODERATOR]"
| "admin_write_roles (Moderate _ _) = [ADMIN, MODERATOR]"
| "admin_write_roles _ = [ADMIN]"

fun restrictionInput :: "restriction_input \<Rightarrow> bool" where
  "restrictionInput (Suspend _ reason) = trimmed_text 3 500 reason"
| "restrictionInput (Ban reason) = trimmed_text 3 500 reason"
| "restrictionInput Clear = True"

fun admin_write_valid :: "(string \<Rightarrow> bool) \<Rightarrow> admin_write \<Rightarrow> bool" where
  "admin_write_valid uuid (SetRole i _) = uuid i"
| "admin_write_valid uuid (Restrict i x) = (uuid i \<and> restrictionInput x)"
| "admin_write_valid uuid (BulkResolveReports is x) = (list_all uuid is \<and> bulkResolveReportsInput is x)"
| "admin_write_valid uuid (ResolveReport i x) = (uuid i \<and> resolveReportInput x)"
| "admin_write_valid uuid (Moderate i _) = uuid i"
| "admin_write_valid uuid (CreateProblem x) = createProblemInput x"
| "admin_write_valid uuid (EditProblem i x) = (uuid i \<and> createProblemInput x)"
| "admin_write_valid uuid (SetProblemPublication i _) = uuid i"
| "admin_write_valid uuid (DeleteProblem i) = uuid i"
| "admin_write_valid uuid (CreateCompetition x _) = createCompetitionInput x"
| "admin_write_valid uuid (SetCompetitionPublication i _) = uuid i"
| "admin_write_valid uuid (DeleteCompetition i) = uuid i"

text \<open>The operation of the service, for the user \<open>a\<close> of the principal.\<close>

fun admin_write_run :: "api \<Rightarrow> uuid \<Rightarrow> admin_write \<Rightarrow> db \<Rightarrow> db result" where
  "admin_write_run ap a (SetRole i r) d = map_result snd (setRole a i r d)"
| "admin_write_run ap a (Restrict i x) d = restrict_user (ap_now ap) a i x d"
| "admin_write_run ap a (BulkResolveReports is x) d = map_result snd (resolveReportsAtomic (ap_now ap) a is x d)"
| "admin_write_run ap a (ResolveReport i x) d = map_result snd (resolveReport (ap_now ap) a i x d)"
| "admin_write_run ap a (Moderate i st) d = moderate (ap_now ap) a i st d"
| "admin_write_run ap a (CreateProblem x) d =
     map_result snd (createProblem (ap_clock ap) (\<lambda>k. ap_fresh ap (k + 2)) (ap_fresh ap 0) (ap_fresh ap 1) a x d)"
| "admin_write_run ap a (EditProblem i x) d =
     map_result snd (editProblem (\<lambda>k. ap_fresh ap (k + 2)) (ap_fresh ap 1) a i x d)"
| "admin_write_run ap a (SetProblemPublication i b) d = map_result snd (setProblemPublication a i b d)"
| "admin_write_run ap a (DeleteProblem i) d = deleteProblem a i d"
| "admin_write_run ap a (CreateCompetition x b) d =
     map_result snd (createCompetition (ap_fresh ap 0) (\<lambda>k. ap_fresh ap (k + 1)) a x b d)"
| "admin_write_run ap a (SetCompetitionPublication i b) d = map_result snd (setCompetitionPublication a i b d)"
| "admin_write_run ap a (DeleteCompetition i) d = deleteCompetition a i d"

text \<open>A request whose method has no such route is not found.\<close>

definition admin_write_route :: "api \<Rightarrow> http \<Rightarrow> admin_write \<Rightarrow> db \<Rightarrow> db result" where
  "admin_write_route ap rq w d =
     (if rq_method rq \<noteq> admin_write_method w then Inl NOT_FOUND
      else bind_result (guarded ap False (admin_write_roles w) rq d) (\<lambda>p.
           bind_result (validate (if admin_write_valid (ap_uuid ap) w then Some w else None)) (\<lambda>w.
             admin_write_run ap (pn_userId p) w d)))"

section \<open>Reads\<close>

datatype admin_read =
    ReadOverview
  | ReadAnalytics nat
  | ReadAnalyticsExport nat
  | ReadUsers user_query "uuid option"
  | ReadSubmissions "uuid option"
  | ReadProblems
  | ReadProblem uuid
  | ReadModeration reportStatus "uuid option"
  | ReadCompetitions

datatype admin_view =
    ViewOverview overview_data
  | ViewAnalytics analytics_report
  | ViewExport "string \<times> string"
  | ViewUsers "user_entry list \<times> uuid option"
  | ViewSubmissions "execution list \<times> uuid option"
  | ViewProblems "overview_item list"
  | ViewProblem "problem \<times> version \<times> test_case list"
  | ViewModeration "content_report list \<times> uuid option"
  | ViewCompetitions "managed_item list"

fun admin_read_roles :: "admin_read \<Rightarrow> role list" where
  "admin_read_roles (ReadModeration _ _) = [ADMIN, MODERATOR]"
| "admin_read_roles _ = [ADMIN]"

definition analyticsQuery :: "nat \<Rightarrow> bool" where
  "analyticsQuery days \<longleftrightarrow> days \<in> {7, 30, 90}"

definition userQuery :: "user_query \<Rightarrow> bool" where
  "userQuery q \<longleftrightarrow>
     opt_all (trimmed_text 2 100) (uq_search q) \<and>
     opt_all (\<lambda>r. r \<in> {''ACTIVE'', ''SUSPENDED'', ''BANNED''}) (uq_restriction q)"

fun admin_read_valid :: "(string \<Rightarrow> bool) \<Rightarrow> admin_read \<Rightarrow> bool" where
  "admin_read_valid uuid (ReadAnalytics n) = analyticsQuery n"
| "admin_read_valid uuid (ReadAnalyticsExport n) = analyticsQuery n"
| "admin_read_valid uuid (ReadUsers q c) = (userQuery q \<and> opt_all uuid c)"
| "admin_read_valid uuid (ReadSubmissions c) = opt_all uuid c"
| "admin_read_valid uuid (ReadProblem i) = uuid i"
| "admin_read_valid uuid (ReadModeration _ c) = opt_all uuid c"
| "admin_read_valid uuid _ = True"

fun admin_read_run :: "api \<Rightarrow> admin_read \<Rightarrow> db \<Rightarrow> admin_view result" where
  "admin_read_run ap ReadOverview d = Inr (ViewOverview (overview (ap_now ap) d))"
| "admin_read_run ap (ReadAnalytics n) d = Inr (ViewAnalytics (analytics (ap_now ap) n d))"
| "admin_read_run ap (ReadAnalyticsExport n) d = Inr (ViewExport (analyticsExport (ap_now ap) n d))"
| "admin_read_run ap (ReadUsers q c) d = map_result ViewUsers (admin_users (ap_ilike ap) (ap_now ap) q d c)"
| "admin_read_run ap (ReadSubmissions c) d = map_result ViewSubmissions (admin_submissions d c)"
| "admin_read_run ap ReadProblems d = Inr (ViewProblems (admin_problems d))"
| "admin_read_run ap (ReadProblem i) d = map_result ViewProblem (admin_problem i d)"
| "admin_read_run ap (ReadModeration st c) d = map_result ViewModeration (moderation st d c)"
| "admin_read_run ap ReadCompetitions d = Inr (ViewCompetitions (admin_competitions d))"

definition admin_read_route :: "api \<Rightarrow> http \<Rightarrow> admin_read \<Rightarrow> db \<Rightarrow> admin_view result" where
  "admin_read_route ap rq r d =
     (if rq_method rq \<noteq> ''GET'' then Inl NOT_FOUND
      else bind_result (guarded ap False (admin_read_roles r) rq d) (\<lambda>_.
           bind_result (validate (if admin_read_valid (ap_uuid ap) r then Some r else None)) (\<lambda>r.
             admin_read_run ap r d)))"

section \<open>Every change is recorded\<close>

text \<open>Writes that leave the log as it is.\<close>

abbreviation keeps_log :: "db \<Rightarrow> db result \<Rightarrow> bool" where
  "keeps_log d r \<equiv> keeps db_auditEvents id d r"

named_theorems log_kept \<open>writes that leave the audit log as it is\<close>

lemma row_writes_log [log_kept]:
  "keeps_log d (update_user i f d)" "keeps_log d (create_problem_row p d)" "keeps_log d (create_version_row v d)"
  "keeps_log d (create_test_row t d)" "keeps_log d (publish_version i d)" "keeps_log d (set_current_version i w d)"
  "keeps_log d (delete_tests_of i d)" "keeps_log d (delete_versions_of i d)" "keeps_log d (delete_problem_row i d)"
  "keeps_log d (create_competition_row c d)" "keeps_log d (create_round_row r d)"
  "keeps_log d (create_competition_problem x d)" "keeps_log d (delete_rounds_of i d)"
  by (auto simp: keeps_def put_user_def result_simps create_problem_row_def create_version_row_def create_test_row_def
      publish_version_def set_current_version_def delete_tests_of_def delete_versions_of_def delete_problem_row_def
      delete_posts_def create_competition_row_def create_round_row_def create_competition_problem_def
      delete_rounds_of_def Let_def split: option.splits if_splits)

lemma plain_writes_log [simp]:
  "db_auditEvents (revoke_sessions now P d) = db_auditEvents d"
  "db_auditEvents (set_post_status now is st d) = db_auditEvents d"
  "db_auditEvents (put_competition i f d) = db_auditEvents d"
  by (simp_all add: revoke_sessions_def set_post_status_def put_competition_def)

lemma compound_writes_log [log_kept]:
  "keeps_log d (create_tests is v ts d)" "keeps_log d (create_rounds c ps is rs d)" "keeps_log d (delete_competition_row i d)"
  unfolding create_tests_def create_rounds_def create_round_def delete_competition_row_def
  by (auto split: prod.splits intro!: frame_intros log_kept)

lemma add_version_log [log_kept]: "keeps_log d (add_version is v p n input d)"
  unfolding add_version_def by (auto intro!: frame_intros log_kept)

text \<open>A call that writes and then records: its log continues \<open>log\<close> with entries of its actor.\<close>

definition continues :: "uuid \<Rightarrow> audit_event list \<Rightarrow> db \<Rightarrow> bool" where
  "continues a log d' \<longleftrightarrow> (\<exists>es. es \<noteq> [] \<and> db_auditEvents d' = log @ es \<and> (\<forall>e \<in> set es. ae_actorId e = Some a))"

definition recorded :: "uuid \<Rightarrow> audit_event list \<Rightarrow> ('b \<Rightarrow> db) \<Rightarrow> 'b result \<Rightarrow> bool" where
  "recorded a log state r \<longleftrightarrow> (\<forall>x. r = Inr x \<longrightarrow> continues a log (state x))"

named_theorems record_intros \<open>how recorded calls are put together\<close>

lemma recorded_bind [record_intros]:
  assumes "keeps_log d m" and "\<And>d1. recorded a (db_auditEvents d1) state (f d1)"
  shows "recorded a (db_auditEvents d) state (bind_result m f)"
  using assms by (simp add: recorded_def keeps_def bind_result_Inr) metis

lemma recorded_check:
  fixes m :: "'m result"
  assumes "\<And>y. recorded a log state (f y)"
  shows "recorded a log state (bind_result m f)"
  using assms by (auto simp: recorded_def bind_result_Inr)

lemmas recorded_checks [record_intros] =
  recorded_check [where 'm = unit] recorded_check [where 'm = "problem list"]
  recorded_check [where 'm = "millis option \<times> millis option \<times> jsstr option"]

lemma recorded_map [record_intros]:
  assumes "keeps_log d m" and "\<And>d1. db_auditEvents d1 = db_auditEvents d \<Longrightarrow> continues a (db_auditEvents d) (state (f d1))"
  shows "recorded a (db_auditEvents d) state (map_result f m)"
  using assms by (auto simp: recorded_def keeps_def map_result_Inr)

lemma recorded_on_P2002 [record_intros]: "recorded a log state r \<Longrightarrow> recorded a log state (on_P2002 e r)"
  by (simp add: recorded_def on_P2002_Inr)

lemma recorded_Inl [record_intros]: "recorded a log state (Inl e)"
  by (simp add: recorded_def)

lemma recorded_Inr [record_intros]: "continues a log (state x) \<Longrightarrow> recorded a log state (Inr x)"
  by (simp add: recorded_def)

lemma recorded_if [record_intros]:
  "recorded a log state x \<Longrightarrow> recorded a log state y \<Longrightarrow> recorded a log state (if b then x else y)"
  by simp

lemma continues_audit [record_intros]: "db_auditEvents d1 = log \<Longrightarrow> continues a log (audit a act t d1)"
  by (simp add: continues_def audit_def)

lemma continues_fold:
  assumes "ts \<noteq> []" and "db_auditEvents d1 = log"
  shows "continues a log (fold (audit a act) ts d1)"
proof -
  have "continues a log d2 \<Longrightarrow> continues a log (audit a act t d2)" for t d2
    by (auto simp: continues_def audit_def)
  then have "continues a log d2 \<Longrightarrow> continues a log (fold (audit a act) ts d2)" for ts d2
    by (induction ts arbitrary: d2) simp_all
  with assms show ?thesis by (cases ts) (auto intro!: continues_audit)
qed

lemma problem_writes_recorded:
  "recorded a (db_auditEvents d) snd (createProblem ck is p v a x d)"
  "recorded a (db_auditEvents d) snd (editProblem is v a p x d)"
  "recorded a (db_auditEvents d) snd (setProblemPublication a p b d)"
  "recorded a (db_auditEvents d) id (deleteProblem a p d)"
  unfolding createProblem_def editProblem_def setProblemPublication_def deleteProblem_def
  by (auto split: option.splits intro!: record_intros frame_intros log_kept)

lemma competition_writes_recorded:
  "recorded a (db_auditEvents d) snd (createCompetition i is a y b d)"
  "recorded a (db_auditEvents d) snd (setCompetitionPublication a i b d)"
  "recorded a (db_auditEvents d) id (deleteCompetition a i d)"
  unfolding createCompetition_def setCompetitionPublication_def deleteCompetition_def
  by (auto intro!: record_intros frame_intros log_kept)

lemma user_writes_recorded:
  "recorded a (db_auditEvents d) id (restrict_user now a u x d)"
  "recorded a (db_auditEvents d) id (moderate now a i st d)"
  unfolding restrict_user_def moderate_def
  by (auto split: option.splits intro!: record_intros frame_intros log_kept)

lemma reports_recorded:
  assumes "rs \<noteq> []"
  shows "recorded a (db_auditEvents d) snd (resolveReportsAtomic now a rs x d)"
proof -
  have "sort rs \<noteq> []" using assms by (metis length_0_conv length_sort)
  then show ?thesis
    by (auto simp: resolveReportsAtomic_def audit_reports_def Let_def split: option.splits
        intro!: record_intros continues_fold)
qed

lemma recordedD:
  "recorded a log snd r \<Longrightarrow> map_result snd r = Inr d' \<Longrightarrow> continues a log d'"
  "recorded a log id r' \<Longrightarrow> r' = Inr d' \<Longrightarrow> continues a log d'"
  by (auto simp: recorded_def map_result_Inr)

lemma admin_write_recorded:
  assumes "admin_write_run ap a w d = Inr d'" and "admin_write_valid uuid w"
  shows "d' = d \<or> continues a (db_auditEvents d) d'"
proof (cases w)
  case (SetRole i r)
  with assms show ?thesis
    by (auto simp: setRole_def result_simps put_user_def split: option.splits if_splits intro!: continues_audit)
next
  case (BulkResolveReports rs x)
  with assms have "rs \<noteq> []" by (auto simp: bulkResolveReportsInput_def)
  with assms BulkResolveReports show ?thesis using recordedD(1) [OF reports_recorded] by simp
next
  case (ResolveReport i x)
  with assms show ?thesis using recordedD(1) [OF reports_recorded] by (fastforce simp: resolveReport_def map_result_Inr)
qed (use assms recordedD(1) [OF problem_writes_recorded(1)] recordedD(1) [OF problem_writes_recorded(2)]
    recordedD(1) [OF problem_writes_recorded(3)] recordedD(2) [OF problem_writes_recorded(4)]
    recordedD(1) [OF competition_writes_recorded(1)] recordedD(1) [OF competition_writes_recorded(2)]
    recordedD(2) [OF competition_writes_recorded(3)] recordedD(2) [OF user_writes_recorded(1)]
    recordedD(2) [OF user_writes_recorded(2)] in simp_all)


end
