(* ===== verification/Profiles.thy ===== *)
theory Profiles
  imports Executions UserTables Dates
begin

text \<open>
  Profiles (\<open>apps/api/src/profiles/profiles.ts\<close>): streaks, the public profile, its update, and the global
  leaderboard. Days are numbered as in \<open>Dates\<close>; their texts \<open>YYYY-MM-DD\<close> sort in the same order. The
  streaks are related to the runs of consecutive days they stand for, the pages of the leaderboard to the
  whole ranking.
\<close>

section \<open>Input\<close>

text \<open>
  \<open>toLowerCase\<close>, as far as its result can be ASCII: the capital letters, and the Kelvin sign.
\<close>

definition lower_unit :: "code_unit \<Rightarrow> code_unit" where
  "lower_unit u = (if 65 \<le> u \<and> u \<le> 90 then u + 32 else if u = 0x212A then 107 else u)"

definition reserved_usernames :: "string list" where
  "reserved_usernames = [''admin'', ''api'', ''auth'', ''me'', ''system'']"

definition usernameSchema :: "jsstr \<Rightarrow> string option" where
  "usernameSchema raw =
     (let units = map lower_unit (js_trim raw); s = map (\<lambda>u. char_of (unat u)) units in
      if list_all (\<lambda>u. u < 128) units \<and> username_format s \<and> s \<notin> set reserved_usernames then Some s else None)"

text \<open>A field that is absent, null, or a value; \<open>url\<close> is the protocol of a text that \<open>z.url()\<close> accepts.\<close>

record profile_input =
  pf_username :: "string option"
  pf_displayName :: "jsstr option"
  pf_bio :: "jsstr option option"
  pf_location :: "jsstr option option"
  pf_website :: "jsstr option option"
  pf_avatarUrl :: "jsstr option option"

definition url_or_empty :: "(jsstr \<Rightarrow> string option) \<Rightarrow> string list \<Rightarrow> jsstr \<Rightarrow> bool" where
  "url_or_empty url protocols s \<longleftrightarrow> s = [] \<or> (case url s of None \<Rightarrow> False | Some p \<Rightarrow> p \<in> set protocols)"

definition updateProfileSchema :: "(jsstr \<Rightarrow> string option) \<Rightarrow> profile_input \<Rightarrow> bool" where
  "updateProfileSchema url i \<longleftrightarrow>
     opt_all (\<lambda>s. usernameSchema (js s) = Some s) (pf_username i) \<and>
     opt_all (\<lambda>s. js_trim s = s \<and> 1 \<le> length s \<and> length s \<le> 100) (pf_displayName i) \<and>
     opt_all (opt_all (\<lambda>s. js_trim s = s \<and> length s \<le> 280)) (pf_bio i) \<and>
     opt_all (opt_all (\<lambda>s. js_trim s = s \<and> length s \<le> 100)) (pf_location i) \<and>
     opt_all (opt_all (url_or_empty url [''http:'', ''https:''])) (pf_website i) \<and>
     opt_all (opt_all (\<lambda>s. length s \<le> 2048 \<and> url_or_empty url [''https:''] s)) (pf_avatarUrl i) \<and>
     (pf_username i \<noteq> None \<or> pf_displayName i \<noteq> None \<or> pf_bio i \<noteq> None \<or> pf_location i \<noteq> None \<or>
      pf_website i \<noteq> None \<or> pf_avatarUrl i \<noteq> None)"

section \<open>Streaks\<close>

record contribution =
  cn_day :: int
  cn_count :: nat

definition active_days :: "contribution list \<Rightarrow> int list" where
  "active_days cs = sort (remdups (map cn_day (filter (\<lambda>c. 0 < cn_count c) cs)))"

text \<open>The first loop: the longest run so far, the current run and the previous day.\<close>

definition streak_step :: "int \<Rightarrow> nat \<times> nat \<times> int option \<Rightarrow> nat \<times> nat \<times> int option" where
  "streak_step day s =
     (case s of (longest, run, previous) \<Rightarrow>
       let run' = (case previous of None \<Rightarrow> 1 | Some p \<Rightarrow> if day_start day - day_start p = 86400000 then run + 1 else 1)
       in (max longest run', run', Some day))"

text \<open>The second loop, over the days from the last one backwards.\<close>

fun run_back :: "int list \<Rightarrow> nat" where
  "run_back (y # x # days) = (if day_start y - day_start x \<noteq> 86400000 then 1 else run_back (x # days) + 1)"
| "run_back _ = 1"

record streak =
  currentStreak :: nat
  longestStreak :: nat

definition streaks :: "millis \<Rightarrow> contribution list \<Rightarrow> streak" where
  "streaks now cs =
     (let days = active_days cs; today = day_of now in
      case fold streak_step days (0, 0, None) of (longest, run, previous) \<Rightarrow>
        if previous \<noteq> Some today \<and> previous \<noteq> Some (today - 1) then \<lparr>currentStreak = 0, longestStreak = longest\<rparr>
        else \<lparr>currentStreak = run_back (rev days), longestStreak = longest\<rparr>)"

section \<open>The public profile\<close>

definition submits :: "uuid \<Rightarrow> db \<Rightarrow> execution list" where
  "submits u d = filter (\<lambda>e. ex_userId e = u \<and> ex_mode e = SUBMIT) (db_executions d)"

definition is_accepted :: "execution \<Rightarrow> bool" where
  "is_accepted e \<longleftrightarrow> ex_verdict e = Some ACCEPTED"

text \<open>\<open>count(DISTINCT pv."problemId")\<close> over a join with the versions.\<close>

definition problems_solved :: "db \<Rightarrow> execution list \<Rightarrow> nat" where
  "problems_solved d es = length (remdups (List.map_filter (version_problem d) (filter is_accepted es)))"

definition success_rate :: "nat \<Rightarrow> nat \<Rightarrow> int" where
  "success_rate acc n = (if n = 0 then 0 else round_div (int acc * 100) (int n))"

definition average_runtime :: "execution list \<Rightarrow> int option" where
  "average_runtime es =
     (let ts = List.map_filter ex_runtimeMs es in if ts = [] then None else Some (round_div (sum_list ts) (int (length ts))))"

definition contributions_of :: "millis \<Rightarrow> execution list \<Rightarrow> contribution list" where
  "contributions_of now es =
     (let recent = filter (\<lambda>e. day_start (day_of now - 364) \<le> ex_createdAt e) es
      in map (\<lambda>n. \<lparr>cn_day = n, cn_count = length (filter (\<lambda>e. day_of (ex_createdAt e) = n) recent)\<rparr>)
           (sort (remdups (map (\<lambda>e. day_of (ex_createdAt e)) recent))))"

record language_stat =
  ls_language :: language
  ls_submissions :: nat
  ls_accepted :: nat

definition language_stats :: "execution list \<Rightarrow> language_stat list" where
  "language_stats es =
     map (\<lambda>l. let own = filter (\<lambda>e. ex_language e = l) es
              in \<lparr>ls_language = l, ls_submissions = length own, ls_accepted = length (filter is_accepted own)\<rparr>)
       (remdups (map ex_language es))"

record difficulty_stat =
  fs_difficulty :: difficulty
  fs_solved :: nat
  fs_total :: nat

text \<open>The published current version of the problem a submission was for.\<close>

definition current_of_submission :: "db \<Rightarrow> execution \<Rightarrow> (uuid \<times> version) option" where
  "current_of_submission d e =
     Option.bind (version_problem d e) (\<lambda>p. Option.bind (find_problem d p) (\<lambda>pr.
     Option.bind (pr_currentVersionId pr) (\<lambda>i. Option.bind (find_version d i) (\<lambda>v.
       if vn_published v then Some (p, v) else None))))"

definition difficulty_stat_of :: "db \<Rightarrow> execution list \<Rightarrow> difficulty \<Rightarrow> difficulty_stat" where
  "difficulty_stat_of d es f =
     \<lparr>fs_difficulty = f,
      fs_solved = length (remdups (map fst (filter (\<lambda>x. vn_difficulty (snd x) = f)
        (List.map_filter (current_of_submission d) (filter is_accepted es))))),
      fs_total = length (filter (\<lambda>v. vn_published v \<and> vn_difficulty v = f \<and>
        Some (vn_id v) \<in> pr_currentVersionId ` set (db_problems d)) (db_versions d))\<rparr>"

record profile_stats =
  st_totalSubmissions :: nat
  st_acceptedSubmissions :: nat
  st_successRate :: int
  st_problemsSolved :: nat
  st_streak :: streak
  st_averageRuntimeMs :: "int option"

record public_profile =
  pp_username :: string
  pp_displayName :: jsstr
  pp_joinedAt :: millis
  pp_bio :: "jsstr option"
  pp_location :: "jsstr option"
  pp_website :: "jsstr option"
  pp_avatarUrl :: "jsstr option"
  pp_stats :: profile_stats
  pp_contributions :: "contribution list"
  pp_languages :: "language_stat list"
  pp_difficulties :: "difficulty_stat list"
  pp_recentSubmissions :: "submission list"

text \<open>\<open>...(value ? {value} : {})\<close>: an empty text is left out.\<close>

definition present :: "jsstr option \<Rightarrow> jsstr option" where
  "present s = (if s = Some [] then None else s)"

definition profile_of :: "millis \<Rightarrow> db \<Rightarrow> user \<Rightarrow> public_profile" where
  "profile_of now d u =
     (let es = submits (us_id u) d; acc = length (filter is_accepted es); cs = contributions_of now es
      in \<lparr>pp_username = us_username u, pp_displayName = us_displayName u, pp_joinedAt = us_createdAt u,
          pp_bio = present (us_bio u), pp_location = present (us_location u), pp_website = present (us_website u),
          pp_avatarUrl = present (us_avatarUrl u),
          pp_stats = \<lparr>st_totalSubmissions = length es, st_acceptedSubmissions = acc, st_successRate = success_rate acc (length es),
            st_problemsSolved = problems_solved d es, st_streak = streaks now cs, st_averageRuntimeMs = average_runtime es\<rparr>,
          pp_contributions = cs, pp_languages = language_stats es,
          pp_difficulties = map (difficulty_stat_of d es) [EASY, MEDIUM, HARD],
          pp_recentSubmissions = map (submission_of d) (take 10 (rev (sort_key history_key es)))\<rparr>)"

definition publicProfile :: "millis \<Rightarrow> string \<Rightarrow> bool \<Rightarrow> db \<Rightarrow> public_profile result" where
  "publicProfile now username allowPrivate d =
     (case find_by us_username username (db_users d) of
        None \<Rightarrow> Inl NOT_FOUND
      | Some u \<Rightarrow>
          if us_deactivatedAt u \<noteq> None \<or> (\<not> allowPrivate \<and> us_profileVisibility u = PV_PRIVATE) then Inl NOT_FOUND
          else Inr (profile_of now d u))"

definition own_profile :: "millis \<Rightarrow> uuid \<Rightarrow> db \<Rightarrow> public_profile result" where
  "own_profile now userId d =
     (case find_user d userId of None \<Rightarrow> Inl NOT_FOUND | Some u \<Rightarrow> publicProfile now (us_username u) True d)"

section \<open>Update\<close>

text \<open>\<open>input.bio || null\<close> for a field that is given.\<close>

definition given_or :: "jsstr option option \<Rightarrow> jsstr option \<Rightarrow> jsstr option" where
  "given_or field old = (case field of None \<Rightarrow> old | Some v \<Rightarrow> present v)"

definition profile_data :: "profile_input \<Rightarrow> user \<Rightarrow> user" where
  "profile_data i u =
     u\<lparr>us_username := (case pf_username i of None \<Rightarrow> us_username u | Some s \<Rightarrow> s),
       us_displayName := (case pf_displayName i of None \<Rightarrow> us_displayName u | Some s \<Rightarrow> s),
       us_bio := given_or (pf_bio i) (us_bio u), us_location := given_or (pf_location i) (us_location u),
       us_website := given_or (pf_website i) (us_website u), us_avatarUrl := given_or (pf_avatarUrl i) (us_avatarUrl u)\<rparr>"

definition commit_profile :: "uuid \<Rightarrow> profile_input \<Rightarrow> db \<Rightarrow> db result" where
  "commit_profile userId i d =
     on_P2002 (ApiError 409 ''USERNAME_TAKEN'' None)
       (map_result (audit userId ''PROFILE_UPDATE'' userId) (update_user userId (profile_data i) d))"

text \<open>The answer is read after the commit, and as a stranger would read it.\<close>

definition update_profile :: "millis \<Rightarrow> uuid \<Rightarrow> profile_input \<Rightarrow> db \<Rightarrow> public_profile result \<times> db" where
  "update_profile now userId i d =
     (case commit_profile userId i d of
        Inl e \<Rightarrow> (Inl e, d)
      | Inr d1 \<Rightarrow>
          (case find_user d1 userId of
             None \<Rightarrow> (Inl (DbError ''P2025''), d1)
           | Some u \<Rightarrow> (publicProfile now (us_username u) False d1, d1)))"

section \<open>The leaderboard\<close>

definition ranked_user :: "db \<Rightarrow> user \<Rightarrow> bool" where
  "ranked_user d u \<longleftrightarrow> us_profileVisibility u = PV_PUBLIC \<and> us_deactivatedAt u = None \<and> submits (us_id u) d \<noteq> []"

record leader =
  lr_id :: uuid
  lr_username :: string
  lr_displayName :: jsstr
  lr_problemsSolved :: nat
  lr_acceptedSubmissions :: nat
  lr_totalSubmissions :: nat

definition leader_of :: "db \<Rightarrow> user \<Rightarrow> leader" where
  "leader_of d u =
     (let es = submits (us_id u) d
      in \<lparr>lr_id = us_id u, lr_username = us_username u, lr_displayName = us_displayName u,
          lr_problemsSolved = problems_solved d es, lr_acceptedSubmissions = length (filter is_accepted es),
          lr_totalSubmissions = length es\<rparr>)"

definition lr_key :: "leader \<Rightarrow> int \<times> int \<times> string \<times> uuid" where
  "lr_key l = (- int (lr_problemsSolved l), - int (lr_acceptedSubmissions l), lr_username l, lr_id l)"

definition leaders :: "db \<Rightarrow> leader list" where
  "leaders d = map (leader_of d) (filter (ranked_user d) (db_users d))"

text \<open>\<open>row_number() OVER (ORDER BY ..)\<close>.\<close>

definition ranked :: "db \<Rightarrow> (nat \<times> leader) list" where
  "ranked d = enumerate 1 (sort_key lr_key (leaders d))"

definition rank_of :: "db \<Rightarrow> uuid \<Rightarrow> nat option" where
  "rank_of d i = map_option fst (find (\<lambda>x. lr_id (snd x) = i) (ranked d))"

record rank_item =
  ri_rank :: nat
  ri_leader :: leader
  ri_successRate :: int

definition rank_item_of :: "nat \<times> leader \<Rightarrow> rank_item" where
  "rank_item_of x =
     \<lparr>ri_rank = fst x, ri_leader = snd x,
      ri_successRate = success_rate (lr_acceptedSubmissions (snd x)) (lr_totalSubmissions (snd x))\<rparr>"

definition leaderboard_rows :: "db \<Rightarrow> uuid option \<Rightarrow> (nat \<times> leader) list" where
  "leaderboard_rows d cursor =
     take 21 (case cursor of None \<Rightarrow> ranked d
       | Some c \<Rightarrow> filter (\<lambda>x. case rank_of d c of None \<Rightarrow> False | Some k \<Rightarrow> k < fst x) (ranked d))"

definition leaderboard :: "db \<Rightarrow> uuid option \<Rightarrow> (rank_item list \<times> uuid option) result" where
  "leaderboard d cursor =
     (let rows = leaderboard_rows d cursor in
      if opt_all (\<lambda>c. \<exists>u \<in> set (db_users d). us_id u = c \<and> ranked_user d u) cursor
      then Inr (map rank_item_of (take 20 rows), if 20 < length rows then Some (lr_id (snd (rows ! 19))) else None)
      else Inl (ApiError 400 ''INVALID_CURSOR'' None))"

section \<open>Streaks are runs of consecutive days\<close>

definition run_until :: "int set \<Rightarrow> int \<Rightarrow> nat \<Rightarrow> bool" where
  "run_until S t n \<longleftrightarrow> {t - int n <.. t} \<subseteq> S \<and> t - int n \<notin> S"

definition longest_run :: "int set \<Rightarrow> nat \<Rightarrow> bool" where
  "longest_run S n \<longleftrightarrow>
     (\<exists>t. {t - int n <.. t} \<subseteq> S) \<and> (\<forall>t m. {t - int m <.. t} \<subseteq> S \<longrightarrow> m \<le> n)"

lemma adjacent_days: "day_start x - day_start y = 86400000 \<longleftrightarrow> x = y + 1"
  by (simp add: day_start_def DAY_MS_def) linarith

lemma streak_step_Some:
  "streak_step x (l, r, Some p) = (let r' = (if x = p + 1 then r + 1 else 1) in (max l r', r', Some x))"
  by (simp add: streak_step_def adjacent_days)

lemma set_active_days: "set (active_days cs) = cn_day ` {c \<in> set cs. 0 < cn_count c}"
  by (simp add: active_days_def)

lemma run_until_step:
  assumes "run_until S p n" and "\<forall>y \<in> S. y \<le> p"
  shows "run_until (insert (p + 1) S) (p + 1) (n + 1)"
proof -
  have "p + 1 - int (n + 1) = p - int n" by simp
  moreover have "p - int n \<noteq> p + 1" by simp
  moreover have "{p - int n <.. p + 1} \<subseteq> insert (p + 1) {p - int n <.. p}" by auto
  ultimately show ?thesis using assms by (auto simp: run_until_def)
qed

lemma run_until_fresh:
  assumes "\<forall>y \<in> S. y \<le> p" and "p + 1 < x"
  shows "run_until (insert x S) x 1"
proof -
  have "{x - int 1 <.. x} = {x}" by auto
  moreover have "x - int 1 \<notin> S" using assms by force
  ultimately show ?thesis by (simp add: run_until_def)
qed

lemma longest_run_step:
  assumes "longest_run S n" and "\<forall>y \<in> S. y < x" and "run_until (insert x S) x m"
  shows "longest_run (insert x S) (max n m)"
  unfolding longest_run_def
proof (intro conjI allI impI)
  show "\<exists>t. {t - int (max n m) <.. t} \<subseteq> insert x S"
  proof (cases "n \<le> m")
    case True
    with assms(3) show ?thesis by (auto simp: run_until_def max_absorb2)
  next
    case False
    with assms(1) show ?thesis by (auto simp: longest_run_def max_def)
  qed
  fix t k
  assume sub: "{t - int k <.. t} \<subseteq> insert x S"
  show "k \<le> max n m"
  proof (cases "x \<in> {t - int k <.. t}")
    case False
    with sub have "{t - int k <.. t} \<subseteq> S" by auto
    with assms(1) have "k \<le> n" by (simp add: longest_run_def)
    then show ?thesis by simp
  next
    case True
    then have "t \<in> {t - int k <.. t}" by simp
    with sub have "t \<in> insert x S" by (rule subsetD)
    with True assms(2) have t: "t = x" by force
    show ?thesis
    proof (rule ccontr)
      assume "\<not> k \<le> max n m"
      then have "x - int m \<in> {t - int k <.. t}" by (auto simp: t)
      with sub assms(3) show False by (auto simp: run_until_def)
    qed
  qed
qed

lemma upto_last: "sorted_wrt (<) days \<Longrightarrow> y \<in> set days \<Longrightarrow> y \<le> last days" for y :: int
  by (cases days rule: rev_cases) (auto simp: sorted_wrt_append)

lemma streak_loop:
  assumes "sorted_wrt (<) days" and "days \<noteq> []" and "fold streak_step days (0, 0, None) = (longest, run, previous)"
  shows "previous = Some (last days) \<and> run_until (set days) (last days) run \<and> longest_run (set days) longest \<and>
    run_back (rev days) = run"
  using assms
proof (induction days arbitrary: longest run previous rule: rev_induct)
  case (snoc x days)
  obtain l r p where s: "fold streak_step days (0, 0, None) = (l, r, p)" by (cases "fold streak_step days (0, 0, None)")
  from snoc.prems(1) have below: "\<forall>y \<in> set days. y < x" and sorted: "sorted_wrt (<) days"
    by (auto simp: sorted_wrt_append)
  show ?case
  proof (cases "days = []")
    case True
    then have "longest = 1" "run = 1" "previous = Some x" using snoc.prems(3) by (auto simp: streak_step_def)
    moreover have "run_until {x} x 1" by (auto simp: run_until_def)
    moreover have "longest_run {} 0" by (auto simp: longest_run_def)
    ultimately show ?thesis using True longest_run_step [of "{}" 0 x 1] by simp
  next
    case False
    note IH = snoc.IH [OF sorted False s]
    have upto: "\<forall>y \<in> set days. y \<le> last days"
      using upto_last [OF sorted] by blast
    define r' where "r' = (if x = last days + 1 then r + 1 else 1)"
    from snoc.prems(3) s IH have new: "longest = max l r'" "run = r'" "previous = Some x"
      by (auto simp: streak_step_Some r'_def split: if_splits)
    have "last days < x" using below False by simp
    then have run': "run_until (insert x (set days)) x r'"
      using IH upto run_until_step [of "set days" "last days" r] run_until_fresh [of "set days" "last days" x]
      by (auto simp: r'_def)
    moreover have "longest_run (insert x (set days)) (max l r')"
      using IH below run' by (intro longest_run_step) auto
    moreover have "run_back (rev (days @ [x])) = r'"
      using IH False by (cases days rule: rev_cases) (auto simp: adjacent_days r'_def)
    ultimately show ?thesis using new by simp
  qed
qed simp

text \<open>
  C40. The streaks of a profile are the runs of consecutive active days: the longest one is the greatest number of
  days in a row, the current one is the run that ends today, or yesterday when today has no submission yet, or zero
  when neither day is active.
\<close>

theorem streaks_correct:
  assumes "\<forall>c \<in> set cs. 0 < cn_count c \<longrightarrow> cn_day c \<le> day_of now"
  defines "S \<equiv> cn_day ` {c \<in> set cs. 0 < cn_count c}"
  shows "longest_run S (longestStreak (streaks now cs)) \<and>
    (if day_of now \<in> S then run_until S (day_of now) (currentStreak (streaks now cs))
     else if day_of now - 1 \<in> S then run_until S (day_of now - 1) (currentStreak (streaks now cs))
     else currentStreak (streaks now cs) = 0)"
proof (cases "active_days cs = []")
  case True
  then have S: "S = {}" by (simp add: S_def set_active_days [symmetric])
  have "longest_run {} 0" by (auto simp: longest_run_def)
  with True show ?thesis by (simp add: S streaks_def)
next
  case False
  let ?days = "active_days cs"
  obtain longest run previous where f: "fold streak_step ?days (0, 0, None) = (longest, run, previous)"
    by (cases "fold streak_step ?days (0, 0, None)")
  have "sorted_wrt (<) ?days" by (simp add: active_days_def strict_sorted_iff)
  note loop = streak_loop [OF this False f]
  have S: "set ?days = S" by (simp add: S_def set_active_days)
  have last: "last ?days \<in> S" "\<forall>y \<in> S. y \<le> last ?days"
    using False upto_last [OF \<open>sorted_wrt (<) ?days\<close>] S by auto
  have "\<forall>y \<in> S. y \<le> day_of now" using assms(1) by (auto simp: S_def)
  with last have at: "last ?days = (if day_of now \<in> S then day_of now
      else if day_of now - 1 \<in> S then day_of now - 1 else last ?days)"
    "day_of now \<notin> S \<Longrightarrow> day_of now - 1 \<notin> S \<Longrightarrow> last ?days \<noteq> day_of now \<and> last ?days \<noteq> day_of now - 1"
    by (auto simp: antisym) (metis antisym dual_order.strict_implies_order linorder_not_le zle_diff1_eq)
  from loop at show ?thesis
    by (auto simp: streaks_def Let_def f S split: if_splits)
qed

lemma single_days: "cn_day ` {c \<in> set (map (\<lambda>n. \<lparr>cn_day = n, cn_count = 1\<rparr>) ns). 0 < cn_count c} = set ns"
  by force

theorem streaks_correct_witness:
  "longest_run {1, 2, 3, 7, 8} (longestStreak (streaks (day_start 9) (map (\<lambda>n. \<lparr>cn_day = n, cn_count = 1\<rparr>) [1, 2, 3, 7, 8]))) \<and>
   run_until {1, 2, 3, 7, 8} 8 (currentStreak (streaks (day_start 9) (map (\<lambda>n. \<lparr>cn_day = n, cn_count = 1\<rparr>) [1, 2, 3, 7, 8])))"
  using streaks_correct [of "map (\<lambda>n. \<lparr>cn_day = n, cn_count = 1\<rparr>) [1, 2, 3, 7, 8]" "day_start 9", unfolded single_days]
  by simp

section \<open>What an update does\<close>

lemma find_user_commit:
  assumes "commit_profile userId i d = Inr d1"
  shows "find_user d1 userId = map_option (profile_data i) (find_user d userId)"
  using assms by (auto simp: commit_profile_def result_simps audit_def find_user_def put_user_def profile_data_def table_simps)

text \<open>The update of a private profile commits and answers that there is no profile.\<close>

lemma private_update_hidden:
  assumes "commit_profile userId i d = Inr d1" and "find_user d userId = Some u" and "us_profileVisibility u = PV_PRIVATE"
    and "distinct (map us_username (db_users d1))"
  shows "update_profile now userId i d = (Inl NOT_FOUND, d1)"
proof -
  have u: "find_user d1 userId = Some (profile_data i u)" using find_user_commit [OF assms(1)] assms(2) by simp
  then have "profile_data i u \<in> set (db_users d1)" by (auto simp: find_user_def dest: find_by_Some)
  from find_by_distinct [OF assms(4) this]
  have "publicProfile now (us_username (profile_data i u)) False d1 = Inl NOT_FOUND"
    using assms(3) by (simp add: publicProfile_def) (simp add: profile_data_def)
  with assms(1) u show ?thesis by (simp add: update_profile_def)
qed

section \<open>The leaderboard lists every ranked user once\<close>

lemma insort_last: "\<forall>y \<in> set ys. key y < key x \<Longrightarrow> insort_key key x ys = ys @ [x]"
  by (induction ys) auto

lemma sort_descending: "sorted_wrt (\<lambda>a b. key b < key a) xs \<Longrightarrow> sort_key key xs = rev xs"
  by (induction xs) (simp_all add: insort_last)

lemma newest_rows_descending:
  assumes "sorted_wrt (\<lambda>a b. key b < key a) xs"
  shows "newest_rows key b xs = filter (\<lambda>r. case b of None \<Rightarrow> True | Some k \<Rightarrow> key r < k) xs"
  using sort_descending [OF sorted_wrt_filter [OF assms]] by (simp add: newest_rows_def)

definition rank_key :: "nat \<times> leader \<Rightarrow> nat reversed" where
  "rank_key x = Reversed (fst x)"

lemma ranks_increase: "sorted_wrt (<) (map fst (ranked d))"
  by (simp add: ranked_def del: upt_Suc)

lemma last_take: "n < length xs \<Longrightarrow> last (take (Suc n) xs) = xs ! n"
  by (simp add: take_Suc_conv_app_nth)

lemma ranked_descending: "sorted_wrt (\<lambda>a b. rank_key b < rank_key a) (ranked d)"
  using ranks_increase [of d] by (simp add: sorted_wrt_map rank_key_def less_reversed_def)

lemma set_ranked: "x \<in> set (ranked d) \<Longrightarrow> snd x \<in> set (leaders d)"
proof -
  assume "x \<in> set (ranked d)"
  then have "snd x \<in> set (map snd (ranked d))" by simp
  then show ?thesis by (simp add: ranked_def)
qed

lemma rank_of_ranked:
  assumes "distinct (map us_id (db_users d))" and "x \<in> set (ranked d)"
  shows "rank_of d (lr_id (snd x)) = Some (fst x)"
proof -
  have "map lr_id (leaders d) = map us_id (filter (ranked_user d) (db_users d))"
    by (simp add: leaders_def leader_of_def Let_def comp_def)
  then have "distinct (map lr_id (leaders d))" using assms(1) by (simp add: distinct_map_filter)
  then have "distinct (map lr_id (map snd (ranked d)))" by (simp add: ranked_def)
  then have "distinct (map (\<lambda>x. lr_id (snd x)) (ranked d))" by (simp add: comp_def)
  from find_by_distinct [OF this assms(2)] show ?thesis by (simp add: rank_of_def find_by_def)
qed

interpretation ranking: paged_listing ranked rank_key "\<lambda>x. lr_id (snd x)" "\<lambda>_. rank_item_of" 20 leaderboard
  "\<lambda>d. distinct (map us_id (db_users d))"
proof
  have page: "page 20 rank_key b (ranked d) =
      (let rows = take 21 (newest_rows rank_key b (ranked d))
       in (take 20 rows, if 20 < length rows then Some (rows ! 19) else None))" for b d
    using last_take [of 19 "newest_rows rank_key b (ranked d)"] by (auto simp: page_def Let_def min_def)
  fix d
  show "leaderboard d None =
      Inr (map_prod (map rank_item_of) (map_option (\<lambda>x. lr_id (snd x))) (page 20 rank_key None (ranked d)))"
    by (simp add: leaderboard_def leaderboard_rows_def page newest_rows_descending [OF ranked_descending] Let_def)
  fix x
  assume ok: "distinct (map us_id (db_users d))"
  assume x: "x \<in> set (ranked d)"
  then obtain u where "u \<in> set (db_users d)" "ranked_user d u" "lr_id (snd x) = us_id u"
    using set_ranked [OF x] by (auto simp: leaders_def leader_of_def Let_def)
  then show "leaderboard d (Some (lr_id (snd x))) =
      Inr (map_prod (map rank_item_of) (map_option (\<lambda>x. lr_id (snd x))) (page 20 rank_key (Some (rank_key x)) (ranked d)))"
    using rank_of_ranked [OF ok x]
    by (auto simp: leaderboard_def leaderboard_rows_def page newest_rows_descending [OF ranked_descending] Let_def
        rank_key_def less_reversed_def)
next
  fix d
  have "distinct (map fst (ranked d))" using ranks_increase by (simp add: strict_sorted_iff)
  then show "distinct (map rank_key (ranked d))" by (auto simp: distinct_map rank_key_def inj_on_def)
qed simp

end
