(* ===== verification/UserRoutes.thy ===== *)
theory UserRoutes
  imports AdminRoutes Discussions Notifications Profiles
begin

text \<open>
  The routes of a signed-in user that change the database: the controllers of accounts, discussions,
  notifications, competitions, profiles and executions, and the sign-out. Each is the session guard, the
  validation of the request and the operation. A request is a value with its parsed input; the answers are
  left out, except that a write may commit and still fail. No route touches what belongs to another user.
\<close>

section \<open>Requests\<close>

record user_api = api +
  ua_env :: env
  ua_config :: config
  ua_crypto :: crypto
  ua_password :: password_env
  ua_salt :: bytes
  ua_random :: string
  ua_email :: "string \<Rightarrow> bool"
  ua_url :: "jsstr \<Rightarrow> string option"

text \<open>A transaction without an answer: an error leaves the database as it was.\<close>

definition commits :: "('x \<Rightarrow> db) \<Rightarrow> 'x result \<Rightarrow> db \<Rightarrow> unit stored" where
  "commits state r d = (case r of Inl e \<Rightarrow> (Inl e, d) | Inr x \<Rightarrow> (Inr (), state x))"

section \<open>Accounts\<close>

datatype account_write =
    UpdateSettings settings_input
  | RevokeOtherSessions
  | RevokeSession uuid
  | ChangePassword jsstr jsstr
  | ChangeEmail jsstr string
  | Deactivate string "jsstr option"

fun account_write_method :: "account_write \<Rightarrow> string" where
  "account_write_method RevokeOtherSessions = ''DELETE''"
| "account_write_method (RevokeSession _) = ''DELETE''"
| "account_write_method (Deactivate _ _) = ''DELETE''"
| "account_write_method _ = ''PATCH''"

text \<open>\<open>@AllowRestricted()\<close>: a restricted user may still leave.\<close>

fun account_write_restricted :: "account_write \<Rightarrow> bool" where
  "account_write_restricted (Deactivate _ _) = True"
| "account_write_restricted _ = False"

definition emailSchema :: "(string \<Rightarrow> bool) \<Rightarrow> jsstr \<Rightarrow> string \<Rightarrow> bool" where
  "emailSchema email currentPassword newEmail \<longleftrightarrow>
     password_ok currentPassword \<and> email (normal_email newEmail) \<and> length (normal_email newEmail) \<le> 254"

fun account_write_valid :: "user_api \<Rightarrow> account_write \<Rightarrow> bool" where
  "account_write_valid ap (UpdateSettings i) = settingsSchema i"
| "account_write_valid ap RevokeOtherSessions = True"
| "account_write_valid ap (RevokeSession i) = ap_uuid ap i"
| "account_write_valid ap (ChangePassword old new) = passwordSchema old new"
| "account_write_valid ap (ChangeEmail old new) = emailSchema (ua_email ap) old new"
| "account_write_valid ap (Deactivate c pw) = deactivateSchema c pw"

fun account_write_run :: "user_api \<Rightarrow> principal \<Rightarrow> account_write \<Rightarrow> db \<Rightarrow> unit stored" where
  "account_write_run ap p (UpdateSettings i) d = commits id (updateSettings (pn_userId p) i d) d"
| "account_write_run ap p RevokeOtherSessions d =
     (Inr (), snd (revokeOtherSessions (ap_now ap) (pn_userId p) (pn_sessionId p) d))"
| "account_write_run ap p (RevokeSession i) d =
     commits snd (revokeSession (ap_now ap) (pn_userId p) (pn_sessionId p) i d) d"
| "account_write_run ap p (ChangePassword old new) d =
     commits id (changePassword (ua_password ap) (ap_now ap) (ua_salt ap) (pn_userId p) (pn_sessionId p) old new d) d"
| "account_write_run ap p (ChangeEmail old new) d =
     commits snd (changeEmail (ua_password ap) (ap_now ap) (pn_userId p) (pn_sessionId p) old new d) d"
| "account_write_run ap p (Deactivate _ pw) d =
     commits id (deactivate (ua_password ap) (ap_now ap) (ua_random ap) (pn_userId p) pw d) d"

section \<open>Discussions\<close>

datatype discussion_write =
    PostDiscussion string jsstr jsstr
  | PostReply uuid jsstr
  | PutLike uuid
  | DeleteLike uuid
  | PostReport uuid reportReason "jsstr option"

fun discussion_write_method :: "discussion_write \<Rightarrow> string" where
  "discussion_write_method (PutLike _) = ''PUT''"
| "discussion_write_method (DeleteLike _) = ''DELETE''"
| "discussion_write_method _ = ''POST''"

fun discussion_write_valid :: "user_api \<Rightarrow> discussion_write \<Rightarrow> bool" where
  "discussion_write_valid ap (PostDiscussion s t b) = (slug_ok s \<and> createDiscussionSchema t b)"
| "discussion_write_valid ap (PostReply i b) = (ap_uuid ap i \<and> createDiscussionReplySchema b)"
| "discussion_write_valid ap (PutLike i) = ap_uuid ap i"
| "discussion_write_valid ap (DeleteLike i) = ap_uuid ap i"
| "discussion_write_valid ap (PostReport i _ x) = (ap_uuid ap i \<and> reportSchema x)"

fun discussion_write_run :: "user_api \<Rightarrow> principal \<Rightarrow> discussion_write \<Rightarrow> db \<Rightarrow> unit stored" where
  "discussion_write_run ap p (PostDiscussion s t b) d =
     commits snd (create_discussion (ap_clock ap) (ap_fresh ap 0) s (pn_userId p) t b d) d"
| "discussion_write_run ap p (PostReply i b) d =
     commits snd (create_reply (ap_clock ap) (ap_fresh ap 0) i (pn_userId p) b d) d"
| "discussion_write_run ap p (PutLike i) d = commits snd (like_post i (pn_userId p) True d) d"
| "discussion_write_run ap p (DeleteLike i) d = commits snd (like_post i (pn_userId p) False d) d"
| "discussion_write_run ap p (PostReport i r x) d =
     commits snd (report_post (ap_clock ap) (ap_fresh ap 0) i (pn_userId p) r x d) d"

section \<open>Notifications\<close>

datatype notification_write = MarkAllRead | MarkRead uuid

fun notification_write_valid :: "user_api \<Rightarrow> notification_write \<Rightarrow> bool" where
  "notification_write_valid ap MarkAllRead = True"
| "notification_write_valid ap (MarkRead i) = ap_uuid ap i"

fun notification_write_run :: "user_api \<Rightarrow> principal \<Rightarrow> notification_write \<Rightarrow> db \<Rightarrow> unit stored" where
  "notification_write_run ap p MarkAllRead d = (Inr (), snd (markAllRead (ap_now ap) (pn_userId p) d))"
| "notification_write_run ap p (MarkRead i) d = commits snd (markRead (ap_now ap) (pn_userId p) i d) d"

section \<open>Competitions\<close>

datatype competition_write =
    PostCompetition competition_input
  | PatchCompetition string competition_input
  | RegisterForCompetition string

fun competition_write_method :: "competition_write \<Rightarrow> string" where
  "competition_write_method (PatchCompetition _ _) = ''PATCH''"
| "competition_write_method _ = ''POST''"

fun competition_write_valid :: "competition_write \<Rightarrow> bool" where
  "competition_write_valid (PostCompetition x) = createSchema x"
| "competition_write_valid (PatchCompetition s x) = (slug_ok s \<and> createSchema x)"
| "competition_write_valid (RegisterForCompetition s) = slug_ok s"

fun competition_write_run :: "user_api \<Rightarrow> principal \<Rightarrow> competition_write \<Rightarrow> db \<Rightarrow> unit stored" where
  "competition_write_run ap p (PostCompetition x) d =
     commits snd (create_competition (ap_clock ap) (ap_fresh ap 0) (\<lambda>k. ap_fresh ap (k + 1)) (pn_userId p) x d) d"
| "competition_write_run ap p (PatchCompetition s x) d =
     commits snd (update_competition (ap_clock ap) (ap_fresh ap) (pn_userId p) (pn_role p) s x d) d"
| "competition_write_run ap p (RegisterForCompetition s) d =
     commits snd (register (ap_clock ap) (ap_fresh ap 0) (pn_userId p) s d) d"

section \<open>Profiles and executions\<close>

definition patch_profile :: "user_api \<Rightarrow> principal \<Rightarrow> profile_input \<Rightarrow> db \<Rightarrow> unit stored" where
  "patch_profile ap p x d =
     (case update_profile (ap_now ap) (pn_userId p) x d of (r, d') \<Rightarrow> (map_result (\<lambda>_. ()) r, d'))"

datatype execution_write = PostExecution json "string option" | CancelExecution uuid

fun execution_write_valid :: "user_api \<Rightarrow> execution_write \<Rightarrow> bool" where
  "execution_write_valid ap (PostExecution _ _) = True"
| "execution_write_valid ap (CancelExecution i) = ap_uuid ap i"

fun execution_write_run :: "user_api \<Rightarrow> http \<Rightarrow> principal \<Rightarrow> execution_write \<Rightarrow> db \<Rightarrow> unit stored" where
  "execution_write_run ap rq p (PostExecution body key) d =
     commits snd (post_execution (ua_env ap) (ua_config ap) (ua_crypto ap) (ap_clock ap) (ap_fresh ap 0) (pn_userId p)
       body key (rq_ip rq) d) d"
| "execution_write_run ap rq p (CancelExecution i) d =
     commits snd (cancel_execution (ua_env ap) (ua_config ap) (ap_clock ap) (pn_userId p) i d) d"

section \<open>All of them\<close>

datatype user_write =
    AccountWrite account_write
  | DiscussionWrite discussion_write
  | NotificationWrite notification_write
  | CompetitionWrite competition_write
  | PatchProfile profile_input
  | ExecutionWrite execution_write
  | Logout

fun user_write_method :: "user_write \<Rightarrow> string" where
  "user_write_method (AccountWrite w) = account_write_method w"
| "user_write_method (DiscussionWrite w) = discussion_write_method w"
| "user_write_method (NotificationWrite _) = ''PATCH''"
| "user_write_method (CompetitionWrite w) = competition_write_method w"
| "user_write_method (PatchProfile _) = ''PATCH''"
| "user_write_method (ExecutionWrite _) = ''POST''"
| "user_write_method Logout = ''POST''"

fun user_write_restricted :: "user_write \<Rightarrow> bool" where
  "user_write_restricted (AccountWrite w) = account_write_restricted w"
| "user_write_restricted Logout = True"
| "user_write_restricted _ = False"

fun user_write_valid :: "user_api \<Rightarrow> user_write \<Rightarrow> bool" where
  "user_write_valid ap (AccountWrite w) = account_write_valid ap w"
| "user_write_valid ap (DiscussionWrite w) = discussion_write_valid ap w"
| "user_write_valid ap (NotificationWrite w) = notification_write_valid ap w"
| "user_write_valid ap (CompetitionWrite w) = competition_write_valid w"
| "user_write_valid ap (PatchProfile x) = updateProfileSchema (ua_url ap) x"
| "user_write_valid ap (ExecutionWrite w) = execution_write_valid ap w"
| "user_write_valid ap Logout = True"

fun user_write_run :: "user_api \<Rightarrow> http \<Rightarrow> principal \<Rightarrow> user_write \<Rightarrow> db \<Rightarrow> unit stored" where
  "user_write_run ap rq p (AccountWrite w) d = account_write_run ap p w d"
| "user_write_run ap rq p (DiscussionWrite w) d = discussion_write_run ap p w d"
| "user_write_run ap rq p (NotificationWrite w) d = notification_write_run ap p w d"
| "user_write_run ap rq p (CompetitionWrite w) d = competition_write_run ap p w d"
| "user_write_run ap rq p (PatchProfile x) d = patch_profile ap p x d"
| "user_write_run ap rq p (ExecutionWrite w) d = execution_write_run ap rq p w d"
| "user_write_run ap rq p Logout d = commits id (logout (ap_now ap) p d) d"

definition user_write_route :: "user_api \<Rightarrow> http \<Rightarrow> user_write \<Rightarrow> db \<Rightarrow> unit stored" where
  "user_write_route ap rq w d =
     (if rq_method rq \<noteq> user_write_method w then (Inl NOT_FOUND, d)
      else case guarded ap (user_write_restricted w) [] rq d of
        Inl e \<Rightarrow> (Inl e, d)
      | Inr p \<Rightarrow>
          (case validate (if user_write_valid ap w then Some w else None) of
             Inl e \<Rightarrow> (Inl e, d)
           | Inr w \<Rightarrow> user_write_run ap rq p w d))"

section \<open>What belongs to the other users\<close>

text \<open>The rows of the other users, and the catalog and the sign-in tables, which belong to nobody.\<close>

definition foreign :: "uuid \<Rightarrow> db \<Rightarrow> db" where
  "foreign u d = empty_db\<lparr>
     db_users := filter (\<lambda>x. us_id x \<noteq> u) (db_users d),
     db_credentials := filter (\<lambda>x. cd_userId x \<noteq> u) (db_credentials d),
     db_sessions := filter (\<lambda>x. se_userId x \<noteq> u) (db_sessions d),
     db_notifications := filter (\<lambda>x. nt_userId x \<noteq> u) (db_notifications d),
     db_registrations := filter (\<lambda>x. rg_userId x \<noteq> u) (db_registrations d),
     db_discussionLikes := filter (\<lambda>x. dl_userId x \<noteq> u) (db_discussionLikes d),
     db_discussionPosts := filter (\<lambda>x. dp_authorId x \<noteq> u) (db_discussionPosts d),
     db_contentReports := filter (\<lambda>x. rp_reporterId x \<noteq> u) (db_contentReports d),
     db_executions := filter (\<lambda>x. ex_userId x \<noteq> u) (db_executions d),
     db_problems := db_problems d, db_versions := db_versions d, db_testCases := db_testCases d,
     db_authAttempts := db_authAttempts d, db_authLimits := db_authLimits d\<rparr>"

lemma foreign_other_tables [simp]:
  "foreign u (d\<lparr>db_events := x1\<rparr>) = foreign u d" "foreign u (d\<lparr>db_outbox := x2\<rparr>) = foreign u d"
  "foreign u (d\<lparr>db_executionLimits := x3\<rparr>) = foreign u d" "foreign u (d\<lparr>db_discussionLimits := x3\<rparr>) = foreign u d"
  "foreign u (d\<lparr>db_competitions := x4\<rparr>) = foreign u d" "foreign u (d\<lparr>db_rounds := x5\<rparr>) = foreign u d"
  "foreign u (d\<lparr>db_competitionProblems := x6\<rparr>) = foreign u d" "foreign u (audit a act t d) = foreign u d"
  "foreign u (put_competition i f d) = foreign u d"
  by (simp_all add: foreign_def audit_def put_competition_def)

lemma foreign_tables:
  "foreign u (d\<lparr>db_users := x1\<rparr>) = foreign u d \<longleftrightarrow>
     filter (\<lambda>x. us_id x \<noteq> u) x1 = filter (\<lambda>x. us_id x \<noteq> u) (db_users d)"
  "foreign u (d\<lparr>db_credentials := x2\<rparr>) = foreign u d \<longleftrightarrow>
     filter (\<lambda>x. cd_userId x \<noteq> u) x2 = filter (\<lambda>x. cd_userId x \<noteq> u) (db_credentials d)"
  "foreign u (d\<lparr>db_sessions := x3\<rparr>) = foreign u d \<longleftrightarrow>
     filter (\<lambda>x. se_userId x \<noteq> u) x3 = filter (\<lambda>x. se_userId x \<noteq> u) (db_sessions d)"
  "foreign u (d\<lparr>db_notifications := x4\<rparr>) = foreign u d \<longleftrightarrow>
     filter (\<lambda>x. nt_userId x \<noteq> u) x4 = filter (\<lambda>x. nt_userId x \<noteq> u) (db_notifications d)"
  "foreign u (d\<lparr>db_registrations := x5\<rparr>) = foreign u d \<longleftrightarrow>
     filter (\<lambda>x. rg_userId x \<noteq> u) x5 = filter (\<lambda>x. rg_userId x \<noteq> u) (db_registrations d)"
  "foreign u (d\<lparr>db_discussionLikes := x6\<rparr>) = foreign u d \<longleftrightarrow>
     filter (\<lambda>x. dl_userId x \<noteq> u) x6 = filter (\<lambda>x. dl_userId x \<noteq> u) (db_discussionLikes d)"
  "foreign u (d\<lparr>db_discussionPosts := x7\<rparr>) = foreign u d \<longleftrightarrow>
     filter (\<lambda>x. dp_authorId x \<noteq> u) x7 = filter (\<lambda>x. dp_authorId x \<noteq> u) (db_discussionPosts d)"
  "foreign u (d\<lparr>db_contentReports := x8\<rparr>) = foreign u d \<longleftrightarrow>
     filter (\<lambda>x. rp_reporterId x \<noteq> u) x8 = filter (\<lambda>x. rp_reporterId x \<noteq> u) (db_contentReports d)"
  "foreign u (d\<lparr>db_executions := x9\<rparr>) = foreign u d \<longleftrightarrow>
     filter (\<lambda>x. ex_userId x \<noteq> u) x9 = filter (\<lambda>x. ex_userId x \<noteq> u) (db_executions d)"
  by (simp_all add: foreign_def empty_db_def)

abbreviation spares :: "uuid \<Rightarrow> ('x \<Rightarrow> db) \<Rightarrow> db \<Rightarrow> 'x result \<Rightarrow> bool" where
  "spares u state d r \<equiv> keeps (foreign u) state d r"

lemma keeps_on_P2002 [frame_intros]: "keeps v state d r \<Longrightarrow> keeps v state d (on_P2002 e r)"
  by (simp add: keeps_def on_P2002_Inr)

lemmas keeps_checks [frame_intros] =
  keeps_check [where 'm = unit] keeps_check [where 'm = "problem list"] keeps_check [where 'm = competition]
  keeps_check [where 'm = uuid] keeps_check [where 'm = create_execution] keeps_check [where 'm = "uuid option"]

lemma foreign_selected:
  "db_executions (foreign u d) = filter (\<lambda>x. ex_userId x \<noteq> u) (db_executions d)"
  "db_credentials (foreign u d) = filter (\<lambda>x. cd_userId x \<noteq> u) (db_credentials d)"
  "db_sessions (foreign u d) = filter (\<lambda>x. se_userId x \<noteq> u) (db_sessions d)"
  by (simp_all add: foreign_def)

text \<open>No other user has an execution, or a credential, with this identifier.\<close>

definition own_execution :: "uuid \<Rightarrow> db \<Rightarrow> uuid \<Rightarrow> bool" where
  "own_execution u d i \<longleftrightarrow> i \<notin> ex_id ` set (db_executions (foreign u d))"

definition own_credential :: "uuid \<Rightarrow> db \<Rightarrow> uuid \<Rightarrow> bool" where
  "own_credential u d i \<longleftrightarrow> i \<notin> cd_id ` set (db_credentials (foreign u d))"

lemma ownD:
  "own_execution u d i \<Longrightarrow> r \<in> set (db_executions d) \<Longrightarrow> ex_id r = i \<Longrightarrow> ex_userId r = u"
  "own_credential u d i \<Longrightarrow> c \<in> set (db_credentials d) \<Longrightarrow> cd_id c = i \<Longrightarrow> cd_userId c = u"
  by (auto simp: own_execution_def own_credential_def foreign_selected)

named_theorems spare_intros \<open>writes that spare the rows of the other users\<close>

lemma spares_unrelated [spare_intros]:
  "spares u id d (create_outbox ck k d)" "spares u id d (create_event e d)" "spares u id d (create_competition_row c d)"
  "spares u id d (create_round_row r d)" "spares u id d (create_competition_problem x d)" "spares u id d (delete_rounds_of i d)"
  "spares u id d (reserve_scope hm cfg ck sl d)" "spares u id d (consumeWriteQuota ck v d)"
  by (auto simp: keeps_def create_outbox_def create_event_def create_competition_row_def create_round_row_def
      create_competition_problem_def delete_rounds_of_def reserve_scope_def consumeWriteQuota_def result_simps Let_def
      split: if_splits)

lemma spares_own_rows [spare_intros]:
  "(\<And>x. us_id (f x) = us_id x) \<Longrightarrow> spares u id d (update_user u f d)"
  "rg_userId r = u \<Longrightarrow> spares u id d (create_registration r d)"
  "nt_userId n = u \<Longrightarrow> spares u id d (insert_notification n d)"
  "dp_authorId p = u \<Longrightarrow> spares u id d (create_post p d)"
  "rp_reporterId q = u \<Longrightarrow> spares u id d (create_report q d)"
  "ex_userId e = u \<Longrightarrow> spares u id d (create_execution_row e d)"
  by (auto simp: keeps_def put_user_def create_registration_def insert_notification_def create_post_def create_report_def
      create_execution_row_def result_simps foreign_tables filter_update_by split: if_splits)

lemma spares_update_credential [spare_intros]:
  assumes "own_credential u d i" and "\<And>c. cd_userId (f c) = cd_userId c"
  shows "spares u id d (update_credential i f d)"
proof -
  have "filter (\<lambda>x. cd_userId x \<noteq> u) (update_by cd_id i f (db_credentials d)) = filter (\<lambda>x. cd_userId x \<noteq> u) (db_credentials d)"
    using assms by (intro filter_update_by) (auto dest: ownD)
  then show ?thesis
    by (auto simp: keeps_def update_credential_def foreign_tables split: option.splits if_splits)
qed

lemma spares_update_execution [spare_intros]:
  assumes "own_execution u d i" and "\<And>r. ex_userId (f r) = ex_userId r"
  shows "spares u id d (update_execution ck i f d)"
proof -
  have "filter (\<lambda>x. ex_userId x \<noteq> u) (update_by ex_id i f (db_executions d)) = filter (\<lambda>x. ex_userId x \<noteq> u) (db_executions d)"
    using assms by (intro filter_update_by) (auto dest: ownD)
  then show ?thesis
    by (auto simp: keeps_def update_execution_def put_execution_def foreign_tables split: option.splits if_splits)
qed

lemma spares_revoke:
  "(\<And>s. s \<in> set (db_sessions d) \<Longrightarrow> P s \<Longrightarrow> se_userId s = u) \<Longrightarrow> foreign u (revoke_sessions now P d) = foreign u d"
  unfolding revoke_sessions_def foreign_tables by (rule filter_map_outside) simp

lemma spares_event [spare_intros]: "spares u snd d (event env ck row flds d)"
proof -
  have "spares u id d (create_event e d)" for e by (rule spare_intros)
  then show ?thesis by (auto simp: keeps_def event_def result_simps Let_def split: if_splits)
qed

lemma spares_notifyExecution [spare_intros]:
  assumes "own_execution u d (ex_id row)"
  shows "spares u id d (notifyExecution env ck row v d)"
proof -
  have own: "find_execution d (ex_id row) = Some e \<Longrightarrow> ex_userId e = u" for e
    using assms by (auto simp: find_execution_def dest!: find_by_Some dest: ownD)
  then show ?thesis
    unfolding notifyExecution_def create_execution_result_notification_def
    by (auto simp: result_notification_def own split: option.splits prod.splits intro!: frame_intros spare_intros)
qed

lemma spares_terminal [spare_intros]:
  assumes "own_execution u d (ex_id row)"
  shows "spares u id d (terminal env ck row st fc d)"
  unfolding terminal_def
  by (auto simp: assms [unfolded own_execution_def] own_execution_def terminal_row_def split: prod.splits intro!: frame_intros spare_intros)

section \<open>No operation touches the rows of another user\<close>

lemma account_writes_spare:
  "spares u id d (updateSettings u i d)"
  "foreign u (snd (revokeOtherSessions now u sid d)) = foreign u d"
  "foreign u (end_other_sessions now u sid d) = foreign u d"
  "foreign u (snd (markAllRead now u d)) = foreign u d"
  unfolding updateSettings_def
  by (auto simp: revokeOtherSessions_def end_other_sessions_def Let_def markAllRead_def mark_rows_def foreign_tables
      apply_settings_def intro!: frame_intros spare_intros spares_revoke filter_map_outside)

lemma revokeSession_spares:
  assumes "distinct (map se_id (db_sessions d))"
  shows "spares u snd d (revokeSession now u sid i d)"
proof (cases "\<exists>s \<in> set (db_sessions d). se_id s = i \<and> se_userId s = u \<and> se_revokedAt s = None")
  case True
  then have "\<And>s. s \<in> set (db_sessions d) \<Longrightarrow> se_id s = i \<Longrightarrow> se_userId s = u"
    using assms by (metis find_by_distinct option.inject)
  then show ?thesis by (auto simp: revokeSession_def keeps_def spares_revoke)
qed (simp add: revokeSession_def keeps_def)

lemma credential_writes_spare:
  assumes "distinct (map cd_id (db_credentials d))"
  shows "spares u id d (changePassword pe now salt u sid old new d)"
    "spares u snd d (changeEmail pe now u sid old email d)"
proof -
  have own: "credential_of u d = Some c \<Longrightarrow> own_credential u d (cd_id c)" for c
    using assms by (auto simp: credential_of_def own_credential_def foreign_selected dest!: find_by_Some)
      (metis find_by_distinct option.inject)
  show "spares u id d (changePassword pe now salt u sid old new d)"
    unfolding changePassword_def
    by (auto simp: account_writes_spare own intro!: frame_intros spare_intros)
  show "spares u snd d (changeEmail pe now u sid old email d)"
    unfolding changeEmail_def
    by (auto simp: account_writes_spare own Let_def intro!: frame_intros spare_intros)
qed

lemma deactivate_spares: "spares u id d (deactivate pe now sfx u pw d)"
proof -
  have "foreign u (forget_user now u d) = foreign u d"
  proof -
    let ?R = "\<lambda>s. se_userId s = u \<and> se_revokedAt s = None"
    have "filter (\<lambda>x. se_userId x \<noteq> u) (map (\<lambda>s. if ?R s then s\<lparr>se_revokedAt := Some now\<rparr> else s) (db_sessions d)) =
        filter (\<lambda>x. se_userId x \<noteq> u) (db_sessions d)" by (rule filter_map_outside) simp
    then show ?thesis unfolding forget_user_def foreign_def revoke_sessions_def by simp
  qed
  then have "spares u id d (update_user u f (forget_user now u d))" if "\<And>x. us_id (f x) = us_id x" for f
    using spares_own_rows(1) [OF that, of u "forget_user now u d"] by (simp add: keeps_def)
  then show ?thesis
    unfolding deactivate_def by (auto simp: anonymous_user_def intro!: frame_intros)
qed

lemma discussion_writes_spare:
  "spares u snd d (create_discussion ck i slug u t b d)"
  "spares u snd d (create_reply ck i q u b d)"
  "spares u snd d (report_post ck i q u rs x d)"
  unfolding create_discussion_def create_reply_def report_post_def write_post_def
  by (auto simp: new_post_def new_report_def Let_def intro!: frame_intros spare_intros)

lemma like_spares: "spares u snd d (like_post i u liked d)"
  by (auto simp: keeps_def like_post_def Let_def foreign_tables split: if_splits intro!: filter_cong)

lemma markRead_spares: "spares u snd d (markRead now u i d)"
proof -
  have "foreign u (snd (mark_rows now (\<lambda>n. nt_id n = i \<and> nt_userId n = u \<and> nt_readAt n = None) d)) = foreign u d"
    by (auto simp: mark_rows_def foreign_tables intro!: filter_map_outside)
  then show ?thesis by (auto simp: keeps_def markRead_def split: prod.splits if_splits option.splits)
qed

lemma create_rounds_spares [spare_intros]: "spares u id d (create_rounds c ps is rs d)"
  unfolding create_rounds_def create_round_def
  by (auto split: prod.splits intro!: frame_intros spare_intros)

lemma rewritten_rounds_spare [spare_intros]: "spares u id d (create_rounds c ps is rs (put_competition i f d))"
  using create_rounds_spares [of u "put_competition i f d" c ps "is" rs] by (simp add: keeps_def)

lemma competition_writes_spare:
  "spares u snd d (create_competition ck i is u x d)"
  "spares u snd d (update_competition ck is u role slug x d)"
  unfolding create_competition_def update_competition_def Let_def
  by (auto intro!: frame_intros spare_intros)

lemma register_spares: "spares u snd d (register ck i u slug d)"
proof -
  have "spares u snd d (upsert_registration ck c u d)" for c
    unfolding upsert_registration_def Let_def by (auto intro!: frame_intros spare_intros)
  then show ?thesis
    unfolding register_def
    by (auto simp: registration_notification_def split: prod.splits intro!: frame_intros spare_intros)
qed

lemma profile_spares: "foreign u (snd (update_profile now u i d)) = foreign u d"
proof -
  have "spares u id d (commit_profile u i d)"
    unfolding commit_profile_def by (auto simp: profile_data_def intro!: frame_intros spare_intros)
  then show ?thesis
    by (auto simp: update_profile_def keeps_def split: sum.splits option.splits)
qed

lemma insert_execution_spares [spare_intros]:
  assumes "ex_userId row = u"
  shows "spares u id d (insert_execution env ck row d)"
proof (cases "ex_id row \<in> ex_id ` set (db_executions d)")
  case True
  then have "create_execution_row row d \<noteq> Inr d1" for d1
    by (auto simp: create_execution_row_def result_simps)
  then show ?thesis by (auto simp: insert_execution_def keeps_def bind_result_Inr)
next
  case False
  then have "ex_id row \<notin> ex_id ` set (db_executions (foreign u d))" by (auto simp: foreign_selected)
  then show ?thesis
    unfolding insert_execution_def
    by (auto simp: assms own_execution_def split: prod.splits intro!: frame_intros spare_intros)
qed

lemma create_spares: "spares u snd d (create env cfg cr ck i u input key ip d)"
proof -
  have "spares u id d (reserve (hmac cr) cfg ck u ip d)"
    unfolding reserve_def by (auto intro!: frame_intros spare_intros)
  then show ?thesis
    unfolding create_def
    by (auto simp: new_execution_def intro!: frame_intros spare_intros)
qed

lemma post_execution_spares:
  "spares u snd d (post_execution env cfg cr ck i u body key ip d)"
  unfolding post_execution_def
  by (auto intro!: frame_intros create_spares keeps_check [where 'm = string])

lemma cancel_spares:
  assumes "distinct (map ex_id (db_executions d))"
  shows "spares u snd d (cancel_execution env cfg ck u i d)"
proof -
  consider "locked d i = None" | row where "locked d i = Some row" "ex_userId row \<noteq> u"
    | row where "locked d i = Some row" "ex_userId row = u" by (cases "locked d i") auto
  then show ?thesis
  proof cases
    case (3 row)
    have row: "ex_id row = i" "row \<in> set (db_executions d)"
      using 3 by (auto simp: locked_def find_execution_def dest!: find_by_Some)
    then have own: "i \<notin> ex_id ` set (db_executions (foreign u d))"
      using assms 3(2) by (auto simp: foreign_selected) (metis find_by_distinct option.inject)
    show ?thesis
      unfolding cancel_execution_def cancel_def Let_def
      by (simp only: 3 option.case) (auto simp: own own_execution_def row 3 intro!: frame_intros spare_intros)
  qed (simp_all add: cancel_execution_def cancel_def keeps_Inl)
qed

lemma logout_spares:
  assumes "distinct (map se_id (db_sessions d))" and "s \<in> set (db_sessions d)" and "se_id s = pn_sessionId p"
    and "se_userId s = pn_userId p"
  shows "spares (pn_userId p) id d (logout now p d)"
proof -
  have "\<And>t. t \<in> set (db_sessions d) \<Longrightarrow> se_id t = pn_sessionId p \<Longrightarrow> se_userId t = pn_userId p"
    using assms by (metis find_by_distinct option.inject)
  then show ?thesis by (auto simp: logout_def keeps_def spares_revoke)
qed

section \<open>Isolation\<close>

definition primary_keys :: "db \<Rightarrow> bool" where
  "primary_keys d \<longleftrightarrow>
     distinct (map se_id (db_sessions d)) \<and> distinct (map cd_id (db_credentials d)) \<and> distinct (map ex_id (db_executions d))"

lemma commits_spares: "spares u state d r \<Longrightarrow> foreign u (snd (commits state r d)) = foreign u d"
  by (auto simp: commits_def keeps_def split: sum.splits)

lemma user_write_spares:
  assumes "primary_keys d" and "s \<in> set (db_sessions d)" and "se_id s = pn_sessionId p" and "se_userId s = pn_userId p"
  shows "foreign (pn_userId p) (snd (user_write_run ap rq p w d)) = foreign (pn_userId p) d"
proof (cases w)
  case (AccountWrite x)
  with assms show ?thesis
    by (cases x) (simp_all add: primary_keys_def account_writes_spare commits_spares revokeSession_spares
        credential_writes_spare deactivate_spares)
next
  case (DiscussionWrite x)
  then show ?thesis by (cases x) (simp_all add: commits_spares discussion_writes_spare like_spares)
next
  case (NotificationWrite x)
  then show ?thesis by (cases x) (simp_all add: commits_spares account_writes_spare markRead_spares)
next
  case (CompetitionWrite x)
  then show ?thesis by (cases x) (simp_all add: commits_spares competition_writes_spare register_spares)
next
  case (PatchProfile x)
  then show ?thesis using profile_spares by (simp add: patch_profile_def split: prod.splits) (metis snd_conv)
next
  case (ExecutionWrite x)
  with assms show ?thesis
    by (cases x) (simp_all add: primary_keys_def commits_spares post_execution_spares cancel_spares)
next
  case Logout
  with assms show ?thesis by (simp add: primary_keys_def commits_spares logout_spares)
qed

lemma user_write_unsafe: "\<not> safe_method (user_write_method w)"
proof (cases w)
  case (AccountWrite x)
  then show ?thesis by (cases x) (simp_all add: safe_method_def)
next
  case (DiscussionWrite x)
  then show ?thesis by (cases x) (simp_all add: safe_method_def)
next
  case (CompetitionWrite x)
  then show ?thesis by (cases x) (simp_all add: safe_method_def)
qed (simp_all add: safe_method_def)

lemma restricted_writes:
  assumes "user_write_restricted w"
  shows "w = Logout \<or> (\<exists>c pw. w = AccountWrite (Deactivate c pw))"
proof (cases w)
  case (AccountWrite x)
  with assms show ?thesis by (cases x) simp_all
qed (use assms in simp_all)


end
