(* ===== verification/ReadRoutes.thy ===== *)
theory ReadRoutes
  imports UserRoutes
begin

text \<open>
  The routes that read: what everyone sees, and what a signed-in user sees of their own. The views of a
  competition's organizer need its owner or an administrator. No read changes the database, so a route is
  its view or its refusal.
\<close>

section \<open>Public routes\<close>

datatype public_page =
    PageProblems "summary_item list \<times> uuid option"
  | PageProblem problem_page
  | PagePosts "post_view list \<times> uuid option"
  | PageCompetitions "competition_item list"
  | PageCompetition competition_view
  | PageRanking "(nat \<times> leaderboard_entry) list"
  | PageProfile public_profile
  | PageLeaderboard "rank_item list \<times> uuid option"

definition when_valid :: "bool \<Rightarrow> 'a result \<Rightarrow> 'a result" where
  "when_valid ok r = bind_result (validate (if ok then Some () else None)) (\<lambda>_. r)"

text \<open>\<open>problemQuerySchema\<close> after its trimming.\<close>

definition problemQuerySchema :: "(string \<Rightarrow> bool) \<Rightarrow> problem_query \<Rightarrow> bool" where
  "problemQuerySchema uuid q \<longleftrightarrow> opt_all uuid (pq_cursor q) \<and> opt_all (trimmed_text 0 100) (pq_search q)"

datatype problem_read = GetProblems problem_query | GetProblem string

fun problem_read_run :: "user_api \<Rightarrow> (jsstr \<Rightarrow> jsstr) \<Rightarrow> problem_read \<Rightarrow> db \<Rightarrow> public_page result" where
  "problem_read_run ap lower (GetProblems q) d =
     when_valid (problemQuerySchema (ap_uuid ap) q) (Inr (PageProblems (list_problems (ap_ilike ap) lower q d)))"
| "problem_read_run ap lower (GetProblem s) d = when_valid (slug_ok s) (map_result PageProblem (problem_detail s d))"

datatype discussion_read = GetDiscussions string "uuid option" | GetReplies uuid "uuid option"

fun discussion_read_run :: "user_api \<Rightarrow> discussion_read \<Rightarrow> db \<Rightarrow> public_page result" where
  "discussion_read_run ap (GetDiscussions s c) d =
     when_valid (slug_ok s \<and> opt_all (ap_uuid ap) c) (map_result PagePosts (list_discussions s d c))"
| "discussion_read_run ap (GetReplies i c) d =
     when_valid (ap_uuid ap i \<and> opt_all (ap_uuid ap) c) (map_result PagePosts (replies i d c))"

datatype competition_read =
    GetCompetitions "competitionKind option"
  | GetCompetition string
  | GetCompetitionLeaderboard string

fun competition_read_run :: "user_api \<Rightarrow> competition_read \<Rightarrow> db \<Rightarrow> public_page result" where
  "competition_read_run ap (GetCompetitions k) d = Inr (PageCompetitions (list_competitions (ap_now ap) k d))"
| "competition_read_run ap (GetCompetition s) d =
     when_valid (slug_ok s) (map_result PageCompetition (competition_detail (ap_now ap) s d))"
| "competition_read_run ap (GetCompetitionLeaderboard s) d =
     when_valid (slug_ok s) (map_result PageRanking (competition_leaderboard s d))"

datatype profile_read = GetProfile jsstr | GetLeaderboard "uuid option"

fun profile_read_run :: "user_api \<Rightarrow> profile_read \<Rightarrow> db \<Rightarrow> public_page result" where
  "profile_read_run ap (GetProfile name) d =
     bind_result (validate (usernameSchema name)) (\<lambda>u. map_result PageProfile (publicProfile (ap_now ap) u False d))"
| "profile_read_run ap (GetLeaderboard c) d =
     when_valid (opt_all (ap_uuid ap) c) (map_result PageLeaderboard (leaderboard d c))"

section \<open>Routes of a signed-in user\<close>

datatype user_page =
    PageSettings account_settings
  | PageSessions "session_item list"
  | PageNotifications "(notification list \<times> uuid option) \<times> nat"
  | PageUnreadCount nat
  | PageReports "report_entry list"
  | PageMine "(managed_item \<times> competition_status) list"
  | PageManagement management_view
  | PageManagedRanking "(nat \<times> leaderboard_entry) list"
  | PageRegistrations "(string \<times> jsstr \<times> millis) list"
  | PageCompetitionSubmissions "contest_submission list"
  | PageRegistration "millis option"
  | PageOwnProfile public_profile
  | PageExecution snapshot
  | PageSubmissions "submission list \<times> uuid option"

datatype account_read = GetSettings | GetSessions

fun account_read_run :: "user_api \<Rightarrow> principal \<Rightarrow> account_read \<Rightarrow> db \<Rightarrow> user_page result" where
  "account_read_run ap p GetSettings d = map_result PageSettings (settings (pn_userId p) d)"
| "account_read_run ap p GetSessions d = Inr (PageSessions (sessions (ap_now ap) (pn_userId p) (pn_sessionId p) d))"

datatype notification_read = GetNotifications "uuid option" | GetUnreadCount

fun notification_read_run :: "user_api \<Rightarrow> principal \<Rightarrow> notification_read \<Rightarrow> db \<Rightarrow> user_page result" where
  "notification_read_run ap p (GetNotifications c) d =
     when_valid (opt_all (ap_uuid ap) c) (map_result PageNotifications (list_notifications (pn_userId p) d c))"
| "notification_read_run ap p GetUnreadCount d = Inr (PageUnreadCount (unreadCount (pn_userId p) d))"

datatype organizer_read =
    GetMine
  | GetManagement string
  | GetManagedLeaderboard string
  | GetRegistrations string
  | GetCompetitionSubmissions string
  | GetRegistration string

fun organizer_read_run :: "user_api \<Rightarrow> principal \<Rightarrow> organizer_read \<Rightarrow> db \<Rightarrow> user_page result" where
  "organizer_read_run ap p GetMine d = Inr (PageMine (mine (ap_now ap) (pn_userId p) d))"
| "organizer_read_run ap p (GetManagement s) d =
     when_valid (slug_ok s) (map_result PageManagement (management (ap_now ap) (pn_userId p) (pn_role p) s d))"
| "organizer_read_run ap p (GetManagedLeaderboard s) d =
     when_valid (slug_ok s) (map_result PageManagedRanking (managedLeaderboard (pn_userId p) (pn_role p) s d))"
| "organizer_read_run ap p (GetRegistrations s) d =
     when_valid (slug_ok s) (map_result PageRegistrations (registrations (pn_userId p) (pn_role p) s d))"
| "organizer_read_run ap p (GetCompetitionSubmissions s) d =
     when_valid (slug_ok s) (map_result PageCompetitionSubmissions (competition_submissions (pn_userId p) (pn_role p) s d))"
| "organizer_read_run ap p (GetRegistration s) d =
     when_valid (slug_ok s) (map_result PageRegistration (registration_status (pn_userId p) s d))"

datatype execution_read = GetExecution uuid | GetSubmissions "uuid option" "uuid option"

fun execution_read_run :: "user_api \<Rightarrow> principal \<Rightarrow> execution_read \<Rightarrow> db \<Rightarrow> user_page result" where
  "execution_read_run ap p (GetExecution i) d =
     when_valid (ap_uuid ap i) (map_result PageExecution (snapshot_of (pn_userId p) i d))"
| "execution_read_run ap p (GetSubmissions problemId c) d =
     when_valid (opt_all (ap_uuid ap) problemId \<and> opt_all (ap_uuid ap) c)
       (map_result PageSubmissions (history (pn_userId p) problemId d c))"

datatype user_read =
    AccountRead account_read
  | NotificationRead notification_read
  | GetReports
  | OrganizerRead organizer_read
  | GetOwnProfile
  | ExecutionRead execution_read

fun user_read_run :: "user_api \<Rightarrow> principal \<Rightarrow> user_read \<Rightarrow> db \<Rightarrow> user_page result" where
  "user_read_run ap p (AccountRead r) d = account_read_run ap p r d"
| "user_read_run ap p (NotificationRead r) d = notification_read_run ap p r d"
| "user_read_run ap p GetReports d = Inr (PageReports (reports_mine (pn_userId p) d))"
| "user_read_run ap p (OrganizerRead r) d = organizer_read_run ap p r d"
| "user_read_run ap p GetOwnProfile d = map_result PageOwnProfile (own_profile (ap_now ap) (pn_userId p) d)"
| "user_read_run ap p (ExecutionRead r) d = execution_read_run ap p r d"

definition user_read_route :: "user_api \<Rightarrow> http \<Rightarrow> user_read \<Rightarrow> db \<Rightarrow> user_page result" where
  "user_read_route ap rq r d =
     (if rq_method rq \<noteq> ''GET'' then Inl NOT_FOUND
      else bind_result (guarded ap False [] rq d) (\<lambda>p. user_read_run ap p r d))"

text \<open>\<open>GET /me\<close> tells who is signed in and never refuses.\<close>

definition get_me :: "user_api \<Rightarrow> http \<Rightarrow> db \<Rightarrow> principal option" where
  "get_me ap rq d = resolve (ap_crypto ap) (ap_values ap) rq (ap_now ap) d"

section \<open>What a reader may see\<close>

fun organizer_slug :: "organizer_read \<Rightarrow> string option" where
  "organizer_slug (GetManagement s) = Some s"
| "organizer_slug (GetManagedLeaderboard s) = Some s"
| "organizer_slug (GetRegistrations s) = Some s"
| "organizer_slug (GetCompetitionSubmissions s) = Some s"
| "organizer_slug _ = None"

lemma managed_Inr [result_simps]:
  "managed u role slug d = Inr c \<longleftrightarrow>
     find_by co_slug slug (db_competitions d) = Some c \<and> (role = ADMIN \<or> co_ownerId c = Some u)"
  by (auto simp: managed_def split: option.splits)

lemma when_valid_Inr [result_simps]: "when_valid ok r = Inr x \<longleftrightarrow> ok \<and> r = Inr x"
  by (auto simp: when_valid_def result_simps)

lemma guard_principal:
  assumes "guarded ap allow roles rq d = Inr p"
  shows "\<exists>s u. s \<in> set (db_sessions d) \<and> u \<in> set (db_users d) \<and> se_userId s = us_id u \<and>
    session_live (ap_now ap) s \<and> us_deactivatedAt u = None \<and> pn_userId p = us_id u \<and> pn_role p = us_role u"
proof -
  from assms have "resolve (ap_crypto ap) (ap_values ap) rq (ap_now ap) d = Some p"
    by (auto simp: guarded_def result_simps SessionGuard_canActivate_def split: option.splits restriction.splits if_splits)
  then obtain token s u where "find_session d (hash_token (ap_crypto ap) token) = Some s"
    "find_user d (se_userId s) = Some u" "session_live (ap_now ap) s" "us_deactivatedAt u = None"
    "p = principal_of (ap_crypto ap) (ap_now ap) token s u" by (rule resolve_Some) blast
  then show ?thesis
    by (auto simp: find_session_def find_user_def principal_of_def dest!: find_by_Some intro!: exI [of _ s] exI [of _ u])
qed

text \<open>The views of an organizer are shown to the owner of the competition and to administrators only.\<close>

lemma organizer_views_restricted:
  assumes "user_read_route ap rq (OrganizerRead r) d = Inr view" and "organizer_slug r = Some slug"
  shows "\<exists>s u c. s \<in> set (db_sessions d) \<and> u \<in> set (db_users d) \<and> se_userId s = us_id u \<and>
    session_live (ap_now ap) s \<and> us_deactivatedAt u = None \<and> c \<in> set (db_competitions d) \<and> co_slug c = slug \<and>
    (us_role u = ADMIN \<or> co_ownerId c = Some (us_id u))"
proof -
  from assms(1) obtain p where p: "guarded ap False [] rq d = Inr p" and run: "organizer_read_run ap p r d = Inr view"
    by (auto simp: user_read_route_def result_simps split: if_splits)
  from run assms(2) obtain c where "managed (pn_userId p) (pn_role p) slug d = Inr c"
    by (cases r) (auto simp: management_def managedLeaderboard_def registrations_def competition_submissions_def
        when_valid_def map_result_Inr bind_result_Inr)
  then have "c \<in> set (db_competitions d)" "co_slug c = slug" "pn_role p = ADMIN \<or> co_ownerId c = Some (pn_userId p)"
    by (auto simp: managed_Inr dest!: find_by_Some)
  with guard_principal [OF p] show ?thesis by metis
qed

text \<open>An execution is shown to the user who submitted it.\<close>

lemma execution_view_own:
  assumes "user_read_route ap rq (ExecutionRead (GetExecution i)) d = Inr view"
  shows "\<exists>u e. u \<in> set (db_users d) \<and> e \<in> set (db_executions d) \<and> ex_id e = i \<and> ex_userId e = us_id u"
proof -
  from assms obtain p x where p: "guarded ap False [] rq d = Inr p" and x: "snapshot_of (pn_userId p) i d = Inr x"
    by (auto simp: user_read_route_def result_simps split: if_splits)
  from x obtain e where "e \<in> set (db_executions d)" "ex_id e = i" "ex_userId e = pn_userId p"
    by (auto simp: snapshot_of_def find_Some_iff split: option.splits) (metis nth_mem)
  with guard_principal [OF p] show ?thesis by metis
qed

end
