(* ===== verification/AuthRoutes.thy ===== *)
theory AuthRoutes
  imports ReadRoutes
begin

text \<open>
  The routes of sign-in (\<open>AuthController\<close> of \<open>apps/api/src/auth/auth.controller.ts\<close>): the schemas of their
  inputs, the cookies they set, and what a browser that returns the cookie of its sign-in is let in as.
\<close>

section \<open>Cookies\<close>

text \<open>The attributes given to \<open>serialize\<close>; \<open>SameSite\<close> is \<open>lax\<close> and the path \<open>/\<close> in every one of them.\<close>

record cookie =
  ko_name :: string
  ko_value :: string
  ko_httpOnly :: bool
  ko_secure :: bool
  ko_maxAge :: int
  ko_expires :: "millis option"

definition set_cookie :: "env_values \<Rightarrow> string \<Rightarrow> string \<Rightarrow> int \<Rightarrow> millis option \<Rightarrow> cookie" where
  "set_cookie v name token maxAge expires =
     \<lparr>ko_name = name, ko_value = token, ko_httpOnly = True, ko_secure = secureCookies v, ko_maxAge = maxAge,
      ko_expires = expires\<rparr>"

definition session_cookie :: "env_values \<Rightarrow> issued \<Rightarrow> cookie" where
  "session_cookie v s = set_cookie v (cookieName v) (is_token s) (cf_SESSION_TTL_SECONDS v) (Some (is_expiresAt s))"

definition login_cookie :: "env_values \<Rightarrow> string \<Rightarrow> cookie" where
  "login_cookie v browserToken = set_cookie v (loginCookieName v) browserToken LOGIN_TTL_SECONDS None"

definition cleared_cookie :: "env_values \<Rightarrow> string \<Rightarrow> cookie" where
  "cleared_cookie v name = set_cookie v name '''' 0 None"

section \<open>Schemas\<close>

definition email_ok :: "(string \<Rightarrow> bool) \<Rightarrow> string \<Rightarrow> bool" where
  "email_ok email s \<longleftrightarrow> email (normal_email s) \<and> length (normal_email s) \<le> 254"

text \<open>Two to 120 code units without control characters.\<close>

definition displayName_ok :: "jsstr \<Rightarrow> bool" where
  "displayName_ok s \<longleftrightarrow>
     2 \<le> length (js_trim s) \<and> length (js_trim s) \<le> 120 \<and> list_all (\<lambda>u. 32 \<le> u \<and> u \<noteq> 127) (js_trim s)"

definition registerSchema :: "(string \<Rightarrow> bool) \<Rightarrow> registration_input \<Rightarrow> bool" where
  "registerSchema email ri \<longleftrightarrow>
     email_ok email (ri_email ri) \<and> password_ok (ri_password ri) \<and> displayName_ok (ri_displayName ri) \<and>
     usernameSchema (js (ri_username ri)) \<noteq> None"

record callback_query =
  cq_state :: string
  cq_code :: "string option"
  cq_error :: "string option"
  cq_error_description :: "jsstr option"
  cq_error_uri :: "jsstr option"
  cq_iss :: "jsstr option"
  cq_session_state :: "jsstr option"

definition callbackSchema :: "callback_query \<Rightarrow> bool" where
  "callbackSchema q \<longleftrightarrow>
     validToken (cq_state q) \<and> opt_all (\<lambda>s. 1 \<le> length s \<and> length s \<le> 2048) (cq_code q) \<and>
     opt_all (\<lambda>s. 1 \<le> length s \<and> length s \<le> 100) (cq_error q) \<and> opt_all (\<lambda>s. length s \<le> 512) (cq_error_description q) \<and>
     opt_all (\<lambda>s. length s \<le> 512) (cq_error_uri q) \<and> opt_all (\<lambda>s. length s \<le> 2048) (cq_iss q) \<and>
     opt_all (\<lambda>s. length s \<le> 512) (cq_session_state q) \<and> (cq_code q \<noteq> None) \<noteq> (cq_error q \<noteq> None)"

section \<open>Routes\<close>

definition INVALID_REQUEST :: error where
  "INVALID_REQUEST = ApiError 400 ''INVALID_REQUEST'' None"

definition map_stored :: "('a \<Rightarrow> 'b) \<Rightarrow> 'a stored \<Rightarrow> 'b stored" where
  "map_stored f r = (map_result f (fst r), snd r)"

definition get_login ::
    "auth_crypto \<Rightarrow> cipher \<Rightarrow> platform \<Rightarrow> env_values \<Rightarrow> idp \<Rightarrow> clock \<Rightarrow> http \<Rightarrow> login_tokens \<Rightarrow> provider option \<Rightarrow> jsstr option \<Rightarrow> db \<Rightarrow> cookie stored"
  where
  "get_login cr ci pf v ip ck rq lt p returnTo d =
     (if \<not> opt_all return_path returnTo then (Inl INVALID_REQUEST, d)
      else map_stored (login_cookie v)
        (begin_login cr ci pf v ip ck rq lt (or_else p Auth0) (or_else returnTo (js ''/problems'')) d))"

definition post_register ::
    "auth_crypto \<Rightarrow> password_env \<Rightarrow> (string \<Rightarrow> bool) \<Rightarrow> env_values \<Rightarrow> clock \<Rightarrow> http \<Rightarrow> fresh_ids \<Rightarrow> uuid \<Rightarrow> bytes \<Rightarrow> registration_input \<Rightarrow> db \<Rightarrow> cookie stored"
  where
  "post_register cr pe email v ck rq fr credentialId salt ri d =
     (if \<not> registerSchema email ri then (Inl INVALID_REQUEST, d)
      else map_stored (session_cookie v) (register_password cr pe v ck rq fr credentialId salt ri d))"

definition post_password ::
    "auth_crypto \<Rightarrow> password_env \<Rightarrow> (string \<Rightarrow> bool) \<Rightarrow> env_values \<Rightarrow> clock \<Rightarrow> http \<Rightarrow> fresh_ids \<Rightarrow> string \<Rightarrow> jsstr \<Rightarrow> db \<Rightarrow> cookie stored"
  where
  "post_password cr pe email v ck rq fr addr password d =
     (if \<not> (email_ok email addr \<and> password_ok password) then (Inl INVALID_REQUEST, d)
      else map_stored (session_cookie v) (authenticate_password cr pe v ck rq fr addr password d))"

text \<open>Where the browser is sent, and the cookies it gets: the session for the login cookie, or none for it.\<close>

fun callback_cookies :: "env_values \<Rightarrow> callback_reply \<Rightarrow> cookie list \<times> jsstr" where
  "callback_cookies v (SignedIn s location) = ([session_cookie v s, cleared_cookie v (loginCookieName v)], location)"
| "callback_cookies v ProviderRefused =
     ([cleared_cookie v (loginCookieName v)], js (cf_PUBLIC_ORIGIN v @ ''/sign-in?authError=provider''))"

definition get_callback ::
    "auth_crypto \<Rightarrow> cipher \<Rightarrow> platform \<Rightarrow> env_values \<Rightarrow> idp \<Rightarrow> clock \<Rightarrow> http \<Rightarrow> fresh_ids \<Rightarrow> nat \<Rightarrow> callback_query \<Rightarrow> db \<Rightarrow> (cookie list \<times> jsstr) stored"
  where
  "get_callback cr ci pf v ip ck rq fr urlLength q d =
     (if 4096 < urlLength \<or> \<not> callbackSchema q then (Inl INVALID_REQUEST, d)
      else map_stored (callback_cookies v)
        (auth_callback cr ci pf v ip ck rq fr \<lparr>cb_state = cq_state q, cb_code = cq_code q\<rparr> (cq_error q \<noteq> None) d))"

section \<open>A sign-in is accepted by the guard\<close>

lemma find_new_session:
  assumes "persistSession cr v ck rq i u action ss e d = Inr d'"
  shows "find_session d' (ss_tokenHash ss) = Some (new_session ck i u ss e) \<and> db_users d' = db_users d"
proof -
  let ?s = "new_session ck i u ss e"
  have "\<exists>d3. persistSession cr v ck rq i u action ss e d = map_result (audit u action u) (create_session ?s d3) \<and>
      db_users d3 = db_users d"
    unfolding persistSession_def Let_def
    by (intro exI conjI, rule refl) (simp add: revoke_sessions_def drop_expired_sessions_def split: option.splits)
  then obtain d3 where "map_result (audit u action u) (create_session ?s d3) = Inr d'" and "db_users d3 = db_users d"
    using assms by auto
  then have d3: "se_tokenHash ?s \<notin> se_tokenHash ` set (db_sessions d3)"
    "d' = audit u action u (d3\<lparr>db_sessions := db_sessions d3 @ [?s]\<rparr>)" "db_users d3 = db_users d"
    by (auto simp: result_simps)
  have "find_by se_tokenHash (ss_tokenHash ss) (db_sessions d3) = None"
    using d3(1) by (simp add: find_by_None new_session_def)
  then show ?thesis
    using d3(2,3) by (simp add: find_session_def audit_def find_by_append table_simps) (simp add: new_session_def)
qed

lemma issued_session_accepted:
  assumes "issueUser cr v ck rq fr userId action d = Inr (x, d')" and "find_user d userId = Some u"
    and "us_deactivatedAt u = None" and "validToken (fr_token fr)"
    and "rq_cookies rq' (cookieName v) = Some (is_token x)" and "now < is_expiresAt x"
  shows "\<exists>p. resolve cr v rq' now d' = Some p \<and> pn_userId p = userId \<and> pn_restriction p = user_restriction now u \<and>
    pn_csrfTokenHash p = hash_token cr (csrf_mac cr (is_token x)) \<and> pn_role p = us_role u"
proof -
  have id: "us_id u = userId" using assms(2) by (auto simp: find_user_def dest!: find_by_Some)
  from assms(1,2) id obtain d'' where x: "x = issued_of v ck (fr_token fr)"
    and ps: "persistSession cr v ck rq (fr_sessionId fr) userId action (newSessionSecrets cr (fr_token fr)) (session_end v ck) d = Inr d'"
    by (auto simp: issueUser_def result_simps)
  from find_new_session [OF ps]
  have s: "find_session d' (hash_token cr (fr_token fr)) =
      Some (new_session ck (fr_sessionId fr) userId (newSessionSecrets cr (fr_token fr)) (session_end v ck))"
    and users: "find_user d' userId = Some u"
    using assms(2) by (simp_all add: newSessionSecrets_def find_user_def)
  show ?thesis
    using assms(3-6) users
    by (simp add: resolve_def x issued_of_def s new_session_def session_live_def principal_of_def newSessionSecrets_def)
qed

lemma password_signs_in:
  assumes "authenticate_password cr pe v ck rq fr addr password d = (Inr x, d')"
  shows "\<exists>d1 c. find_by cd_email (normal_email addr) (db_credentials d1) = Some c \<and>
    db_users d1 = db_users d \<and> db_credentials d1 = db_credentials d \<and>
    verifyPassword (pe_number pe) (pe_scrypt pe) password (Some (cd_passwordHash c)) \<and>
    issueUser cr v ck rq fr (cd_userId c) ''AUTH_PASSWORD_LOGIN'' d1 = Inr (x, d')"
proof -
  from assms obtain k d1 where d1: "protect cr v ck True rq d = (Inr k, d1)"
    by (auto simp: authenticate_password_def bind_stored_def split: sum.splits prod.splits)
  moreover from d1 have "db_users d1 = db_users d \<and> db_credentials d1 = db_credentials d"
    by (auto simp: protect_def login_limit_def bind_stored_def Let_def split: sum.splits if_splits prod.splits)
  ultimately show ?thesis
    using assms
    by (intro exI [of _ d1]) (auto simp: authenticate_password_def bind_stored_def transaction_def Let_def
        split: sum.splits if_splits option.splits prod.splits)
qed


end
