(* ===== verification/RouteScenario.thy ===== *)
theory RouteScenario
  imports ApiScenario AuthRoutes
begin

text \<open>
  Worked requests of the routes: an administrator who promotes a user, a user who changes a setting, and a
  sign-in with a password whose cookie is then used.
\<close>

section \<open>An administrator promotes a user\<close>

definition a_api :: api where
  "a_api = \<lparr>ap_crypto = a_crypto, ap_values = a_config, ap_uuid = (\<lambda>_. True), ap_ilike = (\<lambda>_ _. False),
     ap_clock = s_clock 1000, ap_fresh = (\<lambda>_. s_id)\<rparr>"

definition a_patch :: http where "a_patch = a_request\<lparr>rq_method := ''PATCH''\<rparr>"

definition a_members :: db where
  "a_members = a_signed\<lparr>db_users := db_users a_signed @ [a_user]\<rparr>"


section \<open>A user changes a setting\<close>

definition a_user_api :: user_api where
  "a_user_api = api.extend a_api
     \<lparr>ua_env = s_env, ua_config = s_cfg, ua_crypto = s_crypto, ua_password = a_password, ua_salt = a_salt,
      ua_random = a_token, ua_email = (\<lambda>_. True), ua_url = (\<lambda>_. None)\<rparr>"

definition a_settings :: settings_input where
  "a_settings = \<lparr>si_profileVisibility = Some PV_PRIVATE, si_themePreference = None, si_productNotifications = None,
     si_competitionNotifications = None\<rparr>"


section \<open>A sign-in with a password\<close>

definition a_credential :: credential where
  "a_credential = \<lparr>cd_id = s_id, cd_userId = s_user, cd_email = ''ada@example.org'',
     cd_passwordHash = hashPassword toy_scrypt a_salt (js ''correct horse'')\<rparr>"

definition a_account :: db where
  "a_account = a_base\<lparr>db_users := db_users a_base @ [a_user], db_credentials := [a_credential]\<rparr>"

definition a_cookie :: cookie where
  "a_cookie = session_cookie a_config \<lparr>is_token = a_token, is_expiresAt = 1000 + 28800000\<rparr>"

definition a_return :: http where
  "a_return = a_request\<lparr>rq_cookies := (\<lambda>n. if n = cookieName a_config then Some a_token else None)\<rparr>"

lemma a_verified:
  "verifyPassword (pe_number a_password) (pe_scrypt a_password) (js ''correct horse'') (Some (cd_passwordHash a_credential))"
proof -
  have "reads_decimals (pe_number a_password)" by (simp add: reads_decimals_def a_password_def)
  moreover have "length a_salt = 16" by (simp add: a_salt_def)
  moreover have "length (toy_scrypt (js ''correct horse'') a_salt) = scrypt_LENGTH"
    by (simp add: toy_scrypt_def scrypt_LENGTH_def)
  ultimately show ?thesis
    using verify_hashPassword [where scrypt = toy_scrypt] by (simp add: a_credential_def a_password_def)
qed

lemma a_issued_cookie:
  assumes "issueUser a_crypto a_config (s_clock 1000) a_request a_fresh s_user action d = Inr (x, d')"
  shows "session_cookie a_config x = a_cookie"
  using assms
  by (auto simp: issueUser_def result_simps issued_of_def a_cookie_def a_fresh_def session_end_def s_clock_def a_config_def
      split: option.splits)

lemma protect_limits: "protect cr v ck b rq d = (Inr k, d') \<Longrightarrow> \<exists>l. d' = d\<lparr>db_authLimits := l\<rparr>"
  by (auto simp: protect_def login_limit_def bind_stored_def Let_def split: sum.splits if_splits prod.splits)

lemma protect_cong:
  assumes "db_authLimits d = db_authLimits e"
  shows "fst (protect cr v ck b rq d) = fst (protect cr v ck b rq e)"
  using assms by (auto simp: protect_def login_limit_def bind_stored_def Let_def split: sum.splits)

lemma a_posted:
  "\<exists>d'. post_password a_crypto a_password (\<lambda>_. True) a_config (s_clock 1000) a_request a_fresh ''ada@example.org''
     (js ''correct horse'') a_account = (Inr a_cookie, d')"
proof -
  have "fst (protect a_crypto a_config (s_clock 1000) True a_request a_account) =
      fst (protect a_crypto a_config (s_clock 1000) True a_request a_base)"
    by (rule protect_cong) (simp add: a_account_def)
  moreover have "case fst (protect a_crypto a_config (s_clock 1000) True a_request a_base) of Inr _ \<Rightarrow> True | Inl _ \<Rightarrow> False"
    by code_simp
  ultimately obtain k d1 where "protect a_crypto a_config (s_clock 1000) True a_request a_account = (Inr k, d1)"
    by (cases "protect a_crypto a_config (s_clock 1000) True a_request a_account") (auto split: sum.splits)
  from this protect_limits [OF this] obtain l where
    d1: "protect a_crypto a_config (s_clock 1000) True a_request a_account = (Inr k, a_account\<lparr>db_authLimits := l\<rparr>)" by blast
  let ?d = "a_account\<lparr>db_authLimits := l\<rparr>"
  have "find_by us_id s_user (db_users a_base) = None" using a_user_facts(4,6) by (simp add: find_by_None)
  then have "find_user ?d s_user = Some a_user"
    using a_user_facts(6) by (simp add: find_user_def a_account_def find_by_append table_simps)
  moreover have "db_sessions ?d = []" by (simp add: a_account_def a_base_def empty_db_def)
  ultimately obtain x d' where issued:
    "issueUser a_crypto a_config (s_clock 1000) a_request a_fresh s_user ''AUTH_PASSWORD_LOGIN'' ?d = Inr (x, d')"
    using a_issued by blast
  have "password_ok (js ''correct horse'')" "email_ok (\<lambda>_. True) ''ada@example.org''"
    "normal_email ''ada@example.org'' = ''ada@example.org''" by code_simp+
  moreover have "find_by cd_email ''ada@example.org'' (db_credentials ?d) = Some a_credential"
    "cd_userId a_credential = s_user" by (simp_all add: a_account_def a_credential_def table_simps)
  moreover have "cf_PASSWORD_AUTH_ENABLED a_config" by (simp add: a_config_def)
  ultimately show ?thesis
    using d1 issued a_verified a_issued_cookie [OF issued]
    by (simp add: post_password_def authenticate_password_def password_enabled_def bind_stored_def transaction_def
        map_stored_def result_simps)
qed


end
