(* ===== verification/Spec2Isabelle.thy ===== *)
theory Spec2Isabelle
  imports ServiceScenario SeedScenario Processes RouteScenario
begin

text \<open>
  A verification development of ArenaCore, an online judge: an HTTP API over PostgreSQL, workers that claim
  queued executions under leases, and a sandbox runner that executes the submitted programs in containers.

  \<^bold>\<open>The program and its theories.\<close> Paths are below \<open>src/\<close>. The definitions keep the names of the source;
  where a name clashes with another one, the name of its component is added.

  \<^item> Shared. \<open>Prelude\<close> (results of fallible code, tables as lists of rows with a key, the locales
    \<open>row_store\<close> and \<open>invariant_system\<close>), \<open>Frames\<close> (what a fallible call leaves as it is), \<open>JsString\<close> (strings as
    UTF-16 code units, JSON and its length in bytes), \<open>Text\<close>, \<open>Base64\<close>, \<open>Dates\<close> (the parts of the standard
    library the program uses), \<open>Errors\<close> (\<open>apps/api/src/common/errors.ts\<close>), \<open>Contracts\<close>
    (\<open>packages/contracts\<close>), \<open>Paging\<close> (the cursor of every listing, with the locale \<open>paged_listing\<close>).
  \<^item> Judging. \<open>Judge\<close> is \<open>packages/judge\<close>: the cases of a plan, the comparison of output, the verdict and what
    of it is public.
  \<^item> Database. \<open>Database\<close>, \<open>UserTables\<close> and \<open>CatalogTables\<close> are the tables of \<open>prisma/schema.prisma\<close> with
    the keys, checks and triggers of the migrations, as functions that commit or fail.
  \<^item> Executions (\<open>apps/api/src/executions\<close>). \<open>JobStore\<close> is \<open>job-store.ts\<close>, one definition per
    operation; \<open>Admission\<close>, \<open>Executions\<close>, \<open>QueuedMaintenance\<close>, \<open>Queue\<close>, \<open>Realtime\<close>,
    \<open>Serialization\<close> are the files of these names. \<open>JobEvents\<close>, \<open>JobInvariant\<close>, \<open>JobSafety\<close> and
    \<open>JobProgress\<close> prove what every operation keeps and that none is refused by the database, and \<open>Pipeline\<close>
    is the transition system of all of them. \<open>RowMoves\<close> says how one row may change in a step (the locale
    \<open>row_protocol\<close>), and \<open>Lifecycle\<close> refines it to an abstract life cycle. \<open>Delivery\<close> splits the commands and polls of
    \<open>realtime.ts\<close> at their \<open>await\<close>s and lets them interleave with each other and with the pipeline.
  \<^item> Sandbox (\<open>apps/runner\<close>, \<open>packages/runtime-policy\<close>). \<open>RuntimePolicy\<close> (manifest, profiles, container
    arguments), \<open>Metrics\<close> (cgroup files), \<open>Transport\<close> (the Docker command, archives of class files, and the
    monad of actions over a host), \<open>Supervisor\<close> (\<open>supervisor.ts\<close>, every branch of \<open>execute\<close>), \<open>SandboxSafety\<close>
    and \<open>Observations\<close> (its containers, its admission, its reports), \<open>Runner\<close> (server, client and the judging
    backend of the worker), \<open>RunnerServer\<close> (the requests of \<open>server.ts\<close> as they interleave, and the rounds of a
    cancellation of \<open>client.ts\<close>).
  \<^item> Accounts (\<open>apps/api/src/auth\<close>, \<open>account\<close>, \<open>admin\<close>, \<open>config\<close>). \<open>Config\<close>, \<open>Password\<close>, \<open>Sessions\<close>
    (the guards), \<open>Login\<close> (providers, passwords, callbacks), \<open>Account\<close>, \<open>Admin\<close>; \<open>AccountSafety\<close> is their
    transition system.
  \<^item> Content. \<open>ProblemAdmin\<close>, \<open>Competitions\<close>, \<open>Leaderboard\<close>, \<open>Discussions\<close>, \<open>Notifications\<close>, \<open>Profiles\<close>;
    \<open>CatalogSafety\<close> is the administration of problems beside the running pipeline, and \<open>Seed\<close> is
    \<open>database/sample-seed.ts\<close>.
  \<^item> The whole. \<open>Service\<close> joins the pipeline, the administration of problems, and workers that claim, load the plan, execute
    in the sandbox, judge and store. \<open>Processes\<close> is the start of the worker, of the runner and of the preflight
    (\<open>worker-main.ts\<close>, \<open>apps/runner/src/main.ts\<close>, \<open>preflight.ts\<close>), the turn of \<open>QueuePipeline\<close>, \<open>redisOptions\<close>, the
    settings of \<open>bootstrap.ts\<close> and the readiness probe.
  \<^item> Routes. \<open>AdminRoutes\<close>, \<open>UserRoutes\<close>, \<open>ReadRoutes\<close>, \<open>AuthRoutes\<close> are the controllers: method, guards, schema
    and operation of every route.
  \<^item> Worked inputs. \<open>Scenario\<close> (the pipeline), \<open>RunnerScenario\<close> (the sandbox), \<open>ServiceScenario\<close> (the service
    as a whole and the interleavings), \<open>SeedScenario\<close>, \<open>ApiScenario\<close> and \<open>RouteScenario\<close> (the API) evaluate the definitions and instantiate the properties.

  \<^bold>\<open>How code is modelled.\<close> The state of the API is the record \<open>db\<close> of the tables. An operation takes its
  inputs, the clocks it reads (\<open>clock\<close>: of the host, of the statement, of the transaction and of the trigger) and
  the identifiers it draws, and returns \<open>error + (answer \<times> db)\<close>: an error is the \<open>ApiError\<close> thrown (status, code,
  retry time), the Prisma code of the database, or an internal one, and leaves the database as it was. An operation
  of several transactions returns the database beside its result (\<open>stored\<close>), because the earlier ones stay
  committed. The runner is a state and error monad whose actions extend a log of what the process asked of its
  host; the host is a function of the log, so every answer, failure and delay of Docker is covered. Integers of
  JavaScript are \<open>int\<close> with the safe-integer checks of the source; bytes and code units are words. Requests
  are values after the parsing of the schema, which trims and lower-cases texts, and the schemas are predicates on
  them; the schema of an execution, of a login proof and of the environment is applied to the raw JSON or text.

  \<^bold>\<open>Parameters.\<close> Code that is not in the repository is an argument: SHA-256, HMAC, scrypt and AES-GCM, the UUID,
  email and URL checks of zod, \<open>Number\<close>, the URL parser, \<open>ILIKE\<close> of PostgreSQL, BullMQ, tar-stream, the identity
  providers, Node's HTTP server and Socket.IO (the events of a request or a socket, in any order), and Docker with the file system of the
  host. What a property needs of them is a named hypothesis with a
  witness: \<open>env_ok\<close> (a UUID has 36 characters, and
  \<open>stripVTControlCharacters\<close> does not lengthen a text), \<open>origin_law\<close> (the origin of
  an HTTPS URL), \<open>reads_decimals\<close> (\<open>Number\<close> on decimal digits), \<open>redis_parse_law\<close>
  (the URL parser on a Redis URL). No property assumes that a hash has no collisions.

  \<^bold>\<open>Concurrency.\<close> A transaction is one step; interleavings of the steps of all processes, with arbitrary clocks, are
  covered by the transition systems. The two servers whose handlers share memory, the realtime gateway and the runner's, are
  also modelled at the granularity of their \<open>await\<close>s: a step is what a handler does between two of them. An uninterrupted
  command equals the operation of \<open>Realtime\<close> (\<open>uninterrupted_command\<close>). Row locks and \<open>SKIP LOCKED\<close> are a choice of the rows a pass may take.
  Where the source reads before its transaction, the race this leaves is not a behaviour of the model; the two
  places where it matters are recorded as findings (\<open>setRole\<close>, \<open>issueUser\<close>).

  \<^bold>\<open>What is proved.\<close> (1) The job protocol, in every reachable state and for every interleaving: a terminal execution
  stays as it is, a superseded worker cannot write, two workers never hold one execution, attempts are bounded,
  cancellation sticks, retries of a creation are idempotent, no operation is refused by the database, overdue
  executions end, and stored events and results are bounded and public. The protocol refines an abstract life cycle of
  one execution (\<open>Lifecycle\<close>). End to end (\<open>Service\<close>): every verdict stored in a reachable state is the
  judge's on an observation the sandbox delivered for that execution, on the plan of the version it was submitted against, and
  is \<open>ACCEPTED\<close> exactly when all cases of the plan pass. (2) Delivery: a client receives every event once and in order, or
  is told to resynchronise, whatever commands, polls, unsubscriptions and disconnections interleave. (3) The judge: an observation is accepted exactly when all selected cases pass, the verdict is
  that of the first failure, nothing private leaves. (4) The sandbox: every container is confirmed absent before an
  execution ends, or the supervisor reports the cleanup and stops accepting; a failure is offered for a retry only when
  it left no container; every observation the supervisor delivers is one the judge accepts; the server keeps one
  request per attempt, at most eight, and a cancellation reaches the request of its attempt and no other. (5) Access: the guard,
  sessions, sign-in attempts, accountability of administration, and isolation of users on every route. (6) Equivalence of
  the leaderboard and of the streaks with reference definitions that do not follow their loops, complete listings,
  round trips of passwords, the safety of an accepted production configuration, and a seeding that can be repeated.

  \<^bold>\<open>Termination.\<close> Every definition is total: the loops of the source are recursions on the data, and the few that
  are not structural (encoding in blocks, UTF-8, decimal numerals) have a decreasing measure. The one place with fuel is
  \<open>walk\<close>, a client that follows the cursors of a listing: any fuel above the number of rows gives the whole listing. The
  rounds of a cancellation, which depend on the clock, end after at most 101 rounds (\<open>cancel_terminates\<close>).

  \<^bold>\<open>Deviations of the code\<close> that modelling showed are lemmas where they concern modelled behaviour: an inspection
  that times out counts as the program's time limit (\<open>slow_inspection_is_a_time_limit\<close>), problem limits no runner
  accepts (\<open>unjudgeable_limits\<close>), the last administrator may deactivate the account (\<open>last_admin_deactivates\<close>), a
  title that the schema accepts and the database refuses (\<open>short_title_refused\<close>), the update of a private profile
  that commits and answers 404 (\<open>private_update_hidden\<close>), and a seeding that fails for good once an administrator has
  edited a seeded competition (\<open>seed_fails_after_edit\<close>).

  \<^bold>\<open>Not modelled.\<close> The wiring of Nest modules and of third-party middleware, and the start of the API server
  (\<open>main.ts\<close>): there is no logic besides the calls. The clock of intervals: the model has what happens at a tick, at any time. The
  connection of the Prisma client. The acceptance programs (\<open>live-acceptance.ts\<close>, \<open>metrics-acceptance.ts\<close>), which test a
  deployed system and are no part of it. The texts of messages, response headers other than cookies, and the log lines of
  the servers.
\<close>

end
